(* ===== verification/Cis_Prelude.thy ===== *)
theory Cis_Prelude
  imports Main "HOL-Library.Word" "HOL-Library.Char_ord" "HOL-Library.List_Lexorder"
begin

text \<open>
  What the components share: the collections the component proofs draw on, the type
  of machine words the server computes with, the shape of a call that may report a
  \<^verbatim>\<open>std::error_code\<close>, and small facts on lists.

  A C++ member function of the form \<^verbatim>\<open>T f(..., std::error_code& ec)\<close> that
  catches \<^verbatim>\<open>std::system_error\<close> and then assigns \<^verbatim>\<open>ec\<close> is a function into
  \<open>'a res\<close>: \<open>Inl e\<close> when \<^verbatim>\<open>ec\<close> is set to \<open>e\<close>, \<open>Inr v\<close> when it returns
  \<open>v\<close> and leaves \<^verbatim>\<open>ec\<close> clear.
\<close>

named_theorems ok_simps "unfolding rules of the result type and of the small helpers"
named_theorems inv_intros "preservation rules of the component invariants"

type_synonym u8 = "8 word"
type_synonym u32 = "32 word"
type_synonym u64 = "64 word"

text \<open>The integer value of a \<^verbatim>\<open>std::error_code\<close> that is set.\<close>

type_synonym sys_error = int

type_synonym 'a res = "sys_error + 'a"

abbreviation is_ok :: "'a res \<Rightarrow> bool" where
  "is_ok r \<equiv> (\<exists>v. r = Inr v)"

text \<open>
  \<^verbatim>\<open>std::map\<close> is an association list that is sorted by key, so that iterating over it
  visits the keys in order (strings compare byte-wise, as \<^verbatim>\<open>std::string\<close> does).
  \<^verbatim>\<open>insert\<close> and \<^verbatim>\<open>emplace\<close> keep the value of a key that is present;
  an assignment through \<^verbatim>\<open>operator[]\<close> replaces it. Lookup is \<open>map_of\<close>.
\<close>

fun map_insert :: "'k::linorder \<Rightarrow> 'v \<Rightarrow> ('k \<times> 'v) list \<Rightarrow> ('k \<times> 'v) list" where
  "map_insert k v [] = [(k, v)]"
| "map_insert k v ((k', v') # m) =
     (if k < k' then (k, v) # (k', v') # m
      else if k = k' then (k', v') # m
      else (k', v') # map_insert k v m)"

fun map_assign :: "'k::linorder \<Rightarrow> 'v \<Rightarrow> ('k \<times> 'v) list \<Rightarrow> ('k \<times> 'v) list" where
  "map_assign k v [] = [(k, v)]"
| "map_assign k v ((k', v') # m) =
     (if k < k' then (k, v) # (k', v') # m
      else if k = k' then (k, v) # m
      else (k', v') # map_assign k v m)"

abbreviation ordered_keys :: "('k::linorder \<times> 'v) list \<Rightarrow> bool" where
  "ordered_keys m \<equiv> sorted_wrt (<) (map fst m)"

lemma ordered_keys_None:
  "\<forall>p \<in> set m. k' < fst p \<Longrightarrow> k \<le> k' \<Longrightarrow> map_of m k = None" for k :: "'k::linorder"
  by (fastforce simp: map_of_eq_None_iff)

lemma keys_map_insert [simp]: "fst ` set (map_insert k v m) = insert k (fst ` set m)"
  by (induction k v m rule: map_insert.induct) auto

lemma keys_map_assign [simp]: "fst ` set (map_assign k v m) = insert k (fst ` set m)"
  by (induction k v m rule: map_assign.induct) auto

lemma ordered_map_insert [simp]: "ordered_keys m \<Longrightarrow> ordered_keys (map_insert k v m)"
  by (induction k v m rule: map_insert.induct) auto

lemma ordered_map_assign [simp]: "ordered_keys m \<Longrightarrow> ordered_keys (map_assign k v m)"
  by (induction k v m rule: map_assign.induct) auto

lemma map_of_map_insert [simp]:
  "ordered_keys m \<Longrightarrow>
     map_of (map_insert k v m) k' =
       (if k' = k then (case map_of m k of None \<Rightarrow> Some v | Some w \<Rightarrow> Some w) else map_of m k')"
  by (induction k v m rule: map_insert.induct) (auto simp: ordered_keys_None)

lemma map_of_map_assign [simp]:
  "ordered_keys m \<Longrightarrow> map_of (map_assign k v m) k' = (if k' = k then Some v else map_of m k')"
  by (induction k v m rule: map_assign.induct) auto

text \<open>Filling a map row by row.\<close>

lemma foldl_map_insert:
  assumes "ordered_keys m"
  shows "ordered_keys (foldl (\<lambda>m k. map_insert k d m) m ks)"
    and "map_of (foldl (\<lambda>m k. map_insert k d m) m ks) k =
           (case map_of m k of Some v \<Rightarrow> Some v | None \<Rightarrow> if k \<in> set ks then Some d else None)"
  using assms by (induction ks arbitrary: m) (auto split: option.splits)

lemma foldl_map_assign_ordered:
  "ordered_keys m \<Longrightarrow> ordered_keys (foldl (\<lambda>m (k, v). map_assign k v m) m rows)"
  by (induction rows arbitrary: m) auto

lemma foldl_map_assign_lookup:
  "ordered_keys m \<Longrightarrow>
     map_of (foldl (\<lambda>m (k, v). map_assign k v m) m rows) k =
       (case map_of (rev rows) k of Some v \<Rightarrow> Some v | None \<Rightarrow> map_of m k)"
  by (induction rows arbitrary: m) (auto simp: map_add_def split: option.splits)

lemmas foldl_map_assign = foldl_map_assign_ordered foldl_map_assign_lookup

text \<open>In rows that name a key at most once, the order of the rows does not matter.\<close>

lemma map_of_functional:
  assumes "\<And>v w. (k, v) \<in> set rows \<Longrightarrow> (k, w) \<in> set rows \<Longrightarrow> v = w" and "(k, v) \<in> set rows"
  shows "map_of (rev rows) k = Some v"
proof -
  have "map_of (rev rows) k \<noteq> None"
    using assms(2) by (metis fst_conv image_eqI map_of_eq_None_iff set_rev)
  then obtain w where w: "map_of (rev rows) k = Some w" by blast
  then have "(k, w) \<in> set rows" using map_of_SomeD by fastforce
  with assms w show ?thesis by blast
qed

lemma map_of_rev_None: "(\<And>v. (k, v) \<notin> set rows) \<Longrightarrow> map_of (rev rows) k = None"
  by (force simp: map_of_eq_None_iff)

text \<open>Rows of a table that satisfy a condition, when at most one can.\<close>

lemma filter_unique_le_1:
  assumes "distinct (map f xs)"
  shows "length (filter (\<lambda>x. f x = k) xs) \<le> 1"
  using assms
proof (induction xs)
  case Nil
  then show ?case by simp
next
  case (Cons x xs)
  then show ?case
  proof (cases "f x = k")
    case True
    with Cons.prems have "filter (\<lambda>x. f x = k) xs = []"
      by (auto simp: filter_empty_conv) (metis imageI)
    with True show ?thesis by simp
  next
    case False
    with Cons show ?thesis by simp
  qed
qed

lemma filter_unique_eq:
  assumes "distinct (map f xs)" and "x \<in> set xs"
  shows "filter (\<lambda>y. f y = f x) xs = [x]"
  using assms
proof (induction xs)
  case Nil
  then show ?case by simp
next
  case (Cons y ys)
  show ?case
  proof (cases "x = y")
    case True
    with Cons.prems have "filter (\<lambda>z. f z = f x) ys = []"
      by (auto simp: filter_empty_conv) (metis imageI)
    with True show ?thesis by simp
  next
    case False
    with Cons.prems have "x \<in> set ys" and "f y \<noteq> f x"
      by auto
    with Cons show ?thesis by simp
  qed
qed

lemma filter_single_iff:
  assumes "distinct (map f xs)"
  shows "filter (\<lambda>x. f x = k) xs = [x] \<longleftrightarrow> x \<in> set xs \<and> f x = k"
proof
  assume "filter (\<lambda>x. f x = k) xs = [x]"
  then have "x \<in> set (filter (\<lambda>x. f x = k) xs)" by simp
  then show "x \<in> set xs \<and> f x = k" by simp
next
  assume "x \<in> set xs \<and> f x = k"
  with filter_unique_eq [OF assms, of x] show "filter (\<lambda>x. f x = k) xs = [x]"
    by auto
qed

end
