(* ===== verification/Database.thy ===== *)
theory Database
  imports Cis_Prelude
begin

text \<open>
  The database of the server: the row structures of
  \<^verbatim>\<open>include/database_structures.h\<close>, the schema and the transaction guard of
  \<^verbatim>\<open>include/database.h\<close> and \<^verbatim>\<open>src/database.cpp\<close>.

  A table is the list of its rows. The statements the managers issue are queries
  written in C++ (a column, a condition on the columns), so a \<^verbatim>\<open>select\<close> with
  a \<^verbatim>\<open>where\<close> clause is a \<open>filter\<close> over the rows. The storage engine behind them
  (SQLite through sqlite_orm) is not part of the repository; what it contributes is
  the parameter \<open>engine\<close> of every operation: whether it throws for a transaction,
  which row id it allocates and the error value of a violated constraint. That row
  ids are new is a hypothesis (\<open>fresh_ids\<close>) of the theorems that need it.
\<close>

section \<open>Rows and tables\<close>

record user =
  user_id :: int
  user_email :: string
  user_pass :: string
  user_admin :: bool

record project =
  project_id :: int
  project_name :: string
  project_deleted :: bool

record token =
  token_id :: int
  token_user_id :: int
  token_value :: string
  token_expiration_time :: u64

record api_access_key =
  api_access_key_id :: int
  api_access_key_user_id :: int
  api_access_key_value :: string

record project_user_right =
  pur_id :: int
  pur_project_id :: int
  pur_user_id :: int
  pur_read :: bool
  pur_write :: bool
  pur_execute :: bool

record database =
  db_users :: "user list"
  db_projects :: "project list"
  db_rights :: "project_user_right list"
  db_tokens :: "token list"
  db_api_keys :: "api_access_key list"

text \<open>
  What the schema promises: primary keys and \<^verbatim>\<open>unique()\<close> columns hold no value
  twice, and every \<^verbatim>\<open>foreign_key\<close> refers to a row that exists.
\<close>

definition database_ok :: "database \<Rightarrow> bool" where
  "database_ok db \<longleftrightarrow>
     distinct (map user_id (db_users db)) \<and> distinct (map user_email (db_users db))
   \<and> distinct (map project_id (db_projects db)) \<and> distinct (map project_name (db_projects db))
   \<and> distinct (map pur_id (db_rights db))
   \<and> (\<forall>r \<in> set (db_rights db). pur_project_id r \<in> project_id ` set (db_projects db)
                              \<and> pur_user_id r \<in> user_id ` set (db_users db))
   \<and> distinct (map token_id (db_tokens db)) \<and> distinct (map token_value (db_tokens db))
   \<and> (\<forall>t \<in> set (db_tokens db). token_user_id t \<in> user_id ` set (db_users db))
   \<and> distinct (map api_access_key_id (db_api_keys db))
   \<and> distinct (map api_access_key_user_id (db_api_keys db))
   \<and> distinct (map api_access_key_value (db_api_keys db))
   \<and> (\<forall>k \<in> set (db_api_keys db). api_access_key_user_id k \<in> user_id ` set (db_users db))"

definition empty_database :: database where
  "empty_database = \<lparr>db_users = [], db_projects = [], db_rights = [], db_tokens = [], db_api_keys = []\<rparr>"

section \<open>The storage engine as a parameter\<close>

record engine =
  eng_fault :: "database \<Rightarrow> sys_error option"
  eng_next_id :: "int list \<Rightarrow> int"
  eng_constraint :: sys_error

definition fresh_ids :: "engine \<Rightarrow> bool" where
  "fresh_ids eng \<longleftrightarrow> (\<forall>ids. eng_next_id eng ids \<notin> set ids)"

text \<open>An engine that never fails and numbers rows from 1: the instance of the witnesses.\<close>

definition max_plus_1 :: "int list \<Rightarrow> int" where
  "max_plus_1 ids = foldr max ids 0 + 1"

definition reliable_engine :: engine where
  "reliable_engine = \<lparr>eng_fault = (\<lambda>_. None), eng_next_id = max_plus_1, eng_constraint = 19\<rparr>"

lemma foldr_max_ge: "(i :: int) \<in> set ids \<Longrightarrow> i \<le> foldr max ids 0"
  by (induction ids) auto

lemma fresh_ids_reliable: "fresh_ids reliable_engine"
  unfolding fresh_ids_def reliable_engine_def max_plus_1_def
  using foldr_max_ge by force

lemma fresh_ids_map: "fresh_ids eng \<Longrightarrow> eng_next_id eng (map f xs) \<notin> f ` set xs"
  by (metis fresh_ids_def list.set_map)

section \<open>Statements\<close>

text \<open>
  \<^verbatim>\<open>db->insert(row)\<close>: the primary key is allocated by the engine; a violated
  \<^verbatim>\<open>unique()\<close> or foreign key makes it throw.
\<close>

definition insert_user :: "engine \<Rightarrow> user \<Rightarrow> database \<Rightarrow> database res" where
  "insert_user eng u db =
     (if user_email u \<in> user_email ` set (db_users db) then Inl (eng_constraint eng)
      else Inr (db\<lparr>db_users := db_users db
                 @ [u\<lparr>user_id := eng_next_id eng (map user_id (db_users db))\<rparr>]\<rparr>))"

definition insert_project :: "engine \<Rightarrow> project \<Rightarrow> database \<Rightarrow> database res" where
  "insert_project eng p db =
     (if project_name p \<in> project_name ` set (db_projects db) then Inl (eng_constraint eng)
      else Inr (db\<lparr>db_projects := db_projects db
                 @ [p\<lparr>project_id := eng_next_id eng (map project_id (db_projects db))\<rparr>]\<rparr>))"

definition insert_token :: "engine \<Rightarrow> token \<Rightarrow> database \<Rightarrow> database res" where
  "insert_token eng t db =
     (if token_value t \<in> token_value ` set (db_tokens db)
         \<or> token_user_id t \<notin> user_id ` set (db_users db) then Inl (eng_constraint eng)
      else Inr (db\<lparr>db_tokens := db_tokens db
                 @ [t\<lparr>token_id := eng_next_id eng (map token_id (db_tokens db))\<rparr>]\<rparr>))"

definition insert_api_key :: "engine \<Rightarrow> api_access_key \<Rightarrow> database \<Rightarrow> database res" where
  "insert_api_key eng k db =
     (if api_access_key_user_id k \<in> api_access_key_user_id ` set (db_api_keys db)
         \<or> api_access_key_value k \<in> api_access_key_value ` set (db_api_keys db)
         \<or> api_access_key_user_id k \<notin> user_id ` set (db_users db) then Inl (eng_constraint eng)
      else Inr (db\<lparr>db_api_keys := db_api_keys db
                 @ [k\<lparr>api_access_key_id := eng_next_id eng (map api_access_key_id (db_api_keys db))\<rparr>]\<rparr>))"

definition insert_right :: "engine \<Rightarrow> project_user_right \<Rightarrow> database \<Rightarrow> database res" where
  "insert_right eng r db =
     (if pur_project_id r \<notin> project_id ` set (db_projects db)
         \<or> pur_user_id r \<notin> user_id ` set (db_users db) then Inl (eng_constraint eng)
      else Inr (db\<lparr>db_rights := db_rights db
                 @ [r\<lparr>pur_id := eng_next_id eng (map pur_id (db_rights db))\<rparr>]\<rparr>))"

text \<open>\<^verbatim>\<open>db->replace(right)\<close>: the row with the same primary key is replaced.\<close>

definition replace_right :: "engine \<Rightarrow> project_user_right \<Rightarrow> database \<Rightarrow> database res" where
  "replace_right eng r db =
     (if pur_project_id r \<notin> project_id ` set (db_projects db)
         \<or> pur_user_id r \<notin> user_id ` set (db_users db) then Inl (eng_constraint eng)
      else Inr (db\<lparr>db_rights := map (\<lambda>r'. if pur_id r' = pur_id r then r else r') (db_rights db)\<rparr>))"

text \<open>
  \<^verbatim>\<open>db->remove<user>(id)\<close>: the three tables that refer to a user declare
  \<^verbatim>\<open>on_delete.cascade()\<close>.
\<close>

definition remove_user :: "int \<Rightarrow> database \<Rightarrow> database" where
  "remove_user uid db =
     db\<lparr>db_users := filter (\<lambda>u. user_id u \<noteq> uid) (db_users db),
        db_rights := filter (\<lambda>r. pur_user_id r \<noteq> uid) (db_rights db),
        db_tokens := filter (\<lambda>t. token_user_id t \<noteq> uid) (db_tokens db),
        db_api_keys := filter (\<lambda>k. api_access_key_user_id k \<noteq> uid) (db_api_keys db)\<rparr>"

section \<open>Preservation of the schema\<close>

lemma database_ok_empty [simp]: "database_ok empty_database"
  by (simp add: database_ok_def empty_database_def)

lemma insert_user_ok [inv_intros]:
  assumes "database_ok db" "fresh_ids eng" "insert_user eng u db = Inr db'"
  shows "database_ok db'"
  using assms by (auto simp: database_ok_def insert_user_def fresh_ids_map split: if_splits)

lemma insert_project_ok [inv_intros]:
  assumes "database_ok db" "fresh_ids eng" "insert_project eng p db = Inr db'"
  shows "database_ok db'"
  using assms by (auto simp: database_ok_def insert_project_def fresh_ids_map split: if_splits)

lemma insert_token_ok [inv_intros]:
  assumes "database_ok db" "fresh_ids eng" "insert_token eng t db = Inr db'"
  shows "database_ok db'"
  using assms by (auto simp: database_ok_def insert_token_def fresh_ids_map split: if_splits)

lemma insert_api_key_ok [inv_intros]:
  assumes "database_ok db" "fresh_ids eng" "insert_api_key eng k db = Inr db'"
  shows "database_ok db'"
  using assms by (auto simp: database_ok_def insert_api_key_def fresh_ids_map split: if_splits)

lemma insert_right_ok [inv_intros]:
  assumes "database_ok db" "fresh_ids eng" "insert_right eng r db = Inr db'"
  shows "database_ok db'"
  using assms by (auto simp: database_ok_def insert_right_def fresh_ids_map split: if_splits)

lemma map_replace_ids:
  "map pur_id (map (\<lambda>r'. if pur_id r' = pur_id r then r else r') rs) = map pur_id rs"
  by (induction rs) auto

lemma replace_right_ok [inv_intros]:
  assumes "database_ok db" "replace_right eng r db = Inr db'"
  shows "database_ok db'"
  using assms
  by (auto simp: database_ok_def replace_right_def map_replace_ids simp del: map_map split: if_splits)

lemma remove_user_ok [inv_intros]: "database_ok db \<Longrightarrow> database_ok (remove_user uid db)"
  by (auto simp: database_ok_def remove_user_def distinct_map intro: inj_on_subset)

lemma map_update_users:
  assumes "\<And>u. user_id (f u) = user_id u" "\<And>u. user_email (f u) = user_email u"
  shows "database_ok (db\<lparr>db_users := map f (db_users db)\<rparr>) = database_ok db"
  using assms by (simp add: database_ok_def comp_def image_image)

text \<open>Rows are determined by their keys.\<close>

lemma user_key_eq:
  assumes "database_ok db" "u \<in> set (db_users db)" "v \<in> set (db_users db)"
  shows "user_email u = user_email v \<longleftrightarrow> u = v" and "user_id u = user_id v \<longleftrightarrow> u = v"
  using assms by (auto simp: database_ok_def distinct_map inj_on_def)

lemma token_key_eq:
  assumes "database_ok db" "t \<in> set (db_tokens db)" "s \<in> set (db_tokens db)"
  shows "token_value t = token_value s \<longleftrightarrow> t = s"
  using assms by (auto simp: database_ok_def distinct_map inj_on_def)

section \<open>Transactions\<close>

text \<open>
  \<^verbatim>\<open>database_transanction_guard\<close>: \<^verbatim>\<open>begin_transaction\<close> on construction; the
  destructor rolls back unless \<^verbatim>\<open>commit()\<close> was reached. The body of a transaction
  returns its value, the working copy and whether it committed; an exception that leaves
  the body unwinds the guard, and the caller's handler turns it into an error value.
\<close>

type_synonym 'a tx = "database \<Rightarrow> ('a \<times> database \<times> bool) res"

definition run_tx :: "engine \<Rightarrow> 'a tx \<Rightarrow> database \<Rightarrow> 'a res \<times> database" where
  "run_tx eng body db =
     (case eng_fault eng db of
        Some e \<Rightarrow> (Inl e, db)
      | None \<Rightarrow>
          (case body db of
             Inl e \<Rightarrow> (Inl e, db)
           | Inr (v, db', committed) \<Rightarrow> (Inr v, if committed then db' else db)))"

definition commit :: "'a \<Rightarrow> 'a tx" where
  "commit v db = Inr (v, db, True)"

definition rollback :: "'a \<Rightarrow> 'a tx" where
  "rollback v db = Inr (v, db, False)"

lemma run_tx_error: "run_tx eng body db = (Inl e, db') \<Longrightarrow> db' = db"
  by (auto simp: run_tx_def split: option.splits sum.splits)

lemma run_tx_no_fault:
  "eng_fault eng db = None \<Longrightarrow>
     run_tx eng body db = (case body db of Inl e \<Rightarrow> (Inl e, db)
       | Inr (v, db', c) \<Rightarrow> (Inr v, if c then db' else db))"
  by (simp add: run_tx_def)

lemma commit_iff [simp]: "commit v db = Inr (w, db', c) \<longleftrightarrow> w = v \<and> db' = db \<and> c"
  by (auto simp: commit_def)

lemma rollback_iff [simp]: "rollback v db = Inr (w, db', c) \<longleftrightarrow> w = v \<and> db' = db \<and> \<not> c"
  by (auto simp: rollback_def)

lemma if_commit: "(if b then commit v db else commit w db) = commit (if b then v else w) db"
  by simp

text \<open>A body that hands its own database to \<open>commit\<close> and \<open>rollback\<close> only reads.\<close>

lemma run_tx_frame:
  assumes "\<And>v db' c. body db = Inr (v, db', c) \<Longrightarrow> db' = db"
  shows "snd (run_tx eng body db) = db"
  using assms by (auto simp: run_tx_def split: option.splits sum.splits)

lemma run_tx_inv:
  assumes "P db" and "\<And>v db' c. body db = Inr (v, db', c) \<Longrightarrow> P db'"
  shows "P (snd (run_tx eng body db))"
  using assms by (auto simp: run_tx_def split: option.splits sum.splits)

section \<open>Creation\<close>

text \<open>
  \<^verbatim>\<open>database_wrapper::init\<close>: the administrator of a new database. The row it writes
  has the two credentials and the administrator flag.
\<close>

definition database_init :: "engine \<Rightarrow> string \<times> string \<Rightarrow> database \<Rightarrow> unit res \<times> database" where
  "database_init eng credentials db =
     run_tx eng (\<lambda>db.
       case insert_user eng \<lparr>user_id = -1, user_email = fst credentials,
                             user_pass = snd credentials, user_admin = True\<rparr> db of
         Inl e \<Rightarrow> Inl e
       | Inr db' \<Rightarrow> commit () db') db"

text \<open>
  \<^verbatim>\<open>database_wrapper::create\<close>: the file is opened and its schema synchronised (the
  argument is its content, empty for a new file), then the administrator is added when
  credentials are given; an exception becomes the error.
\<close>

definition database_create ::
    "engine \<Rightarrow> database \<Rightarrow> (string \<times> string) option \<Rightarrow> database res" where
  "database_create eng stored credentials =
     (case eng_fault eng stored of
        Some e \<Rightarrow> Inl e
      | None \<Rightarrow>
          (case credentials of
             None \<Rightarrow> Inr stored
           | Some cr \<Rightarrow>
               (case database_init eng cr stored of
                  (Inl e, _) \<Rightarrow> Inl e
                | (Inr _, db) \<Rightarrow> Inr db)))"

lemma database_create_ok:
  assumes "database_ok stored" "fresh_ids eng" "database_create eng stored credentials = Inr db"
  shows "database_ok db"
  using assms
  by (auto simp: database_create_def database_init_def run_tx_def commit_def
      split: option.splits sum.splits intro: insert_user_ok)

end
