(* ===== verification/Path_Utils.thy ===== *)
theory Path_Utils
  imports Rights_Manager
begin

text \<open>
  \<^verbatim>\<open>std::filesystem::path\<close> as the server uses it on POSIX, and
  \<^verbatim>\<open>src/path_utils.cpp\<close>. A path is its native string. Iterating over it gives the
  root directory (any number of leading slashes), the names, and an empty last element
  for a trailing slash; \<^verbatim>\<open>operator/\<close> replaces the left side when the right
  side is absolute, \<^verbatim>\<open>operator+=\<close> is concatenation of strings.

  The lemmas: what the elements of a path are; the path a request for a project, a job or
  a build is turned into has exactly the elements that the request names, because
  fragments with a slash are refused; and the rights that guard a path are those
  of its first element and of nothing else.
\<close>

section \<open>Paths\<close>

abbreviation slash :: char where "slash \<equiv> CHR ''/''"

fun split_on :: "char \<Rightarrow> string \<Rightarrow> string list" where
  "split_on c [] = [[]]"
| "split_on c (x # xs) =
     (if x = c then [] # split_on c xs
      else case split_on c xs of w # ws \<Rightarrow> (x # w) # ws | [] \<Rightarrow> [[x]])"

definition path_names :: "string \<Rightarrow> string list" where
  "path_names p = filter (\<lambda>n. n \<noteq> []) (split_on slash p)"

definition root_path :: "string \<Rightarrow> string" where
  "root_path p = (if p \<noteq> [] \<and> hd p = slash then ''/'' else [])"

definition path_iter :: "string \<Rightarrow> string list" where
  "path_iter p =
     (if root_path p = [] then [] else [''/'']) @ path_names p
      @ (if path_names p \<noteq> [] \<and> last p = slash then [[]] else [])"

definition path_div :: "string \<Rightarrow> string \<Rightarrow> string" where
  "path_div a b =
     (if root_path b \<noteq> [] then b
      else if a = [] \<or> last a = slash then a @ b
      else a @ ''/'' @ b)"

definition path_filename :: "string \<Rightarrow> string" where
  "path_filename p = rev (takeWhile (\<lambda>c. c \<noteq> slash) (rev p))"

definition remove_filename :: "string \<Rightarrow> string" where
  "remove_filename p = rev (dropWhile (\<lambda>c. c \<noteq> slash) (rev p))"

text \<open>A path without names (such as \<^verbatim>\<open>/\<close>) is its own parent.\<close>

definition parent_path :: "string \<Rightarrow> string" where
  "parent_path p =
     (if path_names p = [] then p
      else (let d = rev (dropWhile (\<lambda>c. c = slash) (dropWhile (\<lambda>c. c \<noteq> slash) (rev p)))
            in if d = [] then root_path p else d))"

section \<open>path\_utils.cpp\<close>

definition validate_path :: "string \<Rightarrow> bool" where
  "validate_path p = (root_path p = ''/'')"

definition validate_path_fragment :: "string \<Rightarrow> bool" where
  "validate_path_fragment fragment = (slash \<notin> set fragment)"

definition get_path_rights ::
    "engine \<Rightarrow> string \<Rightarrow> string \<Rightarrow> database \<Rightarrow> project_rights option res \<times> database" where
  "get_path_rights eng email path db =
     (case path_iter path of
        [] \<Rightarrow> (Inr None, db)
      | [_] \<Rightarrow> (Inr None, db)
      | _ # name # _ \<Rightarrow>
          (case is_admin eng email db of
             (Inl e, db') \<Rightarrow> (Inl e, db')
           | (Inr True, db') \<Rightarrow> (Inr (Some all_rights), db')
           | (Inr False, db') \<Rightarrow> check_project_right eng email name db'))"

section \<open>The elements of a path\<close>

lemma split_on_not_Nil [simp]: "split_on c xs \<noteq> []"
  by (induction c xs rule: split_on.induct) (auto split: list.splits)

lemma split_on_single: "c \<notin> set xs \<Longrightarrow> split_on c xs = [xs]"
  by (induction xs) auto

lemma split_on_append: "c \<notin> set xs \<Longrightarrow> split_on c (xs @ c # ys) = xs # split_on c ys"
  by (induction xs) auto

lemma split_on_pieces: "w \<in> set (split_on c xs) \<Longrightarrow> c \<notin> set w"
proof (induction xs arbitrary: w)
  case Nil
  then show ?case by simp
next
  case (Cons x xs)
  obtain v vs where split: "split_on c xs = v # vs"
    by (cases "split_on c xs") auto
  with Cons.IH have "c \<notin> set v" "\<And>u. u \<in> set vs \<Longrightarrow> c \<notin> set u" by auto
  with Cons.prems split show ?case by (auto split: if_splits)
qed

lemma path_names_no_slash:
  assumes "n \<in> set (path_names p)"
  shows "n \<noteq> []" and "validate_path_fragment n"
  using assms by (auto simp: path_names_def validate_path_fragment_def dest: split_on_pieces)

lemma path_names_slash [simp]: "path_names (CHR ''/'' # p) = path_names p"
  by (simp add: path_names_def)

lemma path_names_fragment:
  "validate_path_fragment n \<Longrightarrow> path_names n = (if n = [] then [] else [n])"
  by (simp add: path_names_def validate_path_fragment_def split_on_single)

lemma path_names_append:
  "validate_path_fragment n \<Longrightarrow>
     path_names (n @ CHR ''/'' # p) = (if n = [] then [] else [n]) @ path_names p"
  by (simp add: path_names_def validate_path_fragment_def split_on_append)

lemma fragment_not_root: "validate_path_fragment n \<Longrightarrow> root_path n = []"
  by (cases n) (auto simp: root_path_def validate_path_fragment_def)

lemma fragment_last: "validate_path_fragment n \<Longrightarrow> n \<noteq> [] \<Longrightarrow> last n \<noteq> slash"
  by (auto simp: validate_path_fragment_def dest: last_in_set)

lemma path_div_fragments:
  assumes "validate_path_fragment a" "a \<noteq> []" "validate_path_fragment b"
  shows "path_div ''/'' a = CHR ''/'' # a"
    and "path_div (CHR ''/'' # a) b = CHR ''/'' # a @ CHR ''/'' # b"
  using assms fragment_not_root [of a] fragment_not_root [of b] fragment_last [of a]
  by (auto simp: path_div_def)

text \<open>
  The paths of the requests that name a project and a job by fragments.
\<close>

lemma request_path_elements:
  assumes "validate_path_fragment a" "a \<noteq> []"
  shows "path_iter (CHR ''/'' # a) = [''/'', a]"
    and "validate_path_fragment b \<Longrightarrow> b \<noteq> [] \<Longrightarrow>
           path_iter (CHR ''/'' # a @ CHR ''/'' # b) = [''/'', a, b]"
  using assms fragment_last [of a] fragment_last [of b]
  by (auto simp: path_iter_def root_path_def path_names_fragment path_names_append)

lemma validate_path_iff: "validate_path p \<longleftrightarrow> (\<exists>q. p = CHR ''/'' # q)"
  by (cases p) (auto simp: validate_path_def root_path_def)

lemma path_iter_absolute:
  "validate_path p \<Longrightarrow>
     path_iter p = ''/'' # path_names p @ (if path_names p \<noteq> [] \<and> last p = slash then [[]] else [])"
  by (auto simp: path_iter_def validate_path_def)

section \<open>The rights that guard a path\<close>

lemma get_path_rights_frame [simp]: "snd (get_path_rights eng email path db) = db"
  by (cases "is_admin eng email db")
     (use is_admin_frame [of eng email db] in
       \<open>auto simp: get_path_rights_def split: list.splits sum.splits bool.splits\<close>)

lemma get_path_rights_result:
  assumes "get_path_rights eng email path db = (r, db')"
  shows "db' = db"
  using get_path_rights_frame [of eng email path db] assms by simp

text \<open>
  For an absolute path the answer depends on the account and on the first name of the path
  alone; the root directory is nobody's.
\<close>

lemma get_path_rights_first:
  assumes "validate_path p"
  shows "get_path_rights eng email p db =
     (case path_names p of
        [] \<Rightarrow> (Inr None, db)
      | name # _ \<Rightarrow>
          (case fst (is_admin eng email db) of
             Inl e \<Rightarrow> (Inl e, db)
           | Inr True \<Rightarrow> (Inr (Some all_rights), db)
           | Inr False \<Rightarrow> check_project_right eng email name db))"
  using assms is_admin_frame [of eng email db]
  by (cases "is_admin eng email db")
     (auto simp: get_path_rights_def path_iter_absolute split: list.splits sum.splits bool.splits)

end
