(* ===== verification/Ws_Requests.thy ===== *)
theory Ws_Requests
  imports Path_Utils
begin

text \<open>
  The messages a client may send over the web socket
  (\<^verbatim>\<open>include/websocket/dto/\<close>), in the order in which \<^verbatim>\<open>make_ws_router\<close>
  registers their handlers. A message on the wire is an event name, a path of strings, with named
  values; \<^verbatim>\<open>get_converter\<close> of a structure \<open>d\<close> says which, and is
  \<open>d_converter\<close>. A structure without members is its message.
  The predicate \<open>d_valid\<close> is the conjunction of the validators that the converter
  attaches to its fields: names of projects, jobs and builds must not contain a slash.

  The lemma at the end: the event names of the requests are pairwise distinct, so that an
  incoming event selects at most one handler.
\<close>

section \<open>Values on the wire\<close>

datatype dto_value =
    Val_null
  | Val_bool bool
  | Val_int "32 word"
  | Val_time int
  | Val_str string
  | Val_list "dto_value list"
  | Val_obj "(string \<times> dto_value) list"
  | Val_variant string dto_value

type_synonym message = "string list \<times> (string \<times> dto_value) list"

definition val_opt :: "('a \<Rightarrow> dto_value) \<Rightarrow> 'a option \<Rightarrow> dto_value" where
  "val_opt f v = (case v of None \<Rightarrow> Val_null | Some x \<Rightarrow> f x)"

section \<open>Requests\<close>

record auth_login_pass =
  auth_login_pass_email :: "string"
  auth_login_pass_pass :: "string"

definition auth_login_pass_converter :: "auth_login_pass \<Rightarrow> message" where
  "auth_login_pass_converter d =
     ([''auth'', ''login_pass''],
      [(''email'', Val_str (auth_login_pass_email d)),
       (''pass'', Val_str (auth_login_pass_pass d))])"

record auth_login_token =
  auth_login_token_token :: "string"

definition auth_login_token_converter :: "auth_login_token \<Rightarrow> message" where
  "auth_login_token_converter d =
     ([''auth'', ''login_token''],
      [(''token'', Val_str (auth_login_token_token d))])"

record auth_logout =
  auth_logout_token :: "string"

definition auth_logout_converter :: "auth_logout \<Rightarrow> message" where
  "auth_logout_converter d =
     ([''auth'', ''logout''],
      [(''token'', Val_str (auth_logout_token d))])"

record user_change_pass =
  user_change_pass_email :: "string"
  user_change_pass_old_password :: "string"
  user_change_pass_new_password :: "string"

definition user_change_pass_converter :: "user_change_pass \<Rightarrow> message" where
  "user_change_pass_converter d =
     ([''user'', ''change_pass''],
      [(''email'', Val_str (user_change_pass_email d)),
       (''oldPassword'', Val_str (user_change_pass_old_password d)),
       (''newPassword'', Val_str (user_change_pass_new_password d))])"

record admin_user_add =
  admin_user_add_email :: "string"
  admin_user_add_pass :: "string"
  admin_user_add_random_pass :: "bool"
  admin_user_add_admin :: "bool"

definition admin_user_add_converter :: "admin_user_add \<Rightarrow> message" where
  "admin_user_add_converter d =
     ([''admin'', ''user'', ''add''],
      [(''email'', Val_str (admin_user_add_email d)),
       (''pass'', Val_str (admin_user_add_pass d)),
       (''random_pass'', Val_bool (admin_user_add_random_pass d)),
       (''admin'', Val_bool (admin_user_add_admin d))])"

record admin_user_delete =
  admin_user_delete_email :: "string"

definition admin_user_delete_converter :: "admin_user_delete \<Rightarrow> message" where
  "admin_user_delete_converter d =
     ([''admin'', ''user'', ''delete''],
      [(''email'', Val_str (admin_user_delete_email d))])"

definition admin_user_list :: message where
  "admin_user_list = ([''admin'', ''user'', ''list''], [])"

record admin_user_permission_get =
  admin_user_permission_get_email :: "string"

definition admin_user_permission_get_converter :: "admin_user_permission_get \<Rightarrow> message" where
  "admin_user_permission_get_converter d =
     ([''admin'', ''user'', ''permission'', ''get''],
      [(''email'', Val_str (admin_user_permission_get_email d))])"

record admin_user_permission_set_permission =
  admin_user_permission_set_permission_project :: "string"
  admin_user_permission_set_permission_read :: "bool"
  admin_user_permission_set_permission_write :: "bool"
  admin_user_permission_set_permission_execute :: "bool"

definition admin_user_permission_set_permission_fields :: "admin_user_permission_set_permission \<Rightarrow> (string \<times> dto_value) list" where
  "admin_user_permission_set_permission_fields d =
     [(''project'', Val_str (admin_user_permission_set_permission_project d)),
      (''read'', Val_bool (admin_user_permission_set_permission_read d)),
      (''write'', Val_bool (admin_user_permission_set_permission_write d)),
      (''execute'', Val_bool (admin_user_permission_set_permission_execute d))]"

definition admin_user_permission_set_permission_valid :: "admin_user_permission_set_permission \<Rightarrow> bool" where
  "admin_user_permission_set_permission_valid d \<longleftrightarrow>
     validate_path_fragment (admin_user_permission_set_permission_project d)"

record admin_user_permission_set =
  admin_user_permission_set_email :: "string"
  admin_user_permission_set_permissions :: "admin_user_permission_set_permission list"

definition admin_user_permission_set_converter :: "admin_user_permission_set \<Rightarrow> message" where
  "admin_user_permission_set_converter d =
     ([''admin'', ''user'', ''permission'', ''set''],
      [(''email'', Val_str (admin_user_permission_set_email d)),
       (''permissions'', Val_list (map (\<lambda>x. Val_obj (admin_user_permission_set_permission_fields x)) (admin_user_permission_set_permissions d)))])"

definition admin_user_permission_set_valid :: "admin_user_permission_set \<Rightarrow> bool" where
  "admin_user_permission_set_valid d \<longleftrightarrow>
     (\<forall>x \<in> set (admin_user_permission_set_permissions d). admin_user_permission_set_permission_valid x)"

record admin_project_permission_get =
  admin_project_permission_get_project :: "string"

definition admin_project_permission_get_converter :: "admin_project_permission_get \<Rightarrow> message" where
  "admin_project_permission_get_converter d =
     ([''admin'', ''project'', ''permission'', ''get''],
      [(''project'', Val_str (admin_project_permission_get_project d))])"

record admin_user_set_admin_status =
  admin_user_set_admin_status_email :: "string"
  admin_user_set_admin_status_admin :: "bool"

definition admin_user_set_admin_status_converter :: "admin_user_set_admin_status \<Rightarrow> message" where
  "admin_user_set_admin_status_converter d =
     ([''admin'', ''user'', ''set_admin_status''],
      [(''email'', Val_str (admin_user_set_admin_status_email d)),
       (''admin'', Val_bool (admin_user_set_admin_status_admin d))])"

record user_api_key_generate =
  user_api_key_generate_email :: "string"

definition user_api_key_generate_converter :: "user_api_key_generate \<Rightarrow> message" where
  "user_api_key_generate_converter d =
     ([''user'', ''api_key'', ''generate''],
      [(''email'', Val_str (user_api_key_generate_email d))])"

record user_api_key_get =
  user_api_key_get_email :: "string"

definition user_api_key_get_converter :: "user_api_key_get \<Rightarrow> message" where
  "user_api_key_get_converter d =
     ([''user'', ''api_key'', ''get''],
      [(''email'', Val_str (user_api_key_get_email d))])"

record user_api_key_remove =
  user_api_key_remove_email :: "string"

definition user_api_key_remove_converter :: "user_api_key_remove \<Rightarrow> message" where
  "user_api_key_remove_converter d =
     ([''user'', ''api_key'', ''remove''],
      [(''email'', Val_str (user_api_key_remove_email d))])"

definition cis_project_list_get :: message where
  "cis_project_list_get = ([''cis'', ''project_list'', ''get''], [])"

record cis_project_info =
  cis_project_info_project :: "string"

definition cis_project_info_converter :: "cis_project_info \<Rightarrow> message" where
  "cis_project_info_converter d =
     ([''cis'', ''project'', ''info''],
      [(''project'', Val_str (cis_project_info_project d))])"

definition cis_project_info_valid :: "cis_project_info \<Rightarrow> bool" where
  "cis_project_info_valid d \<longleftrightarrow>
     validate_path_fragment (cis_project_info_project d)"

record cis_project_add =
  cis_project_add_project :: "string"

definition cis_project_add_converter :: "cis_project_add \<Rightarrow> message" where
  "cis_project_add_converter d =
     ([''cis'', ''project'', ''add''],
      [(''project'', Val_str (cis_project_add_project d))])"

definition cis_project_add_valid :: "cis_project_add \<Rightarrow> bool" where
  "cis_project_add_valid d \<longleftrightarrow>
     validate_path_fragment (cis_project_add_project d)"

record cis_project_remove =
  cis_project_remove_project :: "string"

definition cis_project_remove_converter :: "cis_project_remove \<Rightarrow> message" where
  "cis_project_remove_converter d =
     ([''cis'', ''project'', ''remove''],
      [(''project'', Val_str (cis_project_remove_project d))])"

definition cis_project_remove_valid :: "cis_project_remove \<Rightarrow> bool" where
  "cis_project_remove_valid d \<longleftrightarrow>
     validate_path_fragment (cis_project_remove_project d)"

record cis_job_add =
  cis_job_add_project :: "string"
  cis_job_add_job :: "string"

definition cis_job_add_converter :: "cis_job_add \<Rightarrow> message" where
  "cis_job_add_converter d =
     ([''cis'', ''job'', ''add''],
      [(''project'', Val_str (cis_job_add_project d)),
       (''job'', Val_str (cis_job_add_job d))])"

definition cis_job_add_valid :: "cis_job_add \<Rightarrow> bool" where
  "cis_job_add_valid d \<longleftrightarrow>
     validate_path_fragment (cis_job_add_project d) \<and>
     validate_path_fragment (cis_job_add_job d)"

record cis_job_remove =
  cis_job_remove_project :: "string"
  cis_job_remove_job :: "string"

definition cis_job_remove_converter :: "cis_job_remove \<Rightarrow> message" where
  "cis_job_remove_converter d =
     ([''cis'', ''job'', ''remove''],
      [(''project'', Val_str (cis_job_remove_project d)),
       (''job'', Val_str (cis_job_remove_job d))])"

definition cis_job_remove_valid :: "cis_job_remove \<Rightarrow> bool" where
  "cis_job_remove_valid d \<longleftrightarrow>
     validate_path_fragment (cis_job_remove_project d) \<and>
     validate_path_fragment (cis_job_remove_job d)"

record cis_build_remove =
  cis_build_remove_project :: "string"
  cis_build_remove_job :: "string"
  cis_build_remove_build :: "string"

definition cis_build_remove_converter :: "cis_build_remove \<Rightarrow> message" where
  "cis_build_remove_converter d =
     ([''cis'', ''build'', ''remove''],
      [(''project'', Val_str (cis_build_remove_project d)),
       (''job'', Val_str (cis_build_remove_job d)),
       (''build'', Val_str (cis_build_remove_build d))])"

definition cis_build_remove_valid :: "cis_build_remove \<Rightarrow> bool" where
  "cis_build_remove_valid d \<longleftrightarrow>
     validate_path_fragment (cis_build_remove_project d) \<and>
     validate_path_fragment (cis_build_remove_job d) \<and>
     validate_path_fragment (cis_build_remove_build d)"

record cis_job_info =
  cis_job_info_project :: "string"
  cis_job_info_job :: "string"

definition cis_job_info_converter :: "cis_job_info \<Rightarrow> message" where
  "cis_job_info_converter d =
     ([''cis'', ''job'', ''info''],
      [(''project'', Val_str (cis_job_info_project d)),
       (''job'', Val_str (cis_job_info_job d))])"

definition cis_job_info_valid :: "cis_job_info \<Rightarrow> bool" where
  "cis_job_info_valid d \<longleftrightarrow>
     validate_path_fragment (cis_job_info_project d) \<and>
     validate_path_fragment (cis_job_info_job d)"

record cis_job_run_param =
  cis_job_run_param_name :: "string"
  cis_job_run_param_value :: "string"

definition cis_job_run_param_fields :: "cis_job_run_param \<Rightarrow> (string \<times> dto_value) list" where
  "cis_job_run_param_fields d =
     [(''name'', Val_str (cis_job_run_param_name d)),
      (''value'', Val_str (cis_job_run_param_value d))]"

record cis_job_run =
  cis_job_run_project :: "string"
  cis_job_run_job :: "string"
  cis_job_run_force :: "bool"
  cis_job_run_params :: "cis_job_run_param list"

definition cis_job_run_converter :: "cis_job_run \<Rightarrow> message" where
  "cis_job_run_converter d =
     ([''cis'', ''job'', ''run''],
      [(''project'', Val_str (cis_job_run_project d)),
       (''job'', Val_str (cis_job_run_job d)),
       (''force'', Val_bool (cis_job_run_force d)),
       (''params'', Val_list (map (\<lambda>x. Val_obj (cis_job_run_param_fields x)) (cis_job_run_params d)))])"

definition cis_job_run_valid :: "cis_job_run \<Rightarrow> bool" where
  "cis_job_run_valid d \<longleftrightarrow>
     validate_path_fragment (cis_job_run_project d) \<and>
     validate_path_fragment (cis_job_run_job d)"

record cis_build_info =
  cis_build_info_project :: "string"
  cis_build_info_job :: "string"
  cis_build_info_build :: "string"

definition cis_build_info_converter :: "cis_build_info \<Rightarrow> message" where
  "cis_build_info_converter d =
     ([''cis'', ''build'', ''info''],
      [(''project'', Val_str (cis_build_info_project d)),
       (''job'', Val_str (cis_build_info_job d)),
       (''build'', Val_str (cis_build_info_build d))])"

definition cis_build_info_valid :: "cis_build_info \<Rightarrow> bool" where
  "cis_build_info_valid d \<longleftrightarrow>
     validate_path_fragment (cis_build_info_project d) \<and>
     validate_path_fragment (cis_build_info_job d) \<and>
     validate_path_fragment (cis_build_info_build d)"

record fs_entry_info =
  fs_entry_info_path :: "string"

definition fs_entry_info_converter :: "fs_entry_info \<Rightarrow> message" where
  "fs_entry_info_converter d =
     ([''fs'', ''entry'', ''info''],
      [(''path'', Val_str (fs_entry_info_path d))])"

record fs_entry_refresh =
  fs_entry_refresh_path :: "string"

definition fs_entry_refresh_converter :: "fs_entry_refresh \<Rightarrow> message" where
  "fs_entry_refresh_converter d =
     ([''fs'', ''entry'', ''refresh''],
      [(''path'', Val_str (fs_entry_refresh_path d))])"

record fs_entry_remove =
  fs_entry_remove_path :: "string"

definition fs_entry_remove_converter :: "fs_entry_remove \<Rightarrow> message" where
  "fs_entry_remove_converter d =
     ([''fs'', ''entry'', ''remove''],
      [(''path'', Val_str (fs_entry_remove_path d))])"

record fs_entry_move =
  fs_entry_move_old_path :: "string"
  fs_entry_move_new_path :: "string"

definition fs_entry_move_converter :: "fs_entry_move \<Rightarrow> message" where
  "fs_entry_move_converter d =
     ([''fs'', ''entry'', ''move''],
      [(''oldPath'', Val_str (fs_entry_move_old_path d)),
       (''newPath'', Val_str (fs_entry_move_new_path d))])"

record fs_entry_new_dir =
  fs_entry_new_dir_path :: "string"

definition fs_entry_new_dir_converter :: "fs_entry_new_dir \<Rightarrow> message" where
  "fs_entry_new_dir_converter d =
     ([''fs'', ''entry'', ''new_dir''],
      [(''path'', Val_str (fs_entry_new_dir_path d))])"

record fs_entry_list =
  fs_entry_list_path :: "string"

definition fs_entry_list_converter :: "fs_entry_list \<Rightarrow> message" where
  "fs_entry_list_converter d =
     ([''fs'', ''entry'', ''list''],
      [(''path'', Val_str (fs_entry_list_path d))])"

record fs_entry_set_executable_flag =
  fs_entry_set_executable_flag_path :: "string"
  fs_entry_set_executable_flag_executable :: "bool"

definition fs_entry_set_executable_flag_converter :: "fs_entry_set_executable_flag \<Rightarrow> message" where
  "fs_entry_set_executable_flag_converter d =
     ([''fs'', ''entry'', ''set_executable_flag''],
      [(''path'', Val_str (fs_entry_set_executable_flag_path d)),
       (''executable'', Val_bool (fs_entry_set_executable_flag_executable d))])"

record cis_cron_add =
  cis_cron_add_project :: "string"
  cis_cron_add_job :: "string"
  cis_cron_add_cron_expr :: "string"

definition cis_cron_add_converter :: "cis_cron_add \<Rightarrow> message" where
  "cis_cron_add_converter d =
     ([''cis'', ''cron'', ''add''],
      [(''project'', Val_str (cis_cron_add_project d)),
       (''job'', Val_str (cis_cron_add_job d)),
       (''cron_expr'', Val_str (cis_cron_add_cron_expr d))])"

definition cis_cron_add_valid :: "cis_cron_add \<Rightarrow> bool" where
  "cis_cron_add_valid d \<longleftrightarrow>
     validate_path_fragment (cis_cron_add_project d) \<and>
     validate_path_fragment (cis_cron_add_job d)"

record cis_cron_remove =
  cis_cron_remove_project :: "string"
  cis_cron_remove_job :: "string"
  cis_cron_remove_cron_expr :: "string"

definition cis_cron_remove_converter :: "cis_cron_remove \<Rightarrow> message" where
  "cis_cron_remove_converter d =
     ([''cis'', ''cron'', ''remove''],
      [(''project'', Val_str (cis_cron_remove_project d)),
       (''job'', Val_str (cis_cron_remove_job d)),
       (''cron_expr'', Val_str (cis_cron_remove_cron_expr d))])"

definition cis_cron_remove_valid :: "cis_cron_remove \<Rightarrow> bool" where
  "cis_cron_remove_valid d \<longleftrightarrow>
     validate_path_fragment (cis_cron_remove_project d) \<and>
     validate_path_fragment (cis_cron_remove_job d)"

record cis_cron_list =
  cis_cron_list_mask :: "string"

definition cis_cron_list_converter :: "cis_cron_list \<Rightarrow> message" where
  "cis_cron_list_converter d =
     ([''cis'', ''cron'', ''list''],
      [(''mask'', Val_str (cis_cron_list_mask d))])"

record cis_session_subscribe =
  cis_session_subscribe_session_id :: "string"

definition cis_session_subscribe_converter :: "cis_session_subscribe \<Rightarrow> message" where
  "cis_session_subscribe_converter d =
     ([''cis'', ''session'', ''subscribe''],
      [(''session_id'', Val_str (cis_session_subscribe_session_id d))])"

record cis_session_unsubscribe =
  cis_session_unsubscribe_session_id :: "string"

definition cis_session_unsubscribe_converter :: "cis_session_unsubscribe \<Rightarrow> message" where
  "cis_session_unsubscribe_converter d =
     ([''cis'', ''session'', ''unsubscribe''],
      [(''session_id'', Val_str (cis_session_unsubscribe_session_id d))])"

definition system_version_info :: message where
  "system_version_info = ([''system'', ''version'', ''info''], [])"

section \<open>All requests\<close>

text \<open>
  What \<^verbatim>\<open>make_ws_router\<close> registers a handler for.
\<close>

datatype ws_request =
    Req_auth_login_pass auth_login_pass
  | Req_auth_login_token auth_login_token
  | Req_auth_logout auth_logout
  | Req_user_change_pass user_change_pass
  | Req_admin_user_add admin_user_add
  | Req_admin_user_delete admin_user_delete
  | Req_admin_user_list
  | Req_admin_user_permission_get admin_user_permission_get
  | Req_admin_user_permission_set admin_user_permission_set
  | Req_admin_project_permission_get admin_project_permission_get
  | Req_admin_user_set_admin_status admin_user_set_admin_status
  | Req_user_api_key_generate user_api_key_generate
  | Req_user_api_key_get user_api_key_get
  | Req_user_api_key_remove user_api_key_remove
  | Req_cis_project_list_get
  | Req_cis_project_info cis_project_info
  | Req_cis_project_add cis_project_add
  | Req_cis_project_remove cis_project_remove
  | Req_cis_job_add cis_job_add
  | Req_cis_job_remove cis_job_remove
  | Req_cis_build_remove cis_build_remove
  | Req_cis_job_info cis_job_info
  | Req_cis_job_run cis_job_run
  | Req_cis_build_info cis_build_info
  | Req_fs_entry_info fs_entry_info
  | Req_fs_entry_refresh fs_entry_refresh
  | Req_fs_entry_remove fs_entry_remove
  | Req_fs_entry_move fs_entry_move
  | Req_fs_entry_new_dir fs_entry_new_dir
  | Req_fs_entry_list fs_entry_list
  | Req_fs_entry_set_executable_flag fs_entry_set_executable_flag
  | Req_cis_cron_add cis_cron_add
  | Req_cis_cron_remove cis_cron_remove
  | Req_cis_cron_list cis_cron_list
  | Req_cis_session_subscribe cis_session_subscribe
  | Req_cis_session_unsubscribe cis_session_unsubscribe
  | Req_system_version_info

fun request_message :: "ws_request \<Rightarrow> message" where
  "request_message (Req_auth_login_pass d) = auth_login_pass_converter d"
| "request_message (Req_auth_login_token d) = auth_login_token_converter d"
| "request_message (Req_auth_logout d) = auth_logout_converter d"
| "request_message (Req_user_change_pass d) = user_change_pass_converter d"
| "request_message (Req_admin_user_add d) = admin_user_add_converter d"
| "request_message (Req_admin_user_delete d) = admin_user_delete_converter d"
| "request_message Req_admin_user_list = admin_user_list"
| "request_message (Req_admin_user_permission_get d) = admin_user_permission_get_converter d"
| "request_message (Req_admin_user_permission_set d) = admin_user_permission_set_converter d"
| "request_message (Req_admin_project_permission_get d) = admin_project_permission_get_converter d"
| "request_message (Req_admin_user_set_admin_status d) = admin_user_set_admin_status_converter d"
| "request_message (Req_user_api_key_generate d) = user_api_key_generate_converter d"
| "request_message (Req_user_api_key_get d) = user_api_key_get_converter d"
| "request_message (Req_user_api_key_remove d) = user_api_key_remove_converter d"
| "request_message Req_cis_project_list_get = cis_project_list_get"
| "request_message (Req_cis_project_info d) = cis_project_info_converter d"
| "request_message (Req_cis_project_add d) = cis_project_add_converter d"
| "request_message (Req_cis_project_remove d) = cis_project_remove_converter d"
| "request_message (Req_cis_job_add d) = cis_job_add_converter d"
| "request_message (Req_cis_job_remove d) = cis_job_remove_converter d"
| "request_message (Req_cis_build_remove d) = cis_build_remove_converter d"
| "request_message (Req_cis_job_info d) = cis_job_info_converter d"
| "request_message (Req_cis_job_run d) = cis_job_run_converter d"
| "request_message (Req_cis_build_info d) = cis_build_info_converter d"
| "request_message (Req_fs_entry_info d) = fs_entry_info_converter d"
| "request_message (Req_fs_entry_refresh d) = fs_entry_refresh_converter d"
| "request_message (Req_fs_entry_remove d) = fs_entry_remove_converter d"
| "request_message (Req_fs_entry_move d) = fs_entry_move_converter d"
| "request_message (Req_fs_entry_new_dir d) = fs_entry_new_dir_converter d"
| "request_message (Req_fs_entry_list d) = fs_entry_list_converter d"
| "request_message (Req_fs_entry_set_executable_flag d) = fs_entry_set_executable_flag_converter d"
| "request_message (Req_cis_cron_add d) = cis_cron_add_converter d"
| "request_message (Req_cis_cron_remove d) = cis_cron_remove_converter d"
| "request_message (Req_cis_cron_list d) = cis_cron_list_converter d"
| "request_message (Req_cis_session_subscribe d) = cis_session_subscribe_converter d"
| "request_message (Req_cis_session_unsubscribe d) = cis_session_unsubscribe_converter d"
| "request_message Req_system_version_info = system_version_info"

text \<open>The validators of the fields, for the requests that have any.\<close>

fun request_valid :: "ws_request \<Rightarrow> bool" where
  "request_valid (Req_admin_user_permission_set d) = admin_user_permission_set_valid d"
| "request_valid (Req_cis_project_info d) = cis_project_info_valid d"
| "request_valid (Req_cis_project_add d) = cis_project_add_valid d"
| "request_valid (Req_cis_project_remove d) = cis_project_remove_valid d"
| "request_valid (Req_cis_job_add d) = cis_job_add_valid d"
| "request_valid (Req_cis_job_remove d) = cis_job_remove_valid d"
| "request_valid (Req_cis_build_remove d) = cis_build_remove_valid d"
| "request_valid (Req_cis_job_info d) = cis_job_info_valid d"
| "request_valid (Req_cis_job_run d) = cis_job_run_valid d"
| "request_valid (Req_cis_build_info d) = cis_build_info_valid d"
| "request_valid (Req_cis_cron_add d) = cis_cron_add_valid d"
| "request_valid (Req_cis_cron_remove d) = cis_cron_remove_valid d"
| "request_valid _ = True"

definition request_events :: "string list list" where
  "request_events = [
     [''auth'', ''login_pass''],
     [''auth'', ''login_token''],
     [''auth'', ''logout''],
     [''user'', ''change_pass''],
     [''admin'', ''user'', ''add''],
     [''admin'', ''user'', ''delete''],
     [''admin'', ''user'', ''list''],
     [''admin'', ''user'', ''permission'', ''get''],
     [''admin'', ''user'', ''permission'', ''set''],
     [''admin'', ''project'', ''permission'', ''get''],
     [''admin'', ''user'', ''set_admin_status''],
     [''user'', ''api_key'', ''generate''],
     [''user'', ''api_key'', ''get''],
     [''user'', ''api_key'', ''remove''],
     [''cis'', ''project_list'', ''get''],
     [''cis'', ''project'', ''info''],
     [''cis'', ''project'', ''add''],
     [''cis'', ''project'', ''remove''],
     [''cis'', ''job'', ''add''],
     [''cis'', ''job'', ''remove''],
     [''cis'', ''build'', ''remove''],
     [''cis'', ''job'', ''info''],
     [''cis'', ''job'', ''run''],
     [''cis'', ''build'', ''info''],
     [''fs'', ''entry'', ''info''],
     [''fs'', ''entry'', ''refresh''],
     [''fs'', ''entry'', ''remove''],
     [''fs'', ''entry'', ''move''],
     [''fs'', ''entry'', ''new_dir''],
     [''fs'', ''entry'', ''list''],
     [''fs'', ''entry'', ''set_executable_flag''],
     [''cis'', ''cron'', ''add''],
     [''cis'', ''cron'', ''remove''],
     [''cis'', ''cron'', ''list''],
     [''cis'', ''session'', ''subscribe''],
     [''cis'', ''session'', ''unsubscribe''],
     [''system'', ''version'', ''info'']]"

lemmas request_converters =
  auth_login_pass_converter_def
  auth_login_token_converter_def
  auth_logout_converter_def
  user_change_pass_converter_def
  admin_user_add_converter_def
  admin_user_delete_converter_def
  admin_user_list_def
  admin_user_permission_get_converter_def
  admin_user_permission_set_converter_def
  admin_project_permission_get_converter_def
  admin_user_set_admin_status_converter_def
  user_api_key_generate_converter_def
  user_api_key_get_converter_def
  user_api_key_remove_converter_def
  cis_project_list_get_def
  cis_project_info_converter_def
  cis_project_add_converter_def
  cis_project_remove_converter_def
  cis_job_add_converter_def
  cis_job_remove_converter_def
  cis_build_remove_converter_def
  cis_job_info_converter_def
  cis_job_run_converter_def
  cis_build_info_converter_def
  fs_entry_info_converter_def
  fs_entry_refresh_converter_def
  fs_entry_remove_converter_def
  fs_entry_move_converter_def
  fs_entry_new_dir_converter_def
  fs_entry_list_converter_def
  fs_entry_set_executable_flag_converter_def
  cis_cron_add_converter_def
  cis_cron_remove_converter_def
  cis_cron_list_converter_def
  cis_session_subscribe_converter_def
  cis_session_unsubscribe_converter_def
  system_version_info_def

section \<open>The wire format\<close>

lemma permission_fields_inj:
  "admin_user_permission_set_permission_fields x = admin_user_permission_set_permission_fields y
     \<longleftrightarrow> x = y"
  by (cases x; cases y) (simp add: admin_user_permission_set_permission_fields_def)

lemma param_fields_inj:
  "cis_job_run_param_fields x = cis_job_run_param_fields y \<longleftrightarrow> x = y"
  by (cases x; cases y) (simp add: cis_job_run_param_fields_def)

lemma request_event_registered: "fst (request_message r) \<in> set request_events"
  by (cases r) (simp_all add: request_converters request_events_def)

lemma request_events_distinct: "distinct request_events"
  by (simp add: request_events_def)

text \<open>
  The wire format is unambiguous: two requests with the same message are the same
  request. Events and field names never collide, and no field of a request is lost.
\<close>

theorem request_message_inj: "request_message r = request_message r' \<longleftrightarrow> r = r'"
proof
  assume "request_message r = request_message r'"
  then show "r = r'"
    by (cases r; cases r')
       (simp_all add: request_converters inj_map_eq_map inj_def permission_fields_inj
         param_fields_inj)
qed simp

end
