(* ===== verification/Ws_Replies.thy ===== *)
theory Ws_Replies
  imports Ws_Requests
begin

text \<open>
  The messages the server sends over the web socket
  (\<^verbatim>\<open>include/websocket/dto/\<close>): replies, errors and notifications. As for the
  requests, \<open>d_converter\<close> is \<^verbatim>\<open>get_converter\<close>, and a structure without
  members is its message. The structures about group permissions are declared by the code and
  not used by any handler.
\<close>

section \<open>Entries of the file system\<close>

record fs_entry_project_info =
  fs_entry_project_info_permitted :: "bool"

definition fs_entry_project_info_fields :: "fs_entry_project_info \<Rightarrow> (string \<times> dto_value) list" where
  "fs_entry_project_info_fields d =
     [(''permitted'', Val_bool (fs_entry_project_info_permitted d))]"

record fs_entry_build_info =
  fs_entry_build_info_status :: "string option"
  fs_entry_build_info_exit_code :: "(32 word) option"
  fs_entry_build_info_exit_message :: "string option"
  fs_entry_build_info_session_id :: "string option"
  fs_entry_build_info_date :: "string option"

definition fs_entry_build_info_fields :: "fs_entry_build_info \<Rightarrow> (string \<times> dto_value) list" where
  "fs_entry_build_info_fields d =
     [(''status'', val_opt Val_str (fs_entry_build_info_status d)),
      (''exit_code'', val_opt Val_int (fs_entry_build_info_exit_code d)),
      (''exit_message'', val_opt Val_str (fs_entry_build_info_exit_message d)),
      (''session_id'', val_opt Val_str (fs_entry_build_info_session_id d)),
      (''date'', val_opt Val_str (fs_entry_build_info_date d))]"

record fs_entry_file_info =
  fs_entry_file_info_executable :: "bool"

definition fs_entry_file_info_fields :: "fs_entry_file_info \<Rightarrow> (string \<times> dto_value) list" where
  "fs_entry_file_info_fields d =
     [(''executable'', Val_bool (fs_entry_file_info_executable d))]"

text \<open>
  \<^verbatim>\<open>std::variant\<close> of nothing and the five kinds of information; the name of an
  alternative is its \<^verbatim>\<open>get_name\<close>. \<^verbatim>\<open>job_info\<close> and
  \<^verbatim>\<open>directory_info\<close> have no members.
\<close>

datatype metainfo =
    Meta_none
  | Meta_project fs_entry_project_info
  | Meta_job
  | Meta_build fs_entry_build_info
  | Meta_directory
  | Meta_file fs_entry_file_info

definition metainfo_value :: "metainfo \<Rightarrow> dto_value" where
  "metainfo_value m =
     (case m of
        Meta_none \<Rightarrow> Val_null
      | Meta_project i \<Rightarrow> Val_variant ''project'' (Val_obj (fs_entry_project_info_fields i))
      | Meta_job \<Rightarrow> Val_variant ''job'' (Val_obj [])
      | Meta_build i \<Rightarrow> Val_variant ''build'' (Val_obj (fs_entry_build_info_fields i))
      | Meta_directory \<Rightarrow> Val_variant ''directory'' (Val_obj [])
      | Meta_file i \<Rightarrow> Val_variant ''file'' (Val_obj (fs_entry_file_info_fields i)))"

record fs_entry =
  fs_entry_name :: "string"
  fs_entry_path :: "string"
  fs_entry_link :: "string"
  fs_entry_metainfo :: "metainfo"

definition fs_entry_fields :: "fs_entry \<Rightarrow> (string \<times> dto_value) list" where
  "fs_entry_fields d =
     [(''name'', Val_str (fs_entry_name d)),
      (''path'', Val_str (fs_entry_path d)),
      (''link'', Val_str (fs_entry_link d)),
      (''metainfo'', metainfo_value (fs_entry_metainfo d))]"

text \<open>\<^verbatim>\<open>std::variant<std::monostate, fs_entry>\<close>.\<close>

definition property_value :: "fs_entry option \<Rightarrow> dto_value" where
  "property_value p =
     (case p of None \<Rightarrow> Val_null | Some x \<Rightarrow> Val_variant ''fs_entry'' (Val_obj (fs_entry_fields x)))"

section \<open>Replies\<close>

record admin_project_permission_get_success_user =
  admin_project_permission_get_success_user_email :: "string"
  admin_project_permission_get_success_user_admin :: "bool"
  admin_project_permission_get_success_user_read :: "bool"
  admin_project_permission_get_success_user_write :: "bool"
  admin_project_permission_get_success_user_execute :: "bool"

definition admin_project_permission_get_success_user_fields :: "admin_project_permission_get_success_user \<Rightarrow> (string \<times> dto_value) list" where
  "admin_project_permission_get_success_user_fields d =
     [(''email'', Val_str (admin_project_permission_get_success_user_email d)),
      (''admin'', Val_bool (admin_project_permission_get_success_user_admin d)),
      (''read'', Val_bool (admin_project_permission_get_success_user_read d)),
      (''write'', Val_bool (admin_project_permission_get_success_user_write d)),
      (''execute'', Val_bool (admin_project_permission_get_success_user_execute d))]"

record admin_project_permission_get_success =
  admin_project_permission_get_success_users :: "admin_project_permission_get_success_user list"

definition admin_project_permission_get_success_converter :: "admin_project_permission_get_success \<Rightarrow> message" where
  "admin_project_permission_get_success_converter d =
     ([''admin'', ''project'', ''permission'', ''get'', ''success''],
      [(''users'', Val_list (map (\<lambda>x. Val_obj (admin_project_permission_get_success_user_fields x)) (admin_project_permission_get_success_users d)))])"

definition admin_user_add_error_exists :: message where
  "admin_user_add_error_exists = ([''admin'', ''user'', ''add'', ''error'', ''exists''], [])"

definition admin_user_add_error_incorrect_credentials :: message where
  "admin_user_add_error_incorrect_credentials = ([''admin'', ''user'', ''add'', ''error'', ''incorrect_credentials''], [])"

definition admin_user_add_success :: message where
  "admin_user_add_success = ([''admin'', ''user'', ''add'', ''success''], [])"

definition admin_user_delete_success :: message where
  "admin_user_delete_success = ([''admin'', ''user'', ''delete'', ''success''], [])"

record admin_user_list_success_user =
  admin_user_list_success_user_email :: "string"
  admin_user_list_success_user_api_key :: "string"
  admin_user_list_success_user_admin :: "bool"

definition admin_user_list_success_user_fields :: "admin_user_list_success_user \<Rightarrow> (string \<times> dto_value) list" where
  "admin_user_list_success_user_fields d =
     [(''email'', Val_str (admin_user_list_success_user_email d)),
      (''APIAccessSecretKey'', Val_str (admin_user_list_success_user_api_key d)),
      (''admin'', Val_bool (admin_user_list_success_user_admin d))]"

record admin_user_list_success =
  admin_user_list_success_users :: "admin_user_list_success_user list"

definition admin_user_list_success_converter :: "admin_user_list_success \<Rightarrow> message" where
  "admin_user_list_success_converter d =
     ([''admin'', ''user'', ''list'', ''success''],
      [(''users'', Val_list (map (\<lambda>x. Val_obj (admin_user_list_success_user_fields x)) (admin_user_list_success_users d)))])"

record admin_user_permission_get_success_permission =
  admin_user_permission_get_success_permission_project :: "string"
  admin_user_permission_get_success_permission_read :: "bool"
  admin_user_permission_get_success_permission_write :: "bool"
  admin_user_permission_get_success_permission_execute :: "bool"

definition admin_user_permission_get_success_permission_fields :: "admin_user_permission_get_success_permission \<Rightarrow> (string \<times> dto_value) list" where
  "admin_user_permission_get_success_permission_fields d =
     [(''project'', Val_str (admin_user_permission_get_success_permission_project d)),
      (''read'', Val_bool (admin_user_permission_get_success_permission_read d)),
      (''write'', Val_bool (admin_user_permission_get_success_permission_write d)),
      (''execute'', Val_bool (admin_user_permission_get_success_permission_execute d))]"

record admin_user_permission_get_success =
  admin_user_permission_get_success_permissions :: "admin_user_permission_get_success_permission list"

definition admin_user_permission_get_success_converter :: "admin_user_permission_get_success \<Rightarrow> message" where
  "admin_user_permission_get_success_converter d =
     ([''admin'', ''user'', ''permission'', ''get'', ''success''],
      [(''permissions'', Val_list (map (\<lambda>x. Val_obj (admin_user_permission_get_success_permission_fields x)) (admin_user_permission_get_success_permissions d)))])"

definition admin_user_permission_set_success :: message where
  "admin_user_permission_set_success = ([''admin'', ''user'', ''permission'', ''set'', ''success''], [])"

definition admin_user_set_admin_status_success :: message where
  "admin_user_set_admin_status_success = ([''admin'', ''user'', ''set_admin_status'', ''success''], [])"

definition auth_error_login_required :: message where
  "auth_error_login_required = ([''auth'', ''error'', ''login_required''], [])"

definition auth_error_wrong_credentials :: message where
  "auth_error_wrong_credentials = ([''auth'', ''error'', ''wrong_credentials''], [])"

record auth_login_success =
  auth_login_success_token :: "string"
  auth_login_success_admin :: "bool"

definition auth_login_success_converter :: "auth_login_success \<Rightarrow> message" where
  "auth_login_success_converter d =
     ([''auth'', ''login'', ''success''],
      [(''token'', Val_str (auth_login_success_token d)),
       (''admin'', Val_bool (auth_login_success_admin d))])"

definition auth_logout_success :: message where
  "auth_logout_success = ([''auth'', ''logout'', ''success''], [])"

record cis_build_error_doesnt_exist =
  cis_build_error_doesnt_exist_project :: "string"
  cis_build_error_doesnt_exist_job :: "string"
  cis_build_error_doesnt_exist_build :: "string"

definition cis_build_error_doesnt_exist_converter :: "cis_build_error_doesnt_exist \<Rightarrow> message" where
  "cis_build_error_doesnt_exist_converter d =
     ([''cis'', ''build'', ''error'', ''doesnt_exist''],
      [(''project'', Val_str (cis_build_error_doesnt_exist_project d)),
       (''job'', Val_str (cis_build_error_doesnt_exist_job d)),
       (''build'', Val_str (cis_build_error_doesnt_exist_build d))])"

record cis_build_info_success =
  cis_build_info_success_status :: "string"
  cis_build_info_success_exit_code :: "(32 word) option"
  cis_build_info_success_exit_message :: "string option"
  cis_build_info_success_session_id :: "string option"
  cis_build_info_success_date :: "string option"
  cis_build_info_success_fs_entries :: "fs_entry list"

definition cis_build_info_success_converter :: "cis_build_info_success \<Rightarrow> message" where
  "cis_build_info_success_converter d =
     ([''cis'', ''build'', ''info'', ''success''],
      [(''status'', Val_str (cis_build_info_success_status d)),
       (''exit_code'', val_opt Val_int (cis_build_info_success_exit_code d)),
       (''exit_message'', val_opt Val_str (cis_build_info_success_exit_message d)),
       (''session_id'', val_opt Val_str (cis_build_info_success_session_id d)),
       (''date'', val_opt Val_str (cis_build_info_success_date d)),
       (''fs_entries'', Val_list (map (\<lambda>x. Val_obj (fs_entry_fields x)) (cis_build_info_success_fs_entries d)))])"

definition cis_build_remove_success :: message where
  "cis_build_remove_success = ([''cis'', ''build'', ''remove'', ''success''], [])"

definition cis_cron_add_success :: message where
  "cis_cron_add_success = ([''cis'', ''cron'', ''add'', ''success''], [])"

record cis_cron_list_success_entry =
  cis_cron_list_success_entry_project :: "string"
  cis_cron_list_success_entry_job :: "string"
  cis_cron_list_success_entry_cron_expr :: "string"

definition cis_cron_list_success_entry_fields :: "cis_cron_list_success_entry \<Rightarrow> (string \<times> dto_value) list" where
  "cis_cron_list_success_entry_fields d =
     [(''project'', Val_str (cis_cron_list_success_entry_project d)),
      (''job'', Val_str (cis_cron_list_success_entry_job d)),
      (''cron_expr'', Val_str (cis_cron_list_success_entry_cron_expr d))]"

record cis_cron_list_success =
  cis_cron_list_success_entries :: "cis_cron_list_success_entry list"

definition cis_cron_list_success_converter :: "cis_cron_list_success \<Rightarrow> message" where
  "cis_cron_list_success_converter d =
     ([''cis'', ''cron'', ''list'', ''success''],
      [(''entries'', Val_list (map (\<lambda>x. Val_obj (cis_cron_list_success_entry_fields x)) (cis_cron_list_success_entries d)))])"

definition cis_cron_remove_success :: message where
  "cis_cron_remove_success = ([''cis'', ''cron'', ''remove'', ''success''], [])"

definition cis_job_add_success :: message where
  "cis_job_add_success = ([''cis'', ''job'', ''add'', ''success''], [])"

record cis_job_error_already_exist =
  cis_job_error_already_exist_project :: "string"
  cis_job_error_already_exist_job :: "string"

definition cis_job_error_already_exist_converter :: "cis_job_error_already_exist \<Rightarrow> message" where
  "cis_job_error_already_exist_converter d =
     ([''cis'', ''job'', ''error'', ''already_exist''],
      [(''project'', Val_str (cis_job_error_already_exist_project d)),
       (''job'', Val_str (cis_job_error_already_exist_job d))])"

record cis_job_error_doesnt_exist =
  cis_job_error_doesnt_exist_project :: "string"
  cis_job_error_doesnt_exist_job :: "string"

definition cis_job_error_doesnt_exist_converter :: "cis_job_error_doesnt_exist \<Rightarrow> message" where
  "cis_job_error_doesnt_exist_converter d =
     ([''cis'', ''job'', ''error'', ''doesnt_exist''],
      [(''project'', Val_str (cis_job_error_doesnt_exist_project d)),
       (''job'', Val_str (cis_job_error_doesnt_exist_job d))])"

definition cis_job_error_invalid_params :: message where
  "cis_job_error_invalid_params = ([''cis'', ''job'', ''error'', ''invalid_params''], [])"

record cis_job_finished =
  cis_job_finished_status :: "string"
  cis_job_finished_exit_code :: "32 word"
  cis_job_finished_exit_message :: "string option"
  cis_job_finished_session_id :: "string option"

definition cis_job_finished_converter :: "cis_job_finished \<Rightarrow> message" where
  "cis_job_finished_converter d =
     ([''cis'', ''job'', ''finished''],
      [(''status'', Val_str (cis_job_finished_status d)),
       (''exit_code'', Val_int (cis_job_finished_exit_code d)),
       (''exit_message'', val_opt Val_str (cis_job_finished_exit_message d)),
       (''session_id'', val_opt Val_str (cis_job_finished_session_id d))])"

record cis_job_info_success_param =
  cis_job_info_success_param_name :: "string"
  cis_job_info_success_param_value :: "string"

definition cis_job_info_success_param_fields :: "cis_job_info_success_param \<Rightarrow> (string \<times> dto_value) list" where
  "cis_job_info_success_param_fields d =
     [(''name'', Val_str (cis_job_info_success_param_name d)),
      (''value'', Val_str (cis_job_info_success_param_value d))]"

record cis_job_info_success =
  cis_job_info_success_fs_entries :: "fs_entry list"
  cis_job_info_success_params :: "cis_job_info_success_param list"
  cis_job_info_success_properties :: "(fs_entry option) list"

definition cis_job_info_success_converter :: "cis_job_info_success \<Rightarrow> message" where
  "cis_job_info_success_converter d =
     ([''cis'', ''job'', ''info'', ''success''],
      [(''fs_entries'', Val_list (map (\<lambda>x. Val_obj (fs_entry_fields x)) (cis_job_info_success_fs_entries d))),
       (''params'', Val_list (map (\<lambda>x. Val_obj (cis_job_info_success_param_fields x)) (cis_job_info_success_params d))),
       (''properties'', Val_list (map property_value (cis_job_info_success_properties d)))])"

definition cis_job_remove_success :: message where
  "cis_job_remove_success = ([''cis'', ''job'', ''remove'', ''success''], [])"

record cis_job_run_success =
  cis_job_run_success_session_id :: "string"

definition cis_job_run_success_converter :: "cis_job_run_success \<Rightarrow> message" where
  "cis_job_run_success_converter d =
     ([''cis'', ''job'', ''run'', ''success''],
      [(''session_id'', Val_str (cis_job_run_success_session_id d))])"

definition cis_project_add_success :: message where
  "cis_project_add_success = ([''cis'', ''project'', ''add'', ''success''], [])"

record cis_project_error_already_exist =
  cis_project_error_already_exist_project :: "string"

definition cis_project_error_already_exist_converter :: "cis_project_error_already_exist \<Rightarrow> message" where
  "cis_project_error_already_exist_converter d =
     ([''cis'', ''project'', ''error'', ''already_exist''],
      [(''project'', Val_str (cis_project_error_already_exist_project d))])"

record cis_project_error_doesnt_exist =
  cis_project_error_doesnt_exist_project :: "string"

definition cis_project_error_doesnt_exist_converter :: "cis_project_error_doesnt_exist \<Rightarrow> message" where
  "cis_project_error_doesnt_exist_converter d =
     ([''cis'', ''project'', ''error'', ''doesnt_exist''],
      [(''project'', Val_str (cis_project_error_doesnt_exist_project d))])"

record cis_project_info_success =
  cis_project_info_success_fs_entries :: "fs_entry list"

definition cis_project_info_success_converter :: "cis_project_info_success \<Rightarrow> message" where
  "cis_project_info_success_converter d =
     ([''cis'', ''project'', ''info'', ''success''],
      [(''fs_entries'', Val_list (map (\<lambda>x. Val_obj (fs_entry_fields x)) (cis_project_info_success_fs_entries d)))])"

record cis_project_list_get_success =
  cis_project_list_get_success_fs_entries :: "fs_entry list"

definition cis_project_list_get_success_converter :: "cis_project_list_get_success \<Rightarrow> message" where
  "cis_project_list_get_success_converter d =
     ([''cis'', ''project_list'', ''get'', ''success''],
      [(''fs_entries'', Val_list (map (\<lambda>x. Val_obj (fs_entry_fields x)) (cis_project_list_get_success_fs_entries d)))])"

definition cis_project_remove_success :: message where
  "cis_project_remove_success = ([''cis'', ''project'', ''remove'', ''success''], [])"

record cis_session_closed =
  cis_session_closed_session_id :: "string"

definition cis_session_closed_converter :: "cis_session_closed \<Rightarrow> message" where
  "cis_session_closed_converter d =
     ([''cis'', ''session'', ''closed''],
      [(''session_id'', Val_str (cis_session_closed_session_id d))])"

record cis_session_log_entry =
  cis_session_log_entry_session_id :: "string"
  cis_session_log_entry_time :: "int"
  cis_session_log_entry_action :: "string"
  cis_session_log_entry_message :: "string"

definition cis_session_log_entry_converter :: "cis_session_log_entry \<Rightarrow> message" where
  "cis_session_log_entry_converter d =
     ([''cis'', ''session'', ''log_entry''],
      [(''session_id'', Val_str (cis_session_log_entry_session_id d)),
       (''time'', Val_time (cis_session_log_entry_time d)),
       (''action'', Val_str (cis_session_log_entry_action d)),
       (''message'', Val_str (cis_session_log_entry_message d))])"

record cis_session_not_established =
  cis_session_not_established_session_id :: "string"

definition cis_session_not_established_converter :: "cis_session_not_established \<Rightarrow> message" where
  "cis_session_not_established_converter d =
     ([''cis'', ''session'', ''not_established''],
      [(''session_id'', Val_str (cis_session_not_established_session_id d))])"

definition fs_entry_error_cant_create_dir :: message where
  "fs_entry_error_cant_create_dir = ([''fs'', ''entry'', ''error'', ''cant_create_dir''], [])"

definition fs_entry_error_cant_move :: message where
  "fs_entry_error_cant_move = ([''fs'', ''entry'', ''error'', ''cant_move''], [])"

definition fs_entry_error_doesnt_exist :: message where
  "fs_entry_error_doesnt_exist = ([''fs'', ''entry'', ''error'', ''doesnt_exist''], [])"

definition fs_entry_error_invalid_path :: message where
  "fs_entry_error_invalid_path = ([''fs'', ''entry'', ''error'', ''invalid_path''], [])"

record fs_entry_info_success =
  fs_entry_info_success_name :: "string"
  fs_entry_info_success_path :: "string"
  fs_entry_info_success_link :: "string"
  fs_entry_info_success_metainfo :: "metainfo"

definition fs_entry_info_success_converter :: "fs_entry_info_success \<Rightarrow> message" where
  "fs_entry_info_success_converter d =
     ([''fs'', ''entry'', ''info'', ''success''],
      [(''name'', Val_str (fs_entry_info_success_name d)),
       (''path'', Val_str (fs_entry_info_success_path d)),
       (''link'', Val_str (fs_entry_info_success_link d)),
       (''metainfo'', metainfo_value (fs_entry_info_success_metainfo d))])"

record fs_entry_list_success =
  fs_entry_list_success_entries :: "fs_entry list"

definition fs_entry_list_success_converter :: "fs_entry_list_success \<Rightarrow> message" where
  "fs_entry_list_success_converter d =
     ([''fs'', ''entry'', ''list'', ''success''],
      [(''fs_entries'', Val_list (map (\<lambda>x. Val_obj (fs_entry_fields x)) (fs_entry_list_success_entries d)))])"

definition fs_entry_move_success :: message where
  "fs_entry_move_success = ([''fs'', ''entry'', ''move'', ''success''], [])"

definition fs_entry_new_dir_success :: message where
  "fs_entry_new_dir_success = ([''fs'', ''entry'', ''new_dir'', ''success''], [])"

definition fs_entry_refresh_success :: message where
  "fs_entry_refresh_success = ([''fs'', ''entry'', ''refresh'', ''success''], [])"

definition fs_entry_remove_success :: message where
  "fs_entry_remove_success = ([''fs'', ''entry'', ''remove'', ''success''], [])"

definition fs_entry_set_executable_flag_success :: message where
  "fs_entry_set_executable_flag_success = ([''fs'', ''entry'', ''set_executable_flag'', ''success''], [])"

record group_default_permissions_get =
  group_default_permissions_get_group :: "string"

definition group_default_permissions_get_converter :: "group_default_permissions_get \<Rightarrow> message" where
  "group_default_permissions_get_converter d =
     ([''group'', ''default'', ''permissions'', ''get''],
      [(''group'', Val_str (group_default_permissions_get_group d))])"

record group_default_permissions_get_success =
  group_default_permissions_get_success_group :: "string"
  group_default_permissions_get_success_read :: "bool"
  group_default_permissions_get_success_write :: "bool"
  group_default_permissions_get_success_execute :: "bool"

definition group_default_permissions_get_success_converter :: "group_default_permissions_get_success \<Rightarrow> message" where
  "group_default_permissions_get_success_converter d =
     ([''group'', ''default'', ''permissions'', ''get'', ''success''],
      [(''group'', Val_str (group_default_permissions_get_success_group d)),
       (''read'', Val_bool (group_default_permissions_get_success_read d)),
       (''write'', Val_bool (group_default_permissions_get_success_write d)),
       (''execute'', Val_bool (group_default_permissions_get_success_execute d))])"

record group_default_permissions_set =
  group_default_permissions_set_group :: "string"
  group_default_permissions_set_read :: "bool"
  group_default_permissions_set_write :: "bool"
  group_default_permissions_set_execute :: "bool"

definition group_default_permissions_set_converter :: "group_default_permissions_set \<Rightarrow> message" where
  "group_default_permissions_set_converter d =
     ([''group'', ''default'', ''permissions'', ''set''],
      [(''group'', Val_str (group_default_permissions_set_group d)),
       (''read'', Val_bool (group_default_permissions_set_read d)),
       (''write'', Val_bool (group_default_permissions_set_write d)),
       (''execute'', Val_bool (group_default_permissions_set_execute d))])"

definition group_default_permissions_set_success :: message where
  "group_default_permissions_set_success = ([''group'', ''default'', ''permissions'', ''set'', ''success''], [])"

definition group_error_doesnt_exist :: message where
  "group_error_doesnt_exist = ([''group'', ''error'', ''doesnt_exist''], [])"

record system_version_info_success =
  system_version_info_success_webui_version :: "string"

definition system_version_info_success_converter :: "system_version_info_success \<Rightarrow> message" where
  "system_version_info_success_converter d =
     ([''system'', ''version'', ''info'', ''success''],
      [(''webui_version'', Val_str (system_version_info_success_webui_version d))])"

record user_api_key_generate_success =
  user_api_key_generate_success_api_key :: "string"

definition user_api_key_generate_success_converter :: "user_api_key_generate_success \<Rightarrow> message" where
  "user_api_key_generate_success_converter d =
     ([''user'', ''api_key'', ''generate'', ''success''],
      [(''APIAccessSecretKey'', Val_str (user_api_key_generate_success_api_key d))])"

record user_api_key_get_success =
  user_api_key_get_success_api_key :: "string"

definition user_api_key_get_success_converter :: "user_api_key_get_success \<Rightarrow> message" where
  "user_api_key_get_success_converter d =
     ([''user'', ''api_key'', ''get'', ''success''],
      [(''APIAccessSecretKey'', Val_str (user_api_key_get_success_api_key d))])"

definition user_api_key_remove_success :: message where
  "user_api_key_remove_success = ([''user'', ''api_key'', ''remove'', ''success''], [])"

definition user_change_pass_success :: message where
  "user_change_pass_success = ([''user'', ''change_pass'', ''success''], [])"

definition user_error_pass_doesnt_match :: message where
  "user_error_pass_doesnt_match = ([''user'', ''error'', ''pass_doesnt_match''], [])"

definition user_error_user_not_found :: message where
  "user_error_user_not_found = ([''user'', ''error'', ''user_not_found''], [])"

definition user_permission_error_access_denied :: message where
  "user_permission_error_access_denied = ([''user'', ''permission'', ''error'', ''access_denied''], [])"

section \<open>What a handler sends\<close>

text \<open>
  The three member functions of \<^verbatim>\<open>cis1::proto_utils::transaction\<close> that the handlers
  call.
\<close>

datatype ws_reply =
    Send message
  | Send_error message string
  | Send_error_msg string

end
