(* ===== verification/Request_Context.thy ===== *)
theory Request_Context
  imports Ws_Replies
begin

text \<open>
  \<^verbatim>\<open>request_context\<close> (\<^verbatim>\<open>include/request_context.h\<close>), what a handler of a web socket event leaves
  behind, and \<^verbatim>\<open>WSHU_CHECK_EC\<close>
  (\<^verbatim>\<open>include/websocket/handlers/utils/check_ec.h\<close>). A handler gets the context by
  reference and sends any number of replies; what it returns is the list of the replies in
  the order sent, the context and the state it leaves, and whether it ended with an exception.
\<close>

record client_info =
  ci_email :: string
  ci_active_token :: string
  ci_api_access_key :: string

text \<open>A status of 0 is \<^verbatim>\<open>status::unknown\<close>; verbs are named as on the wire.\<close>

record request_context =
  ctx_client_info :: "client_info option"
  ctx_session_id :: u64
  ctx_cookies :: "(string \<times> string) list"
  ctx_res_status :: nat
  ctx_allowed_verbs :: "string list"
  ctx_error :: string
  ctx_remote_addr :: "string \<times> 16 word"

definition empty_context :: request_context where
  "empty_context = \<lparr>ctx_client_info = None, ctx_session_id = 0, ctx_cookies = [], ctx_res_status = 0,
     ctx_allowed_verbs = [], ctx_error = [], ctx_remote_addr = ([], 0)\<rparr>"

record 's handled =
  h_replies :: "ws_reply list"
  h_ctx :: request_context
  h_state :: 's
  h_thrown :: bool

definition reply :: "ws_reply \<Rightarrow> request_context \<Rightarrow> 's \<Rightarrow> 's handled" where
  "reply r ctx s = \<lparr>h_replies = [r], h_ctx = ctx, h_state = s, h_thrown = False\<rparr>"

text \<open>A reply that is sent before the rest of the handler runs.\<close>

definition send_first :: "ws_reply \<Rightarrow> 's handled \<Rightarrow> 's handled" where
  "send_first r h = h\<lparr>h_replies := r # h_replies h\<rparr>"

definition threw :: "request_context \<Rightarrow> 's \<Rightarrow> 's handled" where
  "threw ctx s = \<lparr>h_replies = [], h_ctx = ctx, h_state = s, h_thrown = True\<rparr>"

abbreviation internal_error :: ws_reply where
  "internal_error \<equiv> Send_error_msg ''Internal error.''"

definition check_ec ::
    "request_context \<Rightarrow> 'a res \<times> 's \<Rightarrow> ('a \<Rightarrow> 's \<Rightarrow> 's handled) \<Rightarrow> 's handled" where
  "check_ec ctx r k =
     (case r of
        (Inl e, s) \<Rightarrow> reply internal_error ctx s
      | (Inr v, s) \<Rightarrow> k v s)"

definition check_ec_msg ::
    "request_context \<Rightarrow> string \<Rightarrow> 'a res \<times> 's \<Rightarrow> ('a \<Rightarrow> 's \<Rightarrow> 's handled) \<Rightarrow> 's handled" where
  "check_ec_msg ctx msg r k =
     (case r of
        (Inl e, s) \<Rightarrow> reply (Send_error_msg msg) ctx s
      | (Inr v, s) \<Rightarrow> k v s)"

lemma reply_simps [simp]:
  "h_replies (reply r ctx s) = [r]"
  "h_ctx (reply r ctx s) = ctx"
  "h_state (reply r ctx s) = s"
  "h_thrown (reply r ctx s) = False"
  by (simp_all add: reply_def)

lemma send_first_simps [simp]:
  "h_replies (send_first r h) = r # h_replies h"
  "h_ctx (send_first r h) = h_ctx h"
  "h_state (send_first r h) = h_state h"
  "h_thrown (send_first r h) = h_thrown h"
  by (simp_all add: send_first_def)

lemma threw_simps [simp]:
  "h_replies (threw ctx s) = []"
  "h_ctx (threw ctx s) = ctx"
  "h_state (threw ctx s) = s"
  "h_thrown (threw ctx s) = True"
  by (simp_all add: threw_def)

lemma check_ec_simps [simp]:
  "check_ec ctx (Inl e, s) k = reply internal_error ctx s"
  "check_ec ctx (Inr v, s) k = k v s"
  "check_ec_msg ctx msg (Inl e, s) k = reply (Send_error_msg msg) ctx s"
  "check_ec_msg ctx msg (Inr v, s) k = k v s"
  by (simp_all add: check_ec_def check_ec_msg_def)

lemma check_ec_cases:
  "check_ec ctx r k =
     (case fst r of Inl e \<Rightarrow> reply internal_error ctx (snd r) | Inr v \<Rightarrow> k v (snd r))"
  by (auto simp: check_ec_def split: sum.splits prod.splits)

end
