(* ===== verification/Base64_Codec.thy ===== *)
theory Base64_Codec
  imports Cis_Prelude
begin

unbundle bit_operations_syntax

text \<open>
  The base64 encoder of \<^verbatim>\<open>src/src/base64.cpp\<close>, which turns the 32 random bytes of a
  login token or of an API key into text. The encoder consumes one byte at a time and
  emits four characters whenever three bytes are buffered; what is left is padded.

  The lemmas: the byte-at-a-time loop computes the block-wise recursion
  \<open>b64_blocks\<close>, the output has the expected length and alphabet, and a reference
  decoder recovers the bytes, so that two different keys never share a text.
\<close>

section \<open>The encoder\<close>

definition base64_chars :: string where
  "base64_chars = ''ABCDEFGHIJKLMNOPQRSTUVWXYZabcdefghijklmnopqrstuvwxyz0123456789+/''"

text \<open>
  The arithmetic of the two conversion sequences, on unsigned bytes; the sums never
  carry, so computing on bytes agrees with the promotion to \<^verbatim>\<open>int\<close> of the source.
\<close>

definition char_array_4 :: "u8 \<Rightarrow> u8 \<Rightarrow> u8 \<Rightarrow> u8 list" where
  "char_array_4 c0 c1 c2 =
     [drop_bit 2 (c0 AND 0xfc),
      push_bit 4 (c0 AND 0x03) + drop_bit 4 (c1 AND 0xf0),
      push_bit 2 (c1 AND 0x0f) + drop_bit 6 (c2 AND 0xc0),
      c2 AND 0x3f]"

definition b64_char :: "u8 \<Rightarrow> char" where
  "b64_char s = base64_chars ! unat s"

text \<open>The loop state: the text so far, the fill level \<open>b64_i\<close> and the byte buffer.\<close>

record b64_state =
  b64_result :: string
  b64_i :: nat
  b64_array :: "u8 list"

definition b64_init :: b64_state where
  "b64_init = \<lparr>b64_result = [], b64_i = 0, b64_array = [0, 0, 0]\<rparr>"

definition b64_step :: "b64_state \<Rightarrow> u8 \<Rightarrow> b64_state" where
  "b64_step s c =
     (let arr = (b64_array s)[b64_i s := c]; i = Suc (b64_i s)
      in if i = 3
         then s\<lparr>b64_result := b64_result s @ map b64_char (char_array_4 (arr ! 0) (arr ! 1) (arr ! 2)),
                b64_i := 0, b64_array := arr\<rparr>
         else s\<lparr>b64_i := i, b64_array := arr\<rparr>)"

text \<open>After the loop: the unused bytes are zeroed, \<open>i + 1\<close> characters and the padding follow.\<close>

definition b64_finish :: "b64_state \<Rightarrow> string" where
  "b64_finish s =
     (let i = b64_i s
      in if i = 0 then b64_result s
         else let arr = take i (b64_array s) @ replicate (3 - i) 0
              in b64_result s
                 @ map b64_char (take (i + 1) (char_array_4 (arr ! 0) (arr ! 1) (arr ! 2)))
                 @ replicate (3 - i) CHR ''='')"

definition base64_encode :: "u8 list \<Rightarrow> string" where
  "base64_encode data = b64_finish (foldl b64_step b64_init data)"

section \<open>The block-wise recursion\<close>

fun b64_blocks :: "u8 list \<Rightarrow> string" where
  "b64_blocks (a # b # c # cs) = map b64_char (char_array_4 a b c) @ b64_blocks cs"
| "b64_blocks [a, b] = map b64_char (take 3 (char_array_4 a b 0)) @ ''=''"
| "b64_blocks [a] = map b64_char (take 2 (char_array_4 a 0 0)) @ ''==''"
| "b64_blocks [] = []"

lemma b64_loop_blocks:
  assumes "length arr = 3"
  shows "b64_finish (foldl b64_step \<lparr>b64_result = r, b64_i = 0, b64_array = arr\<rparr> data)
         = r @ b64_blocks data"
  using assms
proof (induction data arbitrary: r arr rule: b64_blocks.induct)
  case (1 a b c cs)
  then obtain x y z where "arr = [x, y, z]"
    by (auto simp: length_Suc_conv numeral_3_eq_3)
  with 1 show ?case
    by (simp add: b64_step_def Let_def)
next
  case (2 a b)
  then obtain x y z where "arr = [x, y, z]"
    by (auto simp: length_Suc_conv numeral_3_eq_3)
  then show ?case
    by (simp add: b64_step_def b64_finish_def Let_def eval_nat_numeral)
next
  case (3 a)
  then obtain x y z where "arr = [x, y, z]"
    by (auto simp: length_Suc_conv numeral_3_eq_3)
  then show ?case
    by (simp add: b64_step_def b64_finish_def Let_def numeral_2_eq_2)
next
  case 4
  then show ?case by (simp add: b64_finish_def)
qed

lemma base64_encode_blocks: "base64_encode data = b64_blocks data"
  using b64_loop_blocks [of "[0, 0, 0]" "[]" data]
  by (simp add: base64_encode_def b64_init_def)

lemma length_char_array_4 [simp]: "length (char_array_4 a b c) = 4"
  by (simp add: char_array_4_def)

lemma length_b64_blocks: "length (b64_blocks data) = 4 * ((length data + 2) div 3)"
proof (induction data rule: b64_blocks.induct)
  case (1 a b c cs)
  have "(length (a # b # c # cs) + 2) div 3 = Suc ((length cs + 2) div 3)"
    using div_add_self2 [of 3 "length cs + 2"] by simp
  with 1 show ?case by simp
qed simp_all

section \<open>Sextets and the alphabet\<close>

lemma length_base64_chars [simp]: "length base64_chars = 64"
  by (simp add: base64_chars_def)

lemma distinct_base64_chars: "distinct base64_chars"
  by (simp add: base64_chars_def)

lemma pad_notin_base64_chars: "CHR ''='' \<notin> set base64_chars"
  by (simp add: base64_chars_def)

text \<open>The inverse of the alphabet: the index of a character.\<close>

fun index_in :: "char \<Rightarrow> string \<Rightarrow> nat" where
  "index_in c [] = 0"
| "index_in c (d # ds) = (if c = d then 0 else Suc (index_in c ds))"

lemma index_in_nth: "distinct cs \<Longrightarrow> i < length cs \<Longrightarrow> index_in (cs ! i) cs = i"
  by (induction cs arbitrary: i) (auto simp: nth_Cons split: nat.splits)

definition b64_sextet :: "char \<Rightarrow> u8" where
  "b64_sextet c = word_of_nat (index_in c base64_chars)"

lemma b64_sextet_char: "unat s < 64 \<Longrightarrow> b64_sextet (b64_char s) = s"
  by (simp add: b64_sextet_def b64_char_def index_in_nth distinct_base64_chars)

lemma b64_char_not_pad: "unat s < 64 \<Longrightarrow> b64_char s \<noteq> CHR ''=''"
  by (metis b64_char_def length_base64_chars nth_mem pad_notin_base64_chars)

text \<open>The conversion read as arithmetic on the byte values.\<close>

lemma unat_and_mask: "unat (x AND mask n :: u8) = unat x mod 2 ^ n"
  unfolding take_bit_eq_mask [symmetric] unsigned_take_bit_eq
  by (rule take_bit_eq_mod)

lemma unat_and_3 [simp]: "unat (x AND 3 :: u8) = unat x mod 4"
  using unat_and_mask [of x 2] by (simp add: mask_eq_exp_minus_1)

lemma unat_and_15 [simp]: "unat (x AND 15 :: u8) = unat x mod 16"
  using unat_and_mask [of x 4] by (simp add: mask_eq_exp_minus_1)

lemma unat_and_63 [simp]: "unat (x AND 63 :: u8) = unat x mod 64"
  using unat_and_mask [of x 6] by (simp add: mask_eq_exp_minus_1)

lemma unat_u8_less: "unat (x :: u8) < 256"
  using unsigned_less [of x] by simp

lemma unat_high_bits [simp]:
  fixes x :: u8
  shows "unat (drop_bit 2 (x AND 0xfc)) = unat x div 4"
    and "unat (drop_bit 4 (x AND 0xf0)) = unat x div 16"
    and "unat (drop_bit 6 (x AND 0xc0)) = unat x div 64"
proof -
  have lt: "unat x < 256" by (rule unat_u8_less)
  have "drop_bit 2 (x AND 0xfc) = drop_bit 2 x AND 63"
    by (simp add: drop_bit_and)
  then have "unat (drop_bit 2 (x AND 0xfc)) = unat x div 4 mod 64"
    by (simp only: unat_and_63 unat_drop_bit_eq) (simp add: drop_bit_eq_div)
  then show "unat (drop_bit 2 (x AND 0xfc)) = unat x div 4"
    using lt by (simp only:) simp
  have "drop_bit 4 (x AND 0xf0) = drop_bit 4 x AND 15"
    by (simp add: drop_bit_and)
  then have "unat (drop_bit 4 (x AND 0xf0)) = unat x div 16 mod 16"
    by (simp only: unat_and_15 unat_drop_bit_eq) (simp add: drop_bit_eq_div)
  then show "unat (drop_bit 4 (x AND 0xf0)) = unat x div 16"
    using lt by (simp only:) simp
  have "drop_bit 6 (x AND 0xc0) = drop_bit 6 x AND 3"
    by (simp add: drop_bit_and)
  then have "unat (drop_bit 6 (x AND 0xc0)) = unat x div 64 mod 4"
    by (simp only: unat_and_3 unat_drop_bit_eq) (simp add: drop_bit_eq_div)
  then show "unat (drop_bit 6 (x AND 0xc0)) = unat x div 64"
    using lt by (simp only:) simp
qed

lemma unat_push_bit_u8:
  "unat x * 2 ^ n < 256 \<Longrightarrow> unat (push_bit n x :: u8) = unat x * 2 ^ n"
  unfolding unsigned_push_bit_eq by (simp add: push_bit_eq_mult take_bit_eq_mod)

lemma unat_sextets:
  "map unat (char_array_4 c0 c1 c2) =
     [unat c0 div 4, 16 * (unat c0 mod 4) + unat c1 div 16,
      4 * (unat c1 mod 16) + unat c2 div 64, unat c2 mod 64]"
proof -
  have lt: "unat c0 < 256" "unat c1 < 256" "unat c2 < 256" by (rule unat_u8_less)+
  have p4: "unat (push_bit 4 (c0 AND 3)) = 16 * (unat c0 mod 4)"
    by (subst unat_push_bit_u8) simp_all
  have p2: "unat (push_bit 2 (c1 AND 15)) = 4 * (unat c1 mod 16)"
    by (subst unat_push_bit_u8) simp_all
  have "unat (push_bit 4 (c0 AND 3) + drop_bit 4 (c1 AND 0xf0))
          = 16 * (unat c0 mod 4) + unat c1 div 16"
    using lt by (simp only: unat_word_ariths p4 unat_high_bits) simp
  moreover have "unat (push_bit 2 (c1 AND 15) + drop_bit 6 (c2 AND 0xc0))
          = 4 * (unat c1 mod 16) + unat c2 div 64"
    using lt by (simp only: unat_word_ariths p2 unat_high_bits) simp
  ultimately show ?thesis
    by (simp only: char_array_4_def list.map unat_and_63 unat_high_bits)
qed

lemma sextets_less_64: "s \<in> set (char_array_4 c0 c1 c2) \<Longrightarrow> unat s < 64"
proof -
  assume "s \<in> set (char_array_4 c0 c1 c2)"
  then have "unat s \<in> set (map unat (char_array_4 c0 c1 c2))" by (metis image_eqI list.set_map)
  moreover have "unat c0 < 256" "unat c1 < 256" "unat c2 < 256" by (rule unat_u8_less)+
  ultimately show ?thesis by (auto simp: unat_sextets)
qed

section \<open>A reference decoder and the round trip\<close>

definition b64_byte_0 :: "u8 \<Rightarrow> u8 \<Rightarrow> u8" where
  "b64_byte_0 s0 s1 = word_of_nat (4 * unat s0 + unat s1 div 16)"

definition b64_byte_1 :: "u8 \<Rightarrow> u8 \<Rightarrow> u8" where
  "b64_byte_1 s1 s2 = word_of_nat (16 * (unat s1 mod 16) + unat s2 div 4)"

definition b64_byte_2 :: "u8 \<Rightarrow> u8 \<Rightarrow> u8" where
  "b64_byte_2 s2 s3 = word_of_nat (64 * (unat s2 mod 4) + unat s3)"

fun b64_decode :: "string \<Rightarrow> u8 list" where
  "b64_decode (a # b # c # d # cs) =
     (let s0 = b64_sextet a; s1 = b64_sextet b; s2 = b64_sextet c; s3 = b64_sextet d
      in if c = CHR ''='' then [b64_byte_0 s0 s1]
         else if d = CHR ''='' then [b64_byte_0 s0 s1, b64_byte_1 s1 s2]
         else b64_byte_0 s0 s1 # b64_byte_1 s1 s2 # b64_byte_2 s2 s3 # b64_decode cs)"
| "b64_decode _ = []"

lemma div_mult_add:
  fixes t k r :: nat
  assumes "t < k"
  shows "(k * r + t) div k = r" and "(k * r + t) mod k = t"
  using assms by simp_all

lemma b64_bytes_inverse:
  assumes "char_array_4 c0 c1 c2 = [s0, s1, s2, s3]"
  shows "b64_byte_0 s0 s1 = c0" and "b64_byte_1 s1 s2 = c1" and "b64_byte_2 s2 s3 = c2"
proof -
  have lt: "unat c1 div 16 < 16" "unat c2 div 64 < 4"
    using unat_u8_less [of c1] unat_u8_less [of c2] by simp_all
  have s: "unat s0 = unat c0 div 4" "unat s1 = 16 * (unat c0 mod 4) + unat c1 div 16"
    "unat s2 = 4 * (unat c1 mod 16) + unat c2 div 64" "unat s3 = unat c2 mod 64"
    using unat_sextets [of c0 c1 c2] assms by simp_all
  have "4 * unat s0 + unat s1 div 16 = unat c0"
    unfolding s div_mult_add [OF lt(1)] by (rule mult_div_mod_eq)
  then show "b64_byte_0 s0 s1 = c0" by (simp add: b64_byte_0_def)
  have "16 * (unat s1 mod 16) + unat s2 div 4 = unat c1"
    unfolding s div_mult_add [OF lt(1)] div_mult_add [OF lt(2)] by (rule mult_div_mod_eq)
  then show "b64_byte_1 s1 s2 = c1" by (simp add: b64_byte_1_def)
  have "64 * (unat s2 mod 4) + unat s3 = unat c2"
    unfolding s div_mult_add [OF lt(2)] by (rule mult_div_mod_eq)
  then show "b64_byte_2 s2 s3 = c2" by (simp add: b64_byte_2_def)
qed

lemma char_array_4_obtain:
  obtains s0 s1 s2 s3 where "char_array_4 c0 c1 c2 = [s0, s1, s2, s3]"
    and "unat s0 < 64" and "unat s1 < 64" and "unat s2 < 64" and "unat s3 < 64"
  using sextets_less_64 [of _ c0 c1 c2] by (auto simp: char_array_4_def)

lemma b64_decode_blocks: "b64_decode (b64_blocks data) = data"
proof (induction data rule: b64_blocks.induct)
  case (1 a b c cs)
  obtain s0 s1 s2 s3 where s: "char_array_4 a b c = [s0, s1, s2, s3]"
    "unat s0 < 64" "unat s1 < 64" "unat s2 < 64" "unat s3 < 64"
    by (rule char_array_4_obtain)
  with 1 b64_bytes_inverse [OF s(1)] show ?case
    by (simp add: b64_sextet_char b64_char_not_pad)
next
  case (2 a b)
  obtain s0 s1 s2 s3 where s: "char_array_4 a b 0 = [s0, s1, s2, s3]"
    "unat s0 < 64" "unat s1 < 64" "unat s2 < 64" "unat s3 < 64"
    by (rule char_array_4_obtain)
  with b64_bytes_inverse [OF s(1)] show ?case
    by (simp add: b64_sextet_char b64_char_not_pad)
next
  case (3 a)
  obtain s0 s1 s2 s3 where s: "char_array_4 a 0 0 = [s0, s1, s2, s3]"
    "unat s0 < 64" "unat s1 < 64" "unat s2 < 64" "unat s3 < 64"
    by (rule char_array_4_obtain)
  with b64_bytes_inverse [OF s(1)] show ?case
    by (simp add: b64_sextet_char b64_char_not_pad)
next
  case 4
  then show ?case by simp
qed

text \<open>
  The base64 text of a key determines the key: the reference decoder recovers the
  bytes from the text the byte-at-a-time encoder of the source produces, for every input
  length (a multiple of three or one with padding).
\<close>

theorem base64_roundtrip: "b64_decode (base64_encode data) = data"
  by (simp add: base64_encode_blocks b64_decode_blocks)

text \<open>
  The shape of the output: four characters for every three bytes begun. The 32 random
  bytes of a token therefore become 44 characters.
\<close>

lemma base64_length: "length (base64_encode data) = 4 * ((length data + 2) div 3)"
  by (simp add: base64_encode_blocks length_b64_blocks)

lemma base64_inj: "base64_encode x = base64_encode y \<Longrightarrow> x = y"
  by (metis base64_encode_blocks b64_decode_blocks)

end
