(* ===== verification/Auth_Manager.thy ===== *)
theory Auth_Manager
  imports Database Base64_Codec
begin

text \<open>
  \<^verbatim>\<open>auth_manager\<close> (\<^verbatim>\<open>src/auth_manager.cpp\<close>): accounts, login tokens and API keys.
  Every member function is a transaction on the database and returns its value together
  with the database it leaves. The clock (\<^verbatim>\<open>std::time\<close>, in seconds) and the random
  bytes of \<^verbatim>\<open>openssl::rand\<close> are arguments; the \<open>i\<close>-th draw of a login is
  \<open>rnd i\<close>.

  The lemmas: every operation keeps the schema; a failed one leaves the database as it
  was; a login stores a token that authenticates the same account until it expires;
  a deleted account leaves no token and no key behind.
\<close>

section \<open>Records of the interface\<close>

record user_info =
  ui_email :: string
  ui_api_access_key :: "string option"
  ui_is_admin :: bool

section \<open>Login with a password\<close>

text \<open>\<^verbatim>\<open>std::chrono::hours(24*7)\<close> in seconds.\<close>

definition token_lifetime :: u64 where
  "token_lifetime = 604800"

text \<open>
  The loop that draws a token until its insertion succeeds; a violated constraint is
  caught and the next value is drawn. \<open>None\<close> is a loop that does not end.
\<close>

partial_function (option) draw_token ::
    "engine \<Rightarrow> (nat \<Rightarrow> u8 list) \<Rightarrow> int \<Rightarrow> u64 \<Rightarrow> database \<Rightarrow> nat \<Rightarrow> (string \<times> database) option" where
  "draw_token eng rnd uid expiration db i =
     (let token_str = base64_encode (rnd i)
      in case insert_token eng \<lparr>token_id = -1, token_user_id = uid, token_value = token_str,
                                token_expiration_time = expiration\<rparr> db of
           Inr db' \<Rightarrow> Some (token_str, db')
         | Inl _ \<Rightarrow> draw_token eng rnd uid expiration db (Suc i))"

definition ids_by_credentials :: "string \<Rightarrow> string \<Rightarrow> database \<Rightarrow> int list" where
  "ids_by_credentials email pass db =
     map user_id (filter (\<lambda>u. user_email u = email \<and> user_pass u = pass) (db_users db))"

definition ids_by_email :: "string \<Rightarrow> database \<Rightarrow> int list" where
  "ids_by_email email db = map user_id (filter (\<lambda>u. user_email u = email) (db_users db))"

definition authenticate_pass ::
    "engine \<Rightarrow> (nat \<Rightarrow> u8 list) \<Rightarrow> u64 \<Rightarrow> string \<Rightarrow> string \<Rightarrow> database
      \<Rightarrow> (string option res \<times> database) option" where
  "authenticate_pass eng rnd now email pass db =
     (case eng_fault eng db of
        Some e \<Rightarrow> Some (Inl e, db)
      | None \<Rightarrow>
          (case ids_by_credentials email pass db of
             [uid] \<Rightarrow>
               map_option (\<lambda>(token_str, db'). (Inr (Some token_str), db'))
                 (draw_token eng rnd uid (now + token_lifetime) db 0)
           | _ \<Rightarrow> Some (Inr None, db)))"

section \<open>Login with a token\<close>

text \<open>
  An expired token is removed. Otherwise the address of its user is returned; the code
  reads the first row without a check, which the foreign key of the tokens justifies
  (\<open>token_owner_exists\<close>).
\<close>

definition authenticate_token ::
    "engine \<Rightarrow> u64 \<Rightarrow> string \<Rightarrow> database \<Rightarrow> string option res \<times> database" where
  "authenticate_token eng now value =
     run_tx eng (\<lambda>db.
       case filter (\<lambda>t. token_value t = value) (db_tokens db) of
         [t] \<Rightarrow>
           (if token_expiration_time t < now
            then commit None (db\<lparr>db_tokens := filter (\<lambda>t. token_value t \<noteq> value) (db_tokens db)\<rparr>)
            else commit (Some (map user_email
                   (filter (\<lambda>u. user_id u = token_user_id t) (db_users db)) ! 0)) db)
       | _ \<Rightarrow> rollback None db)"

section \<open>Accounts\<close>

definition has_user :: "engine \<Rightarrow> string \<Rightarrow> database \<Rightarrow> bool res \<times> database" where
  "has_user eng email =
     run_tx eng (\<lambda>db.
       if filter (\<lambda>u. user_email u = email) (db_users db) \<noteq> []
       then commit True db else rollback False db)"

definition check_pass :: "engine \<Rightarrow> string \<Rightarrow> string \<Rightarrow> database \<Rightarrow> bool res \<times> database" where
  "check_pass eng email pass =
     run_tx eng (\<lambda>db. rollback (length (ids_by_credentials email pass db) = 1) db)"

definition change_pass :: "engine \<Rightarrow> string \<Rightarrow> string \<Rightarrow> database \<Rightarrow> bool res \<times> database" where
  "change_pass eng email new_pass db =
     (if new_pass = [] then (Inr False, db)
      else run_tx eng (\<lambda>db.
        case ids_by_email email db of
          [uid] \<Rightarrow> commit True (db\<lparr>db_users :=
             map (\<lambda>u. if user_id u = uid then u\<lparr>user_pass := new_pass\<rparr> else u) (db_users db)\<rparr>)
        | _ \<Rightarrow> rollback False db) db)"

definition add_user :: "engine \<Rightarrow> string \<Rightarrow> string \<Rightarrow> bool \<Rightarrow> database \<Rightarrow> bool res \<times> database" where
  "add_user eng email pass admin =
     run_tx eng (\<lambda>db.
       if length (filter (\<lambda>u. user_email u = email) (db_users db)) = 0
       then (case insert_user eng \<lparr>user_id = -1, user_email = email, user_pass = pass,
                                   user_admin = admin\<rparr> db of
               Inl e \<Rightarrow> Inl e
             | Inr db' \<Rightarrow> commit True db')
       else rollback False db)"

definition delete_user :: "engine \<Rightarrow> string \<Rightarrow> database \<Rightarrow> bool res \<times> database" where
  "delete_user eng email =
     run_tx eng (\<lambda>db.
       case ids_by_email email db of
         [uid] \<Rightarrow> commit True (remove_user uid db)
       | _ \<Rightarrow> rollback False db)"

definition get_users :: "engine \<Rightarrow> database \<Rightarrow> user list res \<times> database" where
  "get_users eng db =
     (case eng_fault eng db of Some e \<Rightarrow> (Inl e, db) | None \<Rightarrow> (Inr (db_users db), db))"

definition api_key_of :: "int \<Rightarrow> database \<Rightarrow> string option" where
  "api_key_of uid db =
     (case map api_access_key_value (filter (\<lambda>k. api_access_key_user_id k = uid) (db_api_keys db)) of
        [v] \<Rightarrow> Some v
      | _ \<Rightarrow> None)"

definition get_user_info :: "engine \<Rightarrow> string \<Rightarrow> database \<Rightarrow> user_info option res \<times> database" where
  "get_user_info eng email =
     run_tx eng (\<lambda>db.
       case filter (\<lambda>u. user_email u = email) (db_users db) of
         [u] \<Rightarrow> commit (Some \<lparr>ui_email = email, ui_api_access_key = api_key_of (user_id u) db,
                              ui_is_admin = user_admin u\<rparr>) db
       | _ \<Rightarrow> rollback None db)"

definition get_user_infos :: "engine \<Rightarrow> database \<Rightarrow> user_info list res \<times> database" where
  "get_user_infos eng =
     run_tx eng (\<lambda>db. commit
       (map (\<lambda>u. \<lparr>ui_email = user_email u, ui_api_access_key = api_key_of (user_id u) db,
                  ui_is_admin = user_admin u\<rparr>) (db_users db)) db)"

section \<open>API keys\<close>

text \<open>
  One draw only: a violated constraint (the account has a key already, or the value is
  taken) ends the call without a key and without an error.
\<close>

definition generate_api_key ::
    "engine \<Rightarrow> u8 list \<Rightarrow> string \<Rightarrow> database \<Rightarrow> string option res \<times> database" where
  "generate_api_key eng key_bytes email =
     run_tx eng (\<lambda>db.
       case ids_by_email email db of
         [uid] \<Rightarrow>
           (let key_str = base64_encode key_bytes
            in case insert_api_key eng \<lparr>api_access_key_id = -1, api_access_key_user_id = uid,
                                       api_access_key_value = key_str\<rparr> db of
                 Inl _ \<Rightarrow> rollback None db
               | Inr db' \<Rightarrow> commit (Some key_str) db')
       | _ \<Rightarrow> rollback None db)"

text \<open>The join of the keys with the users on the account, restricted to an address.\<close>

definition api_keys_by_email :: "string \<Rightarrow> database \<Rightarrow> api_access_key list" where
  "api_keys_by_email email db =
     filter (\<lambda>k. \<exists>u \<in> set (db_users db). user_id u = api_access_key_user_id k \<and> user_email u = email)
       (db_api_keys db)"

definition get_api_key :: "engine \<Rightarrow> string \<Rightarrow> database \<Rightarrow> string option res \<times> database" where
  "get_api_key eng email =
     run_tx eng (\<lambda>db.
       case map api_access_key_value (api_keys_by_email email db) of
         [v] \<Rightarrow> commit (Some v) db
       | _ \<Rightarrow> rollback None db)"

definition remove_api_key :: "engine \<Rightarrow> string \<Rightarrow> database \<Rightarrow> bool res \<times> database" where
  "remove_api_key eng email =
     run_tx eng (\<lambda>db.
       case map api_access_key_id (api_keys_by_email email db) of
         [i] \<Rightarrow> commit True
           (db\<lparr>db_api_keys := filter (\<lambda>k. api_access_key_id k \<noteq> i) (db_api_keys db)\<rparr>)
       | _ \<Rightarrow> rollback False db)"

section \<open>Tokens\<close>

definition delete_token :: "engine \<Rightarrow> string \<Rightarrow> database \<Rightarrow> bool res \<times> database" where
  "delete_token eng value =
     run_tx eng (\<lambda>db.
       commit True (db\<lparr>db_tokens := filter (\<lambda>t. token_value t \<noteq> value) (db_tokens db)\<rparr>))"

text \<open>
  The periodic clean-up. The comparison is made by the engine on its signed integers.
  The constructor runs it once, the timer again every twelve hours.
\<close>

definition auth_cleanup :: "engine \<Rightarrow> u64 \<Rightarrow> database \<Rightarrow> unit res \<times> database" where
  "auth_cleanup eng now =
     run_tx eng (\<lambda>db.
       commit () (db\<lparr>db_tokens := filter (\<lambda>t. \<not> (token_expiration_time t <s now)) (db_tokens db)\<rparr>))"

lemmas auth_ops_defs =
  authenticate_token_def has_user_def check_pass_def change_pass_def add_user_def
  delete_user_def get_users_def get_user_info_def get_user_infos_def generate_api_key_def
  get_api_key_def remove_api_key_def delete_token_def auth_cleanup_def

section \<open>Errors leave the database unchanged\<close>

lemma auth_errors_frame:
  "authenticate_token eng now v db = (Inl e, db') \<Longrightarrow> db' = db"
  "change_pass eng email p db = (Inl e, db') \<Longrightarrow> db' = db"
  "add_user eng email p a db = (Inl e, db') \<Longrightarrow> db' = db"
  "delete_user eng email db = (Inl e, db') \<Longrightarrow> db' = db"
  "generate_api_key eng kb email db = (Inl e, db') \<Longrightarrow> db' = db"
  "remove_api_key eng email db = (Inl e, db') \<Longrightarrow> db' = db"
  "delete_token eng v db = (Inl e, db') \<Longrightarrow> db' = db"
  by (auto simp: auth_ops_defs dest: run_tx_error split: if_splits)

lemma authenticate_pass_error_frame:
  "authenticate_pass eng rnd now email pass db = Some (Inl e, db') \<Longrightarrow> db' = db"
  by (auto simp: authenticate_pass_def split: option.splits list.splits)

text \<open>The queries never write.\<close>

lemma auth_queries_frame [simp]:
  "snd (has_user eng email db) = db"
  "snd (check_pass eng email pass db) = db"
  "snd (get_users eng db) = db"
  "snd (get_user_info eng email db) = db"
  "snd (get_user_infos eng db) = db"
  "snd (get_api_key eng email db) = db"
  by (auto simp: auth_ops_defs run_tx_def commit_def rollback_def
      split: option.splits list.splits if_splits)

section \<open>Every operation keeps the schema\<close>

lemma draw_token_sound:
  assumes "draw_token eng rnd uid expiration db i = Some (tok, db')"
  shows "\<exists>j \<ge> i. tok = base64_encode (rnd j)
           \<and> insert_token eng \<lparr>token_id = -1, token_user_id = uid, token_value = tok,
                               token_expiration_time = expiration\<rparr> db = Inr db'"
proof -
  have "\<exists>j \<ge> i. fst r = base64_encode (rnd j)
           \<and> insert_token eng \<lparr>token_id = -1, token_user_id = uid, token_value = fst r,
                               token_expiration_time = expiration\<rparr> db = Inr (snd r)"
    if "draw_token eng rnd uid expiration db i = Some r" for r
  proof (rule draw_token.raw_induct
      [where P = "\<lambda>eng rnd uid expiration db i r. \<exists>j \<ge> i. fst r = base64_encode (rnd j)
           \<and> insert_token eng \<lparr>token_id = -1, token_user_id = uid, token_value = fst r,
                               token_expiration_time = expiration\<rparr> db = Inr (snd r)", OF _ that])
    fix f eng rnd uid expiration db i r
    assume IH: "\<And>eng rnd uid expiration db i r. f eng rnd uid expiration db i = Some r \<Longrightarrow>
        \<exists>j \<ge> i. fst r = base64_encode (rnd j)
           \<and> insert_token eng \<lparr>token_id = -1, token_user_id = uid, token_value = fst r,
                               token_expiration_time = expiration\<rparr> db = Inr (snd r)"
      and eq: "(let token_str = base64_encode (rnd i)
          in case insert_token eng \<lparr>token_id = -1, token_user_id = uid, token_value = token_str,
                                token_expiration_time = expiration\<rparr> db of
             Inl x \<Rightarrow> f eng rnd uid expiration db (Suc i)
           | Inr db' \<Rightarrow> Some (token_str, db')) = Some r"
    show "\<exists>j \<ge> i. fst r = base64_encode (rnd j)
           \<and> insert_token eng \<lparr>token_id = -1, token_user_id = uid, token_value = fst r,
                               token_expiration_time = expiration\<rparr> db = Inr (snd r)"
      using eq by (auto simp: Let_def split: sum.splits dest!: IH intro: Suc_leD)
  qed
  from this [OF assms] show ?thesis by simp
qed

lemma insert_token_Inr:
  "insert_token eng t db = Inr db' \<longleftrightarrow>
     token_value t \<notin> token_value ` set (db_tokens db) \<and> token_user_id t \<in> user_id ` set (db_users db)
     \<and> db' = db\<lparr>db_tokens := db_tokens db
                 @ [t\<lparr>token_id := eng_next_id eng (map token_id (db_tokens db))\<rparr>]\<rparr>"
  by (auto simp: insert_token_def)

text \<open>
  The draw ends as soon as the generator produces a value that is not in use: the loop
  cannot run forever for an account that exists and a generator that is not stuck on
  values already taken.
\<close>

lemma draw_token_terminates:
  assumes "uid \<in> user_id ` set (db_users db)" and "i \<le> n"
    and "base64_encode (rnd n) \<notin> token_value ` set (db_tokens db)"
  shows "draw_token eng rnd uid expiration db i \<noteq> None"
  using assms(2)
proof (induction "n - i" arbitrary: i)
  case 0
  with assms have "insert_token eng \<lparr>token_id = -1, token_user_id = uid,
      token_value = base64_encode (rnd i), token_expiration_time = expiration\<rparr> db \<noteq> Inl e" for e
    by (auto simp: insert_token_def)
  then show ?case
    by (subst draw_token.simps) (auto simp: Let_def split: sum.splits)
next
  case (Suc d)
  then have "draw_token eng rnd uid expiration db (Suc i) \<noteq> None" by simp
  then show ?case
    by (subst draw_token.simps) (auto simp: Let_def split: sum.splits)
qed

lemma authenticate_pass_ok [inv_intros]:
  assumes "database_ok db" "fresh_ids eng" "authenticate_pass eng rnd now email pass db = Some (r, db')"
  shows "database_ok db'"
  using assms
  by (fastforce simp: authenticate_pass_def split: option.splits list.splits
      dest: draw_token_sound intro: insert_token_ok)

lemma filter_tokens_ok: "database_ok db \<Longrightarrow> database_ok (db\<lparr>db_tokens := filter P (db_tokens db)\<rparr>)"
  by (auto simp: database_ok_def distinct_map_filter)

lemma filter_api_keys_ok: "database_ok db \<Longrightarrow> database_ok (db\<lparr>db_api_keys := filter P (db_api_keys db)\<rparr>)"
  by (auto simp: database_ok_def distinct_map_filter)

lemmas tx_body_simps = commit_def rollback_def Let_def

lemma auth_ops_ok [inv_intros]:
  assumes "database_ok db"
  shows "database_ok (snd (authenticate_token eng now v db))"
    and "database_ok (snd (change_pass eng email p db))"
    and "database_ok (snd (delete_user eng email db))"
    and "database_ok (snd (remove_api_key eng email db))"
    and "database_ok (snd (delete_token eng v db))"
    and "database_ok (snd (auth_cleanup eng now db))"
  using assms
  by (auto simp: auth_ops_defs run_tx_def tx_body_simps map_update_users
      split: option.splits list.splits if_splits
      intro: filter_tokens_ok filter_api_keys_ok remove_user_ok)

lemma auth_inserts_ok [inv_intros]:
  assumes "database_ok db" "fresh_ids eng"
  shows "database_ok (snd (add_user eng email p a db))"
    and "database_ok (snd (generate_api_key eng kb email db))"
  using assms
  by (auto simp: auth_ops_defs run_tx_def tx_body_simps
      split: option.splits list.splits sum.splits if_splits
      intro: insert_user_ok insert_api_key_ok)

section \<open>Login\<close>

lemma ids_by_email_unique:
  assumes "database_ok db" "u \<in> set (db_users db)"
  shows "filter (\<lambda>v. user_email v = user_email u) (db_users db) = [u]"
  using assms by (simp add: database_ok_def filter_unique_eq)

lemma user_by_id_unique:
  assumes "database_ok db" "u \<in> set (db_users db)"
  shows "filter (\<lambda>v. user_id v = user_id u) (db_users db) = [u]"
  using assms by (simp add: database_ok_def filter_unique_eq)

lemma token_by_value_unique:
  assumes "database_ok db" "t \<in> set (db_tokens db)"
  shows "filter (\<lambda>s. token_value s = token_value t) (db_tokens db) = [t]"
  using assms by (simp add: database_ok_def filter_unique_eq)

text \<open>The row that \<^verbatim>\<open>authenticate(token)\<close> reads without a check always exists.\<close>

lemma token_owner_exists:
  assumes "database_ok db" "t \<in> set (db_tokens db)"
  obtains u where "u \<in> set (db_users db)" and "user_id u = token_user_id t"
    and "filter (\<lambda>v. user_id v = token_user_id t) (db_users db) = [u]"
proof -
  from assms obtain u where u: "u \<in> set (db_users db)" "user_id u = token_user_id t"
    by (auto simp: database_ok_def)
  with user_by_id_unique [OF assms(1) u(1)] that show ?thesis by simp
qed

lemma ids_by_credentials_single:
  assumes "database_ok db" "ids_by_credentials email pass db = [uid]"
  obtains u where "u \<in> set (db_users db)" "user_id u = uid" "user_email u = email" "user_pass u = pass"
proof -
  from assms(2) have "uid \<in> set (ids_by_credentials email pass db)" by simp
  with that show ?thesis by (auto simp: ids_by_credentials_def)
qed

lemma authenticate_pass_Some:
  assumes "authenticate_pass eng rnd now email pass db = Some (Inr (Some tok), db')"
  obtains uid where "ids_by_credentials email pass db = [uid]"
    and "insert_token eng \<lparr>token_id = -1, token_user_id = uid, token_value = tok,
           token_expiration_time = now + token_lifetime\<rparr> db = Inr db'"
  using assms
  by (auto simp: authenticate_pass_def split: option.splits list.splits dest!: draw_token_sound)

text \<open>
  C1. A login that returns a token stores it for the account the credentials name: until
  the lifetime of a week has passed, presenting the token to \<^verbatim>\<open>authenticate(token)\<close>
  returns the e-mail address of the login, and from then on it returns nothing and the
  token is gone.
\<close>

theorem login_token_roundtrip:
  assumes "database_ok db"
    and "authenticate_pass eng rnd now email pass db = Some (Inr (Some tok), db')"
    and "eng_fault eng db' = None"
  shows "authenticate_token eng later tok db' =
           (if now + token_lifetime < later then (Inr None, db) else (Inr (Some email), db'))"
proof -
  from assms(2) obtain uid where uid: "ids_by_credentials email pass db = [uid]"
    and ins: "insert_token eng \<lparr>token_id = -1, token_user_id = uid, token_value = tok,
           token_expiration_time = now + token_lifetime\<rparr> db = Inr db'"
    by (rule authenticate_pass_Some)
  from assms(1) uid obtain u where u: "u \<in> set (db_users db)" "user_id u = uid" "user_email u = email"
    by (rule ids_by_credentials_single)
  from ins have fresh: "tok \<notin> token_value ` set (db_tokens db)"
    and db': "db' = db\<lparr>db_tokens := db_tokens db @ [\<lparr>token_id = eng_next_id eng (map token_id (db_tokens db)),
        token_user_id = uid, token_value = tok, token_expiration_time = now + token_lifetime\<rparr>]\<rparr>"
    by (auto simp: insert_token_Inr)
  from fresh have none: "filter (\<lambda>t. token_value t = tok) (db_tokens db) = []"
    and all: "filter (\<lambda>t. token_value t \<noteq> tok) (db_tokens db) = db_tokens db"
    by (auto simp: filter_empty_conv filter_id_conv)
  have "filter (\<lambda>v. user_id v = uid) (db_users db) = [u]"
    using user_by_id_unique [OF assms(1) u(1)] u(2) by simp
  with none all u assms(3) show ?thesis
    by (simp add: authenticate_token_def run_tx_def db' commit_def)
qed

definition alice_db :: database where
  "alice_db = \<lparr>db_users = [\<lparr>user_id = 1, user_email = ''a@x'', user_pass = ''pw'', user_admin = False\<rparr>],
     db_projects = [], db_rights = [], db_tokens = [], db_api_keys = []\<rparr>"

lemma alice_login:
  "authenticate_pass reliable_engine (\<lambda>i. [1, 2, 3]) 1000 ''a@x'' ''pw'' alice_db =
     Some (Inr (Some ''AQID''), alice_db\<lparr>db_tokens := [\<lparr>token_id = 1, token_user_id = 1,
       token_value = ''AQID'', token_expiration_time = 605800\<rparr>]\<rparr>)"
  by (simp add: authenticate_pass_def reliable_engine_def ids_by_credentials_def alice_db_def
      draw_token.simps insert_token_def base64_encode_blocks char_array_4_def b64_char_def
      base64_chars_def max_plus_1_def token_lifetime_def Let_def)

theorem login_token_roundtrip_witness:
  "\<exists>db'. authenticate_token reliable_engine 2000 ''AQID'' db' = (Inr (Some ''a@x''), db')"
proof -
  have ok: "database_ok alice_db" by (simp add: database_ok_def alice_db_def)
  show ?thesis
    using login_token_roundtrip [OF ok alice_login, of 2000]
    by (auto simp: reliable_engine_def token_lifetime_def)
qed

section \<open>Deleting an account\<close>

lemma ids_by_email_single:
  assumes "ids_by_email email db = [uid]"
  obtains u where "u \<in> set (db_users db)" "user_id u = uid" "user_email u = email"
proof -
  from assms have "uid \<in> set (ids_by_email email db)" by simp
  with that show ?thesis by (auto simp: ids_by_email_def)
qed

lemma delete_user_True:
  assumes "delete_user eng email db = (Inr True, db')"
  obtains uid where "ids_by_email email db = [uid]" and "db' = remove_user uid db"
  using assms
  by (auto simp: delete_user_def run_tx_def tx_body_simps split: option.splits list.splits)

lemma delete_user_revokes_parts:
  assumes "database_ok db" and "delete_user eng email db = (Inr True, db')"
    and "u \<in> set (db_users db)" and "user_email u = email" and "eng_fault eng db' = None"
  shows "\<forall>t \<in> set (db_tokens db). token_user_id t = user_id u \<longrightarrow>
           authenticate_token eng later (token_value t) db' = (Inr None, db')"
    and "get_api_key eng email db' = (Inr None, db')"
    and "authenticate_pass eng rnd now email pass db' = Some (Inr None, db')"
proof -
  from assms(2) obtain uid where uid: "ids_by_email email db = [uid]" and db': "db' = remove_user uid db"
    by (rule delete_user_True)
  from uid assms(3,4) ids_by_email_unique [OF assms(1,3)] have uid_u: "uid = user_id u"
    by (auto simp: ids_by_email_def)
  have gone: "filter (\<lambda>v. user_email v = email) (db_users db') = []"
    unfolding filter_empty_conv
    using user_key_eq(1) [OF assms(1,3)] assms(4) uid_u
    by (simp add: db' remove_user_def) metis
  have no_token: "filter (\<lambda>s. token_value s = token_value t) (db_tokens db') = []"
    if "t \<in> set (db_tokens db)" "token_user_id t = user_id u" for t
    unfolding filter_empty_conv
    using token_key_eq [OF assms(1) that(1)] that(2) uid_u
    by (simp add: db' remove_user_def) metis
  show "\<forall>t \<in> set (db_tokens db). token_user_id t = user_id u \<longrightarrow>
           authenticate_token eng later (token_value t) db' = (Inr None, db')"
    using no_token assms(5) by (simp add: authenticate_token_def run_tx_def rollback_def)
  have "api_keys_by_email email db' = []"
    using gone by (auto simp: api_keys_by_email_def filter_empty_conv)
  then show "get_api_key eng email db' = (Inr None, db')"
    using assms(5) by (simp add: get_api_key_def run_tx_def rollback_def)
  have "ids_by_credentials email pass db' = []"
    using gone by (auto simp: ids_by_credentials_def filter_empty_conv)
  then show "authenticate_pass eng rnd now email pass db' = Some (Inr None, db')"
    using assms(5) by (simp add: authenticate_pass_def)
qed

text \<open>
  C17. Deleting an account revokes everything that belonged to it: afterwards none of its
  login tokens authenticates, it has no API key, and no password logs it in.
\<close>

theorem delete_user_revokes:
  assumes "database_ok db" and "delete_user eng email db = (Inr True, db')"
    and "u \<in> set (db_users db)" and "user_email u = email" and "eng_fault eng db' = None"
  shows "(\<forall>t \<in> set (db_tokens db). token_user_id t = user_id u \<longrightarrow>
            authenticate_token eng later (token_value t) db' = (Inr None, db'))
         \<and> get_api_key eng email db' = (Inr None, db')
         \<and> authenticate_pass eng rnd now email pass db' = Some (Inr None, db')"
  using delete_user_revokes_parts [OF assms] by blast

definition alice_logged_in :: database where
  "alice_logged_in = alice_db\<lparr>db_tokens := [\<lparr>token_id = 1, token_user_id = 1,
       token_value = ''AQID'', token_expiration_time = 605800\<rparr>]\<rparr>"

theorem delete_user_revokes_witness:
  "\<exists>db'. delete_user reliable_engine ''a@x'' alice_logged_in = (Inr True, db')
       \<and> authenticate_token reliable_engine 2000 ''AQID'' db' = (Inr None, db')"
proof -
  let ?u = "\<lparr>user_id = 1, user_email = ''a@x'', user_pass = ''pw'', user_admin = False\<rparr>"
  let ?db' = "remove_user 1 alice_logged_in"
  have ok: "database_ok alice_logged_in"
    by (simp add: database_ok_def alice_logged_in_def alice_db_def)
  have del: "delete_user reliable_engine ''a@x'' alice_logged_in = (Inr True, ?db')"
    by (simp add: delete_user_def run_tx_def reliable_engine_def ids_by_email_def commit_def
        alice_logged_in_def alice_db_def)
  have u: "?u \<in> set (db_users alice_logged_in)" "user_email ?u = ''a@x''"
    and f: "eng_fault reliable_engine ?db' = None"
    by (simp_all add: alice_logged_in_def alice_db_def reliable_engine_def)
  from delete_user_revokes [OF ok del u f, of 2000] del show ?thesis
    by (simp add: alice_logged_in_def alice_db_def)
qed

section \<open>API keys\<close>

lemma generate_api_key_Some:
  assumes "generate_api_key eng kb email db = (Inr (Some k), db')"
  obtains uid where "ids_by_email email db = [uid]" and "k = base64_encode kb"
    and "insert_api_key eng \<lparr>api_access_key_id = -1, api_access_key_user_id = uid,
           api_access_key_value = k\<rparr> db = Inr db'"
  using assms
  by (auto simp: generate_api_key_def run_tx_def tx_body_simps
      split: option.splits list.splits sum.splits)

lemma api_keys_by_email_of_id:
  assumes "database_ok db" "u \<in> set (db_users db)"
  shows "api_keys_by_email (user_email u) db =
           filter (\<lambda>k. api_access_key_user_id k = user_id u) (db_api_keys db)"
proof -
  have "(\<exists>v \<in> set (db_users db). user_id v = i \<and> user_email v = user_email u) \<longleftrightarrow> i = user_id u" for i
    using assms by (auto simp: database_ok_def distinct_map inj_on_def)
  then show ?thesis by (simp add: api_keys_by_email_def)
qed

lemma api_key_roundtrip_parts:
  assumes "database_ok db" and "generate_api_key eng kb email db = (Inr (Some k), db')"
    and "eng_fault eng db' = None"
  shows "get_api_key eng email db' = (Inr (Some k), db')"
    and "\<exists>ui. get_user_info eng email db' = (Inr (Some ui), db') \<and> ui_api_access_key ui = Some k"
    and "generate_api_key eng kb' email db' = (Inr None, db')"
proof -
  from assms(2) obtain uid where uid: "ids_by_email email db = [uid]"
    and ins: "insert_api_key eng \<lparr>api_access_key_id = -1, api_access_key_user_id = uid,
           api_access_key_value = k\<rparr> db = Inr db'"
    by (rule generate_api_key_Some)
  from uid obtain u where u: "u \<in> set (db_users db)" "user_id u = uid" "user_email u = email"
    by (rule ids_by_email_single)
  from ins have fresh: "filter (\<lambda>k. api_access_key_user_id k = uid) (db_api_keys db) = []"
    and db': "db' = db\<lparr>db_api_keys := db_api_keys db
        @ [\<lparr>api_access_key_id = eng_next_id eng (map api_access_key_id (db_api_keys db)),
            api_access_key_user_id = uid, api_access_key_value = k\<rparr>]\<rparr>"
    by (auto simp: insert_api_key_def filter_empty_conv image_iff split: if_splits)
  have only: "filter (\<lambda>v. user_email v = email) (db_users db) = [u]"
    using ids_by_email_unique [OF assms(1) u(1)] u(3) by simp
  have users': "db_users db' = db_users db" by (simp add: db')
  have keys: "filter (\<lambda>k. api_access_key_user_id k = uid) (db_api_keys db')
      = [\<lparr>api_access_key_id = eng_next_id eng (map api_access_key_id (db_api_keys db)),
            api_access_key_user_id = uid, api_access_key_value = k\<rparr>]"
    using fresh by (simp add: db')
  have by_email: "api_keys_by_email email db' = filter (\<lambda>k. api_access_key_user_id k = uid) (db_api_keys db')"
  proof -
    have "(\<exists>v \<in> set (db_users db). user_id v = i \<and> user_email v = email) \<longleftrightarrow> i = uid" for i
      using assms(1) u by (auto simp: database_ok_def distinct_map inj_on_def)
    then show ?thesis by (simp add: api_keys_by_email_def users')
  qed
  show "get_api_key eng email db' = (Inr (Some k), db')"
    using assms(3) keys by (simp add: get_api_key_def run_tx_def commit_def by_email)
  show "\<exists>ui. get_user_info eng email db' = (Inr (Some ui), db') \<and> ui_api_access_key ui = Some k"
    using assms(3) only u keys by (simp add: get_user_info_def run_tx_def commit_def users' api_key_of_def)
  have taken: "uid \<in> api_access_key_user_id ` set (db_api_keys db')" by (simp add: db')
  show "generate_api_key eng kb' email db' = (Inr None, db')"
    using assms(3) only u taken
    by (simp add: generate_api_key_def run_tx_def tx_body_simps users' ids_by_email_def insert_api_key_def)
qed

text \<open>
  A generated API key is the key of the account from then on: it is what
  \<^verbatim>\<open>get_api_key\<close> and the account information return, and a second request for
  the same account is refused whatever bytes are drawn, so an account never has two keys.
\<close>

theorem api_key_roundtrip:
  assumes "database_ok db" and "generate_api_key eng kb email db = (Inr (Some k), db')"
    and "eng_fault eng db' = None"
  shows "get_api_key eng email db' = (Inr (Some k), db')
         \<and> (\<exists>ui. get_user_info eng email db' = (Inr (Some ui), db') \<and> ui_api_access_key ui = Some k)
         \<and> generate_api_key eng kb' email db' = (Inr None, db')"
  using api_key_roundtrip_parts [OF assms] by blast

theorem api_key_roundtrip_witness:
  "\<exists>db'. generate_api_key reliable_engine [1, 2, 3] ''a@x'' alice_db = (Inr (Some ''AQID''), db')
       \<and> get_api_key reliable_engine ''a@x'' db' = (Inr (Some ''AQID''), db')"
proof -
  have ok: "database_ok alice_db" by (simp add: database_ok_def alice_db_def)
  obtain db' where gen: "generate_api_key reliable_engine [1, 2, 3] ''a@x'' alice_db = (Inr (Some ''AQID''), db')"
    by (simp add: generate_api_key_def run_tx_def reliable_engine_def ids_by_email_def alice_db_def
        base64_encode_blocks char_array_4_def b64_char_def base64_chars_def insert_api_key_def
        commit_def Let_def)
  have f: "eng_fault reliable_engine db' = None" by (simp add: reliable_engine_def)
  from api_key_roundtrip [OF ok gen f] gen show ?thesis by blast
qed

end
