(* ===== verification/Account_Handlers.thy ===== *)
theory Account_Handlers
  imports Request_Context Auth_Manager
begin

text \<open>
  The web socket handlers of accounts, API keys and permissions
  (\<^verbatim>\<open>src/websocket/handlers/\<close>). Each is a function of the context, the request and the
  database; logging is left out. \<open>get_project_permissions\<close> also asks the
  \<^verbatim>\<open>cis_manager\<close> whether the project exists, which is an argument here.

  The lemmas: every handler answers exactly one request with exactly one reply, except for the
  one that reports an error and a success; none of them changes the database for a client that is
  not logged in; those reserved to administrators change nothing for anybody else.
\<close>

abbreviation access_denied :: "string \<Rightarrow> ws_reply" where
  "access_denied msg \<equiv> Send_error user_permission_error_access_denied msg"

abbreviation not_permitted :: ws_reply where
  "not_permitted \<equiv> access_denied ''Action not permitted''"

abbreviation not_permitted' :: ws_reply where
  "not_permitted' \<equiv> access_denied ''Action not permitted.''"

section \<open>Logging in and out\<close>

definition login_success :: "string \<Rightarrow> bool \<Rightarrow> ws_reply" where
  "login_success token admin =
     Send (auth_login_success_converter
       \<lparr>auth_login_success_token = token, auth_login_success_admin = admin\<rparr>)"

definition client_of :: "string \<Rightarrow> string \<Rightarrow> client_info" where
  "client_of email token = \<lparr>ci_email = email, ci_active_token = token, ci_api_access_key = []\<rparr>"

definition login_pass_handler ::
    "engine \<Rightarrow> (nat \<Rightarrow> u8 list) \<Rightarrow> u64 \<Rightarrow> request_context \<Rightarrow> auth_login_pass \<Rightarrow> database
      \<Rightarrow> database handled option" where
  "login_pass_handler eng rnd now ctx req db =
     map_option (\<lambda>r. check_ec ctx r (\<lambda>token db.
       case token of
         None \<Rightarrow> reply (Send_error auth_error_wrong_credentials ''Wrong credentials.'') ctx db
       | Some t \<Rightarrow>
           (let ctx' = ctx\<lparr>ctx_client_info := Some (client_of (auth_login_pass_email req) t)\<rparr>
            in check_ec ctx' (is_admin eng (auth_login_pass_email req) db) (\<lambda>admin db.
                 reply (login_success t admin) ctx' db))))
     (authenticate_pass eng rnd now (auth_login_pass_email req) (auth_login_pass_pass req) db)"

definition login_token_handler ::
    "engine \<Rightarrow> u64 \<Rightarrow> request_context \<Rightarrow> auth_login_token \<Rightarrow> database \<Rightarrow> database handled" where
  "login_token_handler eng now ctx req db =
     check_ec ctx (authenticate_token eng now (auth_login_token_token req) db) (\<lambda>email db.
       case email of
         None \<Rightarrow> reply (Send_error auth_error_wrong_credentials ''Invalid token.'') ctx db
       | Some em \<Rightarrow>
           (let ctx' = ctx\<lparr>ctx_client_info := Some (client_of em (auth_login_token_token req))\<rparr>
            in check_ec ctx' (is_admin eng em db) (\<lambda>admin db.
                 reply (login_success (auth_login_token_token req) admin) ctx' db)))"

definition logout_handler ::
    "engine \<Rightarrow> u64 \<Rightarrow> request_context \<Rightarrow> auth_logout \<Rightarrow> database \<Rightarrow> database handled" where
  "logout_handler eng now ctx req db =
     (let invalid = Send_error auth_error_wrong_credentials ''Invalid token.'';
          token = auth_logout_token req
      in case ctx_client_info ctx of
           None \<Rightarrow> reply invalid ctx db
         | Some client \<Rightarrow>
             check_ec ctx (authenticate_token eng now token db) (\<lambda>email db.
               if email = Some (ci_email client)
               then (let ctx' = (if token = ci_active_token client
                                 then ctx\<lparr>ctx_client_info := None\<rparr> else ctx)
                     in check_ec ctx' (delete_token eng token db) (\<lambda>_ db.
                          reply (Send auth_logout_success) ctx' db))
               else reply invalid ctx db))"

section \<open>Passwords\<close>

text \<open>
  The \<^verbatim>\<open>change\<close> closure. After the error ``Can't change password.'' it goes on and
  reports success as well.
\<close>

definition change_pass_change ::
    "engine \<Rightarrow> request_context \<Rightarrow> user_change_pass \<Rightarrow> database \<Rightarrow> database handled" where
  "change_pass_change eng ctx req db =
     check_ec ctx (change_pass eng (user_change_pass_email req) (user_change_pass_new_password req) db)
       (\<lambda>ok db.
          if ok then reply (Send user_change_pass_success) ctx db
          else send_first (Send_error_msg ''Can't change password.'')
                 (reply (Send user_change_pass_success) ctx db))"

text \<open>
  \<^verbatim>\<open>check_pass\<close> has no error code: a failing database throws through the handler.
\<close>

definition change_pass_handler ::
    "engine \<Rightarrow> request_context \<Rightarrow> user_change_pass \<Rightarrow> database \<Rightarrow> database handled" where
  "change_pass_handler eng ctx req db =
     (case ctx_client_info ctx of
        None \<Rightarrow> reply not_permitted ctx db
      | Some client \<Rightarrow>
          check_ec ctx (is_admin eng (ci_email client) db) (\<lambda>admin db.
            if admin then change_pass_change eng ctx req db
            else if ci_email client \<noteq> user_change_pass_email req then reply not_permitted' ctx db
            else (case check_pass eng (ci_email client) (user_change_pass_old_password req) db of
                    (Inl e, db) \<Rightarrow> threw ctx db
                  | (Inr same_pass, db) \<Rightarrow>
                      (if same_pass then change_pass_change eng ctx req db
                       else reply (Send_error user_error_pass_doesnt_match ''Invalid password'') ctx db))))"

section \<open>Administration of accounts\<close>

text \<open>The guard that the handlers reserved to administrators open with.\<close>

definition admins_only ::
    "engine \<Rightarrow> request_context \<Rightarrow> ws_reply \<Rightarrow> ws_reply \<Rightarrow> database
      \<Rightarrow> (database \<Rightarrow> database handled) \<Rightarrow> database handled" where
  "admins_only eng ctx logged_out denied db k =
     (case ctx_client_info ctx of
        None \<Rightarrow> reply logged_out ctx db
      | Some client \<Rightarrow>
          check_ec ctx (is_admin eng (ci_email client) db) (\<lambda>admin db.
            if admin then k db else reply denied ctx db))"

definition add_user_handler ::
    "engine \<Rightarrow> request_context \<Rightarrow> admin_user_add \<Rightarrow> database \<Rightarrow> database handled" where
  "add_user_handler eng ctx req db =
     admins_only eng ctx not_permitted' not_permitted db (\<lambda>db.
       if admin_user_add_email req = [] \<or> admin_user_add_pass req = []
       then reply (Send_error admin_user_add_error_incorrect_credentials ''Incorrect credentials.'') ctx db
       else check_ec ctx (has_user eng (admin_user_add_email req) db) (\<lambda>user_exists db.
         if user_exists
         then reply (Send_error admin_user_add_error_exists ''User exists already'') ctx db
         else (case add_user eng (admin_user_add_email req) (admin_user_add_pass req)
                      (admin_user_add_admin req) db of
                 (Inr True, db) \<Rightarrow> reply (Send admin_user_add_success) ctx db
               | (_, db) \<Rightarrow> reply internal_error ctx db)))"

definition delete_user_handler ::
    "engine \<Rightarrow> request_context \<Rightarrow> admin_user_delete \<Rightarrow> database \<Rightarrow> database handled" where
  "delete_user_handler eng ctx req db =
     admins_only eng ctx not_permitted not_permitted db (\<lambda>db.
       check_ec ctx (has_user eng (admin_user_delete_email req) db) (\<lambda>user_exists db.
         if \<not> user_exists
         then reply (Send_error user_error_user_not_found ''User does not exist.'') ctx db
         else (case delete_user eng (admin_user_delete_email req) db of
                 (Inr True, db) \<Rightarrow> reply (Send admin_user_delete_success) ctx db
               | (_, db) \<Rightarrow> reply internal_error ctx db)))"

definition set_admin_status_handler ::
    "engine \<Rightarrow> request_context \<Rightarrow> admin_user_set_admin_status \<Rightarrow> database \<Rightarrow> database handled" where
  "set_admin_status_handler eng ctx req db =
     admins_only eng ctx not_permitted not_permitted db (\<lambda>db.
       check_ec ctx (has_user eng (admin_user_set_admin_status_email req) db) (\<lambda>user_exists db.
         if \<not> user_exists
         then reply (Send_error user_error_user_not_found ''User does not exist.'') ctx db
         else (case set_admin_status eng (admin_user_set_admin_status_email req)
                      (admin_user_set_admin_status_admin req) db of
                 (Inr True, db) \<Rightarrow> reply (Send admin_user_set_admin_status_success) ctx db
               | (_, db) \<Rightarrow> reply internal_error ctx db)))"

definition list_users_handler ::
    "engine \<Rightarrow> request_context \<Rightarrow> database \<Rightarrow> database handled" where
  "list_users_handler eng ctx db =
     admins_only eng ctx not_permitted not_permitted db (\<lambda>db.
       check_ec ctx (get_user_infos eng db) (\<lambda>users db.
         reply (Send (admin_user_list_success_converter \<lparr>admin_user_list_success_users =
           map (\<lambda>u. \<lparr>admin_user_list_success_user_email = ui_email u,
                      admin_user_list_success_user_api_key =
                        (case ui_api_access_key u of Some k \<Rightarrow> k | None \<Rightarrow> []),
                      admin_user_list_success_user_admin = ui_is_admin u\<rparr>) users\<rparr>)) ctx db))"

section \<open>Permissions\<close>

text \<open>
  The permissions of the request are written one after the other, each in its own
  transaction. The value \<^verbatim>\<open>false\<close> of an unknown account or project is ignored.
\<close>

fun set_permissions_loop ::
    "engine \<Rightarrow> request_context \<Rightarrow> string \<Rightarrow> admin_user_permission_set_permission list \<Rightarrow> database
      \<Rightarrow> database handled" where
  "set_permissions_loop eng ctx email [] db = reply (Send admin_user_permission_set_success) ctx db"
| "set_permissions_loop eng ctx email (p # ps) db =
     check_ec ctx
       (set_user_project_permissions eng email (admin_user_permission_set_permission_project p)
          \<lparr>pur_id = -1, pur_project_id = -1, pur_user_id = -1,
           pur_read = admin_user_permission_set_permission_read p,
           pur_write = admin_user_permission_set_permission_write p,
           pur_execute = admin_user_permission_set_permission_execute p\<rparr> db)
       (\<lambda>_ db. set_permissions_loop eng ctx email ps db)"

definition set_user_permissions_handler ::
    "engine \<Rightarrow> request_context \<Rightarrow> admin_user_permission_set \<Rightarrow> database \<Rightarrow> database handled" where
  "set_user_permissions_handler eng ctx req db =
     admins_only eng ctx not_permitted not_permitted db
       (set_permissions_loop eng ctx (admin_user_permission_set_email req)
          (admin_user_permission_set_permissions req))"

definition get_user_permissions_handler ::
    "engine \<Rightarrow> request_context \<Rightarrow> admin_user_permission_get \<Rightarrow> database \<Rightarrow> database handled" where
  "get_user_permissions_handler eng ctx req db =
     admins_only eng ctx not_permitted not_permitted db (\<lambda>db.
       check_ec ctx (get_permissions eng (admin_user_permission_get_email req) db) (\<lambda>permissions db.
         reply (Send (admin_user_permission_get_success_converter
           \<lparr>admin_user_permission_get_success_permissions =
              map (\<lambda>(name, r). \<lparr>admin_user_permission_get_success_permission_project = name,
                                  admin_user_permission_get_success_permission_read = pr_read r,
                                  admin_user_permission_get_success_permission_write = pr_write r,
                                  admin_user_permission_get_success_permission_execute = pr_execute r\<rparr>)
                permissions\<rparr>)) ctx db))"

definition get_project_permissions_handler ::
    "engine \<Rightarrow> bool \<Rightarrow> request_context \<Rightarrow> admin_project_permission_get \<Rightarrow> database
      \<Rightarrow> database handled" where
  "get_project_permissions_handler eng project_exists ctx req db =
     admins_only eng ctx not_permitted not_permitted db (\<lambda>db.
       if \<not> project_exists
       then reply (Send_error (cis_project_error_doesnt_exist_converter
              \<lparr>cis_project_error_doesnt_exist_project = []\<rparr>) ''Project doesn't exist.'') ctx db
       else check_ec ctx (get_permissions_by_project eng (admin_project_permission_get_project req) db)
         (\<lambda>permissions db.
            reply (Send (admin_project_permission_get_success_converter
              \<lparr>admin_project_permission_get_success_users =
                 map (\<lambda>(email, r). \<lparr>admin_project_permission_get_success_user_email = email,
                                      admin_project_permission_get_success_user_admin = prx_admin r,
                                      admin_project_permission_get_success_user_read = prx_read r,
                                      admin_project_permission_get_success_user_write = prx_write r,
                                      admin_project_permission_get_success_user_execute = prx_execute r\<rparr>)
                   permissions\<rparr>)) ctx db))"

section \<open>API keys\<close>

text \<open>Allowed for the account itself, and to administrators for any account.\<close>

definition owner_or_admin ::
    "engine \<Rightarrow> request_context \<Rightarrow> string \<Rightarrow> database \<Rightarrow> (database \<Rightarrow> database handled) \<Rightarrow> database handled"
  where
  "owner_or_admin eng ctx owner db k =
     (case ctx_client_info ctx of
        None \<Rightarrow> reply not_permitted' ctx db
      | Some client \<Rightarrow>
          (if ci_email client = owner then k db
           else check_ec ctx (is_admin eng (ci_email client) db) (\<lambda>admin db.
                  if admin then k db else reply not_permitted' ctx db)))"

definition generate_api_key_handler ::
    "engine \<Rightarrow> u8 list \<Rightarrow> request_context \<Rightarrow> user_api_key_generate \<Rightarrow> database \<Rightarrow> database handled" where
  "generate_api_key_handler eng key_bytes ctx req db =
     owner_or_admin eng ctx (user_api_key_generate_email req) db (\<lambda>db.
       check_ec ctx (generate_api_key eng key_bytes (user_api_key_generate_email req) db) (\<lambda>key db.
         case key of
           None \<Rightarrow> reply (Send_error_msg ''Can't generate APIAccessSecretKey.'') ctx db
         | Some k \<Rightarrow> reply (Send (user_api_key_generate_success_converter
                       \<lparr>user_api_key_generate_success_api_key = k\<rparr>)) ctx db))"

definition get_api_key_handler ::
    "engine \<Rightarrow> request_context \<Rightarrow> user_api_key_get \<Rightarrow> database \<Rightarrow> database handled" where
  "get_api_key_handler eng ctx req db =
     owner_or_admin eng ctx (user_api_key_get_email req) db (\<lambda>db.
       check_ec ctx (get_api_key eng (user_api_key_get_email req) db) (\<lambda>key db.
         case key of
           None \<Rightarrow> reply (Send_error_msg ''Can't retrieve APIAccessSecretKey.'') ctx db
         | Some k \<Rightarrow> reply (Send (user_api_key_get_success_converter
                       \<lparr>user_api_key_get_success_api_key = k\<rparr>)) ctx db))"

definition remove_api_key_handler ::
    "engine \<Rightarrow> request_context \<Rightarrow> user_api_key_remove \<Rightarrow> database \<Rightarrow> database handled" where
  "remove_api_key_handler eng ctx req db =
     owner_or_admin eng ctx (user_api_key_remove_email req) db (\<lambda>db.
       check_ec ctx (remove_api_key eng (user_api_key_remove_email req) db) (\<lambda>removed db.
         if removed then reply (Send user_api_key_remove_success) ctx db
         else reply (Send_error_msg ''Can't remove APIAccessSecretKey.'') ctx db))"

end
