(* ===== verification/Account_Sessions.thy ===== *)
theory Account_Sessions
  imports Account_Handlers
begin

text \<open>
  The account part of the web socket interface as one state machine: a client sends any
  requests in any order; the database it shares with all other clients changes by the handlers
  and by the periodic clean-up. The database schema, and the rule that an account has one row of rights per project,
  hold in every state that can be reached, and a client that is not an administrator cannot
  touch accounts, rights and keys other than its own.
\<close>

section \<open>One request\<close>

text \<open>
  What the process supplies to a request: the database engine, the random generator for tokens
  and keys, the clock, and the answer of the \<^verbatim>\<open>cis_manager\<close> on projects.
\<close>

record account_env =
  ae_engine :: engine
  ae_tokens :: "nat \<Rightarrow> u8 list"
  ae_key_bytes :: "u8 list"
  ae_now :: u64
  ae_project_exists :: "string \<Rightarrow> bool"

definition account_handle ::
    "account_env \<Rightarrow> request_context \<Rightarrow> ws_request \<Rightarrow> database \<Rightarrow> database handled option" where
  "account_handle env ctx req db =
     (let eng = ae_engine env; now = ae_now env
      in case req of
           Req_auth_login_pass d \<Rightarrow> login_pass_handler eng (ae_tokens env) now ctx d db
         | Req_auth_login_token d \<Rightarrow> Some (login_token_handler eng now ctx d db)
         | Req_auth_logout d \<Rightarrow> Some (logout_handler eng now ctx d db)
         | Req_user_change_pass d \<Rightarrow> Some (change_pass_handler eng ctx d db)
         | Req_admin_user_add d \<Rightarrow> Some (add_user_handler eng ctx d db)
         | Req_admin_user_delete d \<Rightarrow> Some (delete_user_handler eng ctx d db)
         | Req_admin_user_list \<Rightarrow> Some (list_users_handler eng ctx db)
         | Req_admin_user_permission_get d \<Rightarrow> Some (get_user_permissions_handler eng ctx d db)
         | Req_admin_user_permission_set d \<Rightarrow> Some (set_user_permissions_handler eng ctx d db)
         | Req_admin_project_permission_get d \<Rightarrow> Some (get_project_permissions_handler eng
             (ae_project_exists env (admin_project_permission_get_project d)) ctx d db)
         | Req_admin_user_set_admin_status d \<Rightarrow> Some (set_admin_status_handler eng ctx d db)
         | Req_user_api_key_generate d \<Rightarrow> Some (generate_api_key_handler eng (ae_key_bytes env) ctx d db)
         | Req_user_api_key_get d \<Rightarrow> Some (get_api_key_handler eng ctx d db)
         | Req_user_api_key_remove d \<Rightarrow> Some (remove_api_key_handler eng ctx d db)
         | _ \<Rightarrow> None)"

lemmas account_handlers_defs =
  login_token_handler_def logout_handler_def change_pass_handler_def change_pass_change_def
  add_user_handler_def delete_user_handler_def list_users_handler_def
  get_user_permissions_handler_def set_user_permissions_handler_def
  get_project_permissions_handler_def set_admin_status_handler_def
  generate_api_key_handler_def get_api_key_handler_def remove_api_key_handler_def
  admins_only_def owner_or_admin_def

section \<open>States that the handlers leave\<close>

lemma check_ec_state:
  "h_state (check_ec ctx r k) = (case fst r of Inl e \<Rightarrow> snd r | Inr v \<Rightarrow> h_state (k v (snd r)))"
  by (simp add: check_ec_cases split: sum.splits)

lemma case_success_state [simp]:
  "h_state (case x of (Inr True, db) \<Rightarrow> reply c ctx db | (_, db) \<Rightarrow> reply a ctx db) = snd x"
  by (simp split: prod.splits sum.splits bool.splits)

lemma case_result:
  "(case r of (Inl e, d) \<Rightarrow> A e d | (Inr v, d) \<Rightarrow> B v d) =
     (case fst r of Inl e \<Rightarrow> A e (snd r) | Inr v \<Rightarrow> B v (snd r))"
  by (simp split: prod.splits sum.splits)

text \<open>
  A property of the database that the operations of the two managers preserve is preserved by the
  handlers: the contract between the handlers and the managers.
\<close>

locale account_store =
  fixes eng :: engine and inv :: "database \<Rightarrow> bool"
  assumes authenticate_pass_inv:
      "inv db \<Longrightarrow> authenticate_pass eng rnd now email pass db = Some (r, db') \<Longrightarrow> inv db'"
    and authenticate_token_inv: "inv db \<Longrightarrow> inv (snd (authenticate_token eng now token db))"
    and delete_token_inv: "inv db \<Longrightarrow> inv (snd (delete_token eng token db))"
    and change_pass_inv: "inv db \<Longrightarrow> inv (snd (change_pass eng email pass db))"
    and add_user_inv: "inv db \<Longrightarrow> inv (snd (add_user eng email pass admin db))"
    and delete_user_inv: "inv db \<Longrightarrow> inv (snd (delete_user eng email db))"
    and set_admin_status_inv: "inv db \<Longrightarrow> inv (snd (set_admin_status eng email admin db))"
    and set_permissions_inv:
      "inv db \<Longrightarrow> inv (snd (set_user_project_permissions eng email project right db))"
    and generate_api_key_inv: "inv db \<Longrightarrow> inv (snd (generate_api_key eng bytes email db))"
    and remove_api_key_inv: "inv db \<Longrightarrow> inv (snd (remove_api_key eng email db))"
begin

lemmas store_inv =
  authenticate_token_inv delete_token_inv change_pass_inv add_user_inv delete_user_inv
  set_admin_status_inv set_permissions_inv generate_api_key_inv remove_api_key_inv

lemma login_pass_inv:
  assumes "inv db" and "login_pass_handler eng rnd now ctx req db = Some h"
  shows "inv (h_state h)"
  using assms authenticate_pass_inv
  by (fastforce simp: login_pass_handler_def check_ec_state Let_def split: sum.splits option.splits)

lemma set_permissions_loop_inv:
  "inv db \<Longrightarrow> inv (h_state (set_permissions_loop eng ctx email ps db))"
  by (induction ps arbitrary: db) (simp_all add: check_ec_state store_inv split: sum.splits)

lemma session_handlers_inv:
  assumes "inv db"
  shows "inv (h_state (login_token_handler eng now ctx d1 db))"
    and "inv (h_state (logout_handler eng now ctx d2 db))"
    and "inv (h_state (change_pass_handler eng ctx d3 db))"
  using assms
  by (simp_all add: account_handlers_defs check_ec_state case_result Let_def store_inv
      split: sum.splits option.splits)

lemma admin_handlers_inv:
  assumes "inv db"
  shows "inv (h_state (add_user_handler eng ctx d1 db))"
    and "inv (h_state (delete_user_handler eng ctx d2 db))"
    and "inv (h_state (list_users_handler eng ctx db))"
    and "inv (h_state (get_user_permissions_handler eng ctx d3 db))"
    and "inv (h_state (set_user_permissions_handler eng ctx d4 db))"
    and "inv (h_state (get_project_permissions_handler eng e ctx d5 db))"
    and "inv (h_state (set_admin_status_handler eng ctx d6 db))"
  using assms
  by (simp_all add: account_handlers_defs check_ec_state Let_def store_inv set_permissions_loop_inv
      split: sum.splits option.splits)

lemma key_handlers_inv:
  assumes "inv db"
  shows "inv (h_state (generate_api_key_handler eng kb ctx d1 db))"
    and "inv (h_state (get_api_key_handler eng ctx d2 db))"
    and "inv (h_state (remove_api_key_handler eng ctx d3 db))"
  using assms
  by (simp_all add: account_handlers_defs check_ec_state Let_def store_inv
      split: sum.splits option.splits)

lemma account_handle_inv:
  assumes "inv db" and "ae_engine env = eng" and "account_handle env ctx req db = Some h"
  shows "inv (h_state h)"
  using assms session_handlers_inv admin_handlers_inv key_handlers_inv
  by (cases req) (auto simp: account_handle_def Let_def dest: login_pass_inv)

end

section \<open>The invariant of the database\<close>

definition accounts_ok :: "database \<Rightarrow> bool" where
  "accounts_ok db \<longleftrightarrow> database_ok db \<and> rights_unique db"

lemma rights_unique_frame: "db_rights db' = db_rights db \<Longrightarrow> rights_unique db' = rights_unique db"
  by (simp add: rights_unique_def)

lemma check_ec_inv:
  assumes "P (snd r)" and "\<And>v. fst r = Inr v \<Longrightarrow> P (h_state (k v (snd r)))"
  shows "P (h_state (check_ec ctx r k))"
  using assms by (cases r; cases "fst r") auto

lemma auth_ops_rights [simp]:
  "db_rights (snd (authenticate_token eng now v db)) = db_rights db"
  "db_rights (snd (change_pass eng email p db)) = db_rights db"
  "db_rights (snd (add_user eng email p a db)) = db_rights db"
  "db_rights (snd (generate_api_key eng kb email db)) = db_rights db"
  "db_rights (snd (remove_api_key eng email db)) = db_rights db"
  "db_rights (snd (delete_token eng v db)) = db_rights db"
  "db_rights (snd (auth_cleanup eng now db)) = db_rights db"
  "db_rights (snd (set_admin_status eng email a db)) = db_rights db"
  by (auto simp: auth_ops_defs set_admin_status_def run_tx_def tx_body_simps insert_user_def
      insert_api_key_def split: option.splits list.splits if_splits sum.splits)

lemma delete_user_rights_unique [inv_intros]:
  "rights_unique db \<Longrightarrow> rights_unique (snd (delete_user eng email db))"
  by (auto simp: delete_user_def run_tx_def tx_body_simps remove_user_def rights_unique_def
      distinct_map_filter split: option.splits list.splits)

lemma accounts_ok_simps:
  "accounts_ok db \<Longrightarrow> database_ok db" "accounts_ok db \<Longrightarrow> rights_unique db"
  by (simp_all add: accounts_ok_def)

lemma draw_token_rights:
  "authenticate_pass eng rnd now email pass db = Some (r, db') \<Longrightarrow> db_rights db' = db_rights db"
  by (fastforce simp: authenticate_pass_def insert_token_Inr split: option.splits list.splits
      dest: draw_token_sound)

interpretation accounts: account_store eng "\<lambda>db. fresh_ids eng \<longrightarrow> accounts_ok db" for eng
  by unfold_locales
    (auto simp: accounts_ok_def rights_unique_frame [OF auth_ops_rights(1)]
      rights_unique_frame [OF auth_ops_rights(2)] rights_unique_frame [OF auth_ops_rights(3)]
      rights_unique_frame [OF auth_ops_rights(4)] rights_unique_frame [OF auth_ops_rights(5)]
      rights_unique_frame [OF auth_ops_rights(6)] rights_unique_frame [OF auth_ops_rights(8)]
      dest: rights_unique_frame [OF draw_token_rights] intro: inv_intros)

section \<open>The shared server\<close>

text \<open>
  Clients by connection number; a web socket starts with nobody logged in.
\<close>

record account_server =
  as_db :: database
  as_clients :: "nat \<Rightarrow> request_context option"

inductive account_step :: "engine \<Rightarrow> account_server \<Rightarrow> account_server \<Rightarrow> bool" for eng where
  connect: "as_clients s i = None \<Longrightarrow> ctx_client_info ctx = None \<Longrightarrow>
     account_step eng s (s\<lparr>as_clients := (as_clients s)(i \<mapsto> ctx)\<rparr>)"
| request: "as_clients s i = Some ctx \<Longrightarrow> ae_engine env = eng \<Longrightarrow>
     account_handle env ctx req (as_db s) = Some h \<Longrightarrow>
     account_step eng s (s\<lparr>as_db := h_state h, as_clients := (as_clients s)(i \<mapsto> h_ctx h)\<rparr>)"
| cleanup: "account_step eng s (s\<lparr>as_db := snd (auth_cleanup eng now (as_db s))\<rparr>)"
| disconnect: "account_step eng s (s\<lparr>as_clients := (as_clients s)(i := None)\<rparr>)"

inductive_cases account_stepE: "account_step eng s s'"

inductive account_reachable :: "engine \<Rightarrow> account_server \<Rightarrow> bool" for eng where
  created: "database_create eng empty_database credentials = Inr db \<Longrightarrow>
     account_reachable eng \<lparr>as_db = db, as_clients = Map.empty\<rparr>"
| step: "account_reachable eng s \<Longrightarrow> account_step eng s s' \<Longrightarrow> account_reachable eng s'"

lemma auth_cleanup_accounts_ok:
  "accounts_ok db \<Longrightarrow> accounts_ok (snd (auth_cleanup eng now db))"
  by (simp add: accounts_ok_def auth_ops_ok rights_unique_frame [OF auth_ops_rights(7)])

lemma account_handle_ok:
  "fresh_ids (ae_engine env) \<Longrightarrow> accounts_ok db \<Longrightarrow> account_handle env ctx req db = Some h \<Longrightarrow>
     accounts_ok (h_state h)"
  using accounts.account_handle_inv by blast

lemma account_step_ok:
  assumes "fresh_ids eng" and "accounts_ok (as_db s)" and "account_step eng s s'"
  shows "accounts_ok (as_db s')"
  using assms(3)
  by (cases rule: account_step.cases)
     (use assms(1,2) in \<open>auto simp: auth_cleanup_accounts_ok intro: account_handle_ok\<close>)

lemma created_rights:
  "database_create eng empty_database credentials = Inr db \<Longrightarrow> db_rights db = []"
  by (auto simp: database_create_def database_init_def run_tx_def commit_def insert_user_def
      empty_database_def split: option.splits sum.splits if_splits)



section \<open>What a client without administrator rights can change\<close>

definition admin_session :: "engine \<Rightarrow> request_context \<Rightarrow> database \<Rightarrow> bool" where
  "admin_session eng ctx db \<longleftrightarrow>
     (case ctx_client_info ctx of
        None \<Rightarrow> False
      | Some client \<Rightarrow> fst (is_admin eng (ci_email client) db) = Inr True)"

definition session_email :: "request_context \<Rightarrow> string option" where
  "session_email ctx = map_option ci_email (ctx_client_info ctx)"

text \<open>
  At most the password and the API key of the account \<open>em\<close> differ, besides the tokens.
\<close>

definition own_change :: "string option \<Rightarrow> database \<Rightarrow> database \<Rightarrow> bool" where
  "own_change em db db' \<longleftrightarrow>
     map (\<lambda>u. (user_id u, user_email u, user_admin u)) (db_users db')
       = map (\<lambda>u. (user_id u, user_email u, user_admin u)) (db_users db)
     \<and> db_rights db' = db_rights db \<and> db_projects db' = db_projects db
     \<and> (\<forall>u \<in> set (db_users db). em \<noteq> Some (user_email u) \<longrightarrow>
          u \<in> set (db_users db')
          \<and> filter (\<lambda>k. api_access_key_user_id k = user_id u) (db_api_keys db')
              = filter (\<lambda>k. api_access_key_user_id k = user_id u) (db_api_keys db))"

lemma own_change_refl [simp]: "own_change em db db"
  by (simp add: own_change_def)

lemma own_change_tokens:
  "own_change em db (db'\<lparr>db_tokens := ts\<rparr>) = own_change em db db'"
  by (simp add: own_change_def)

lemma own_change_authenticate [simp]:
  "own_change em db (snd (authenticate_token eng now v db))"
  "own_change em db (snd (delete_token eng v (snd (authenticate_token eng now w db))))"
  by (auto simp: auth_ops_defs run_tx_def tx_body_simps own_change_tokens
      split: option.splits list.splits if_splits)

lemma own_change_login:
  "authenticate_pass eng rnd now email pass db = Some (r, db') \<Longrightarrow> own_change em db db'"
  by (fastforce simp: authenticate_pass_def insert_token_Inr own_change_tokens
      split: option.splits list.splits dest: draw_token_sound)

lemma ids_by_email_own:
  assumes "database_ok db" "ids_by_email em db = [uid]" "v \<in> set (db_users db)" "user_email v \<noteq> em"
  shows "user_id v \<noteq> uid"
proof -
  from assms(2) obtain u where "u \<in> set (db_users db)" "user_id u = uid" "user_email u = em"
    by (rule ids_by_email_single)
  with assms show ?thesis using user_key_eq(2) by metis
qed

lemma own_change_pass:
  assumes "database_ok db"
  shows "own_change (Some em) db (snd (change_pass eng em p db))"
proof -
  have "own_change (Some em) db (db\<lparr>db_users :=
      map (\<lambda>u. if user_id u = uid then u\<lparr>user_pass := p\<rparr> else u) (db_users db)\<rparr>)"
    if "ids_by_email em db = [uid]" for uid
    using ids_by_email_own [OF assms that] by (force simp: own_change_def image_iff)
  then show ?thesis
    by (auto simp: change_pass_def run_tx_def tx_body_simps split: option.splits list.splits)
qed

lemma own_change_generate:
  assumes "database_ok db"
  shows "own_change (Some em) db (snd (generate_api_key eng kb em db))"
  by (auto simp: generate_api_key_def run_tx_def tx_body_simps insert_api_key_def own_change_def
      split: option.splits list.splits sum.splits if_splits)
     (use ids_by_email_own [OF assms] in blast)

lemma own_change_remove:
  assumes "database_ok db"
  shows "own_change (Some em) db (snd (remove_api_key eng em db))"
proof -
  have "filter (\<lambda>k. api_access_key_user_id k = user_id u)
          (filter (\<lambda>k. api_access_key_id k \<noteq> i) (db_api_keys db))
      = filter (\<lambda>k. api_access_key_user_id k = user_id u) (db_api_keys db)"
    if i: "map api_access_key_id (api_keys_by_email em db) = [i]"
      and u: "u \<in> set (db_users db)" "user_email u \<noteq> em" for i u
  proof -
    from i obtain k where k: "api_keys_by_email em db = [k]" "api_access_key_id k = i" by auto
    then have "k \<in> set (api_keys_by_email em db)" by simp
    then obtain v where v: "k \<in> set (db_api_keys db)" "v \<in> set (db_users db)"
        "user_id v = api_access_key_user_id k" "user_email v = em"
      by (auto simp: api_keys_by_email_def)
    have "api_access_key_id l \<noteq> i" if l: "l \<in> set (db_api_keys db)" "api_access_key_user_id l = user_id u" for l
    proof
      assume "api_access_key_id l = i"
      with k(2) v(1) l(1) assms have "l = k" by (auto simp: database_ok_def distinct_map inj_on_def)
      with l(2) v u assms have "u = v" by (auto simp: database_ok_def distinct_map inj_on_def)
      with v(4) u(2) show False by simp
    qed
    then show ?thesis by (auto intro!: filter_cong simp: filter_filter)
  qed
  then show ?thesis
    by (auto simp: remove_api_key_def run_tx_def tx_body_simps own_change_def
        split: option.splits list.splits)
qed

lemma admins_only_denied:
  assumes "\<not> admin_session eng ctx db"
  shows "h_state (admins_only eng ctx a b db k) = db"
  using assms by (auto simp: admins_only_def admin_session_def check_ec_state split: option.splits sum.splits)

lemma own_handlers:
  assumes "database_ok db" "\<not> admin_session eng ctx db"
  shows "own_change (session_email ctx) db (h_state (change_pass_handler eng ctx d1 db))"
    and "own_change (session_email ctx) db (h_state (generate_api_key_handler eng kb ctx d2 db))"
    and "own_change (session_email ctx) db (h_state (get_api_key_handler eng ctx d3 db))"
    and "own_change (session_email ctx) db (h_state (remove_api_key_handler eng ctx d4 db))"
  using assms own_change_pass [OF assms(1)] own_change_generate [OF assms(1)] own_change_remove [OF assms(1)]
  by (auto simp: change_pass_handler_def change_pass_change_def generate_api_key_handler_def
      get_api_key_handler_def remove_api_key_handler_def owner_or_admin_def session_email_def
      admin_session_def check_ec_state case_result split: option.splits sum.splits)

lemma token_handlers_own:
  "own_change em db (h_state (login_token_handler eng now ctx d1 db))"
  "own_change em db (h_state (logout_handler eng now ctx d2 db))"
  "login_pass_handler eng rnd now ctx d3 db = Some h \<Longrightarrow> own_change em db (h_state h)"
  by (auto simp: login_token_handler_def logout_handler_def login_pass_handler_def check_ec_state Let_def
      split: option.splits sum.splits dest: own_change_login)

lemmas admin_handlers_defs =
  add_user_handler_def delete_user_handler_def list_users_handler_def
  get_user_permissions_handler_def set_user_permissions_handler_def
  get_project_permissions_handler_def set_admin_status_handler_def

text \<open>
  C2. A client that is not logged in as an administrator cannot add or delete accounts, give
  anybody administrator status, or change any rights; it cannot change the password or the API
  key of any account but the one it is logged in as; and with nobody logged in it changes
  no account at all.
\<close>

theorem non_admin_frame:
  assumes "accounts_ok db" and "\<not> admin_session (ae_engine env) ctx db"
    and "account_handle env ctx req db = Some h"
  shows "own_change (session_email ctx) db (h_state h)"
  using assms own_handlers [of db "ae_engine env" ctx] admins_only_denied [OF assms(2)]
    token_handlers_own
  by (cases req) (auto simp: account_handle_def Let_def accounts_ok_def admin_handlers_defs)

definition alice_context :: request_context where
  "alice_context = empty_context\<lparr>ctx_client_info := Some (client_of ''a@x'' ''AQID'')\<rparr>"

definition plain_env :: account_env where
  "plain_env = \<lparr>ae_engine = reliable_engine, ae_tokens = (\<lambda>i. [1, 2, 3]), ae_key_bytes = [1, 2, 3],
     ae_now = 1000, ae_project_exists = (\<lambda>p. False)\<rparr>"

lemma alice_not_admin:
  "fst (is_admin reliable_engine ''a@x'' alice_db) = Inr False"
  by (simp add: is_admin_def run_tx_def reliable_engine_def users_by_email_def alice_db_def rollback_def)

theorem non_admin_frame_witness:
  "\<exists>h. account_handle plain_env alice_context (Req_admin_user_delete \<lparr>admin_user_delete_email = ''a@x''\<rparr>)
         alice_db = Some h
     \<and> own_change (Some ''a@x'') alice_db (h_state h)"
proof -
  have ok: "accounts_ok alice_db"
    by (simp add: accounts_ok_def database_ok_def rights_unique_def alice_db_def)
  have na: "\<not> admin_session (ae_engine plain_env) alice_context alice_db"
    using alice_not_admin by (simp add: admin_session_def plain_env_def alice_context_def client_of_def)
  obtain h where h: "account_handle plain_env alice_context
      (Req_admin_user_delete \<lparr>admin_user_delete_email = ''a@x''\<rparr>) alice_db = Some h"
    by (simp add: account_handle_def Let_def)
  from non_admin_frame [OF ok na h] h show ?thesis
    by (auto simp: session_email_def alice_context_def client_of_def)
qed

section \<open>Replies\<close>

definition one_reply :: "'s handled \<Rightarrow> bool" where
  "one_reply h \<longleftrightarrow> length (h_replies h) = 1 \<and> \<not> h_thrown h"

named_theorems reply_intros "rules that show that a handler replies once"

lemma one_reply_reply [reply_intros]: "one_reply (reply r ctx s)"
  by (simp add: one_reply_def)

lemma one_reply_check_ec [reply_intros]: "(\<And>v s. one_reply (k v s)) \<Longrightarrow> one_reply (check_ec ctx r k)"
  by (cases r; cases "fst r") (auto simp: one_reply_def)

lemma one_reply_cases [reply_intros]:
  "one_reply A \<Longrightarrow> one_reply B \<Longrightarrow> one_reply (if b then A else B)"
  "one_reply A \<Longrightarrow> (\<And>x. one_reply (K x)) \<Longrightarrow> one_reply (case c of None \<Rightarrow> A | Some x \<Rightarrow> K x)"
  "one_reply (case x of (Inr True, db) \<Rightarrow> reply c' ctx db | (_, db) \<Rightarrow> reply a ctx db)"
  by (simp_all add: one_reply_def split: option.splits prod.splits sum.splits bool.splits)

lemma one_reply_guards [reply_intros]:
  "(\<And>db. one_reply (k db)) \<Longrightarrow> one_reply (admins_only eng ctx a b db k)"
  "(\<And>db. one_reply (k db)) \<Longrightarrow> one_reply (owner_or_admin eng ctx em db k)"
  unfolding admins_only_def owner_or_admin_def by (intro reply_intros; assumption)+

lemma set_permissions_replies [reply_intros]:
  "one_reply (set_permissions_loop eng ctx email ps db)"
  by (induction ps arbitrary: db) (simp_all add: reply_intros)

lemma login_pass_replies:
  "login_pass_handler eng rnd now ctx d db = Some h \<Longrightarrow> one_reply h"
  unfolding login_pass_handler_def Let_def
  by (auto simp del: check_ec_simps intro!: reply_intros)

lemma session_handlers_reply:
  "one_reply (login_token_handler eng now ctx d1 db)"
  "one_reply (logout_handler eng now ctx d2 db)"
  unfolding login_token_handler_def logout_handler_def Let_def by (intro reply_intros)+

lemma key_handlers_reply:
  "one_reply (generate_api_key_handler eng kb ctx d1 db)"
  "one_reply (get_api_key_handler eng ctx d2 db)"
  "one_reply (remove_api_key_handler eng ctx d3 db)"
  unfolding generate_api_key_handler_def get_api_key_handler_def remove_api_key_handler_def
  by (intro reply_intros)+

lemma admin_handlers_reply:
  "one_reply (add_user_handler eng ctx d1 db)"
  "one_reply (delete_user_handler eng ctx d2 db)"
  "one_reply (list_users_handler eng ctx db)"
  "one_reply (get_user_permissions_handler eng ctx d3 db)"
  "one_reply (set_user_permissions_handler eng ctx d4 db)"
  "one_reply (get_project_permissions_handler eng e ctx d5 db)"
  "one_reply (set_admin_status_handler eng ctx d6 db)"
  unfolding admin_handlers_defs by (intro reply_intros)+

text \<open>
  Every account request is answered by exactly one reply and none ends with an
  exception, except for the change of a password.
\<close>

theorem account_handle_replies:
  assumes "account_handle env ctx req db = Some h" and "\<forall>d. req \<noteq> Req_user_change_pass d"
  shows "length (h_replies h) = 1 \<and> \<not> h_thrown h"
  using assms session_handlers_reply key_handlers_reply admin_handlers_reply login_pass_replies
  unfolding one_reply_def [symmetric]
  by (cases req) (auto simp: account_handle_def Let_def)

theorem account_handle_replies_witness:
  "\<exists>h. account_handle plain_env empty_context Req_admin_user_list alice_db = Some h
     \<and> length (h_replies h) = 1"
proof -
  obtain h where h: "account_handle plain_env empty_context Req_admin_user_list alice_db = Some h"
    by (simp add: account_handle_def Let_def)
  have "\<forall>d. Req_admin_user_list \<noteq> Req_user_change_pass d" by simp
  from account_handle_replies [OF h this] h show ?thesis by blast
qed

text \<open>
  A refused change of a password is answered twice: an administrator who sets an empty
  password gets the error and then the message of success, while the database stays as it was.
\<close>

theorem change_pass_reports_success:
  assumes "admin_session eng ctx db" and "user_change_pass_new_password req = []"
  shows "change_pass_handler eng ctx req db =
     \<lparr>h_replies = [Send_error_msg ''Can't change password.'', Send user_change_pass_success],
      h_ctx = ctx, h_state = db, h_thrown = False\<rparr>"
proof -
  from assms(1) obtain client where "ctx_client_info ctx = Some client"
    and "fst (is_admin eng (ci_email client) db) = Inr True"
    by (auto simp: admin_session_def split: option.splits)
  with assms(2) show ?thesis
    by (simp add: change_pass_handler_def change_pass_change_def check_ec_cases change_pass_def
        send_first_def reply_def)
qed

definition root_db :: database where
  "root_db = \<lparr>db_users = [\<lparr>user_id = 1, user_email = ''r@x'', user_pass = ''pw'', user_admin = True\<rparr>],
     db_projects = [], db_rights = [], db_tokens = [], db_api_keys = []\<rparr>"

theorem change_pass_reports_success_witness:
  "h_replies (change_pass_handler reliable_engine
       (empty_context\<lparr>ctx_client_info := Some (client_of ''r@x'' [])\<rparr>)
       \<lparr>user_change_pass_email = ''r@x'', user_change_pass_old_password = ''pw'',
        user_change_pass_new_password = []\<rparr> root_db)
     = [Send_error_msg ''Can't change password.'', Send user_change_pass_success]"
  by (subst change_pass_reports_success)
     (simp_all add: admin_session_def is_admin_def run_tx_def reliable_engine_def users_by_email_def
       root_db_def rollback_def client_of_def)

end
