(* ===== verification/Fs_Disk.thy ===== *)
theory Fs_Disk
  imports Path_Utils
begin

text \<open>
  The file system under the server: what the source uses of \<^verbatim>\<open>std::filesystem\<close>
  and of file streams on POSIX. An object is a regular file or a directory; a directory lists its
  entries in the order in which \<^verbatim>\<open>directory_iterator\<close> visits them. Paths are resolved by
  the operating system, name by name, with \<^verbatim>\<open>..\<close> leading to the parent. There are no
  symbolic links, and an operation fails for the reasons the tree shows (a missing or
  unsuitable object), not for lack of space or of permissions of the process.

  The lemmas: looking up what was written; an operation changes nothing outside the directory
  it writes to.
\<close>

section \<open>Objects\<close>

datatype fs_obj =
    Regular string u32
  | Directory u32 "(string \<times> fs_obj) list"

text \<open>Error numbers.\<close>

abbreviation "ENOENT \<equiv> (2 :: sys_error)"
abbreviation "EEXIST \<equiv> (17 :: sys_error)"
abbreviation "ENOTDIR \<equiv> (20 :: sys_error)"
abbreviation "EISDIR \<equiv> (21 :: sys_error)"
abbreviation "EINVAL \<equiv> (22 :: sys_error)"
abbreviation "ENOTEMPTY \<equiv> (39 :: sys_error)"

fun obj_at :: "fs_obj \<Rightarrow> string list \<Rightarrow> fs_obj option" where
  "obj_at x [] = Some x"
| "obj_at (Regular c p) (n # ns) = None"
| "obj_at (Directory p es) (n # ns) =
     (case map_of es n of None \<Rightarrow> None | Some x \<Rightarrow> obj_at x ns)"

fun entry_set :: "string \<Rightarrow> 'a option \<Rightarrow> (string \<times> 'a) list \<Rightarrow> (string \<times> 'a) list" where
  "entry_set n v [] = (case v of None \<Rightarrow> [] | Some x \<Rightarrow> [(n, x)])"
| "entry_set n v ((m, y) # es) =
     (if m = n then (case v of None \<Rightarrow> es | Some x \<Rightarrow> (n, x) # es)
      else (m, y) # entry_set n v es)"

text \<open>The object at a path is replaced, added or removed; its directory must exist.\<close>

fun put_at :: "fs_obj option \<Rightarrow> string list \<Rightarrow> fs_obj \<Rightarrow> fs_obj" where
  "put_at v [] x = (case v of None \<Rightarrow> x | Some y \<Rightarrow> y)"
| "put_at v (n # ns) (Regular c p) = Regular c p"
| "put_at v (n # ns) (Directory p es) =
     (if ns = [] then Directory p (entry_set n v es)
      else case map_of es n of
             None \<Rightarrow> Directory p es
           | Some x \<Rightarrow> Directory p (entry_set n (Some (put_at v ns x)) es))"

fun is_dir :: "fs_obj option \<Rightarrow> bool" where
  "is_dir (Some (Directory p es)) = True"
| "is_dir _ = False"

section \<open>Resolving a path\<close>

fun os_walk :: "fs_obj \<Rightarrow> string list \<Rightarrow> string list \<Rightarrow> string list option" where
  "os_walk d at [] = (case obj_at d at of None \<Rightarrow> None | Some _ \<Rightarrow> Some at)"
| "os_walk d at (n # ns) =
     (if is_dir (obj_at d at)
      then (if n = ''.'' then os_walk d at ns
            else if n = ''..'' then os_walk d (butlast at) ns
            else os_walk d (at @ [n]) ns)
      else None)"

definition os_resolve :: "fs_obj \<Rightarrow> string \<Rightarrow> string list option" where
  "os_resolve d path =
     os_walk d [] (path_names path @ (if path \<noteq> [] \<and> last path = slash then [''.''] else []))"

definition os_stat :: "fs_obj \<Rightarrow> string \<Rightarrow> fs_obj option" where
  "os_stat d path = (case os_resolve d path of None \<Rightarrow> None | Some at \<Rightarrow> obj_at d at)"

text \<open>Where an entry that an operation creates, replaces or removes is.\<close>

definition os_target :: "fs_obj \<Rightarrow> string \<Rightarrow> string list option" where
  "os_target d path =
     (let ns = path_names path
      in if ns = [] \<or> last ns = ''.'' \<or> last ns = ''..'' then None
         else case os_walk d [] (butlast ns) of
                None \<Rightarrow> None
              | Some at \<Rightarrow> (if is_dir (obj_at d at) then Some (at @ [last ns]) else None))"

section \<open>Operations\<close>

datatype file_type = Ft_not_found | Ft_regular | Ft_directory

definition os_type :: "fs_obj \<Rightarrow> string \<Rightarrow> file_type" where
  "os_type d path =
     (case os_stat d path of
        None \<Rightarrow> Ft_not_found
      | Some (Regular _ _) \<Rightarrow> Ft_regular
      | Some (Directory _ _) \<Rightarrow> Ft_directory)"

definition os_list :: "fs_obj \<Rightarrow> string \<Rightarrow> string list option" where
  "os_list d path =
     (case os_stat d path of Some (Directory _ es) \<Rightarrow> Some (map fst es) | _ \<Rightarrow> None)"

definition os_read :: "fs_obj \<Rightarrow> string \<Rightarrow> string option" where
  "os_read d path = (case os_stat d path of Some (Regular c _) \<Rightarrow> Some c | _ \<Rightarrow> None)"

definition os_perms :: "fs_obj \<Rightarrow> string \<Rightarrow> u32 option" where
  "os_perms d path =
     (case os_stat d path of None \<Rightarrow> None | Some (Regular _ p) \<Rightarrow> Some p | Some (Directory p _) \<Rightarrow> Some p)"

definition os_remove_all :: "string \<Rightarrow> fs_obj \<Rightarrow> fs_obj" where
  "os_remove_all path d =
     (case os_target d path of None \<Rightarrow> d | Some at \<Rightarrow> put_at None at d)"

text \<open>\<^verbatim>\<open>rename(2)\<close>.\<close>

definition os_rename :: "string \<Rightarrow> string \<Rightarrow> fs_obj \<Rightarrow> fs_obj res" where
  "os_rename old new d =
     (case (os_target d old, os_target d new) of
        (Some from, Some to) \<Rightarrow>
          (case obj_at d from of
             None \<Rightarrow> Inl ENOENT
           | Some x \<Rightarrow>
               (let moved = Inr (put_at (Some x) to (put_at None from d))
                in if from = to then Inr d
                   else if take (length from) to = from then Inl EINVAL
                   else (case (x, obj_at d to) of
                           (_, None) \<Rightarrow> moved
                         | (Regular _ _, Some (Regular _ _)) \<Rightarrow> moved
                         | (Regular _ _, Some (Directory _ _)) \<Rightarrow> Inl EISDIR
                         | (Directory _ _, Some (Regular _ _)) \<Rightarrow> Inl ENOTDIR
                         | (Directory _ _, Some (Directory _ es)) \<Rightarrow>
                             (if es = [] then moved else Inl ENOTEMPTY))))
      | _ \<Rightarrow> Inl ENOENT)"

text \<open>
  \<^verbatim>\<open>create_directories\<close>; a new directory has the mode 0755. What was created before
  an error stays.
\<close>

fun os_mkdirs :: "string list \<Rightarrow> string list \<Rightarrow> fs_obj \<Rightarrow> unit res \<times> fs_obj" where
  "os_mkdirs at [] d = (Inr (), d)"
| "os_mkdirs at (n # ns) d =
     (if n = ''.'' then os_mkdirs at ns d
      else if n = ''..'' then os_mkdirs (butlast at) ns d
      else case obj_at d (at @ [n]) of
             None \<Rightarrow> os_mkdirs (at @ [n]) ns (put_at (Some (Directory 493 [])) (at @ [n]) d)
           | Some (Directory _ _) \<Rightarrow> os_mkdirs (at @ [n]) ns d
           | Some (Regular _ _) \<Rightarrow> (Inl ENOTDIR, d))"

definition os_create_directories :: "string \<Rightarrow> fs_obj \<Rightarrow> unit res \<times> fs_obj" where
  "os_create_directories path = os_mkdirs [] (path_names path)"

text \<open>
  Opening a stream for writing truncates the file or creates it with the mode 0644; \<open>None\<close>
  when it cannot be opened.
\<close>

definition os_open_write :: "string \<Rightarrow> fs_obj \<Rightarrow> fs_obj option" where
  "os_open_write path d =
     (case os_target d path of
        None \<Rightarrow> None
      | Some at \<Rightarrow>
          (case obj_at d at of
             None \<Rightarrow> Some (put_at (Some (Regular [] 420)) at d)
           | Some (Regular _ p) \<Rightarrow> Some (put_at (Some (Regular [] p)) at d)
           | Some (Directory _ _) \<Rightarrow> None))"

text \<open>What was written to an open stream reaches the file.\<close>

definition os_append :: "string \<Rightarrow> string \<Rightarrow> fs_obj \<Rightarrow> fs_obj" where
  "os_append path text d =
     (case os_target d path of
        None \<Rightarrow> d
      | Some at \<Rightarrow>
          (case obj_at d at of
             Some (Regular c p) \<Rightarrow> put_at (Some (Regular (c @ text) p)) at d
           | _ \<Rightarrow> d))"

definition set_mode :: "(u32 \<Rightarrow> u32) \<Rightarrow> fs_obj \<Rightarrow> fs_obj" where
  "set_mode f x = (case x of Regular c p \<Rightarrow> Regular c (f p) | Directory p es \<Rightarrow> Directory (f p) es)"

definition os_permissions :: "string \<Rightarrow> (u32 \<Rightarrow> u32) \<Rightarrow> fs_obj \<Rightarrow> unit res \<times> fs_obj" where
  "os_permissions path f d =
     (case os_resolve d path of
        None \<Rightarrow> (Inl ENOENT, d)
      | Some at \<Rightarrow>
          (case obj_at d at of
             None \<Rightarrow> (Inl ENOENT, d)
           | Some x \<Rightarrow> (Inr (), put_at (Some (set_mode f x)) at d)))"

section \<open>Looking up what was written\<close>

fun fs_wf :: "fs_obj \<Rightarrow> bool" where
  "fs_wf (Regular c p) = True"
| "fs_wf (Directory p es) = (distinct (map fst es) \<and> (\<forall>e \<in> set es. fs_wf (snd e)))"

lemma keys_entry_set:
  "distinct (map fst es) \<Longrightarrow>
     set (map fst (entry_set n v es)) = (case v of None \<Rightarrow> set (map fst es) - {n} | Some _ \<Rightarrow> insert n (set (map fst es)))"
  by (induction n v es rule: entry_set.induct) (auto split: option.splits)

lemma map_of_entry_set:
  "distinct (map fst es) \<Longrightarrow> map_of (entry_set n v es) = (map_of es)(n := v)"
proof (induction n v es rule: entry_set.induct)
  case (1 n v)
  then show ?case by (auto split: option.splits)
next
  case (2 n v m y es)
  then show ?case
    by (auto split: option.splits simp: fun_eq_iff map_of_eq_None_iff)
qed

lemma distinct_entry_set: "distinct (map fst es) \<Longrightarrow> distinct (map fst (entry_set n v es))"
proof (induction n v es rule: entry_set.induct)
  case (2 n v m y es)
  with keys_entry_set [of es n v] show ?case
    by (force split: option.splits)
qed (auto split: option.splits)

lemma obj_at_append:
  "obj_at x (ns @ ms) = (case obj_at x ns of None \<Rightarrow> None | Some y \<Rightarrow> obj_at y ms)"
  by (induction x ns rule: obj_at.induct) (auto split: option.splits)

lemma fs_wf_obj_at: "fs_wf x \<Longrightarrow> obj_at x ns = Some y \<Longrightarrow> fs_wf y"
  by (induction x ns rule: obj_at.induct) (fastforce split: option.splits dest: map_of_SomeD)+

lemma entry_set_wf:
  assumes "distinct (map fst es)" "\<forall>e \<in> set es. fs_wf (snd e)" "\<And>x. v = Some x \<Longrightarrow> fs_wf x"
  shows "fs_wf (Directory p (entry_set n v es))"
proof -
  have "\<forall>e \<in> set (entry_set n v es). fs_wf (snd e)"
    using assms(2,3) by (induction n v es rule: entry_set.induct) (auto split: option.splits)
  with assms(1) show ?thesis by (simp add: distinct_entry_set)
qed

lemma put_at_wf:
  "fs_wf x \<Longrightarrow> (\<And>y. v = Some y \<Longrightarrow> fs_wf y) \<Longrightarrow> fs_wf (put_at v ns x)"
proof (induction v ns x rule: put_at.induct)
  case (3 v n ns p es)
  then show ?case
    by (auto simp del: fs_wf.simps(2) split: option.splits intro!: entry_set_wf)
       (auto dest: map_of_SomeD)
qed (auto split: option.splits)

text \<open>Two paths in the tree are apart when neither is a prefix of the other.\<close>

lemma obj_at_put_same:
  assumes "fs_wf x" "is_dir (obj_at x at)"
  shows "obj_at (put_at v (at @ [n]) x) (at @ [n]) = v"
  using assms
proof (induction at arbitrary: x)
  case Nil
  then obtain p es where "x = Directory p es" by (cases x) auto
  with Nil show ?case by (auto simp: map_of_entry_set split: option.splits)
next
  case (Cons m at)
  then obtain p es where x: "x = Directory p es" by (cases x) auto
  with Cons.prems obtain y where y: "map_of es m = Some y" "is_dir (obj_at y at)"
    by (auto split: option.splits)
  with x Cons.prems have "fs_wf y" by (auto dest: map_of_SomeD)
  with Cons.IH y have "obj_at (put_at v (at @ [n]) y) (at @ [n]) = v" by blast
  with x y Cons.prems show ?case by (auto simp: map_of_entry_set)
qed

lemma obj_at_put_apart:
  assumes "fs_wf x" "take (length ns) ms \<noteq> ns" "take (length ms) ns \<noteq> ms"
  shows "obj_at (put_at v ns x) ms = obj_at x ms"
  using assms
proof (induction v ns x arbitrary: ms rule: put_at.induct)
  case (1 v x)
  then show ?case by simp
next
  case (2 v n ns c p)
  then show ?case by simp
next
  case (3 v n ns p es)
  then obtain m ms' where ms: "ms = m # ms'" by (cases ms) auto
  show ?case
  proof (cases "m = n")
    case True
    with 3 ms have ns: "ns \<noteq> []" by auto
    have "obj_at (put_at v ns y) ms' = obj_at y ms'" if "map_of es n = Some y" for y
      using 3 that ms ns True by (auto dest: map_of_SomeD)
    with 3 ms ns True show ?thesis by (auto simp: map_of_entry_set split: option.splits)
  next
    case False
    with 3 ms show ?thesis by (auto simp: map_of_entry_set split: option.splits)
  qed
qed

end
