(* ===== verification/Error_Code.thy ===== *)
theory Error_Code
  imports Cis_Prelude
begin

text \<open>
  The server's own error codes (\<^verbatim>\<open>include/error_code.h\<close>, \<^verbatim>\<open>src/error_code.cpp\<close>): the
  enumeration, its values, and the message of a value of the category.
\<close>

datatype error_code =
    Ok
  | Too_many_args
  | Cant_parse_config_ini
  | Incorrect_environment
  | Cant_run_http_listener
  | Cant_resolve_address
  | Cant_open_file
  | Cant_cast_config_entry
  | Database_error

fun make_error_code :: "error_code \<Rightarrow> sys_error" where
  "make_error_code Ok = 0"
| "make_error_code Too_many_args = 1"
| "make_error_code Cant_parse_config_ini = 2"
| "make_error_code Incorrect_environment = 3"
| "make_error_code Cant_run_http_listener = 4"
| "make_error_code Cant_resolve_address = 5"
| "make_error_code Cant_open_file = 6"
| "make_error_code Cant_cast_config_entry = 7"
| "make_error_code Database_error = 8"

definition error_message :: "sys_error \<Rightarrow> string" where
  "error_message ev =
     (if ev = make_error_code Ok then ''OK''
      else if ev = make_error_code Too_many_args then ''Too many arguments''
      else if ev = make_error_code Cant_parse_config_ini then ''Can't parse config.ini''
      else if ev = make_error_code Incorrect_environment then ''Incorrect environment''
      else if ev = make_error_code Cant_run_http_listener then ''Can't run HTTP listener''
      else if ev = make_error_code Cant_resolve_address then ''Can't resolve network address''
      else if ev = make_error_code Cant_open_file then ''Can't open file''
      else if ev = make_error_code Cant_cast_config_entry then ''Can't cast config entry''
      else if ev = make_error_code Database_error then ''Database error''
      else ''(unrecognized error)'')"

text \<open>Every code of the enumeration has a message of its own.\<close>

lemma error_messages_distinct:
  "error_message (make_error_code a) = error_message (make_error_code b) \<longleftrightarrow> a = b"
  by (cases a; cases b) (simp_all add: error_message_def)

lemma error_messages_recognized:
  "error_message (make_error_code a) \<noteq> ''(unrecognized error)''"
  by (cases a) (simp_all add: error_message_def)

end
