(* ===== verification/Fs_Cache.thy ===== *)
theory Fs_Cache
  imports Fs_Disk Error_Code
begin

text \<open>
  The cache of directory listings (\<^verbatim>\<open>include/fs_cache.h\<close>, \<^verbatim>\<open>src/fs_cache.cpp\<close>). A node
  keeps what was known of a directory entry when it was last looked at, and its children
  sorted by name. The tree is cut at a caching level; below it the iterators read the
  directories themselves. An iterator into the tree is the list of names that leads to
  its node, so that it keeps its meaning when the node is updated.

  A function that may refresh the tree returns the state it leaves. The clock is read once by
  an operation and is an argument (nanoseconds).
\<close>

section \<open>Nodes\<close>

datatype node_state = St_init | St_deleted | St_sync | St_modified

datatype fs_node = Fs_Node
  (nd_state: node_state)
  (nd_updated: int)
  (nd_path: string)
  (nd_type: file_type)
  (nd_invalidation: int)
  (nd_level: nat)
  (nd_childs: "(string \<times> fs_node) list")

definition fs_node_new :: "fs_obj \<Rightarrow> int \<Rightarrow> int \<Rightarrow> string \<Rightarrow> nat \<Rightarrow> fs_node" where
  "fs_node_new d now invalidation path level =
     Fs_Node St_init now path (os_type d path) invalidation level []"

definition set_state :: "node_state \<Rightarrow> fs_node \<Rightarrow> fs_node" where
  "set_state s n = Fs_Node s (nd_updated n) (nd_path n) (nd_type n) (nd_invalidation n) (nd_level n) (nd_childs n)"

definition set_childs :: "(string \<times> fs_node) list \<Rightarrow> fs_node \<Rightarrow> fs_node" where
  "set_childs cs n = Fs_Node (nd_state n) (nd_updated n) (nd_path n) (nd_type n) (nd_invalidation n) (nd_level n) cs"

text \<open>
  A child that was in sync keeps its listing, its time and its state; its directory entry is the
  new one.
\<close>

definition adopt :: "fs_node \<Rightarrow> fs_node \<Rightarrow> fs_node" where
  "adopt old new =
     (if nd_state old = St_sync
      then Fs_Node (nd_state old) (nd_updated old) (nd_path new) (nd_type new) (nd_invalidation new)
             (nd_level new) (nd_childs old)
      else new)"

fun merge_childs ::
    "(string \<times> fs_node) list \<Rightarrow> (string \<times> fs_node) list \<Rightarrow> (string \<times> fs_node) list" where
  "merge_childs [] new = new"
| "merge_childs old [] = []"
| "merge_childs ((k, x) # old) ((l, y) # new) =
     (if k < l then merge_childs old ((l, y) # new)
      else if k = l then (l, adopt x y) # merge_childs old new
      else (l, y) # merge_childs ((k, x) # old) new)"

text \<open>The children found on the disk. A directory that cannot be read has none.\<close>

definition listed_childs :: "fs_obj \<Rightarrow> int \<Rightarrow> fs_node \<Rightarrow> (string \<times> fs_node) list" where
  "listed_childs d now n =
     foldl (\<lambda>cs name. map_insert name
         (fs_node_new d now (nd_invalidation n) (path_div (nd_path n) name)
            (if nd_level n > 0 then nd_level n - 1 else 0)) cs)
       [] (case os_list d (nd_path n) of None \<Rightarrow> [] | Some names \<Rightarrow> names)"

definition node_load :: "fs_obj \<Rightarrow> int \<Rightarrow> fs_node \<Rightarrow> fs_node" where
  "node_load d now n =
     (if nd_type n \<noteq> Ft_directory \<or> nd_level n = 1 then n
      else set_state St_sync (set_childs (merge_childs (nd_childs n) (listed_childs d now n)) n))"

definition node_update :: "fs_obj \<Rightarrow> int \<Rightarrow> bool \<Rightarrow> fs_node \<Rightarrow> fs_node" where
  "node_update d now force n =
     (if nd_state n = St_sync \<and> \<not> force \<and> now - nd_updated n < nd_invalidation n then n
      else (let n' = Fs_Node (nd_state n) now (nd_path n) (os_type d (nd_path n)) (nd_invalidation n)
                       (nd_level n) (nd_childs n)
            in if nd_type n' = Ft_not_found then set_state St_deleted n'
               else node_load d now n'))"

text \<open>What is left of the node; the disk loses the tree below its path.\<close>

definition node_remove :: "fs_node \<Rightarrow> fs_node" where
  "node_remove n = set_state St_deleted (set_childs [] n)"

definition node_invalidate :: "fs_node \<Rightarrow> fs_node" where
  "node_invalidate n = set_state St_modified n"

fun node_at :: "fs_node \<Rightarrow> string list \<Rightarrow> fs_node option" where
  "node_at n [] = Some n"
| "node_at n (k # ks) = (case map_of (nd_childs n) k of None \<Rightarrow> None | Some c \<Rightarrow> node_at c ks)"

fun map_node :: "(fs_node \<Rightarrow> fs_node) \<Rightarrow> string list \<Rightarrow> fs_node \<Rightarrow> fs_node" where
  "map_node f [] n = f n"
| "map_node f (k # ks) n =
     (case map_of (nd_childs n) k of
        None \<Rightarrow> n
      | Some c \<Rightarrow> set_childs (entry_set k (Some (map_node f ks c)) (nd_childs n)) n)"

section \<open>The cache and its iterators\<close>

record fs_cache =
  fsc_root :: fs_node
  fsc_max_level :: nat
  fsc_invalidation :: int
  fsc_disk :: fs_obj

definition fs_cache_new :: "fs_obj \<Rightarrow> int \<Rightarrow> string \<Rightarrow> nat \<Rightarrow> int \<Rightarrow> fs_cache" where
  "fs_cache_new d now path max_level invalidation =
     \<lparr>fsc_root = fs_node_new d now invalidation path max_level, fsc_max_level = max_level,
      fsc_invalidation = invalidation, fsc_disk = d\<rparr>"

text \<open>
  A position in the tree, the end of the children of a node, or a directory that is being read
  with the entries still to visit (none at the end).
\<close>

datatype fs_iter =
    Tree_it "string list"
  | Tree_end "string list"
  | Dir_it string "string list"

definition update_at :: "int \<Rightarrow> string list \<Rightarrow> fs_cache \<Rightarrow> fs_cache" where
  "update_at now ks fs =
     fs\<lparr>fsc_root := map_node (node_update (fsc_disk fs) now False) ks (fsc_root fs)\<rparr>"

definition cache_node :: "fs_cache \<Rightarrow> string list \<Rightarrow> fs_node option" where
  "cache_node fs ks = node_at (fsc_root fs) ks"

definition cache_begin :: "int \<Rightarrow> fs_cache \<Rightarrow> fs_iter \<times> fs_cache" where
  "cache_begin now fs =
     (let fs' = update_at now [] fs
      in (case nd_childs (fsc_root fs') of
            [] \<Rightarrow> Tree_end []
          | (k, _) # _ \<Rightarrow> Tree_it [k], fs'))"

abbreviation cache_end :: fs_iter where "cache_end \<equiv> Tree_end []"

definition root_path_of :: "fs_cache \<Rightarrow> string" where
  "root_path_of fs = nd_path (fsc_root fs)"

text \<open>
  The search below the caching level, in the directory that holds the last name of the path.
\<close>

definition find_in_dir :: "fs_cache \<Rightarrow> string \<Rightarrow> fs_iter" where
  "find_in_dir fs path =
     (let dir = remove_filename (root_path_of fs @ path)
      in case os_list (fsc_disk fs) dir of
           None \<Rightarrow> cache_end
         | Some names \<Rightarrow>
             (case dropWhile (\<lambda>n. n \<noteq> path_filename path) names of
                [] \<Rightarrow> cache_end
              | rest \<Rightarrow> Dir_it dir rest))"

fun find_loop ::
    "int \<Rightarrow> string \<Rightarrow> string list \<Rightarrow> nat \<Rightarrow> string list \<Rightarrow> fs_cache \<Rightarrow> fs_iter \<times> fs_cache" where
  "find_loop now path [] depth current fs = (Tree_it current, fs)"
| "find_loop now path (part # parts) depth current fs =
     (if part = ''/'' then find_loop now path parts depth current fs
      else case cache_node fs current of
        None \<Rightarrow> (cache_end, fs)
      | Some node \<Rightarrow>
         (let depth = Suc depth;
              stale = (now - nd_updated node > fsc_invalidation fs \<and> depth \<le> fsc_max_level fs
                       \<or> nd_state node = St_init);
              fs1 = (if stale then update_at now current fs else fs)
          in if depth = fsc_max_level fs then (find_in_dir fs1 path, fs1)
             else (let fs2 = (if cache_node fs1 (current @ [part]) = None \<and> \<not> stale
                              then update_at now current fs1 else fs1)
                   in if cache_node fs2 (current @ [part]) = None then (cache_end, fs2)
                      else find_loop now path parts depth (current @ [part]) fs2)))"

definition cache_find :: "int \<Rightarrow> string \<Rightarrow> fs_cache \<Rightarrow> fs_iter \<times> fs_cache" where
  "cache_find now path fs = find_loop now path (path_iter path) 0 [] fs"

section \<open>Iterators\<close>

text \<open>The path and the type of the entry an iterator points to.\<close>

definition it_path :: "fs_cache \<Rightarrow> fs_iter \<Rightarrow> string" where
  "it_path fs it =
     (case it of
        Tree_it ks \<Rightarrow> (case cache_node fs ks of Some n \<Rightarrow> nd_path n | None \<Rightarrow> [])
      | Dir_it dir (n # _) \<Rightarrow> path_div dir n
      | _ \<Rightarrow> [])"

definition it_type :: "fs_cache \<Rightarrow> fs_iter \<Rightarrow> file_type" where
  "it_type fs it =
     (case it of
        Tree_it ks \<Rightarrow> (case cache_node fs ks of Some n \<Rightarrow> nd_type n | None \<Rightarrow> Ft_not_found)
      | Dir_it dir (n # _) \<Rightarrow> os_type (fsc_disk fs) (path_div dir n)
      | _ \<Rightarrow> Ft_not_found)"

definition directory_iterator :: "fs_cache \<Rightarrow> string \<Rightarrow> fs_iter" where
  "directory_iterator fs dir =
     Dir_it dir (case os_list (fsc_disk fs) dir of None \<Rightarrow> [] | Some names \<Rightarrow> names)"

text \<open>Iterators are compared with an end: the end of a listing is the end of any listing.\<close>

definition it_eq :: "fs_iter \<Rightarrow> fs_iter \<Rightarrow> bool" where
  "it_eq a b =
     (case (a, b) of
        (Dir_it _ [], Dir_it _ []) \<Rightarrow> True
      | _ \<Rightarrow> a = b)"

definition it_end :: "fs_cache \<Rightarrow> fs_iter \<Rightarrow> fs_iter" where
  "it_end fs it =
     (case it of
        Tree_it ks \<Rightarrow>
          (case cache_node fs ks of
             Some n \<Rightarrow> (if nd_level n > 1 then Tree_end ks else Dir_it [] [])
           | None \<Rightarrow> Tree_end ks)
      | _ \<Rightarrow> Dir_it [] [])"

definition deleted_child :: "string \<times> fs_node \<Rightarrow> bool" where
  "deleted_child c = (nd_state (snd c) = St_deleted)"

text \<open>
  \<^verbatim>\<open>begin\<close> skips one deleted child, \<^verbatim>\<open>operator++\<close> any number of
  them.
\<close>

definition it_begin :: "int \<Rightarrow> fs_iter \<Rightarrow> fs_cache \<Rightarrow> fs_iter \<times> fs_cache" where
  "it_begin now it fs =
     (case it of
        Tree_it ks \<Rightarrow>
          (case cache_node fs ks of
             None \<Rightarrow> (Tree_end ks, fs)
           | Some n \<Rightarrow>
               (if nd_level n > 1
                then (let fs' = update_at now ks fs;
                          cs = (case cache_node fs' ks of Some n' \<Rightarrow> nd_childs n' | None \<Rightarrow> []);
                          cs' = (case cs of [] \<Rightarrow> [] | c # r \<Rightarrow> if deleted_child c then r else cs)
                      in (case cs' of [] \<Rightarrow> Tree_end ks | c # _ \<Rightarrow> Tree_it (ks @ [fst c]), fs'))
                else (directory_iterator fs (nd_path n), fs)))
      | Dir_it dir (n # _) \<Rightarrow> (directory_iterator fs (path_div dir n), fs)
      | _ \<Rightarrow> (Dir_it [] [], fs))"

definition it_next :: "fs_cache \<Rightarrow> fs_iter \<Rightarrow> fs_iter" where
  "it_next fs it =
     (case it of
        Tree_it ks \<Rightarrow>
          (let ps = butlast ks;
               cs = (case cache_node fs ps of Some n \<Rightarrow> nd_childs n | None \<Rightarrow> [])
           in case dropWhile deleted_child (tl (dropWhile (\<lambda>c. fst c \<noteq> last ks) cs)) of
                [] \<Rightarrow> Tree_end ps
              | c # _ \<Rightarrow> Tree_it (ps @ [fst c]))
      | Dir_it dir (n # ns) \<Rightarrow> Dir_it dir ns
      | _ \<Rightarrow> it)"

text \<open>
  The iterators a loop visits from \<open>it\<close> on, when its body changes neither the
  directory it runs over nor the siblings.
\<close>

definition it_rest :: "fs_cache \<Rightarrow> fs_iter \<Rightarrow> fs_iter list" where
  "it_rest fs it =
     (case it of
        Tree_it ks \<Rightarrow>
          (let ps = butlast ks;
               cs = (case cache_node fs ps of Some n \<Rightarrow> nd_childs n | None \<Rightarrow> [])
           in it # map (\<lambda>c. Tree_it (ps @ [fst c]))
                (filter (\<lambda>c. \<not> deleted_child c) (tl (dropWhile (\<lambda>c. fst c \<noteq> last ks) cs))))
      | Dir_it dir ns \<Rightarrow> map (\<lambda>i. Dir_it dir (drop i ns)) [0..<length ns]
      | Tree_end _ \<Rightarrow> [])"

text \<open>\<^verbatim>\<open>fs_iterator::find\<close>: unlike \<^verbatim>\<open>fs_cache::find\<close> it ignores deleted nodes.\<close>

definition it_find :: "int \<Rightarrow> fs_iter \<Rightarrow> string \<Rightarrow> fs_cache \<Rightarrow> fs_iter \<times> fs_cache" where
  "it_find now it name fs =
     (let scan = (\<lambda>(b, fs). case b of
                      Dir_it dir ns \<Rightarrow> (Dir_it dir (dropWhile (\<lambda>n. n \<noteq> name) ns), fs)
                    | _ \<Rightarrow> (b, fs))
      in case it of
           Tree_it ks \<Rightarrow>
             (case cache_node fs ks of
                None \<Rightarrow> (Tree_end ks, fs)
              | Some n \<Rightarrow>
                  (if nd_level n > 1
                   then (let fs' = update_at now ks fs
                         in case cache_node fs' (ks @ [name]) of
                              None \<Rightarrow> (Tree_end ks, fs')
                            | Some c \<Rightarrow> (if nd_state c = St_deleted then Tree_end ks else Tree_it (ks @ [name]), fs'))
                   else scan (it_begin now it fs)))
         | _ \<Rightarrow> scan (it_begin now it fs))"

definition it_remove :: "fs_iter \<Rightarrow> fs_cache \<Rightarrow> fs_cache" where
  "it_remove it fs =
     (case it of
        Tree_it ks \<Rightarrow>
          fs\<lparr>fsc_disk := os_remove_all (it_path fs it) (fsc_disk fs),
             fsc_root := map_node node_remove ks (fsc_root fs)\<rparr>
      | Dir_it _ (_ # _) \<Rightarrow> fs\<lparr>fsc_disk := os_remove_all (it_path fs it) (fsc_disk fs)\<rparr>
      | _ \<Rightarrow> fs)"

definition it_update :: "int \<Rightarrow> fs_iter \<Rightarrow> fs_cache \<Rightarrow> fs_cache" where
  "it_update now it fs = (case it of Tree_it ks \<Rightarrow> update_at now ks fs | _ \<Rightarrow> fs)"

definition it_invalidate :: "fs_iter \<Rightarrow> fs_cache \<Rightarrow> fs_cache" where
  "it_invalidate it fs =
     (case it of
        Tree_it ks \<Rightarrow> fs\<lparr>fsc_root := map_node node_invalidate ks (fsc_root fs)\<rparr>
      | _ \<Rightarrow> fs)"

section \<open>Changes through the cache\<close>

definition find_and_invalidate :: "int \<Rightarrow> string \<Rightarrow> fs_cache \<Rightarrow> fs_cache" where
  "find_and_invalidate now path fs =
     (let (it, fs') = cache_find now path fs
      in if it_eq it cache_end then fs' else it_invalidate it fs')"

definition move_entry :: "int \<Rightarrow> string \<Rightarrow> string \<Rightarrow> fs_cache \<Rightarrow> unit res \<times> fs_cache" where
  "move_entry now old new fs =
     (case os_rename (root_path_of fs @ old) (root_path_of fs @ new) (fsc_disk fs) of
        Inl e \<Rightarrow> (Inl e, fs)
      | Inr d \<Rightarrow> (Inr (), find_and_invalidate now (parent_path new)
                        (find_and_invalidate now (parent_path old) (fs\<lparr>fsc_disk := d\<rparr>))))"

definition create_directory :: "int \<Rightarrow> string \<Rightarrow> fs_cache \<Rightarrow> unit res \<times> fs_cache" where
  "create_directory now path fs =
     (case os_create_directories (root_path_of fs @ path) (fsc_disk fs) of
        (Inl e, d) \<Rightarrow> (Inl e, fs\<lparr>fsc_disk := d\<rparr>)
      | (Inr _, d) \<Rightarrow> (Inr (), find_and_invalidate now (parent_path path) (fs\<lparr>fsc_disk := d\<rparr>)))"

text \<open>
  \<^verbatim>\<open>create_file_w\<close>: the value stands for the open stream.
\<close>

definition create_file_w :: "int \<Rightarrow> string \<Rightarrow> fs_cache \<Rightarrow> unit res \<times> fs_cache" where
  "create_file_w now path fs =
     (case os_open_write (root_path_of fs @ path) (fsc_disk fs) of
        None \<Rightarrow> (Inl (make_error_code Cant_open_file), fs)
      | Some d \<Rightarrow> (Inr (), find_and_invalidate now (parent_path path) (fs\<lparr>fsc_disk := d\<rparr>)))"

definition set_permissions :: "string \<Rightarrow> u32 \<Rightarrow> fs_cache \<Rightarrow> unit res \<times> fs_cache" where
  "set_permissions path mode fs =
     (let (r, d) = os_permissions (root_path_of fs @ path) (\<lambda>_. mode) (fsc_disk fs)
      in (r, fs\<lparr>fsc_disk := d\<rparr>))"

end
