(* ===== verification/Std_Text.thy ===== *)
theory Std_Text
  imports Cis_Prelude
begin

text \<open>
  Reading numbers and words from text, as the standard library does it: the classes of characters
  in the C locale, \<^verbatim>\<open>std::stoul\<close>, and formatted input from a stream.
\<close>

definition is_space :: "char \<Rightarrow> bool" where
  "is_space c \<longleftrightarrow> of_char c \<in> {9, 10, 11, 12, 13, 32 :: nat}"

definition is_digit :: "char \<Rightarrow> bool" where
  "is_digit c \<longleftrightarrow> 48 \<le> (of_char c :: nat) \<and> (of_char c :: nat) \<le> 57"

definition digit_value :: "string \<Rightarrow> nat" where
  "digit_value ds = foldl (\<lambda>v c. v * 10 + (of_char c - 48)) 0 ds"

definition trim_right :: "string \<Rightarrow> string" where
  "trim_right s = rev (dropWhile is_space (rev s))"

text \<open>
  \<^verbatim>\<open>stoul\<close>: blanks, an optional sign, digits; \<open>None\<close> when it throws. A negative number wraps.
\<close>

definition stoul :: "string \<Rightarrow> u64 option" where
  "stoul s =
     (let t = dropWhile is_space s;
          neg = (t \<noteq> [] \<and> hd t = CHR ''-'');
          u = (if t \<noteq> [] \<and> (hd t = CHR ''-'' \<or> hd t = CHR ''+'') then tl t else t);
          ds = takeWhile is_digit u
      in if ds = [] \<or> digit_value ds \<ge> 2 ^ 64 then None
         else Some (if neg then - of_nat (digit_value ds) else of_nat (digit_value ds)))"

text \<open>\<^verbatim>\<open>operator>>\<close> into an \<^verbatim>\<open>int\<close>: 0 when there is no number, the nearest bound when it does not fit.\<close>

definition read_int :: "string \<Rightarrow> int" where
  "read_int s =
     (let t = dropWhile is_space s;
          neg = (t \<noteq> [] \<and> hd t = CHR ''-'');
          u = (if t \<noteq> [] \<and> (hd t = CHR ''-'' \<or> hd t = CHR ''+'') then tl t else t);
          v = int (digit_value (takeWhile is_digit u))
      in if neg then max (- (2 ^ 31)) (- v) else min (2 ^ 31 - 1) v)"

text \<open>\<^verbatim>\<open>operator>>\<close> into a string: the first word.\<close>

definition read_word :: "string \<Rightarrow> string" where
  "read_word s = takeWhile (\<lambda>c. \<not> is_space c) (dropWhile is_space s)"

text \<open>\<^verbatim>\<open>std::to_string\<close> of an unsigned number.\<close>

fun decimal :: "nat \<Rightarrow> string" where
  "decimal n = (if n < 10 then [] else decimal (n div 10)) @ [char_of (48 + n mod 10)]"

declare decimal.simps [simp del]

lemma is_digit_char_of: "d < 10 \<Longrightarrow> is_digit (char_of (48 + d))" for d :: nat
  by (simp add: is_digit_def)

lemma decimal_digits: "\<forall>c \<in> set (decimal n). is_digit c"
  by (induction n rule: decimal.induct) (subst decimal.simps, simp add: is_digit_char_of)

lemma decimal_not_Nil [simp]: "decimal n \<noteq> []"
  by (simp add: decimal.simps [of n])

lemma digit_value_snoc: "digit_value (ds @ [c]) = digit_value ds * 10 + (of_char c - 48)"
  by (simp add: digit_value_def)

lemma digit_value_decimal [simp]: "digit_value (decimal n) = n"
proof (induction n rule: decimal.induct)
  case (1 n)
  have d: "of_char (char_of (48 + n mod 10) :: char) = 48 + n mod 10" by simp
  show ?case
  proof (cases "n < 10")
    case True
    then show ?thesis using d by (simp add: decimal.simps [of n] digit_value_def)
  next
    case False
    then have "digit_value (decimal n) = digit_value (decimal (n div 10)) * 10 + n mod 10"
      using d by (simp add: decimal.simps [of n] digit_value_snoc)
    with 1 False show ?thesis by simp
  qed
qed

lemma is_digit_not_space: "is_digit c \<Longrightarrow> \<not> is_space c"
  by (auto simp: is_digit_def is_space_def)

text \<open>Reading back a number that was printed.\<close>

lemma stoul_decimal: "n < 2 ^ 64 \<Longrightarrow> stoul (decimal n) = Some (of_nat n)"
proof -
  assume n: "n < 2 ^ 64"
  obtain c cs where d: "decimal n = c # cs" by (cases "decimal n") auto
  then have c: "is_digit c" and all: "takeWhile is_digit (decimal n) = decimal n"
    using decimal_digits [of n] by (auto simp: takeWhile_eq_all_conv)
  have "dropWhile is_space (decimal n) = decimal n"
    using d is_digit_not_space [OF c] by simp
  moreover have "c \<noteq> CHR ''-''" "c \<noteq> CHR ''+''" using c by (auto simp: is_digit_def)
  ultimately have "stoul (decimal n)
      = (if decimal n = [] \<or> digit_value (decimal n) \<ge> 2 ^ 64 then None else Some (of_nat (digit_value (decimal n))))"
    unfolding stoul_def Let_def using all d by (simp only: list.sel list.simps simp_thms if_False)
  also have "\<dots> = Some (of_nat n)"
    unfolding digit_value_decimal using n by (simp only: decimal_not_Nil simp_thms not_le [symmetric] if_False)
  finally show ?thesis .
qed

end
