(* ===== verification/Cis_Structs.thy ===== *)
theory Cis_Structs
  imports Fs_Cache Std_Text
begin

text \<open>
  Projects, jobs and builds (\<^verbatim>\<open>src/cis/cis_structs.cpp\<close>): directories of the cache with
  the files that describe them. A job is a directory with a usable \<^verbatim>\<open>job.conf\<close>, a
  build one whose name is six digits.

  Reading a configuration is a loop over a file stream that need not end; the functions
  that run it return \<open>None\<close> when it does not. The parser of \<^verbatim>\<open>job.params\<close>
  (\<^verbatim>\<open>read_istream_ordered_kv_str\<close> of the protocol library) is an argument.
\<close>

section \<open>Input streams\<close>

text \<open>
  What is left of the file and the two state flags. A stream that could not be opened
  starts as failed; reading a directory fails at the first read, with the same effect.
\<close>

record istream =
  is_rest :: string
  is_eof :: bool
  is_fail :: bool

definition open_stream :: "string option \<Rightarrow> istream" where
  "open_stream content =
     (case content of
        Some c \<Rightarrow> \<lparr>is_rest = c, is_eof = False, is_fail = False\<rparr>
      | None \<Rightarrow> \<lparr>is_rest = [], is_eof = False, is_fail = True\<rparr>)"

definition stream_good :: "istream \<Rightarrow> bool" where
  "stream_good s \<longleftrightarrow> \<not> is_eof s \<and> \<not> is_fail s"

text \<open>
  \<^verbatim>\<open>std::getline\<close> into an empty string: nothing is read from a stream that is not
  good; the delimiter is taken and not stored; a file that ends before it sets the end-of-file flag, and
  the failure flag as well when there was nothing left.
\<close>

definition getline :: "char \<Rightarrow> istream \<Rightarrow> string \<times> istream" where
  "getline delim s =
     (if \<not> stream_good s then ([], s\<lparr>is_fail := True\<rparr>)
      else (let w = takeWhile (\<lambda>c. c \<noteq> delim) (is_rest s);
                r = dropWhile (\<lambda>c. c \<noteq> delim) (is_rest s)
            in if r = [] then (w, \<lparr>is_rest = [], is_eof = True, is_fail = (w = [])\<rparr>)
               else (w, s\<lparr>is_rest := tl r\<rparr>)))"

section \<open>The configuration of a job\<close>

type_synonym job_conf = "(string \<times> string) list"

definition conf_complete :: "job_conf \<Rightarrow> bool" where
  "conf_complete conf \<longleftrightarrow>
     map_of conf ''script'' \<noteq> None
     \<and> (case map_of conf ''keep_last_success_builds'' of None \<Rightarrow> False | Some v \<Rightarrow> stoul v \<noteq> None)
     \<and> (case map_of conf ''keep_last_break_builds'' of None \<Rightarrow> False | Some v \<Rightarrow> stoul v \<noteq> None)"

text \<open>
  The loop reads \<^verbatim>\<open>key=value\<close> lines until the end of the file. A line that begins with
  the equals sign makes the whole file unusable; text after the last line without an equals sign is dropped.
\<close>

partial_function (option) load_conf_loop :: "istream \<Rightarrow> job_conf \<Rightarrow> job_conf option" where
  "load_conf_loop s conf =
     (if is_eof s then Some (if conf_complete conf then conf else [])
      else let (key, s1) = getline CHR ''='' s
           in if key = [] \<and> stream_good s1 then Some []
              else if is_eof s1 then Some (if conf_complete conf then conf else [])
              else let (val, s2) = getline CHR 0x0A s1
                   in load_conf_loop s2 (map_assign key (trim_right val) conf))"

definition load_job_conf :: "string option \<Rightarrow> job_conf option" where
  "load_job_conf content = load_conf_loop (open_stream content) []"

section \<open>Projects, jobs and builds\<close>

definition project_is_entry :: "fs_iter \<Rightarrow> fs_cache \<Rightarrow> bool" where
  "project_is_entry it fs \<longleftrightarrow> it_type fs it = Ft_directory"

definition job_is_entry :: "int \<Rightarrow> fs_iter \<Rightarrow> fs_cache \<Rightarrow> (bool \<times> fs_cache) option" where
  "job_is_entry now it fs =
     (if it_type fs it \<noteq> Ft_directory then Some (False, fs)
      else let (conf_it, fs1) = it_find now it ''job.conf'' fs
           in if it_eq conf_it (it_end fs1 it) then Some (False, fs1)
              else map_option (\<lambda>conf. (conf \<noteq> [], fs1))
                     (load_job_conf (os_read (fsc_disk fs1) (it_path fs1 conf_it))))"

record job_info =
  job_it :: fs_iter
  job_script :: string
  job_keep_successful :: u32
  job_keep_broken :: u32
  job_params :: "(string \<times> string) list"

definition conf_value :: "job_conf \<Rightarrow> string \<Rightarrow> string" where
  "conf_value conf key = (case map_of conf key of Some v \<Rightarrow> v | None \<Rightarrow> [])"

text \<open>
  The constructor of \<^verbatim>\<open>job\<close>, which reads the configuration again. Its two
  \<^verbatim>\<open>stoul\<close> do not throw on a configuration that was accepted.
\<close>

definition job_new ::
    "(string \<Rightarrow> (string \<times> string) list) \<Rightarrow> int \<Rightarrow> fs_iter \<Rightarrow> fs_cache \<Rightarrow> (job_info \<times> fs_cache) option"
  where
  "job_new read_params now it fs =
     (let (conf_it, fs1) = it_find now it ''job.conf'' fs
      in case load_job_conf (os_read (fsc_disk fs1) (it_path fs1 conf_it)) of
           None \<Rightarrow> None
         | Some conf \<Rightarrow>
             (let keep = (\<lambda>key. case stoul (conf_value conf key) of Some v \<Rightarrow> ucast v | None \<Rightarrow> 0);
                  (params_it, fs2) = it_find now it ''job.params'' fs1;
                  params = (if \<not> it_eq params_it (it_end fs2 it) \<and> it_type fs2 params_it = Ft_regular
                            then (case os_read (fsc_disk fs2) (it_path fs2 params_it) of
                                    Some c \<Rightarrow> read_params c | None \<Rightarrow> [])
                            else [])
              in Some (\<lparr>job_it = it, job_script = conf_value conf ''script'',
                        job_keep_successful = keep ''keep_last_success_builds'',
                        job_keep_broken = keep ''keep_last_break_builds'',
                        job_params = params\<rparr>, fs2)))"

definition build_is_entry :: "fs_iter \<Rightarrow> fs_cache \<Rightarrow> bool" where
  "build_is_entry it fs \<longleftrightarrow>
     it_type fs it = Ft_directory
     \<and> (let name = path_filename (it_path fs it) in length name = 6 \<and> list_all is_digit name)"

record build_info =
  build_it :: fs_iter
  bi_status :: "int option"
  bi_exit_message :: "string option"
  bi_session_id :: "string option"
  bi_date :: "string option"

text \<open>The content of a regular file of the directory, if there is one.\<close>

definition file_of :: "int \<Rightarrow> fs_iter \<Rightarrow> string \<Rightarrow> fs_cache \<Rightarrow> string option \<times> fs_cache" where
  "file_of now it name fs =
     (let (f, fs1) = it_find now it name fs
      in (if \<not> it_eq f (it_end fs1 it) \<and> it_type fs1 f = Ft_regular
          then Some (case os_read (fsc_disk fs1) (it_path fs1 f) of Some c \<Rightarrow> c | None \<Rightarrow> [])
          else None, fs1))"

definition build_new :: "int \<Rightarrow> fs_iter \<Rightarrow> fs_cache \<Rightarrow> build_info \<times> fs_cache" where
  "build_new now it fs =
     (let (code, fs1) = file_of now it ''exitcode.txt'' fs;
          (session, fs2) = file_of now it ''session_id.txt'' fs1;
          (message, fs3) = file_of now it ''exitmessage.txt'' fs2;
          session_id = map_option read_word session
      in (\<lparr>build_it = it, bi_status = map_option read_int code, bi_exit_message = message,
           bi_session_id = session_id,
           bi_date = (case session_id of
                        Some s \<Rightarrow> (if length s > 19 then Some (take 19 s) else None)
                      | None \<Rightarrow> None)\<rparr>, fs3))"

section \<open>Listings\<close>

datatype 'a listed = Plain_entry fs_iter | Item 'a

definition project_get_job_info ::
    "(string \<Rightarrow> (string \<times> string) list) \<Rightarrow> int \<Rightarrow> fs_iter \<Rightarrow> string \<Rightarrow> fs_cache
      \<Rightarrow> (job_info option \<times> fs_cache) option" where
  "project_get_job_info read_params now prj job_name fs =
     (let (it, fs1) = it_find now prj job_name fs
      in if it_eq it (it_end fs1 prj) then Some (None, fs1)
         else case job_is_entry now it fs1 of
                None \<Rightarrow> None
              | Some (False, fs2) \<Rightarrow> Some (None, fs2)
              | Some (True, fs2) \<Rightarrow> map_option (\<lambda>(j, fs3). (Some j, fs3)) (job_new read_params now it fs2))"

fun list_jobs ::
    "(string \<Rightarrow> (string \<times> string) list) \<Rightarrow> int \<Rightarrow> fs_iter list \<Rightarrow> fs_cache
      \<Rightarrow> (job_info listed list \<times> fs_cache) option" where
  "list_jobs read_params now [] fs = Some ([], fs)"
| "list_jobs read_params now (it # its) fs =
     (case job_is_entry now it fs of
        None \<Rightarrow> None
      | Some (is_job, fs1) \<Rightarrow>
          (case (if is_job then map_option (\<lambda>(j, fs2). (Item j, fs2)) (job_new read_params now it fs1)
                 else Some (Plain_entry it, fs1)) of
             None \<Rightarrow> None
           | Some (x, fs2) \<Rightarrow> map_option (\<lambda>(xs, fs3). (x # xs, fs3)) (list_jobs read_params now its fs2)))"

definition project_get_job_list ::
    "(string \<Rightarrow> (string \<times> string) list) \<Rightarrow> int \<Rightarrow> fs_iter \<Rightarrow> fs_cache
      \<Rightarrow> (job_info listed list \<times> fs_cache) option" where
  "project_get_job_list read_params now prj fs =
     (let (first, fs1) = it_begin now prj fs
      in list_jobs read_params now (it_rest fs1 first) fs1)"

definition job_get_build_info ::
    "int \<Rightarrow> job_info \<Rightarrow> string \<Rightarrow> fs_cache \<Rightarrow> build_info option \<times> fs_cache" where
  "job_get_build_info now job build_name fs =
     (let (it, fs1) = it_find now (job_it job) build_name fs
      in if it_eq it (it_end fs1 (job_it job)) \<or> \<not> build_is_entry it fs1 then (None, fs1)
         else (let (b, fs2) = build_new now it fs1 in (Some b, fs2)))"

fun list_builds :: "int \<Rightarrow> fs_iter list \<Rightarrow> fs_cache \<Rightarrow> build_info listed list \<times> fs_cache" where
  "list_builds now [] fs = ([], fs)"
| "list_builds now (it # its) fs =
     (let (x, fs1) = (if build_is_entry it fs
                      then (let (b, fs1) = build_new now it fs in (Item b, fs1))
                      else (Plain_entry it, fs));
          (xs, fs2) = list_builds now its fs1
      in (x # xs, fs2))"

definition job_get_build_list :: "int \<Rightarrow> job_info \<Rightarrow> fs_cache \<Rightarrow> build_info listed list \<times> fs_cache" where
  "job_get_build_list now job fs =
     (let (first, fs1) = it_begin now (job_it job) fs
      in list_builds now (it_rest fs1 first) fs1)"

definition job_find_entry :: "int \<Rightarrow> string \<Rightarrow> job_info \<Rightarrow> fs_cache \<Rightarrow> fs_iter option \<times> fs_cache" where
  "job_find_entry now name job fs =
     (let (it, fs1) = it_find now (job_it job) name fs
      in (if it_eq it (it_end fs1 (job_it job)) then None else Some it, fs1))"

definition get_script_entry :: "int \<Rightarrow> job_info \<Rightarrow> fs_cache \<Rightarrow> fs_iter option \<times> fs_cache" where
  "get_script_entry now job = job_find_entry now (job_script job) job"

definition get_params_entry :: "int \<Rightarrow> job_info \<Rightarrow> fs_cache \<Rightarrow> fs_iter option \<times> fs_cache" where
  "get_params_entry now job = job_find_entry now ''job.params'' job"

definition get_conf_entry :: "int \<Rightarrow> job_info \<Rightarrow> fs_cache \<Rightarrow> fs_iter option \<times> fs_cache" where
  "get_conf_entry now job = job_find_entry now ''job.conf'' job"

section \<open>The configuration loop\<close>

lemma getline_fail: "is_fail s \<Longrightarrow> getline d s = ([], s)"
  by (simp add: getline_def stream_good_def)

lemma getline_good:
  assumes "\<not> is_fail s" "\<not> is_eof s" "getline d s = (w, s')"
  shows "is_eof s' \<or> \<not> is_fail s' \<and> length (is_rest s') < length (is_rest s)"
proof -
  let ?r = "dropWhile (\<lambda>c. c \<noteq> d) (is_rest s)"
  have "length ?r \<le> length (is_rest s)" by (rule length_dropWhile_le)
  then show ?thesis
    using assms by (cases ?r) (auto simp: getline_def stream_good_def Let_def)
qed

text \<open>Every file that can be read is parsed to an end.\<close>

lemma load_conf_loop_terminates:
  "\<not> is_fail s \<or> is_eof s \<Longrightarrow> load_conf_loop s conf \<noteq> None"
proof (induction "length (is_rest s)" arbitrary: s conf rule: less_induct)
  case less
  show ?case
  proof (cases "is_eof s")
    case True
    then show ?thesis by (subst load_conf_loop.simps) simp
  next
    case False
    with less.prems have good: "\<not> is_fail s" by simp
    obtain key s1 where key: "getline CHR ''='' s = (key, s1)" by fastforce
    obtain val s2 where val: "getline CHR 0x0A s1 = (val, s2)" by fastforce
    show ?thesis
    proof (cases "is_eof s1")
      case True
      with False key show ?thesis by (subst load_conf_loop.simps) simp
    next
      case s1: False
      with getline_good [OF good False key] have s1': "\<not> is_fail s1" "length (is_rest s1) < length (is_rest s)"
        by auto
      have "load_conf_loop s2 c \<noteq> None" for c
      proof (cases "is_eof s2")
        case True
        then show ?thesis by (subst load_conf_loop.simps) simp
      next
        case False
        with getline_good [OF s1'(1) s1 val] s1'(2) show ?thesis
          by (intro less.hyps) auto
      qed
      with False s1 key val show ?thesis by (subst load_conf_loop.simps) simp
    qed
  qed
qed

text \<open>A stream that failed is read again and again.\<close>

lemma load_conf_loop_diverges:
  assumes "is_fail s" "\<not> is_eof s"
  shows "load_conf_loop s conf = None"
proof -
  have "\<not> (is_fail s \<and> \<not> is_eof s)" if "load_conf_loop s conf = Some r" for s conf r
    using that
  proof (rule load_conf_loop.raw_induct [where P = "\<lambda>s conf r. \<not> (is_fail s \<and> \<not> is_eof s)", rotated])
    fix f s conf r
    assume IH: "\<And>s conf r. f s conf = Some r \<Longrightarrow> \<not> (is_fail s \<and> \<not> is_eof s)"
      and eq: "(if is_eof s then Some (if conf_complete conf then conf else [])
        else let (key, s1) = getline CHR ''='' s
             in if key = [] \<and> stream_good s1 then Some []
                else if is_eof s1 then Some (if conf_complete conf then conf else [])
                else let (val, s2) = getline CHR 0x0A s1
                     in f s2 (map_assign key (trim_right val) conf)) = Some r"
    show "\<not> (is_fail s \<and> \<not> is_eof s)"
    proof
      assume "is_fail s \<and> \<not> is_eof s"
      with eq have "f s (map_assign [] (trim_right []) conf) = Some r"
        by (simp add: getline_fail stream_good_def)
      with IH \<open>is_fail s \<and> \<not> is_eof s\<close> show False by blast
    qed
  qed
  with assms show ?thesis by (cases "load_conf_loop s conf") auto
qed

text \<open>
  C15. Loading the configuration of a job returns exactly if the file can be read: for an
  unreadable \<^verbatim>\<open>job.conf\<close> (a directory of that name, a file that was removed
  meanwhile or that the process may not open) the loop never ends.
\<close>

theorem load_job_conf_returns: "load_job_conf content \<noteq> None \<longleftrightarrow> content \<noteq> None"
  using load_conf_loop_terminates [of "open_stream content" "[]"]
    load_conf_loop_diverges [of "open_stream content" "[]"]
  by (cases content) (auto simp: load_job_conf_def open_stream_def)

lemma load_conf_loop_sound:
  assumes "load_conf_loop s conf = Some r" "ordered_keys conf"
  shows "r = [] \<or> conf_complete r \<and> ordered_keys r"
proof -
  have "ordered_keys conf \<longrightarrow> r = [] \<or> conf_complete r \<and> ordered_keys r" if "load_conf_loop s conf = Some r" for s conf r
    using that
  proof (rule load_conf_loop.raw_induct [where P = "\<lambda>s conf r. ordered_keys conf \<longrightarrow> r = [] \<or> conf_complete r \<and> ordered_keys r", rotated])
    fix f s conf r
    assume IH: "\<And>s conf r. f s conf = Some r \<Longrightarrow> ordered_keys conf \<longrightarrow> r = [] \<or> conf_complete r \<and> ordered_keys r"
      and eq: "(if is_eof s then Some (if conf_complete conf then conf else [])
        else let (key, s1) = getline CHR ''='' s
             in if key = [] \<and> stream_good s1 then Some []
                else if is_eof s1 then Some (if conf_complete conf then conf else [])
                else let (val, s2) = getline CHR 0x0A s1
                     in f s2 (map_assign key (trim_right val) conf)) = Some r"
    show "ordered_keys conf \<longrightarrow> r = [] \<or> conf_complete r \<and> ordered_keys r"
    proof
      assume ord: "ordered_keys conf"
      have "r = [] \<or> r = conf \<and> conf_complete conf \<or> (\<exists>s k v. f s (map_assign k v conf) = Some r)"
        using eq by (auto simp: Let_def case_prod_beta split: if_splits)
      with ord IH show "r = [] \<or> conf_complete r \<and> ordered_keys r"
        using ordered_map_assign by metis
    qed
  qed
  with assms show ?thesis by blast
qed

lemma load_job_conf_sound:
  "load_job_conf content = Some conf \<Longrightarrow> conf \<noteq> [] \<Longrightarrow> conf_complete conf"
  using load_conf_loop_sound [of "open_stream content" "[]" conf] by (simp add: load_job_conf_def)

text \<open>
  The two conversions in the constructor of a job, which are not guarded, never throw for a
  directory that passed \<^verbatim>\<open>is_entry\<close> with the same configuration.
\<close>

lemma job_numbers_parse:
  assumes "load_job_conf content = Some conf" "conf \<noteq> []"
  shows "stoul (conf_value conf ''keep_last_success_builds'') \<noteq> None"
    and "stoul (conf_value conf ''keep_last_break_builds'') \<noteq> None"
  using load_job_conf_sound [OF assms]
  by (auto simp: conf_complete_def conf_value_def split: option.splits)

section \<open>Printing and loading a configuration\<close>

definition print_conf :: "(string \<times> string) list \<Rightarrow> string" where
  "print_conf rows = concat (map (\<lambda>(k, v). k @ ''='' @ v @ [CHR 0x0A]) rows)"

lemma getline_word:
  "d \<notin> set w \<Longrightarrow> getline d \<lparr>is_rest = w @ d # r, is_eof = False, is_fail = False\<rparr>
     = (w, \<lparr>is_rest = r, is_eof = False, is_fail = False\<rparr>)"
proof -
  assume "d \<notin> set w"
  then have "\<And>c. c \<in> set w \<Longrightarrow> c \<noteq> d" by auto
  then have "takeWhile (\<lambda>c. c \<noteq> d) (w @ d # r) = w" "dropWhile (\<lambda>c. c \<noteq> d) (w @ d # r) = d # r"
    by (subst takeWhile_append2 dropWhile_append2; simp)+
  then show ?thesis by (simp add: getline_def stream_good_def)
qed

lemma load_conf_loop_step:
  assumes "k \<noteq> []" and "getline CHR ''='' s = (k, s1)" "getline CHR 0x0A s1 = (v, s2)"
    and "\<not> is_eof s" "\<not> is_eof s1"
  shows "load_conf_loop s conf = load_conf_loop s2 (map_assign k (trim_right v) conf)"
  by (subst load_conf_loop.simps) (simp add: assms)

lemma load_conf_loop_row:
  assumes "k \<noteq> []" "CHR ''='' \<notin> set k" "CHR 0x0A \<notin> set v"
  shows "load_conf_loop \<lparr>is_rest = k @ ''='' @ v @ CHR 0x0A # r, is_eof = False, is_fail = False\<rparr> conf
     = load_conf_loop \<lparr>is_rest = r, is_eof = False, is_fail = False\<rparr> (map_assign k (trim_right v) conf)"
  using load_conf_loop_step [OF assms(1) _ getline_word [OF assms(3), of r]]
    getline_word [OF assms(2), of "v @ CHR 0x0A # r"]
  by simp

lemma load_conf_loop_end:
  "load_conf_loop \<lparr>is_rest = [], is_eof = False, is_fail = False\<rparr> conf
     = Some (if conf_complete conf then conf else [])"
  by (subst load_conf_loop.simps) (simp add: getline_def stream_good_def)

text \<open>
  C16. Loading what was printed gives the settings back, the last one for a key counting, when
  they include the script and the two numbers; values lose their trailing blanks. Otherwise the result is
  the empty configuration, which stands for ``not a job''.
\<close>

theorem load_print_conf:
  assumes "\<forall>(k, v) \<in> set rows. k \<noteq> [] \<and> CHR ''='' \<notin> set k \<and> CHR 0x0A \<notin> set v"
  shows "load_job_conf (Some (print_conf rows)) =
     Some (let conf = foldl (\<lambda>m (k, v). map_assign k (trim_right v) m) [] rows
           in if conf_complete conf then conf else [])"
proof -
  have "load_conf_loop \<lparr>is_rest = print_conf rows, is_eof = False, is_fail = False\<rparr> m =
     Some (let conf = foldl (\<lambda>m (k, v). map_assign k (trim_right v) m) m rows
           in if conf_complete conf then conf else [])" for m
    using assms
  proof (induction rows arbitrary: m)
    case Nil
    then show ?case by (simp add: print_conf_def load_conf_loop_end)
  next
    case (Cons row rows)
    obtain k v where row: "row = (k, v)" by fastforce
    have "print_conf (row # rows) = k @ ''='' @ v @ CHR 0x0A # print_conf rows"
      by (simp add: print_conf_def row)
    with Cons row load_conf_loop_row [of k v "print_conf rows" m] show ?case by simp
  qed
  then show ?thesis by (simp add: load_job_conf_def open_stream_def)
qed

theorem load_print_conf_witness:
  "load_job_conf (Some (print_conf [(''script'', ''run.sh ''), (''keep_last_success_builds'', ''5''),
       (''keep_last_break_builds'', ''7'')]))
     = Some [(''keep_last_break_builds'', ''7''), (''keep_last_success_builds'', ''5''), (''script'', ''run.sh'')]"
proof -
  let ?rows = "[(''script'', ''run.sh ''), (''keep_last_success_builds'', ''5''), (''keep_last_break_builds'', ''7'')]"
  have h: "\<forall>(k, v) \<in> set ?rows. k \<noteq> [] \<and> CHR ''='' \<notin> set k \<and> CHR 0x0A \<notin> set v" by simp
  let ?conf = "[(''keep_last_break_builds'', ''7''), (''keep_last_success_builds'', ''5''), (''script'', ''run.sh'')]"
  have rows: "foldl (\<lambda>m (k, v). map_assign k (trim_right v) m) [] ?rows = ?conf"
    by code_simp
  have digits: "stoul ''5'' = Some 5" "stoul ''7'' = Some 7"
    by (simp_all add: stoul_def is_space_def is_digit_def digit_value_def Let_def)
  have complete: "conf_complete ?conf"
    by (simp add: conf_complete_def digits)
  show ?thesis by (simp only: load_print_conf [OF h] rows Let_def complete if_True)
qed

end
