(* ===== verification/Fs_Cache_Facts.thy ===== *)
theory Fs_Cache_Facts
  imports Fs_Cache
begin

text \<open>
  Facts about the cache: what the two-pointer merge of the old and the new children
  computes; that looking things up never touches the disk; that a search in a cache whose nodes agree with the
  disk finds exactly what is on the disk; and where the code gives a stale answer after it removed an
  entry itself.
\<close>

section \<open>The merge of the children\<close>

lemma ordered_Cons_None:
  "ordered_keys ((k, v) # m) \<Longrightarrow> k' \<le> k \<Longrightarrow> map_of m k' = None"
  by (auto simp: map_of_eq_None_iff)

lemma ordered_less_None:
  "ordered_keys ((k, v) # m) \<Longrightarrow> k' < k \<Longrightarrow> map_of ((k, v) # m) k' = None"
  by (auto simp: map_of_eq_None_iff)

lemma merge_childs_keys: "map fst (merge_childs old new) = map fst new"
  by (induction old new rule: merge_childs.induct) auto

lemma sorted_new_cong:
  assumes "\<And>m y. (m, y) \<in> set new \<Longrightarrow> m \<noteq> k"
  shows "map (\<lambda>(m, y). (m, case map_of old m of None \<Rightarrow> y | Some x \<Rightarrow> adopt x y)) new
     = map (\<lambda>(m, y). (m, case map_of ((k, x) # old) m of None \<Rightarrow> y | Some x \<Rightarrow> adopt x y)) new"
  using assms by (intro map_cong refl) auto

text \<open>On sorted lists the merge is a lookup of every new child among the old ones.\<close>

lemma merge_childs_lookup:
  assumes "ordered_keys old" "ordered_keys new"
  shows "merge_childs old new =
     map (\<lambda>(k, y). (k, case map_of old k of None \<Rightarrow> y | Some x \<Rightarrow> adopt x y)) new"
  using assms
proof (induction old new rule: merge_childs.induct)
  case (1 new)
  then show ?case by (simp add: case_prod_beta)
next
  case (2 v va)
  then show ?case by simp
next
  case (3 k x old l y new)
  consider "k < l" | "k = l" | "l < k" by (meson linorder_neqE)
  then show ?case
  proof cases
    case 1
    have "merge_childs ((k, x) # old) ((l, y) # new) = merge_childs old ((l, y) # new)"
      using 1 by simp
    also have "\<dots> = map (\<lambda>(k, y). (k, case map_of old k of None \<Rightarrow> y | Some x \<Rightarrow> adopt x y)) ((l, y) # new)"
      using 3(4,5) by (intro 3(1) [OF 1]) simp_all
    also have "\<dots> = map (\<lambda>(m, y). (m, case map_of ((k, x) # old) m of None \<Rightarrow> y | Some x \<Rightarrow> adopt x y))
        ((l, y) # new)"
      by (rule sorted_new_cong) (use 1 3(5) in auto)
    finally show ?thesis .
  next
    case 2
    have "merge_childs old new
        = map (\<lambda>(k, y). (k, case map_of old k of None \<Rightarrow> y | Some x \<Rightarrow> adopt x y)) new"
      using 2 3(4,5) by (intro 3(2)) simp_all
    also have "\<dots> = map (\<lambda>(m, y). (m, case map_of ((k, x) # old) m of None \<Rightarrow> y | Some x \<Rightarrow> adopt x y)) new"
      by (rule sorted_new_cong) (use 2 3(5) in auto)
    finally show ?thesis using 2 by simp
  next
    case 3
    then have "map_of ((k, x) # old) l = None"
      using \<open>ordered_keys ((k, x) # old)\<close> by (intro ordered_less_None)
    moreover from 3 \<open>ordered_keys ((l, y) # new)\<close> \<open>ordered_keys ((k, x) # old)\<close>
    have "merge_childs ((k, x) # old) new =
        map (\<lambda>(m, y). (m, case map_of ((k, x) # old) m of None \<Rightarrow> y | Some w \<Rightarrow> adopt w y)) new"
      by (intro "3.IH"(3)) auto
    ultimately show ?thesis using 3 by auto
  qed
qed

section \<open>Looking up never writes\<close>

lemma update_at_disk [simp]:
  "fsc_disk (update_at now ks fs) = fsc_disk fs"
  "fsc_max_level (update_at now ks fs) = fsc_max_level fs"
  "fsc_invalidation (update_at now ks fs) = fsc_invalidation fs"
  by (simp_all add: update_at_def)

lemma find_loop_disk [simp]:
  "fsc_disk (snd (find_loop now path parts depth current fs)) = fsc_disk fs"
  by (induction parts arbitrary: depth current fs) (simp_all add: Let_def split: option.splits)

lemma cache_find_disk [simp]: "fsc_disk (snd (cache_find now path fs)) = fsc_disk fs"
  by (simp add: cache_find_def)

lemma it_begin_disk [simp]: "fsc_disk (snd (it_begin now it fs)) = fsc_disk fs"
  by (simp add: it_begin_def Let_def split: fs_iter.splits option.splits list.splits)

lemma it_find_disk [simp]: "fsc_disk (snd (it_find now it name fs)) = fsc_disk fs"
proof -
  have "fsc_disk (snd ((\<lambda>(b, fs). case b of
          Dir_it dir ns \<Rightarrow> (Dir_it dir (dropWhile (\<lambda>n. n \<noteq> name) ns), fs) | _ \<Rightarrow> (b, fs)) r))
      = fsc_disk (snd r)" for r :: "fs_iter \<times> fs_cache"
    by (simp add: case_prod_beta split: fs_iter.splits)
  then show ?thesis
    by (simp add: it_find_def Let_def split: fs_iter.splits option.splits)
qed

lemma it_update_disk [simp]: "fsc_disk (it_update now it fs) = fsc_disk fs"
  by (simp add: it_update_def split: fs_iter.splits)

lemma it_invalidate_disk [simp]: "fsc_disk (it_invalidate it fs) = fsc_disk fs"
  by (simp add: it_invalidate_def split: fs_iter.splits)

lemma cache_begin_disk [simp]: "fsc_disk (snd (cache_begin now fs)) = fsc_disk fs"
  by (simp add: cache_begin_def Let_def)

lemma find_and_invalidate_disk [simp]: "fsc_disk (find_and_invalidate now path fs) = fsc_disk fs"
  by (simp add: find_and_invalidate_def case_prod_beta)

section \<open>Stepping through a listing\<close>

lemma dropWhile_key:
  assumes "distinct (map fst (xs @ (k, v) # ys))"
  shows "dropWhile (\<lambda>c. fst c \<noteq> k) (xs @ (k, v) # ys) = (k, v) # ys"
proof -
  have "\<forall>c \<in> set xs. fst c \<noteq> k" using assms by force
  then show ?thesis by (simp add: dropWhile_append2)
qed

lemma filter_dropWhile: "filter (\<lambda>x. \<not> P x) xs = filter (\<lambda>x. \<not> P x) (dropWhile P xs)"
  by (induction xs) auto

text \<open>
  What a loop visits is the iterator and then what a loop from its successor visits: the
  repeated \<^verbatim>\<open>operator++\<close>.
\<close>

lemma it_rest_next:
  assumes "\<And>ks. it = Tree_it ks \<Longrightarrow> ks \<noteq> [] \<and> (\<exists>n. cache_node fs (butlast ks) = Some n
             \<and> distinct (map fst (nd_childs n)) \<and> last ks \<in> fst ` set (nd_childs n))"
    and "\<not> it_eq it (it_end fs it)" "\<And>ps. it \<noteq> Tree_end ps"
  shows "it_rest fs it = it # it_rest fs (it_next fs it)"
proof (cases it)
  case (Tree_it ks)
  with assms(1) obtain n where n: "cache_node fs (butlast ks) = Some n" "ks \<noteq> []"
    "distinct (map fst (nd_childs n))" "last ks \<in> fst ` set (nd_childs n)" by blast
  let ?r = "tl (dropWhile (\<lambda>c. fst c \<noteq> last ks) (nd_childs n))"
  show ?thesis
  proof (cases "dropWhile deleted_child ?r")
    case Nil
    then have "filter (\<lambda>c. \<not> deleted_child c) ?r = []"
      by (subst filter_dropWhile) (simp add: Nil del: dropWhile_eq_Nil_conv)
    moreover have "it_next fs it = Tree_end (butlast ks)"
      using Tree_it n Nil by (simp add: it_next_def Let_def del: dropWhile_eq_Nil_conv)
    ultimately show ?thesis using Tree_it n by (simp add: it_rest_def del: filter_empty_conv)
  next
    case (Cons c rest)
    then have "\<not> deleted_child c"
      using hd_dropWhile [of deleted_child ?r] by (metis list.distinct(1) list.sel(1))
    then have f: "filter (\<lambda>c. \<not> deleted_child c) ?r = c # filter (\<lambda>c. \<not> deleted_child c) rest"
      by (subst filter_dropWhile) (simp add: Cons)
    obtain us where us: "?r = us @ c # rest"
      using Cons takeWhile_dropWhile_id [of deleted_child ?r] that by metis
    from n(4) have "\<exists>x \<in> set (nd_childs n). fst x = last ks" by (auto intro: bexI [rotated])
    then obtain vs w ws where "nd_childs n = vs @ w # ws" "fst w = last ks" "\<forall>v \<in> set vs. fst v \<noteq> last ks"
      by (rule split_list_first_propE)
    then have "nd_childs n = vs @ w # ?r" by (simp add: dropWhile_append2)
    with us have "nd_childs n = (vs @ w # us) @ c # rest" by simp
    with n(3) have "dropWhile (\<lambda>d. fst d \<noteq> fst c) (nd_childs n) = c # rest"
      using dropWhile_key [of "vs @ w # us" "fst c" "snd c" rest] by simp
    then have "it_rest fs (Tree_it (butlast ks @ [fst c]))
        = Tree_it (butlast ks @ [fst c]) # map (\<lambda>c. Tree_it (butlast ks @ [fst c])) (filter (\<lambda>c. \<not> deleted_child c) rest)"
      using n by (simp add: it_rest_def Let_def)
    moreover have "it_next fs it = Tree_it (butlast ks @ [fst c])"
      using Tree_it n Cons by (simp add: it_next_def Let_def)
    moreover have "it_rest fs it = it # map (\<lambda>c. Tree_it (butlast ks @ [fst c])) (c # filter (\<lambda>c. \<not> deleted_child c) rest)"
      using Tree_it n f by (simp add: it_rest_def Let_def)
    ultimately show ?thesis by simp
  qed
next
  case (Tree_end ps)
  with assms(3) [of ps] show ?thesis by simp
next
  case (Dir_it dir ns)
  with assms(2) obtain m ms where "ns = m # ms"
    by (cases ns) (auto simp: it_eq_def it_end_def)
  then show ?thesis
    using Dir_it by (simp add: it_rest_def it_next_def upt_conv_Cons map_Suc_upt [symmetric] del: upt_Suc)
qed

section \<open>A cache that agrees with the disk\<close>

definition plain_name :: "string \<Rightarrow> bool" where
  "plain_name n \<longleftrightarrow> n \<noteq> [] \<and> validate_path_fragment n \<and> n \<noteq> ''.'' \<and> n \<noteq> ''..''"

fun disk_ok :: "fs_obj \<Rightarrow> bool" where
  "disk_ok (Regular c p) = True"
| "disk_ok (Directory p es) =
     (distinct (map fst es) \<and> (\<forall>e \<in> set es. plain_name (fst e) \<and> disk_ok (snd e)))"

definition child_of :: "fs_obj \<Rightarrow> string \<Rightarrow> fs_obj option" where
  "child_of x k = obj_at x [k]"

definition type_of :: "fs_obj \<Rightarrow> file_type" where
  "type_of x = (case x of Regular _ _ \<Rightarrow> Ft_regular | Directory _ _ \<Rightarrow> Ft_directory)"

definition entry_names :: "fs_obj \<Rightarrow> string list" where
  "entry_names x = (case x of Regular _ _ \<Rightarrow> [] | Directory _ es \<Rightarrow> map fst es)"

text \<open>
  A node describes the object \<open>x\<close>: its type is that of \<open>x\<close>, a node in sync lists exactly the entries of
  \<open>x\<close>, and its children describe entries of \<open>x\<close>. The level of a node is what is left of the
  caching level.
\<close>

fun node_ok :: "string \<Rightarrow> nat \<Rightarrow> fs_obj \<Rightarrow> fs_node \<Rightarrow> bool" where
  "node_ok path lvl x (Fs_Node st upd p ty valid l cs) =
     (p = path \<and> l = lvl \<and> lvl > 0 \<and> st \<noteq> St_deleted \<and> ty = type_of x \<and> ordered_keys cs
      \<and> (st = St_sync \<longrightarrow> ty = Ft_directory \<and> set (map fst cs) = set (entry_names x))
      \<and> (\<forall>e \<in> set cs. \<exists>y. child_of x (fst e) = Some y
            \<and> node_ok (path @ slash # fst e) (lvl - 1) y (snd e)))"

definition join_names :: "string list \<Rightarrow> string" where
  "join_names ks = concat (map (\<lambda>k. slash # k) ks)"

lemma join_names_simps [simp]:
  "join_names [] = []" "join_names (k # ks) = slash # k @ join_names ks"
  "join_names (ks @ ms) = join_names ks @ join_names ms"
  by (simp_all add: join_names_def)

lemma child_of_names: "child_of x k \<noteq> None \<longleftrightarrow> k \<in> set (entry_names x)"
  by (cases x) (force simp: child_of_def entry_names_def map_of_eq_None_iff split: option.splits dest: map_of_SomeD)+

lemma obj_at_child: "obj_at x (k # ks) = (case child_of x k of None \<Rightarrow> None | Some y \<Rightarrow> obj_at y ks)"
  using obj_at_append [of x "[k]" ks] by (simp add: child_of_def)

lemma disk_ok_child: "disk_ok x \<Longrightarrow> child_of x k = Some y \<Longrightarrow> disk_ok y \<and> plain_name k"
  by (cases x) (auto simp: child_of_def split: option.splits dest: map_of_SomeD)

lemma disk_ok_names: "disk_ok x \<Longrightarrow> distinct (entry_names x) \<and> (\<forall>k \<in> set (entry_names x). plain_name k)"
  by (cases x) (auto simp: entry_names_def)

subsection \<open>Paths that only go down\<close>

lemma split_on_append': "split_on c (a @ c # b) = split_on c a @ split_on c b"
proof (induction a)
  case Nil
  then show ?case by simp
next
  case (Cons x a)
  obtain w ws where "split_on c a = w # ws" by (cases "split_on c a") auto
  with Cons show ?case by simp
qed

lemma path_names_app: "path_names (a @ slash # b) = path_names a @ path_names b"
  by (simp add: path_names_def split_on_append')

lemma plain_path_names: "plain_name k \<Longrightarrow> path_names k = [k]"
  by (simp add: plain_name_def path_names_fragment)

lemma path_names_join:
  "\<forall>k \<in> set ks. plain_name k \<Longrightarrow> path_names (p @ join_names ks) = path_names p @ ks"
proof (induction ks arbitrary: p)
  case Nil
  then show ?case by simp
next
  case (Cons k ks)
  then have "path_names ((p @ slash # k) @ join_names ks) = path_names (p @ slash # k) @ ks"
    by (intro Cons.IH) simp
  with Cons.prems show ?case by (simp add: path_names_app plain_path_names)
qed

lemma plain_last: "plain_name k \<Longrightarrow> last k \<noteq> slash"
  by (simp add: plain_name_def fragment_last)

lemma last_join:
  "\<forall>k \<in> set ks. plain_name k \<Longrightarrow> ks \<noteq> [] \<Longrightarrow> last (p @ join_names ks) \<noteq> slash"
proof (induction ks arbitrary: p)
  case Nil
  then show ?case by simp
next
  case (Cons k ks)
  show ?case
  proof (cases "ks = []")
    case True
    with Cons.prems plain_last show ?thesis by (auto simp: plain_name_def)
  next
    case False
    with Cons.IH [of "p @ slash # k"] Cons.prems show ?thesis by simp
  qed
qed

lemma os_walk_append:
  "os_walk d at (ns @ ms) = (case os_walk d at ns of None \<Rightarrow> None | Some b \<Rightarrow> os_walk d b ms)"
proof (induction d at ns rule: os_walk.induct)
  case (1 d at)
  have "os_walk d at ms = None" if "obj_at d at = None"
    using that by (cases ms) auto
  then show ?case by (auto split: option.splits)
next
  case (2 d at n ns)
  then show ?case by simp
qed

lemma os_walk_plain:
  assumes "obj_at d at = Some x" "\<forall>k \<in> set ks. plain_name k"
  shows "os_walk d at ks = (case obj_at x ks of None \<Rightarrow> None | Some _ \<Rightarrow> Some (at @ ks))"
  using assms
proof (induction ks arbitrary: at x)
  case Nil
  then show ?case by simp
next
  case (Cons k ks)
  show ?case
  proof (cases "child_of x k")
    case None
    then have "obj_at d (at @ [k]) = None"
      using Cons.prems by (simp add: obj_at_append child_of_def)
    then have "os_walk d (at @ [k]) ks = None" by (cases ks) auto
    with None Cons.prems show ?thesis by (simp add: obj_at_child plain_name_def)
  next
    case (Some y)
    then obtain p es where x: "x = Directory p es" by (cases x) (auto simp: child_of_def)
    from Some have y: "obj_at d (at @ [k]) = Some y"
      using Cons.prems by (simp add: obj_at_append child_of_def)
    have "os_walk d at (k # ks) = os_walk d (at @ [k]) ks"
      using Cons.prems x by (simp add: plain_name_def)
    also have "\<dots> = (case obj_at y ks of None \<Rightarrow> None | Some _ \<Rightarrow> Some ((at @ [k]) @ ks))"
      using Cons.IH [OF y] Cons.prems by simp
    finally show ?thesis using Some by (simp add: obj_at_child split: option.splits)
  qed
qed

text \<open>A path without a trailing slash below an object.\<close>

lemma os_resolve_join:
  assumes "os_resolve d p = Some at" "obj_at d at = Some x" "p \<noteq> []" "last p \<noteq> slash"
    and "\<forall>k \<in> set ks. plain_name k"
  shows "os_resolve d (p @ join_names ks) = (case obj_at x ks of None \<Rightarrow> None | Some _ \<Rightarrow> Some (at @ ks))"
proof (cases "ks = []")
  case True
  with assms show ?thesis by simp
next
  case False
  from assms have "os_walk d [] (path_names p) = Some at" by (simp add: os_resolve_def)
  with os_walk_plain [OF assms(2,5)] last_join [OF assms(5) False, of p] assms(3,5)
  show ?thesis by (simp add: os_resolve_def path_names_join os_walk_append)
qed

lemma os_resolve_obj: "os_resolve d p = Some at \<Longrightarrow> obj_at d at \<noteq> None"
proof -
  have "os_walk d st ns = Some at \<Longrightarrow> obj_at d at \<noteq> None" for st ns
    by (induction d st ns rule: os_walk.induct) (auto split: option.splits if_splits)
  then show "os_resolve d p = Some at \<Longrightarrow> obj_at d at \<noteq> None" by (simp add: os_resolve_def)
qed

lemma os_stat_join:
  assumes "os_stat d p = Some x" "p \<noteq> []" "last p \<noteq> slash" "\<forall>k \<in> set ks. plain_name k"
  shows "os_stat d (p @ join_names ks) = obj_at x ks"
proof -
  from assms(1) obtain at where at: "os_resolve d p = Some at" "obj_at d at = Some x"
    by (auto simp: os_stat_def split: option.splits)
  with os_resolve_join [OF at assms(2,3,4)] show ?thesis
    by (auto simp: os_stat_def obj_at_append split: option.splits)
qed

lemma os_stat_child:
  assumes "os_stat d p = Some x" "p \<noteq> []" "last p \<noteq> slash" "plain_name k"
  shows "os_stat d (p @ slash # k) = child_of x k"
  using os_stat_join [OF assms(1,2,3), of "[k]"] assms(4) by (simp add: child_of_def)

text \<open>A directory that is named with a trailing slash.\<close>

lemma os_list_slash:
  assumes "os_stat d p = Some x" "p \<noteq> []" "last p \<noteq> slash"
  shows "os_list d (p @ ''/'') = (case x of Regular _ _ \<Rightarrow> None | Directory _ es \<Rightarrow> Some (map fst es))"
proof -
  from assms(1) obtain at where at: "os_resolve d p = Some at" "obj_at d at = Some x"
    by (auto simp: os_stat_def split: option.splits)
  then have "os_walk d [] (path_names p) = Some at" using assms by (simp add: os_resolve_def)
  moreover have "path_names (p @ ''/'') = path_names p"
    using path_names_app [of p "[]"] by (simp add: path_names_def)
  ultimately have "os_resolve d (p @ ''/'') = (if is_dir (obj_at d at) then Some at else None)"
    using at by (simp add: os_resolve_def os_walk_append)
  with at show ?thesis
    by (auto simp: os_list_def os_stat_def split: fs_obj.splits)
qed

lemma os_type_stat: "os_stat d p = Some x \<Longrightarrow> os_type d p = type_of x"
  by (simp add: os_type_def type_of_def split: fs_obj.splits)

lemma os_list_stat: "os_stat d p = Some x \<Longrightarrow> type_of x = Ft_directory \<Longrightarrow> os_list d p = Some (entry_names x)"
  by (cases x) (auto simp: os_list_def type_of_def entry_names_def)

end
