(* ===== verification/Fs_Cache_Correct.thy ===== *)
theory Fs_Cache_Correct
  imports Fs_Cache_Facts
begin

text \<open>
  A search in a cache that agrees with the disk (\<^verbatim>\<open>fs_cache::find\<close>) finds exactly the
  objects on the disk and leaves a cache that agrees with it; and a removal through the cache
  leaves a node that a search still finds.
\<close>

section \<open>Refreshing a node\<close>

text \<open>A node seen as its fields.\<close>

lemma node_ok_iff:
  "node_ok path lvl x n \<longleftrightarrow>
     nd_path n = path \<and> nd_level n = lvl \<and> lvl > 0 \<and> nd_state n \<noteq> St_deleted \<and> nd_type n = type_of x
     \<and> ordered_keys (nd_childs n)
     \<and> (nd_state n = St_sync \<longrightarrow> nd_type n = Ft_directory \<and> set (map fst (nd_childs n)) = set (entry_names x))
     \<and> (\<forall>e \<in> set (nd_childs n). \<exists>y. child_of x (fst e) = Some y
            \<and> node_ok (path @ slash # fst e) (lvl - 1) y (snd e))"
  by (cases n) simp

lemma listed_fold:
  assumes "ordered_keys m"
  shows "ordered_keys (foldl (\<lambda>m k. map_insert k (f k) m) m ks)
    \<and> map_of (foldl (\<lambda>m k. map_insert k (f k) m) m ks) k =
           (case map_of m k of Some v \<Rightarrow> Some v | None \<Rightarrow> if k \<in> set ks then Some (f k) else None)"
  using assms by (induction ks arbitrary: m) (auto split: option.splits)

lemma path_div_child: "p \<noteq> [] \<Longrightarrow> last p \<noteq> slash \<Longrightarrow> plain_name k \<Longrightarrow> path_div p k = p @ slash # k"
  by (simp add: path_div_def plain_name_def fragment_not_root)

lemma listed_childs_facts:
  assumes "os_stat d (nd_path n) = Some x" "type_of x = Ft_directory"
  shows "ordered_keys (listed_childs d now n)"
    and "map_of (listed_childs d now n) k =
      (if k \<in> set (entry_names x)
       then Some (fs_node_new d now (nd_invalidation n) (path_div (nd_path n) k) (nd_level n - 1))
       else None)"
proof -
  let ?f = "\<lambda>k. fs_node_new d now (nd_invalidation n) (path_div (nd_path n) k) (nd_level n - 1)"
  have l: "(if nd_level n > 0 then nd_level n - 1 else 0) = nd_level n - 1" by simp
  have eq: "listed_childs d now n = foldl (\<lambda>m k. map_insert k (?f k) m) [] (entry_names x)"
    unfolding listed_childs_def l by (simp add: os_list_stat [OF assms])
  show "ordered_keys (listed_childs d now n)"
    and "map_of (listed_childs d now n) k = (if k \<in> set (entry_names x) then Some (?f k) else None)"
    unfolding eq using listed_fold [of "[]" ?f "entry_names x"] by simp_all
qed

lemma fs_node_new_ok:
  "os_stat d p = Some x \<Longrightarrow> lvl > 0 \<Longrightarrow> node_ok p lvl x (fs_node_new d now valid p lvl)"
  by (simp add: fs_node_new_def os_type_stat)

lemma adopt_ok: "node_ok p lvl x old \<Longrightarrow> node_ok p lvl x new \<Longrightarrow> node_ok p lvl x (adopt old new)"
  by (cases old; cases new) (simp add: adopt_def)

lemma node_load_ok:
  assumes ok: "node_ok path lvl x n" and stat: "os_stat d path = Some x" and disk: "disk_ok x"
    and path: "path \<noteq> []" "last path \<noteq> slash" and dir: "type_of x = Ft_directory" and lvl: "lvl \<noteq> 1"
  shows "node_ok path lvl x (node_load d now n) \<and> nd_state (node_load d now n) = St_sync"
proof -
  let ?new = "listed_childs d now n"
  let ?cs = "merge_childs (nd_childs n) ?new"
  have f: "nd_path n = path" "nd_level n = lvl" "nd_type n = Ft_directory" "lvl > 0"
    "ordered_keys (nd_childs n)"
    using ok dir by (simp_all add: node_ok_iff [of path lvl x n])
  have stat': "os_stat d (nd_path n) = Some x" using stat f by simp
  note new = listed_childs_facts [OF stat' dir]
  have keys: "map fst ?cs = map fst ?new" by (simp add: merge_childs_keys)
  have keyset: "set (map fst ?cs) = set (entry_names x)"
    unfolding keys using new(2) by (simp add: dom_map_of_conv_image_fst [symmetric] dom_def)
  have child: "\<exists>y. child_of x k = Some y \<and> node_ok (path @ slash # k) (lvl - 1) y c" if kc: "(k, c) \<in> set ?cs" for k c
  proof -
    from kc obtain y where y: "(k, y) \<in> set ?new"
      and c: "c = (case map_of (nd_childs n) k of None \<Rightarrow> y | Some w \<Rightarrow> adopt w y)"
      unfolding merge_childs_lookup [OF f(5) new(1)] by auto
    from y new(1) have "map_of ?new k = Some y"
      by (metis map_of_eq_Some_iff strict_sorted_iff)
    with new(2) have k: "k \<in> set (entry_names x)"
      and y': "y = fs_node_new d now (nd_invalidation n) (path_div (nd_path n) k) (nd_level n - 1)"
      by (auto split: if_splits)
    from k obtain z where z: "child_of x k = Some z" using child_of_names by blast
    with disk have "plain_name k" using disk_ok_child by blast
    with path f have "path_div (nd_path n) k = path @ slash # k" by (simp add: path_div_child)
    moreover have "os_stat d (path @ slash # k) = Some z"
      using os_stat_child [OF stat path \<open>plain_name k\<close>] z by simp
    ultimately have ny: "node_ok (path @ slash # k) (lvl - 1) z y"
      using y' f lvl by (simp add: fs_node_new_ok)
    have "node_ok (path @ slash # k) (lvl - 1) z w" if "map_of (nd_childs n) k = Some w" for w
      using ok z map_of_SomeD [OF that] by (force simp: node_ok_iff [of path lvl x n])
    with ny c have "node_ok (path @ slash # k) (lvl - 1) z c"
      by (auto simp: adopt_ok split: option.splits)
    with z show ?thesis by blast
  qed
  have "ordered_keys ?cs" using keys new(1) by simp
  with keyset child f lvl dir show ?thesis
    by (auto simp: node_load_def node_ok_iff [of path lvl x "set_state _ _"] set_state_def set_childs_def)
qed

lemma node_update_ok:
  assumes ok: "node_ok path lvl x n" and stat: "os_stat d path = Some x" and disk: "disk_ok x"
    and path: "path \<noteq> []" "last path \<noteq> slash"
  shows "node_ok path lvl x (node_update d now force n)"
    and "type_of x = Ft_directory \<Longrightarrow> lvl \<noteq> 1 \<Longrightarrow> nd_state (node_update d now force n) = St_sync"
proof -
  let ?n' = "Fs_Node (nd_state n) now (nd_path n) (os_type d (nd_path n)) (nd_invalidation n)
               (nd_level n) (nd_childs n)"
  have p: "nd_path n = path" using ok by (simp add: node_ok_iff [of path lvl x n])
  have ty: "os_type d path = type_of x" using stat by (rule os_type_stat)
  have ok': "node_ok path lvl x ?n'"
    using ok p ty by (auto simp: node_ok_iff [of path lvl x n])
  have upd: "node_update d now force n = n \<and> nd_state n = St_sync \<or> node_update d now force n = node_load d now ?n'"
    using p ty by (simp add: node_update_def Let_def type_of_def split: fs_obj.splits)
  have "node_ok path lvl x (node_load d now ?n')"
  proof (cases "type_of x = Ft_directory \<and> lvl \<noteq> 1")
    case True
    with node_load_ok [OF ok' stat disk path] show ?thesis by blast
  next
    case False
    then have "node_load d now ?n' = ?n'"
      using ok p ty by (auto simp: node_load_def node_ok_iff [of path lvl x n])
    with ok' show ?thesis by (simp only:)
  qed
  with upd ok show "node_ok path lvl x (node_update d now force n)" by auto
  show "nd_state (node_update d now force n) = St_sync" if "type_of x = Ft_directory" "lvl \<noteq> 1"
    using upd node_load_ok [OF ok' stat disk path that] by auto
qed

section \<open>Positions in the tree\<close>

lemma nd_set_childs [simp]:
  "nd_childs (set_childs cs n) = cs" "nd_state (set_childs cs n) = nd_state n"
  "nd_path (set_childs cs n) = nd_path n" "nd_type (set_childs cs n) = nd_type n"
  "nd_level (set_childs cs n) = nd_level n"
  by (simp_all add: set_childs_def)

lemma entry_set_same:
  "map_of cs k = Some c \<Longrightarrow> map fst (entry_set k (Some c') cs) = map fst cs"
  by (induction cs) (auto split: if_splits)

lemma entry_set_in:
  "(l, e) \<in> set (entry_set k (Some c') cs) \<Longrightarrow> (l, e) = (k, c') \<or> (l, e) \<in> set cs"
  by (induction cs) (auto split: if_splits)

lemma map_of_entry_set_Some: "map_of (entry_set k (Some c) cs) = (map_of cs)(k \<mapsto> c)"
  by (induction cs) (auto simp: fun_eq_iff)

lemma node_at_map_node:
  "node_at (map_node f ks n) ks = map_option f (node_at n ks)"
  by (induction ks arbitrary: n) (simp_all add: map_of_entry_set_Some split: option.splits)

lemma node_at_append: "node_at n (ks @ ms) = (case node_at n ks of None \<Rightarrow> None | Some m \<Rightarrow> node_at m ms)"
  by (induction ks arbitrary: n) (simp_all split: option.splits)

lemma node_ok_child:
  assumes "node_ok path lvl x n" "map_of (nd_childs n) k = Some c"
  obtains y where "child_of x k = Some y" "node_ok (path @ slash # k) (lvl - 1) y c"
  using assms map_of_SomeD [OF assms(2)] by (fastforce simp: node_ok_iff [of path lvl x n])

lemma map_node_ok:
  assumes "node_ok path lvl x n" "os_stat d path = Some x" "disk_ok x" "path \<noteq> []" "last path \<noteq> slash"
    and "\<And>path lvl x n. node_ok path lvl x n \<Longrightarrow> os_stat d path = Some x \<Longrightarrow> disk_ok x \<Longrightarrow>
            path \<noteq> [] \<Longrightarrow> last path \<noteq> slash \<Longrightarrow> node_ok path lvl x (f n)"
  shows "node_ok path lvl x (map_node f ks n)"
  using assms(1-5)
proof (induction ks arbitrary: path lvl x n)
  case Nil
  with assms(6) show ?case by simp
next
  case (Cons k ks)
  show ?case
  proof (cases "map_of (nd_childs n) k")
    case None
    with Cons.prems show ?thesis by simp
  next
    case (Some c)
    with Cons.prems(1) obtain y where y: "child_of x k = Some y" "node_ok (path @ slash # k) (lvl - 1) y c"
      by (rule node_ok_child)
    from y(1) Cons.prems(3) have k: "disk_ok y" "plain_name k" using disk_ok_child by blast+
    then have "last (path @ slash # k) \<noteq> slash" using plain_last by (auto simp: plain_name_def)
    moreover have "os_stat d (path @ slash # k) = Some y"
      using os_stat_child [OF Cons.prems(2,4,5) k(2)] y(1) by simp
    ultimately have c': "node_ok (path @ slash # k) (lvl - 1) y (map_node f ks c)"
      using Cons.IH [OF y(2)] k(1) by simp
    have "\<exists>y. child_of x l = Some y \<and> node_ok (path @ slash # l) (lvl - 1) y e"
      if "(l, e) \<in> set (entry_set k (Some (map_node f ks c)) (nd_childs n))" for l e
      using entry_set_in [OF that] y(1) c' Cons.prems(1)
      by (fastforce simp: node_ok_iff [of path lvl x n])
    with Some Cons.prems(1) entry_set_same [OF Some, of "map_node f ks c"] show ?thesis
      by (auto simp: node_ok_iff [of path lvl x n] node_ok_iff [of path lvl x "set_childs _ _"]
          simp del: set_map)
  qed
qed

lemma node_at_ok:
  assumes "node_ok path lvl x n" "node_at n ks = Some m"
  obtains y where "obj_at x ks = Some y" "node_ok (path @ join_names ks) (lvl - length ks) y m"
  using assms
proof (induction ks arbitrary: path lvl x n thesis)
  case Nil
  then show ?case by simp
next
  case (Cons k ks)
  then obtain c where c: "map_of (nd_childs n) k = Some c" "node_at c ks = Some m"
    by (auto split: option.splits)
  from Cons.prems(2) c(1) obtain y where y: "child_of x k = Some y" "node_ok (path @ slash # k) (lvl - 1) y c"
    by (rule node_ok_child)
  from Cons.IH [OF _ y(2) c(2)] obtain z where "obj_at y ks = Some z"
    "node_ok ((path @ slash # k) @ join_names ks) (lvl - 1 - length ks) z m" by blast
  with Cons.prems(1) [of z] y(1) show ?case by (simp add: obj_at_child)
qed

section \<open>The search\<close>

text \<open>The cache of a directory \<open>base\<close> of the disk.\<close>

definition cache_ok :: "fs_obj \<Rightarrow> fs_cache \<Rightarrow> bool" where
  "cache_ok base fs \<longleftrightarrow>
     root_path_of fs \<noteq> [] \<and> last (root_path_of fs) \<noteq> slash
     \<and> os_stat (fsc_disk fs) (root_path_of fs) = Some base \<and> disk_ok base
     \<and> node_ok (root_path_of fs) (fsc_max_level fs) base (fsc_root fs)"

lemma cache_okD:
  assumes "cache_ok base fs"
  shows "root_path_of fs \<noteq> []" "last (root_path_of fs) \<noteq> slash"
    "os_stat (fsc_disk fs) (root_path_of fs) = Some base" "disk_ok base"
    "node_ok (root_path_of fs) (fsc_max_level fs) base (fsc_root fs)"
  using assms by (simp_all add: cache_ok_def)

lemma path_join_ok:
  assumes "p \<noteq> []" "last p \<noteq> slash" "\<forall>k \<in> set ks. plain_name k"
  shows "p @ join_names ks \<noteq> [] \<and> last (p @ join_names ks) \<noteq> slash"
proof (cases "ks = []")
  case True
  with assms show ?thesis by simp
next
  case False
  with assms last_join show ?thesis by simp
qed

lemma update_at_ok:
  assumes "cache_ok base fs"
  shows "cache_ok base (update_at now ks fs)" and "root_path_of (update_at now ks fs) = root_path_of fs"
proof -
  note ok = cache_okD [OF assms]
  have n: "node_ok (root_path_of fs) (fsc_max_level fs) base
      (map_node (node_update (fsc_disk fs) now False) ks (fsc_root fs))"
    using ok by (intro map_node_ok [where d = "fsc_disk fs"]) (auto intro: node_update_ok(1))
  then show p: "root_path_of (update_at now ks fs) = root_path_of fs"
    by (simp add: node_ok_iff [of _ _ _ "map_node _ _ _"] root_path_of_def update_at_def)
  from n p ok show "cache_ok base (update_at now ks fs)"
    by (simp add: cache_ok_def) (simp add: update_at_def)
qed

lemma obj_at_disk_ok: "disk_ok x \<Longrightarrow> obj_at x ks = Some y \<Longrightarrow> disk_ok y \<and> (\<forall>k \<in> set ks. plain_name k)"
proof (induction ks arbitrary: x)
  case (Cons k ks)
  then obtain z where "child_of x k = Some z" "obj_at z ks = Some y"
    by (auto simp: obj_at_child split: option.splits)
  with Cons disk_ok_child show ?case by fastforce
qed simp

text \<open>After the lookups of one round, a child is in the tree exactly if it is on the disk.\<close>

lemma update_at_child:
  assumes ok: "cache_ok base fs" and n: "cache_node fs ks = Some n" and x: "obj_at base ks = Some x"
    and lvl: "Suc (length ks) < fsc_max_level fs"
  shows "cache_node (update_at now ks fs) (ks @ [k]) = None \<longleftrightarrow> child_of x k = None"
proof -
  note okD = cache_okD [OF ok]
  from node_at_ok [OF okD(5) n [unfolded cache_node_def]] x
  have nok: "node_ok (root_path_of fs @ join_names ks) (fsc_max_level fs - length ks) x n" by force
  from obj_at_disk_ok [OF okD(4) x] have xok: "disk_ok x" "\<forall>k \<in> set ks. plain_name k" by auto
  have stat: "os_stat (fsc_disk fs) (root_path_of fs @ join_names ks) = Some x"
    using os_stat_join [OF okD(3,1,2) xok(2)] x by simp
  have path: "root_path_of fs @ join_names ks \<noteq> []" "last (root_path_of fs @ join_names ks) \<noteq> slash"
    using path_join_ok [OF okD(1,2) xok(2)] by simp_all
  let ?n' = "node_update (fsc_disk fs) now False n"
  note upd = node_update_ok [OF nok stat xok(1) path, of now False]
  have eq: "cache_node (update_at now ks fs) (ks @ [k]) = map_of (nd_childs ?n') k"
    using n by (simp add: cache_node_def update_at_def node_at_append node_at_map_node split: option.splits)
  show ?thesis
  proof (cases "type_of x = Ft_directory")
    case True
    with upd(2) lvl have "nd_state ?n' = St_sync" by force
    with upd(1) have "set (map fst (nd_childs ?n')) = set (entry_names x)"
      by (simp add: node_ok_iff [of _ _ _ ?n'])
    then show ?thesis using eq child_of_names [of x k] by (auto simp: map_of_eq_None_iff)
  next
    case False
    then have none: "child_of x k = None"
      by (cases x) (auto simp: type_of_def child_of_def)
    have "map_of (nd_childs ?n') k = None"
    proof (rule ccontr)
      assume "map_of (nd_childs ?n') k \<noteq> None"
      then obtain c where "map_of (nd_childs ?n') k = Some c" by blast
      with upd(1) obtain y where "child_of x k = Some y" by (rule node_ok_child)
      with none show False by simp
    qed
    with eq none show ?thesis by simp
  qed
qed

text \<open>The last round below the caching level reads the directory itself.\<close>

lemma path_filename_join:
  assumes "plain_name k"
  shows "path_filename (p @ slash # k) = k" and "remove_filename (p @ slash # k) = p @ ''/''"
proof -
  have "\<forall>c \<in> set (rev k). c \<noteq> slash" using assms by (auto simp: plain_name_def validate_path_fragment_def)
  then have "takeWhile (\<lambda>c. c \<noteq> slash) (rev k @ slash # rev p) = rev k"
    and "dropWhile (\<lambda>c. c \<noteq> slash) (rev k @ slash # rev p) = slash # rev p"
    by (subst takeWhile_append2 dropWhile_append2; simp)+
  then show "path_filename (p @ slash # k) = k" "remove_filename (p @ slash # k) = p @ ''/''"
    by (simp_all add: path_filename_def remove_filename_def)
qed

lemma dropWhile_Nil_iff: "dropWhile (\<lambda>n. n \<noteq> k) ns = [] \<longleftrightarrow> k \<notin> set ns"
  by auto

lemma find_in_dir_ok:
  assumes ok: "cache_ok base fs" and plain: "\<forall>k \<in> set ks. plain_name k" and "ks \<noteq> []"
  shows "find_in_dir fs (join_names ks) \<noteq> cache_end \<longleftrightarrow> obj_at base ks \<noteq> None"
proof -
  note okD = cache_okD [OF ok]
  obtain ms k where ks: "ks = ms @ [k]" using assms(3) by (metis append_butlast_last_id)
  with plain have k: "plain_name k" and ms: "\<forall>k \<in> set ms. plain_name k" by auto
  let ?p = "root_path_of fs @ join_names ms"
  have path: "?p \<noteq> []" "last ?p \<noteq> slash"
    using path_join_ok [OF okD(1,2) ms] by simp_all
  have dir: "remove_filename (root_path_of fs @ join_names ks) = ?p @ ''/''" "path_filename (join_names ks) = k"
    using path_filename_join [OF k, of ?p] path_filename_join [OF k, of "join_names ms"] ks by simp_all
  have stat: "os_stat (fsc_disk fs) ?p = obj_at base ms"
    by (rule os_stat_join [OF okD(3,1,2) ms])
  show ?thesis
  proof (cases "obj_at base ms")
    case None
    then have "os_resolve (fsc_disk fs) ?p = None"
      using stat os_resolve_obj by (fastforce simp: os_stat_def split: option.splits)
    moreover have "path_names (?p @ ''/'') = path_names ?p"
      using path_names_app [of ?p "[]"] by (simp add: path_names_def)
    ultimately have "os_list (fsc_disk fs) (?p @ ''/'') = None"
      using path by (simp add: os_list_def os_stat_def os_resolve_def os_walk_append)
    with None dir ks show ?thesis by (simp add: find_in_dir_def obj_at_append)
  next
    case (Some x)
    with stat have "os_list (fsc_disk fs) (?p @ ''/'')
        = (case x of Regular _ _ \<Rightarrow> None | Directory _ es \<Rightarrow> Some (map fst es))"
      using os_list_slash [OF _ path] by simp
    moreover have "obj_at base ks \<noteq> None \<longleftrightarrow> k \<in> set (entry_names x)"
      using Some ks child_of_names [of x k] by (simp add: obj_at_append child_of_def)
    moreover have "dropWhile (\<lambda>n. n \<noteq> k) (entry_names x) = [] \<longleftrightarrow> k \<notin> set (entry_names x)"
      by (rule dropWhile_Nil_iff)
    ultimately show ?thesis
      using dir by (cases x) (auto simp: find_in_dir_def Let_def entry_names_def
          simp del: dropWhile_eq_Nil_conv split: list.splits)
  qed
qed

lemma find_loop_ok:
  assumes "cache_ok base fs" "cache_node fs current = Some n" "\<forall>k \<in> set (current @ parts). plain_name k"
    and "length current < fsc_max_level fs" "path = join_names (current @ parts)"
    and "find_loop now path parts (length current) current fs = (it, fs')"
  shows "cache_ok base fs' \<and> (it \<noteq> cache_end \<or> parts = [] \<longleftrightarrow> obj_at base (current @ parts) \<noteq> None)"
  using assms
proof (induction parts arbitrary: current fs n)
  case Nil
  from node_at_ok [OF cache_okD(5) [OF Nil.prems(1)] Nil.prems(2) [unfolded cache_node_def]]
  obtain x where "obj_at base current = Some x" by blast
  with Nil show ?case by auto
next
  case (Cons part parts)
  note ok = Cons.prems(1) and n = Cons.prems(2) and plain = Cons.prems(3) and lvl = Cons.prems(4)
  note okD = cache_okD [OF ok]
  from plain have part: "plain_name part" by simp
  then have slash: "part \<noteq> ''/''" unfolding plain_name_def validate_path_fragment_def by auto
  from node_at_ok [OF okD(5) n [unfolded cache_node_def]] obtain x where x: "obj_at base current = Some x" by blast
  define stale where "stale \<longleftrightarrow> now - nd_updated n > fsc_invalidation fs \<and> Suc (length current) \<le> fsc_max_level fs
       \<or> nd_state n = St_init"
  define fs1 where "fs1 = (if stale then update_at now current fs else fs)"
  have fs1: "cache_ok base fs1" "fsc_max_level fs1 = fsc_max_level fs" "root_path_of fs1 = root_path_of fs"
    "fsc_disk fs1 = fsc_disk fs"
    using ok update_at_ok [OF ok] by (simp_all add: fs1_def)
  have found: "obj_at base (current @ part # parts)
      = (case child_of x part of None \<Rightarrow> None | Some y \<Rightarrow> obj_at y parts)"
    using x by (simp add: obj_at_append obj_at_child)
  show ?case
  proof (cases "Suc (length current) = fsc_max_level fs")
    case True
    then have res: "it = find_in_dir fs1 path" "fs' = fs1"
      using Cons.prems(6) slash n by (auto simp: Let_def stale_def fs1_def split: if_splits)
    with find_in_dir_ok [OF fs1(1) plain] Cons.prems(5) fs1(1) show ?thesis by simp
  next
    case False
    with lvl have lvl': "Suc (length current) < fsc_max_level fs" by simp
    define fs2 where "fs2 = (if cache_node fs1 (current @ [part]) = None \<and> \<not> stale
        then update_at now current fs1 else fs1)"
    have fs2: "cache_ok base fs2" "fsc_max_level fs2 = fsc_max_level fs"
      using fs1 update_at_ok [OF fs1(1)] by (simp_all add: fs2_def)
    have child: "cache_node fs2 (current @ [part]) = None \<longleftrightarrow> child_of x part = None"
    proof -
      have "cache_node fs2 (current @ [part]) = None \<Longrightarrow> child_of x part = None"
        using update_at_child [OF ok n x lvl'] by (auto simp: fs2_def fs1_def split: if_splits)
      moreover have "child_of x part = None" if "cache_node fs2 (current @ [part]) = None" using that calculation by blast
      moreover have "child_of x part \<noteq> None" if "cache_node fs2 (current @ [part]) = Some c" for c
        using node_at_ok [OF cache_okD(5) [OF fs2(1)] that [unfolded cache_node_def]] x
        by (force simp: obj_at_append obj_at_child split: option.splits)
      ultimately show ?thesis by force
    qed
    have step: "find_loop now path (part # parts) (length current) current fs =
        (if cache_node fs2 (current @ [part]) = None then (cache_end, fs2)
         else find_loop now path parts (Suc (length current)) (current @ [part]) fs2)"
      unfolding fs2_def fs1_def stale_def
      by (simp only: find_loop.simps n option.case slash False if_False Let_def)
    show ?thesis
    proof (cases "cache_node fs2 (current @ [part])")
      case None
      with step child found fs2(1) Cons.prems(6) show ?thesis by auto
    next
      case (Some m)
      with step Cons.prems(6) have "find_loop now path parts (length (current @ [part])) (current @ [part]) fs2 = (it, fs')"
        by simp
      from Cons.IH [OF fs2(1) Some _ _ _ this] plain lvl' fs2(2) Cons.prems(5)
      have "cache_ok base fs' \<and> (it \<noteq> cache_end \<or> parts = [] \<longleftrightarrow> obj_at base ((current @ [part]) @ parts) \<noteq> None)"
        by simp
      moreover have "parts = [] \<Longrightarrow> it \<noteq> cache_end"
        using \<open>find_loop now path parts (length (current @ [part])) (current @ [part]) fs2 = (it, fs')\<close> by auto
      ultimately show ?thesis by auto
    qed
  qed
qed

lemma path_iter_join:
  assumes "\<forall>k \<in> set ks. plain_name k" "ks \<noteq> []"
  shows "path_iter (join_names ks) = ''/'' # ks"
proof -
  have "validate_path (join_names ks)"
    using assms(2) by (cases ks) (auto simp: validate_path_iff)
  moreover have "path_names (join_names ks) = ks"
    using path_names_join [OF assms(1), of "[]"] by (simp add: path_names_def)
  ultimately show ?thesis
    using last_join [OF assms, of "[]"] by (simp add: path_iter_absolute)
qed

text \<open>A new cache agrees with the disk.\<close>

lemma fs_cache_new_ok:
  assumes "path \<noteq> []" "last path \<noteq> slash" "os_stat d path = Some base" "disk_ok base" "max_level > 0"
  shows "cache_ok base (fs_cache_new d now path max_level valid)"
  using assms fs_node_new_ok [OF assms(3,5)]
  by (simp add: cache_ok_def root_path_of_def fs_cache_new_def) (simp add: fs_node_new_def)


text \<open>The projects of a server with one project and one job.\<close>

definition demo_tree :: fs_obj where
  "demo_tree = Directory 493 [(''prj'', Directory 493 [(''job'', Directory 493 [(''job.conf'', Regular [] 420)])])]"

definition demo_disk :: fs_obj where
  "demo_disk = Directory 493 [(''cis'', demo_tree)]"

definition demo_cache :: fs_cache where
  "demo_cache = fs_cache_new demo_disk 0 ''/cis'' 4 5000000000"

lemma demo_stat: "os_stat demo_disk ''/cis'' = Some demo_tree"
  by (simp add: os_stat_def os_resolve_def path_names_def demo_disk_def demo_tree_def)

lemma demo_cache_ok: "cache_ok demo_tree demo_cache"
  unfolding demo_cache_def
  by (rule fs_cache_new_ok)
     (simp_all add: demo_stat demo_tree_def plain_name_def validate_path_fragment_def)


section \<open>Removal through the cache\<close>

text \<open>
  The directories on the way to a node have been read and are not yet due for a refresh: the situation
  right after a search.
\<close>

fun settled :: "int \<Rightarrow> int \<Rightarrow> string list \<Rightarrow> fs_node \<Rightarrow> bool" where
  "settled now valid [] n = True"
| "settled now valid (k # ks) n =
     (nd_state n \<noteq> St_init \<and> \<not> now - nd_updated n > valid
      \<and> (case map_of (nd_childs n) k of None \<Rightarrow> False | Some c \<Rightarrow> settled now valid ks c))"

lemma nd_set_childs_updated [simp]: "nd_updated (set_childs cs n) = nd_updated n"
  by (simp add: set_childs_def)

lemma settled_map_node: "settled now valid ks (map_node f ks n) = settled now valid ks n"
  by (induction ks arbitrary: n) (auto simp: map_of_entry_set_Some split: option.splits)

lemma settled_node: "settled now valid (ks @ ms) n \<Longrightarrow> \<exists>m. node_at n ks = Some m \<and> settled now valid ms m"
  by (induction ks arbitrary: n) (auto split: option.splits)

lemma find_loop_settled:
  assumes "settled now (fsc_invalidation fs) (current @ parts) (fsc_root fs)"
    and "\<forall>k \<in> set parts. plain_name k" and "length (current @ parts) < fsc_max_level fs"
  shows "find_loop now path parts (length current) current fs = (Tree_it (current @ parts), fs)"
  using assms
proof (induction parts arbitrary: current)
  case Nil
  then show ?case by simp
next
  case (Cons part parts)
  from Cons.prems(2) have part: "plain_name part" by simp
  then have slash: "part \<noteq> ''/''" unfolding plain_name_def validate_path_fragment_def by auto
  from settled_node [OF Cons.prems(1)] obtain n where n: "node_at (fsc_root fs) current = Some n"
    "settled now (fsc_invalidation fs) (part # parts) n" by blast
  then obtain c where c: "node_at (fsc_root fs) (current @ [part]) = Some c"
    by (auto simp: node_at_append split: option.splits)
  have "find_loop now path (part # parts) (length current) current fs
      = find_loop now path parts (length (current @ [part])) (current @ [part]) fs"
    using slash n c Cons.prems(3) by (simp add: Let_def cache_node_def)
  also have "\<dots> = (Tree_it ((current @ [part]) @ parts), fs)"
    by (rule Cons.IH) (use Cons.prems in auto)
  finally show ?case by simp
qed

lemma os_stat_plain:
  assumes "\<forall>k \<in> set ks. plain_name k" "ks \<noteq> []"
  shows "os_stat d (join_names ks) = obj_at d ks"
proof -
  have "path_names (join_names ks) = ks"
    using path_names_join [OF assms(1), of "[]"] by (simp add: path_names_def)
  with os_walk_plain [of d "[]" d ks] assms last_join [OF assms, of "[]"] show ?thesis
    by (auto simp: os_stat_def os_resolve_def split: option.splits)
qed

lemma os_target_plain:
  assumes "\<forall>k \<in> set ks. plain_name k" "ks \<noteq> []" "is_dir (obj_at d (butlast ks))"
  shows "os_target d (join_names ks) = Some ks"
proof -
  have "path_names (join_names ks) = ks"
    using path_names_join [OF assms(1), of "[]"] by (simp add: path_names_def)
  moreover have "plain_name (last ks)" "\<forall>k \<in> set (butlast ks). plain_name k"
    using assms(1,2) by (auto dest: in_set_butlastD)
  moreover obtain x where x: "obj_at d (butlast ks) = Some x"
    using assms(3) by (cases "obj_at d (butlast ks)") auto
  moreover have "os_walk d [] (butlast ks) = Some (butlast ks)"
    using os_walk_plain [of d "[]" d "butlast ks"] x calculation(3) by simp
  moreover have "last ks \<noteq> ''.'' \<and> last ks \<noteq> ''..''"
    using calculation(2) by (simp add: plain_name_def)
  ultimately show ?thesis
    using assms(2,3) by (simp add: os_target_def Let_def)
qed

text \<open>
  An entry that is removed through the cache is gone from the disk, but a search made before
  its directory is due for a refresh still finds it: \<^verbatim>\<open>fs_cache::find\<close> does not look
  at the state of the nodes. (A job that was just removed can thus not be created again: the
  handler answers that it already exists.)
\<close>

theorem removed_entry_is_found:
  assumes "root_path_of fs = join_names rs" and "\<forall>k \<in> set (rs @ ks). plain_name k" and "ks \<noteq> []"
    and "length ks < fsc_max_level fs" and "settled now (fsc_invalidation fs) ks (fsc_root fs)"
    and "it_path fs (Tree_it ks) = join_names (rs @ ks)"
    and "disk_ok (fsc_disk fs)" and "is_dir (obj_at (fsc_disk fs) (rs @ butlast ks))"
  shows "fst (cache_find now (join_names ks) (it_remove (Tree_it ks) fs)) = Tree_it ks
         \<and> os_type (fsc_disk (it_remove (Tree_it ks) fs)) (join_names (rs @ ks)) = Ft_not_found"
proof -
  let ?fs' = "it_remove (Tree_it ks) fs"
  have root': "fsc_root ?fs' = map_node node_remove ks (fsc_root fs)"
    and disk': "fsc_disk ?fs' = os_remove_all (join_names (rs @ ks)) (fsc_disk fs)"
    and rest: "fsc_invalidation ?fs' = fsc_invalidation fs" "fsc_max_level ?fs' = fsc_max_level fs"
    using assms(6) by (simp_all add: it_remove_def)
  have "find_loop now (join_names ks) ks (length ([] :: string list)) [] ?fs' = (Tree_it ([] @ ks), ?fs')"
    by (rule find_loop_settled) (use assms(2,4,5) in \<open>simp_all add: root' rest settled_map_node\<close>)
  then have "fst (cache_find now (join_names ks) ?fs') = Tree_it ks"
    using assms(2,3) by (simp add: cache_find_def path_iter_join)
  moreover have "os_type (fsc_disk ?fs') (join_names (rs @ ks)) = Ft_not_found"
  proof -
    have b: "butlast (rs @ ks) = rs @ butlast ks" "rs @ ks = (rs @ butlast ks) @ [last ks]"
      using assms(3) by (simp_all add: butlast_append)
    have wf: "fs_wf x" if "disk_ok x" for x
      using that by (induction x rule: fs_wf.induct) auto
    have t: "os_target (fsc_disk fs) (join_names (rs @ ks)) = Some (rs @ ks)"
      using os_target_plain [of "rs @ ks" "fsc_disk fs"] assms(2,3,8) unfolding b(1) by blast
    have "fsc_disk ?fs' = put_at None (rs @ ks) (fsc_disk fs)"
      unfolding disk' os_remove_all_def t by simp
    moreover have "obj_at (put_at None (rs @ ks) (fsc_disk fs)) (rs @ ks) = None"
      unfolding b(2) by (rule obj_at_put_same [OF wf [OF assms(7)] assms(8)])
    ultimately have "obj_at (fsc_disk ?fs') (rs @ ks) = None" by (simp only:)
    moreover have "os_stat (fsc_disk ?fs') (join_names (rs @ ks)) = obj_at (fsc_disk ?fs') (rs @ ks)"
      using assms(2,3) by (intro os_stat_plain) auto
    ultimately show ?thesis by (simp add: os_type_def)
  qed
  ultimately show ?thesis by blast
qed

text \<open>The cache after a first search for the job.\<close>

definition demo_found :: fs_cache where
  "demo_found = snd (cache_find 7 (join_names [''prj'', ''job'']) demo_cache)"

theorem removed_entry_is_found_witness:
  "fst (cache_find 8 (join_names [''prj'', ''job'']) (it_remove (Tree_it [''prj'', ''job'']) demo_found))
     = Tree_it [''prj'', ''job'']
   \<and> os_type (fsc_disk (it_remove (Tree_it [''prj'', ''job'']) demo_found)) (join_names [''cis'', ''prj'', ''job''])
     = Ft_not_found"
proof -
  have h: "root_path_of demo_found = join_names [''cis'']"
    "\<forall>k \<in> set ([''cis''] @ [''prj'', ''job'']). plain_name k"
    "length [''prj'', ''job''] < fsc_max_level demo_found"
    "settled 8 (fsc_invalidation demo_found) [''prj'', ''job''] (fsc_root demo_found)"
    "it_path demo_found (Tree_it [''prj'', ''job'']) = join_names ([''cis''] @ [''prj'', ''job''])"
    "disk_ok (fsc_disk demo_found)"
    "is_dir (obj_at (fsc_disk demo_found) ([''cis''] @ butlast [''prj'', ''job'']))"
    by code_simp+
  from removed_entry_is_found [OF h(1,2) _ h(3-7)] show ?thesis by simp
qed

end
