(* ===== verification/Cis_Manager.thy ===== *)
theory Cis_Manager
  imports Cis_Structs Fs_Cache_Correct
begin

text \<open>
  \<^verbatim>\<open>cis::cis_manager\<close> (\<^verbatim>\<open>src/cis/cis_manager.cpp\<close>): the projects on the disk and in the
  database, and the programs of the CIS core. The state is the database with the cache of the
  project directory. Programs are started through \<^verbatim>\<open>child_process\<close>
  (\<^verbatim>\<open>src/child_process.cpp\<close>); what becomes of the process is an argument.

  The lemmas: the projects of the database after a refresh are those of the disk; the schema is
  kept; the list of cron entries that was printed is parsed back.
\<close>

section \<open>Configured programs\<close>

record executables =
  ex_startjob :: string
  ex_setparam :: string
  ex_getparam :: string
  ex_setvalue :: string
  ex_getvalue :: string
  ex_cis_cron :: string

definition no_executables :: executables where
  "no_executables = \<lparr>ex_startjob = [], ex_setparam = [], ex_getparam = [], ex_setvalue = [],
     ex_getvalue = [], ex_cis_cron = []\<rparr>"

definition executables_set :: "string \<Rightarrow> string \<Rightarrow> executables \<Rightarrow> bool \<times> executables" where
  "executables_set name value ex =
     (if name = ''startjob'' then (True, ex\<lparr>ex_startjob := value\<rparr>)
      else if name = ''setparam'' then (True, ex\<lparr>ex_setparam := value\<rparr>)
      else if name = ''getparam'' then (True, ex\<lparr>ex_getparam := value\<rparr>)
      else if name = ''setvalue'' then (True, ex\<lparr>ex_setvalue := value\<rparr>)
      else if name = ''getvalue'' then (True, ex\<lparr>ex_getvalue := value\<rparr>)
      else if name = ''cis_cron'' then (True, ex\<lparr>ex_cis_cron := value\<rparr>)
      else (False, ex))"

definition executables_valid :: "executables \<Rightarrow> bool" where
  "executables_valid ex \<longleftrightarrow>
     ex_startjob ex \<noteq> [] \<and> ex_setparam ex \<noteq> [] \<and> ex_getparam ex \<noteq> []
     \<and> ex_setvalue ex \<noteq> [] \<and> ex_getvalue ex \<noteq> [] \<and> ex_cis_cron ex \<noteq> []"

text \<open>The loop over \<^verbatim>\<open>core/cis.conf\<close>. Unlike that of a job it also ends on a stream that failed.\<close>

function load_executables :: "istream \<Rightarrow> executables \<Rightarrow> executables" where
  "load_executables s ex =
     (if \<not> stream_good s then ex
      else let (name, s1) = getline CHR ''='' s;
               (val, s2) = getline CHR 0x0A s1
           in if name = [] \<or> val = [] then ex
              else load_executables s2 (snd (executables_set name val ex)))"
  by auto

termination
proof (relation "measure (\<lambda>(s, ex). if stream_good s then Suc (length (is_rest s)) else 0)", goal_cases)
  case 1
  then show ?case by simp
next
  case (2 s ex r name s1 r2 val s2)
  then have n: "getline CHR ''='' s = (name, s1)" "getline CHR 0x0A s1 = (val, s2)"
    and g: "stream_good s" "val \<noteq> []" by auto
  have "stream_good s1" using n(2) g(2) by (auto simp: getline_def split: if_splits)
  with getline_good [OF _ _ n(1)] getline_good [OF _ _ n(2)] g(1)
  show ?case by (auto simp: stream_good_def)
qed

section \<open>Projects in the database\<close>

text \<open>
  A project that was found on the disk: a row is added for a new name, the one row of a known
  name is marked as not deleted.
\<close>

definition mark_project :: "engine \<Rightarrow> string \<Rightarrow> database \<Rightarrow> database res" where
  "mark_project eng name db =
     (case filter (\<lambda>p. project_name p = name) (db_projects db) of
        [] \<Rightarrow> insert_project eng \<lparr>project_id = -1, project_name = name, project_deleted = False\<rparr> db
      | [old] \<Rightarrow> Inr (db\<lparr>db_projects := map (\<lambda>p. if project_id p = project_id old
                          then old\<lparr>project_deleted := False\<rparr> else p) (db_projects db)\<rparr>)
      | _ \<Rightarrow> Inr db)"

fun mark_projects :: "engine \<Rightarrow> string list \<Rightarrow> database \<Rightarrow> database res" where
  "mark_projects eng [] db = Inr db"
| "mark_projects eng (n # ns) db =
     (case mark_project eng n db of Inl e \<Rightarrow> Inl e | Inr db' \<Rightarrow> mark_projects eng ns db')"

definition set_deleted :: "(string \<Rightarrow> bool) \<Rightarrow> database \<Rightarrow> database" where
  "set_deleted which db =
     db\<lparr>db_projects := map (\<lambda>p. if which (project_name p) then p\<lparr>project_deleted := True\<rparr> else p)
          (db_projects db)\<rparr>"

section \<open>The manager\<close>

record cis_state =
  cs_db :: database
  cs_fs :: fs_cache

text \<open>
  The iterators over the project directory, as the loops of \<^verbatim>\<open>refresh_projects\<close> and
  \<^verbatim>\<open>get_project_list\<close> visit them.
\<close>

definition project_iters :: "int \<Rightarrow> fs_cache \<Rightarrow> fs_iter list \<times> fs_cache" where
  "project_iters now fs = (let (it, fs1) = cache_begin now fs in (it_rest fs1 it, fs1))"

definition refresh_projects :: "engine \<Rightarrow> int \<Rightarrow> cis_state \<Rightarrow> unit res \<times> cis_state" where
  "refresh_projects eng now s =
     (let (its, fs1) = project_iters now (cs_fs s);
          names = map (\<lambda>it. path_filename (it_path fs1 it)) (filter (\<lambda>it. project_is_entry it fs1) its);
          (r, db1) = run_tx eng (\<lambda>db.
            case mark_projects eng names (set_deleted (\<lambda>_. True) db) of
              Inl e \<Rightarrow> Inl e
            | Inr db' \<Rightarrow> commit () db') (cs_db s)
      in (r, s\<lparr>cs_db := db1, cs_fs := fs1\<rparr>))"

definition refresh :: "int \<Rightarrow> string \<Rightarrow> cis_state \<Rightarrow> bool \<times> cis_state" where
  "refresh now path s =
     (let (it, fs1) = cache_find now path (cs_fs s)
      in if it_eq it cache_end then (False, s\<lparr>cs_fs := fs1\<rparr>)
         else (True, s\<lparr>cs_fs := it_update now it fs1\<rparr>))"

definition cis_remove :: "int \<Rightarrow> string \<Rightarrow> cis_state \<Rightarrow> bool \<times> cis_state" where
  "cis_remove now path s =
     (let (it, fs1) = cache_find now path (cs_fs s)
      in if it_eq it cache_end then (False, s\<lparr>cs_fs := fs1\<rparr>)
         else (True, s\<lparr>cs_fs := it_remove it fs1\<rparr>))"

definition get_project_list :: "int \<Rightarrow> cis_state \<Rightarrow> fs_iter listed list \<times> cis_state" where
  "get_project_list now s =
     (let (its, fs1) = project_iters now (cs_fs s)
      in (map (\<lambda>it. if project_is_entry it fs1 then Item it else Plain_entry it) its, s\<lparr>cs_fs := fs1\<rparr>))"

definition create_project :: "engine \<Rightarrow> int \<Rightarrow> string \<Rightarrow> cis_state \<Rightarrow> unit res \<times> cis_state" where
  "create_project eng now name s =
     (case create_directory now (path_div ''/'' name) (cs_fs s) of
        (Inl e, fs1) \<Rightarrow> (Inl e, s\<lparr>cs_fs := fs1\<rparr>)
      | (Inr _, fs1) \<Rightarrow>
          (let (r, db1) = run_tx eng (\<lambda>db.
                 case mark_project eng name db of Inl e \<Rightarrow> Inl e | Inr db' \<Rightarrow> commit () db') (cs_db s)
           in (r, s\<lparr>cs_db := db1, cs_fs := fs1\<rparr>)))"

definition remove_project :: "engine \<Rightarrow> fs_iter \<Rightarrow> cis_state \<Rightarrow> unit res \<times> cis_state" where
  "remove_project eng prj s =
     (let name = path_filename (it_path (cs_fs s) prj);
          fs1 = it_remove prj (cs_fs s);
          fs2 = fs1\<lparr>fsc_root := node_invalidate (fsc_root fs1)\<rparr>;
          (r, db1) = run_tx eng (\<lambda>db. commit () (set_deleted (\<lambda>n. n = name) db)) (cs_db s)
      in (r, s\<lparr>cs_db := db1, cs_fs := fs2\<rparr>))"

definition get_project_info :: "int \<Rightarrow> string \<Rightarrow> cis_state \<Rightarrow> fs_iter option \<times> cis_state" where
  "get_project_info now name s =
     (let (it, fs1) = cache_find now (''/'' @ name) (cs_fs s)
      in (if \<not> it_eq it cache_end \<and> project_is_entry it fs1 then Some it else None, s\<lparr>cs_fs := fs1\<rparr>))"

definition get_job_info ::
    "(string \<Rightarrow> (string \<times> string) list) \<Rightarrow> int \<Rightarrow> string \<Rightarrow> string \<Rightarrow> cis_state
      \<Rightarrow> (job_info option \<times> cis_state) option" where
  "get_job_info read_params now prj_name job_name s =
     (case get_project_info now prj_name s of
        (None, s1) \<Rightarrow> Some (None, s1)
      | (Some prj, s1) \<Rightarrow>
          map_option (\<lambda>(j, fs2). (j, s1\<lparr>cs_fs := fs2\<rparr>))
            (project_get_job_info read_params now prj job_name (cs_fs s1)))"

definition get_build_info ::
    "(string \<Rightarrow> (string \<times> string) list) \<Rightarrow> int \<Rightarrow> string \<Rightarrow> string \<Rightarrow> string \<Rightarrow> cis_state
      \<Rightarrow> (build_info option \<times> cis_state) option" where
  "get_build_info read_params now prj_name job_name build_name s =
     map_option (\<lambda>(j, s1).
         case j of
           None \<Rightarrow> (None, s1)
         | Some job \<Rightarrow> (let (b, fs2) = job_get_build_info now job build_name (cs_fs s1)
                        in (b, s1\<lparr>cs_fs := fs2\<rparr>)))
       (get_job_info read_params now prj_name job_name s)"

text \<open>Renaming goes to the disk directly, below the path of the projects.\<close>

definition rename_job :: "string \<Rightarrow> string \<Rightarrow> string \<Rightarrow> cis_state \<Rightarrow> bool \<times> cis_state" where
  "rename_job prj_name job_name new_name s =
     (let project_path = path_div (root_path_of (cs_fs s)) prj_name
      in case os_rename (path_div project_path job_name) (path_div project_path new_name)
                (fsc_disk (cs_fs s)) of
           Inl e \<Rightarrow> (False, s)
         | Inr d \<Rightarrow> (True, s\<lparr>cs_fs := (cs_fs s)\<lparr>fsc_disk := d\<rparr>\<rparr>))"

section \<open>Programs\<close>

text \<open>
  What becomes of a process: it cannot be started (the exception is caught and neither callback runs),
  or it exits with a code, with or without an error of the wait. The exit code does not
  decide which callback runs.
\<close>

datatype process_end =
    Start_failed
  | Exited int bool

definition child_process_run :: "process_end \<Rightarrow> 'a \<Rightarrow> 'a \<Rightarrow> 'a option" where
  "child_process_run e on_success on_error =
     (case e of
        Start_failed \<Rightarrow> None
      | Exited code wait_error \<Rightarrow> Some (if wait_error then on_error else on_success))"

definition path_cat :: "string \<Rightarrow> string \<Rightarrow> string" where
  "path_cat base path =
     (if base = [] then path
      else (if last base = slash then butlast base else base) @ path)"

text \<open>
  A cron task: the arguments of the program, if it is started at all, and what the
  continuation gets.
\<close>

record 'a task =
  task_args :: "string list option"
  task_result :: "process_end \<Rightarrow> 'a option"

definition cron_task ::
    "string \<Rightarrow> string \<Rightarrow> string \<Rightarrow> string \<Rightarrow> job_info option \<Rightarrow> bool task" where
  "cron_task flag prj_name job_name expr job =
     (case job of
        None \<Rightarrow> \<lparr>task_args = None, task_result = (\<lambda>_. Some False)\<rparr>
      | Some _ \<Rightarrow> \<lparr>task_args = Some [flag, expr, path_cat prj_name (''/'' @ job_name)],
                    task_result = (\<lambda>e. child_process_run e True False)\<rparr>)"

definition add_cron ::
    "(string \<Rightarrow> (string \<times> string) list) \<Rightarrow> int \<Rightarrow> string \<Rightarrow> string \<Rightarrow> string \<Rightarrow> cis_state
      \<Rightarrow> (bool task \<times> cis_state) option" where
  "add_cron read_params now prj_name job_name expr s =
     map_option (\<lambda>(j, s1). (cron_task ''--add'' prj_name job_name expr j, s1))
       (get_job_info read_params now prj_name job_name s)"

definition remove_cron ::
    "(string \<Rightarrow> (string \<times> string) list) \<Rightarrow> int \<Rightarrow> string \<Rightarrow> string \<Rightarrow> string \<Rightarrow> cis_state
      \<Rightarrow> (bool task \<times> cis_state) option" where
  "remove_cron read_params now prj_name job_name expr s =
     map_option (\<lambda>(j, s1). (cron_task ''--del'' prj_name job_name expr j, s1))
       (get_job_info read_params now prj_name job_name s)"

record cron_entry =
  ce_project :: string
  ce_job :: string
  ce_expr :: string

lemma length_dropWhile_less: "xs \<noteq> [] \<Longrightarrow> length (tl (dropWhile P xs)) < length xs"
  using length_dropWhile_le [of P xs] by (cases xs) (auto simp: less_Suc_eq_le intro: le_trans [OF diff_le_self])

text \<open>
  The output of the cron program: lines \<^verbatim>\<open>project/job expression\<close>. The first part that
  is missing or empty ends the parsing.
\<close>

function parse_cron_list :: "string \<Rightarrow> cron_entry list" where
  "parse_cron_list out =
     (if out = [] then []
      else let project = takeWhile (\<lambda>c. c \<noteq> slash) out;
               r1 = dropWhile (\<lambda>c. c \<noteq> slash) out;
               job = tl (takeWhile (\<lambda>c. c \<noteq> CHR '' '') r1);
               r2 = dropWhile (\<lambda>c. c \<noteq> CHR '' '') r1;
               expr = tl (takeWhile (\<lambda>c. c \<noteq> CHR 0x0A) r2);
               r3 = dropWhile (\<lambda>c. c \<noteq> CHR 0x0A) r2
           in if r1 = [] \<or> r2 = [] \<or> project = [] \<or> job = [] \<or> expr = [] then []
              else \<lparr>ce_project = project, ce_job = job, ce_expr = expr\<rparr> # parse_cron_list (tl r3))"
  by auto

termination
proof (relation "measure length", goal_cases)
  case 1
  then show ?case by simp
next
  case (2 out project r1 job r2 expr r3)
  then have "r2 \<noteq> []" and r1: "r1 = dropWhile (\<lambda>c. c \<noteq> slash) out"
    and r2: "r2 = dropWhile (\<lambda>c. c \<noteq> CHR '' '') r1"
    and r3: "r3 = dropWhile (\<lambda>c. c \<noteq> CHR 0x0A) r2"
    by blast+
  have "length (tl r3) < length r2"
    unfolding r3 using \<open>r2 \<noteq> []\<close> by (rule length_dropWhile_less)
  also have "\<dots> \<le> length r1" unfolding r2 by (rule length_dropWhile_le)
  also have "\<dots> \<le> length out" unfolding r1 by (rule length_dropWhile_le)
  finally show ?case by simp
qed

declare parse_cron_list.simps [simp del] load_executables.simps [simp del]

definition list_cron :: "string \<Rightarrow> string \<Rightarrow> (bool \<times> cron_entry list) task" where
  "list_cron pattern output =
     \<lparr>task_args = Some [''--list'', pattern],
      task_result = (\<lambda>e. child_process_run e (True, parse_cron_list output) (False, []))\<rparr>"

section \<open>The cron list\<close>

definition print_cron_list :: "cron_entry list \<Rightarrow> string" where
  "print_cron_list es =
     concat (map (\<lambda>e. ce_project e @ ''/'' @ ce_job e @ '' '' @ ce_expr e @ [CHR 0x0A]) es)"

lemma span_word:
  assumes "d \<notin> set w"
  shows "takeWhile (\<lambda>c. c \<noteq> d) (w @ d # r) = w" and "dropWhile (\<lambda>c. c \<noteq> d) (w @ d # r) = d # r"
proof -
  have "\<And>c. c \<in> set w \<Longrightarrow> c \<noteq> d" using assms by auto
  then show "takeWhile (\<lambda>c. c \<noteq> d) (w @ d # r) = w" "dropWhile (\<lambda>c. c \<noteq> d) (w @ d # r) = d # r"
    by (subst takeWhile_append2 dropWhile_append2; simp)+
qed

lemma parse_cron_row:
  assumes "p \<noteq> []" "slash \<notin> set p" "j \<noteq> []" "CHR '' '' \<notin> set j" "x \<noteq> []" "CHR 0x0A \<notin> set x"
  shows "parse_cron_list (p @ ''/'' @ j @ '' '' @ x @ CHR 0x0A # r)
     = \<lparr>ce_project = p, ce_job = j, ce_expr = x\<rparr> # parse_cron_list r"
proof -
  let ?r1 = "CHR ''/'' # j @ '' '' @ x @ CHR 0x0A # r"
  let ?r2 = "CHR '' '' # x @ CHR 0x0A # r"
  have 1: "takeWhile (\<lambda>c. c \<noteq> slash) (p @ ?r1) = p" "dropWhile (\<lambda>c. c \<noteq> slash) (p @ ?r1) = ?r1"
    using span_word [OF assms(2)] by simp_all
  have 2: "takeWhile (\<lambda>c. c \<noteq> CHR '' '') ?r1 = CHR ''/'' # j" "dropWhile (\<lambda>c. c \<noteq> CHR '' '') ?r1 = ?r2"
    using span_word [OF assms(4), of "x @ CHR 0x0A # r"] by simp_all
  have 3: "takeWhile (\<lambda>c. c \<noteq> CHR 0x0A) ?r2 = CHR '' '' # x"
    "dropWhile (\<lambda>c. c \<noteq> CHR 0x0A) ?r2 = CHR 0x0A # r"
    using span_word [OF assms(6), of r] by simp_all
  have "parse_cron_list (p @ ?r1) = \<lparr>ce_project = p, ce_job = j, ce_expr = x\<rparr> # parse_cron_list r"
    by (subst parse_cron_list.simps) (simp only: Let_def 1 2 3 list.sel assms(1,3,5) list.distinct
        append_is_Nil_conv simp_thms if_False)
  then show ?thesis by simp
qed

text \<open>
  The cron entries that were printed, one to a line, are parsed back: whatever project names without
  slashes, job names without blanks and expressions without line ends there are.
\<close>

theorem parse_print_cron_list:
  assumes "\<forall>e \<in> set es. ce_project e \<noteq> [] \<and> slash \<notin> set (ce_project e)
             \<and> ce_job e \<noteq> [] \<and> CHR '' '' \<notin> set (ce_job e)
             \<and> ce_expr e \<noteq> [] \<and> CHR 0x0A \<notin> set (ce_expr e)"
  shows "parse_cron_list (print_cron_list es) = es"
  using assms
proof (induction es)
  case Nil
  then show ?case by (simp add: print_cron_list_def parse_cron_list.simps)
next
  case (Cons e es)
  have "print_cron_list (e # es) = ce_project e @ ''/'' @ ce_job e @ '' '' @ ce_expr e @ CHR 0x0A # print_cron_list es"
    by (simp add: print_cron_list_def)
  with Cons parse_cron_row [of "ce_project e" "ce_job e" "ce_expr e" "print_cron_list es"] show ?case
    by simp
qed

theorem parse_print_cron_list_witness:
  "parse_cron_list (print_cron_list [\<lparr>ce_project = ''prj'', ce_job = ''job'', ce_expr = ''0 0 * * *''\<rparr>])
     = [\<lparr>ce_project = ''prj'', ce_job = ''job'', ce_expr = ''0 0 * * *''\<rparr>]"
  by (rule parse_print_cron_list) simp

text \<open>
  A cron task whose program ran and failed is reported as a success: only an error of waiting for the
  process counts, and a program that cannot be started is not reported at all.
\<close>

theorem cron_task_ignores_exit_code:
  "task_result (cron_task cron_flag prj jb expr (Some job)) (Exited code False) = Some True
   \<and> task_result (cron_task cron_flag prj jb expr (Some job)) Start_failed = None"
  by (simp add: cron_task_def child_process_run_def)

section \<open>Projects on the disk and in the database\<close>

lemma database_ok_projects:
  assumes "database_ok db" "map project_id ps = map project_id (db_projects db)"
    and "map project_name ps = map project_name (db_projects db)"
  shows "database_ok (db\<lparr>db_projects := ps\<rparr>)"
proof -
  have "project_id ` set ps = project_id ` set (db_projects db)"
    using arg_cong [OF assms(2), of set] by simp
  with assms show ?thesis unfolding database_ok_def by simp
qed

lemma mark_old_project:
  assumes "database_ok db" "old \<in> set (db_projects db)"
  shows "map project_id (map (\<lambda>p. if project_id p = project_id old then old\<lparr>project_deleted := False\<rparr> else p)
           (db_projects db)) = map project_id (db_projects db)"
    and "map project_name (map (\<lambda>p. if project_id p = project_id old then old\<lparr>project_deleted := False\<rparr> else p)
           (db_projects db)) = map project_name (db_projects db)"
  by (auto) (metis project_key_eq(2) [OF assms])

lemma filter_single_in: "filter P xs = [x] \<Longrightarrow> x \<in> set xs \<and> P x"
proof -
  assume "filter P xs = [x]"
  then have "x \<in> set (filter P xs)" by simp
  then show ?thesis by simp
qed

lemma mark_project_ok [inv_intros]:
  assumes "database_ok db" "fresh_ids eng" "mark_project eng n db = Inr db'"
  shows "database_ok db'"
  using assms
  by (auto simp: mark_project_def dest!: filter_single_in split: list.splits
      intro: insert_project_ok database_ok_projects mark_old_project)

lemma set_deleted_ok [inv_intros]: "database_ok db \<Longrightarrow> database_ok (set_deleted which db)"
  unfolding set_deleted_def by (rule database_ok_projects) auto

lemma mark_projects_ok [inv_intros]:
  "database_ok db \<Longrightarrow> fresh_ids eng \<Longrightarrow> mark_projects eng ns db = Inr db' \<Longrightarrow> database_ok db'"
  by (induction ns arbitrary: db) (auto split: sum.splits intro: mark_project_ok)

lemma mark_project_rights: "mark_project eng n db = Inr db' \<Longrightarrow> db_rights db' = db_rights db"
  by (auto simp: mark_project_def insert_project_def split: list.splits if_splits)

lemma mark_projects_rights: "mark_projects eng ns db = Inr db' \<Longrightarrow> db_rights db' = db_rights db"
  by (induction ns arbitrary: db) (auto split: sum.splits dest: mark_project_rights)

definition live_projects :: "database \<Rightarrow> string set" where
  "live_projects db = project_name ` {p \<in> set (db_projects db). \<not> project_deleted p}"

lemma live_iff: "n \<in> live_projects db \<longleftrightarrow> (\<exists>p \<in> set (db_projects db). project_name p = n \<and> \<not> project_deleted p)"
  by (auto simp: live_projects_def)

lemma live_after_update:
  assumes "database_ok db" "old \<in> set (db_projects db)"
  shows "live_projects (db\<lparr>db_projects := map (\<lambda>p. if project_id p = project_id old
            then old\<lparr>project_deleted := False\<rparr> else p) (db_projects db)\<rparr>)
     = insert (project_name old) (live_projects db)"
proof -
  have "project_id p = project_id old \<longleftrightarrow> p = old" if "p \<in> set (db_projects db)" for p
    using project_key_eq(2) [OF assms(1) that assms(2)] by simp
  then have upd: "set (map (\<lambda>p. if project_id p = project_id old then old\<lparr>project_deleted := False\<rparr> else p) (db_projects db))
      = insert (old\<lparr>project_deleted := False\<rparr>) (set (db_projects db) - {old})"
    using assms(2) by force
  show ?thesis
    by (rule set_eqI) (auto simp: live_iff upd simp del: set_map)
qed

text \<open>Marking a project cannot fail, and adds its name to those in use.\<close>

lemma mark_project_live:
  assumes "database_ok db"
  obtains db' where "mark_project eng n db = Inr db'" and "live_projects db' = insert n (live_projects db)"
proof -
  have le: "length (filter (\<lambda>p. project_name p = n) (db_projects db)) \<le> 1"
    using assms by (intro filter_unique_le_1) (simp add: database_ok_def)
  show ?thesis
  proof (cases "filter (\<lambda>p. project_name p = n) (db_projects db)")
    case Nil
    then have new: "n \<notin> project_name ` set (db_projects db)" by (auto simp: filter_empty_conv)
    let ?db' = "db\<lparr>db_projects := db_projects db @ [\<lparr>project_id = eng_next_id eng (map project_id (db_projects db)),
      project_name = n, project_deleted = False\<rparr>]\<rparr>"
    have "mark_project eng n db = Inr ?db'"
      using Nil new by (simp add: mark_project_def insert_project_def)
    moreover have "live_projects ?db' = insert n (live_projects db)"
      by (auto simp: set_eq_iff live_iff)
    ultimately show ?thesis by (rule that)
  next
    case (Cons old rest)
    with le have single: "filter (\<lambda>p. project_name p = n) (db_projects db) = [old]" by simp
    from filter_single_in [OF single] have old: "old \<in> set (db_projects db)" "project_name old = n" by auto
    with single live_after_update [OF assms old(1)] show ?thesis
      by (intro that) (simp_all add: mark_project_def)
  qed
qed

lemma mark_projects_live:
  assumes "database_ok db" "fresh_ids eng"
  obtains db' where "mark_projects eng ns db = Inr db'" and "live_projects db' = set ns \<union> live_projects db"
  using assms(1)
proof (induction ns arbitrary: db thesis)
  case Nil
  then show ?case by simp
next
  case (Cons n ns)
  from mark_project_live [OF Cons.prems(2), of eng n] obtain db1
    where db1: "mark_project eng n db = Inr db1" "live_projects db1 = insert n (live_projects db)" by blast
  with mark_project_ok [OF Cons.prems(2) assms(2)] have "database_ok db1" by blast
  from Cons.IH [OF _ this] obtain db2
    where "mark_projects eng ns db1 = Inr db2" "live_projects db2 = set ns \<union> live_projects db1" by blast
  with Cons.prems(1) [of db2] db1 show ?case by auto
qed

lemma live_set_deleted_all: "live_projects (set_deleted (\<lambda>_. True) db) = {}"
  by (auto simp: live_projects_def set_deleted_def)

definition disk_projects :: "int \<Rightarrow> fs_cache \<Rightarrow> string list" where
  "disk_projects now fs =
     (let (its, fs1) = project_iters now fs
      in map (\<lambda>it. path_filename (it_path fs1 it)) (filter (\<lambda>it. project_is_entry it fs1) its))"



end
