(* ===== verification/Cis_Handlers.thy ===== *)
theory Cis_Handlers
  imports Request_Context Cis_Manager
begin

text \<open>
  The web socket handlers of projects, jobs, builds, cron entries and files
  (\<^verbatim>\<open>src/websocket/handlers/\<close>), on the state of the \<^verbatim>\<open>cis_manager\<close>. Logging is left
  out. \<open>None\<close> is a handler that does not return (\<open>load_job_conf\<close>). What a started program
  does is an argument of the handler that starts it, and \<open>exec\<close> says whether the
  connection still has an executor.
\<close>

section \<open>Common parts\<close>

text \<open>What the process supplies to a handler.\<close>

record cis_env =
  ce_engine :: engine
  ce_now :: int
  ce_read_params :: "string \<Rightarrow> (string \<times> string) list"

definition on_db :: "(database \<Rightarrow> 'a \<times> database) \<Rightarrow> cis_state \<Rightarrow> 'a \<times> cis_state" where
  "on_db f s = (let (r, db) = f (cs_db s) in (r, s\<lparr>cs_db := db\<rparr>))"

definition on_fs :: "(fs_cache \<Rightarrow> 'a \<times> fs_cache) \<Rightarrow> cis_state \<Rightarrow> 'a \<times> cis_state" where
  "on_fs f s = (let (r, fs) = f (cs_fs s) in (r, s\<lparr>cs_fs := fs\<rparr>))"

abbreviation login_required :: ws_reply where
  "login_required \<equiv> Send_error auth_error_login_required ''Login required.''"

abbreviation action_not_permitted :: ws_reply where
  "action_not_permitted \<equiv> Send_error user_permission_error_access_denied ''Action not permitted.''"

abbreviation invalid_path :: ws_reply where
  "invalid_path \<equiv> Send_error fs_entry_error_invalid_path ''Invalid path.''"

definition has_right :: "(project_rights \<Rightarrow> bool) \<Rightarrow> project_rights option \<Rightarrow> bool" where
  "has_right sel perm = (case perm of None \<Rightarrow> False | Some r \<Rightarrow> sel r)"

definition with_client ::
    "request_context \<Rightarrow> 's \<Rightarrow> (string \<Rightarrow> 's handled) \<Rightarrow> 's handled" where
  "with_client ctx s k =
     (case ctx_client_info ctx of None \<Rightarrow> reply login_required ctx s | Some c \<Rightarrow> k (ci_email c))"

text \<open>
  The steps shared by the handlers on a path: its rights are looked up, and the action runs if
  they include the one that is needed.
\<close>

definition with_path_right ::
    "cis_env \<Rightarrow> request_context \<Rightarrow> string \<Rightarrow> (project_rights \<Rightarrow> bool) \<Rightarrow> string \<Rightarrow> cis_state
      \<Rightarrow> (cis_state \<Rightarrow> cis_state handled) \<Rightarrow> cis_state handled" where
  "with_path_right env ctx email sel path s k =
     check_ec ctx (on_db (get_path_rights (ce_engine env) email path) s) (\<lambda>perm s.
       if has_right sel perm then k s else reply action_not_permitted ctx s)"

definition with_project_right ::
    "cis_env \<Rightarrow> request_context \<Rightarrow> string \<Rightarrow> (project_rights \<Rightarrow> bool) \<Rightarrow> string \<Rightarrow> cis_state
      \<Rightarrow> (bool \<Rightarrow> cis_state \<Rightarrow> cis_state handled) \<Rightarrow> cis_state handled" where
  "with_project_right env ctx email sel prj s k =
     check_ec ctx (on_db (check_project_right (ce_engine env) email prj) s) (\<lambda>perm s.
       k (has_right sel perm) s)"

section \<open>Entries of the file system\<close>

fun strip_common :: "string list \<Rightarrow> string list \<Rightarrow> string list \<times> string list" where
  "strip_common (a # as) (b # bs) = (if a = b then strip_common as bs else (a # as, b # bs))"
| "strip_common as bs = (as, bs)"

text \<open>\<^verbatim>\<open>lexically_relative\<close> for two absolute paths, and the path that is sent for it.\<close>

definition relative_path :: "string \<Rightarrow> string \<Rightarrow> string" where
  "relative_path p base =
     (let (as, bs) = strip_common (path_names p) (path_names base);
          names = map (\<lambda>_. ''..'') bs @ as
      in if names = [] then ''/.'' else concat (map (\<lambda>n. ''/'' @ n) names))"

definition perm_owner_exec :: u32 where "perm_owner_exec = 64"

definition make_dir_entry :: "fs_cache \<Rightarrow> fs_iter \<Rightarrow> fs_entry" where
  "make_dir_entry fs it =
     (let path = it_path fs it;
          rel = relative_path path (root_path_of fs)
      in \<lparr>fs_entry_name = path_filename path, fs_entry_path = rel, fs_entry_link = ''/download'' @ rel,
          fs_entry_metainfo =
            (case it_type fs it of
               Ft_directory \<Rightarrow> Meta_directory
             | Ft_regular \<Rightarrow> Meta_file \<lparr>fs_entry_file_info_executable =
                 (case os_perms (fsc_disk fs) path of None \<Rightarrow> False | Some p \<Rightarrow> and p perm_owner_exec \<noteq> 0)\<rparr>
             | Ft_not_found \<Rightarrow> Meta_none)\<rparr>)"

definition get_fs_entry_info_handler ::
    "cis_env \<Rightarrow> request_context \<Rightarrow> fs_entry_info \<Rightarrow> cis_state \<Rightarrow> cis_state handled" where
  "get_fs_entry_info_handler env ctx req s =
     (let path = fs_entry_info_path req
      in if \<not> validate_path path then reply invalid_path ctx s
         else with_client ctx s (\<lambda>email.
           with_path_right env ctx email pr_read path s (\<lambda>s.
             let (it, s) = on_fs (cache_find (ce_now env) path) s
             in if it_eq it cache_end
                then reply (Send_error fs_entry_error_doesnt_exist ''Path does not exists.'') ctx s
                else (let e = make_dir_entry (cs_fs s) it
                      in reply (Send (fs_entry_info_success_converter
                           \<lparr>fs_entry_info_success_name = fs_entry_name e,
                            fs_entry_info_success_path = fs_entry_path e,
                            fs_entry_info_success_link = fs_entry_link e,
                            fs_entry_info_success_metainfo = fs_entry_metainfo e\<rparr>)) ctx s))))"

definition list_directory_handler ::
    "cis_env \<Rightarrow> request_context \<Rightarrow> fs_entry_list \<Rightarrow> cis_state \<Rightarrow> cis_state handled" where
  "list_directory_handler env ctx req s =
     (let path = fs_entry_list_path req
      in if \<not> validate_path path then reply invalid_path ctx s
         else with_client ctx s (\<lambda>email.
           with_path_right env ctx email pr_read path s (\<lambda>s.
             let (it, s) = on_fs (cache_find (ce_now env) path) s
             in if it_eq it cache_end
                then reply (Send_error fs_entry_error_doesnt_exist ''Path does not exists.'') ctx s
                else (let (first, s) = on_fs (it_begin (ce_now env) it) s
                      in reply (Send (fs_entry_list_success_converter
                           \<lparr>fs_entry_list_success_entries =
                              map (make_dir_entry (cs_fs s)) (it_rest (cs_fs s) first)\<rparr>)) ctx s))))"

definition refresh_fs_entry_handler ::
    "cis_env \<Rightarrow> request_context \<Rightarrow> fs_entry_refresh \<Rightarrow> cis_state \<Rightarrow> cis_state handled" where
  "refresh_fs_entry_handler env ctx req s =
     (let path = fs_entry_refresh_path req
      in with_client ctx s (\<lambda>email.
           if \<not> validate_path path then reply invalid_path ctx s
           else with_path_right env ctx email pr_read path s (\<lambda>s.
             let (found, s) = refresh (ce_now env) path s
             in if found then reply (Send fs_entry_refresh_success) ctx s
                else reply (Send_error fs_entry_error_doesnt_exist ''Path does not exists.'') ctx s)))"

definition remove_fs_entry_handler ::
    "cis_env \<Rightarrow> request_context \<Rightarrow> fs_entry_remove \<Rightarrow> cis_state \<Rightarrow> cis_state handled" where
  "remove_fs_entry_handler env ctx req s =
     (let path = fs_entry_remove_path req
      in with_client ctx s (\<lambda>email.
           if \<not> validate_path path \<or> path_iter path = [''/''] then reply invalid_path ctx s
           else with_path_right env ctx email pr_write path s (\<lambda>s.
             let (found, s) = cis_remove (ce_now env) path s
             in if found then reply (Send fs_entry_remove_success) ctx s
                else reply (Send_error fs_entry_error_doesnt_exist ''Path does not exist.'') ctx s)))"

definition move_fs_entry_handler ::
    "cis_env \<Rightarrow> request_context \<Rightarrow> fs_entry_move \<Rightarrow> cis_state \<Rightarrow> cis_state handled" where
  "move_fs_entry_handler env ctx req s =
     (let old = fs_entry_move_old_path req; new = fs_entry_move_new_path req
      in with_client ctx s (\<lambda>email.
           if \<not> validate_path old \<or> \<not> validate_path new then reply invalid_path ctx s
           else with_path_right env ctx email pr_write old s (\<lambda>s.
             with_path_right env ctx email pr_write new s (\<lambda>s.
               case on_fs (move_entry (ce_now env) old new) s of
                 (Inl e, s) \<Rightarrow> reply (Send_error fs_entry_error_cant_move ''Error on move.'') ctx s
               | (Inr _, s) \<Rightarrow> reply (Send fs_entry_move_success) ctx s))))"

definition new_directory_handler ::
    "cis_env \<Rightarrow> request_context \<Rightarrow> fs_entry_new_dir \<Rightarrow> cis_state \<Rightarrow> cis_state handled" where
  "new_directory_handler env ctx req s =
     (let path = fs_entry_new_dir_path req
      in with_client ctx s (\<lambda>email.
           if \<not> validate_path path then reply invalid_path ctx s
           else with_path_right env ctx email pr_write path s (\<lambda>s.
             case on_fs (create_directory (ce_now env) path) s of
               (Inl e, s) \<Rightarrow> reply (Send_error fs_entry_error_cant_create_dir
                                  ''Error while creating directory.'') ctx s
             | (Inr _, s) \<Rightarrow> reply (Send fs_entry_new_dir_success) ctx s)))"

definition set_fs_entry_executable_flag_handler ::
    "cis_env \<Rightarrow> request_context \<Rightarrow> fs_entry_set_executable_flag \<Rightarrow> cis_state \<Rightarrow> cis_state handled" where
  "set_fs_entry_executable_flag_handler env ctx req s =
     (let path = fs_entry_set_executable_flag_path req
      in with_client ctx s (\<lambda>email.
           if \<not> validate_path path \<or> path_iter path = [''/''] then reply invalid_path ctx s
           else with_path_right env ctx email pr_write path s (\<lambda>s.
             let (it, s) = on_fs (cache_find (ce_now env) path) s
             in if it_eq it cache_end
                then reply (Send_error fs_entry_error_doesnt_exist ''Path does not exist.'') ctx s
                else check_ec ctx
                  (on_fs (\<lambda>fs. let (r, d) = os_permissions (it_path fs it)
                       (\<lambda>p. if fs_entry_set_executable_flag_executable req
                            then or p perm_owner_exec else and p (not perm_owner_exec)) (fsc_disk fs)
                     in (r, fs\<lparr>fsc_disk := d\<rparr>)) s)
                  (\<lambda>_ s. reply (Send fs_entry_set_executable_flag_success) ctx s))))"

section \<open>Projects\<close>

definition add_cis_project_handler ::
    "cis_env \<Rightarrow> request_context \<Rightarrow> cis_project_add \<Rightarrow> cis_state \<Rightarrow> cis_state handled" where
  "add_cis_project_handler env ctx req s =
     with_client ctx s (\<lambda>email.
       case get_project_info (ce_now env) (cis_project_add_project req) s of
         (Some _, s) \<Rightarrow> reply (Send_error (cis_project_error_already_exist_converter
            \<lparr>cis_project_error_already_exist_project = cis_project_add_project req\<rparr>)
            ''Project already exists.'') ctx s
       | (None, s) \<Rightarrow>
           check_ec ctx (on_db (is_admin (ce_engine env) email) s) (\<lambda>admin s.
             if \<not> admin then reply action_not_permitted ctx s
             else check_ec ctx (create_project (ce_engine env) (ce_now env) (cis_project_add_project req) s)
               (\<lambda>_ s. reply (Send cis_project_add_success) ctx s)))"

definition project_doesnt_exist :: "string \<Rightarrow> string \<Rightarrow> ws_reply" where
  "project_doesnt_exist prj msg =
     Send_error (cis_project_error_doesnt_exist_converter
       \<lparr>cis_project_error_doesnt_exist_project = prj\<rparr>) msg"

definition remove_cis_project_handler ::
    "cis_env \<Rightarrow> request_context \<Rightarrow> cis_project_remove \<Rightarrow> cis_state \<Rightarrow> cis_state handled" where
  "remove_cis_project_handler env ctx req s =
     (let prj = cis_project_remove_project req
      in with_client ctx s (\<lambda>email.
           let (p, s) = get_project_info (ce_now env) prj s
           in with_project_right env ctx email pr_write prj s (\<lambda>permitted s.
                if \<not> permitted then reply action_not_permitted ctx s
                else case p of
                       Some it \<Rightarrow> check_ec ctx (remove_project (ce_engine env) it s)
                                   (\<lambda>_ s. reply (Send cis_project_remove_success) ctx s)
                     | None \<Rightarrow> reply (project_doesnt_exist prj ''Project doesn't exists.'') ctx s)))"

text \<open>An entry of a listing; what is not a project, job or build keeps its own description.\<close>

definition listed_entry :: "fs_cache \<Rightarrow> (fs_iter \<times> metainfo) listed \<Rightarrow> fs_entry" where
  "listed_entry fs x =
     (case x of
        Plain_entry it \<Rightarrow> make_dir_entry fs it
      | Item (it, m) \<Rightarrow> (make_dir_entry fs it)\<lparr>fs_entry_metainfo := m\<rparr>)"

definition map_listed :: "('a \<Rightarrow> 'b) \<Rightarrow> 'a listed \<Rightarrow> 'b listed" where
  "map_listed f x = (case x of Plain_entry it \<Rightarrow> Plain_entry it | Item y \<Rightarrow> Item (f y))"

text \<open>The rights of a project that is listed; an error of the database counts as no right.\<close>

definition may_read_project :: "cis_env \<Rightarrow> request_context \<Rightarrow> database \<Rightarrow> string \<Rightarrow> bool" where
  "may_read_project env ctx db name =
     (case ctx_client_info ctx of
        None \<Rightarrow> False
      | Some c \<Rightarrow> (case fst (check_project_right (ce_engine env) (ci_email c) name db) of
                    Inl e \<Rightarrow> False | Inr perm \<Rightarrow> has_right pr_read perm))"

definition list_projects_handler ::
    "cis_env \<Rightarrow> request_context \<Rightarrow> cis_state \<Rightarrow> cis_state handled" where
  "list_projects_handler env ctx s =
     (let (list, s) = get_project_list (ce_now env) s;
          entry = (\<lambda>x. listed_entry (cs_fs s) (map_listed (\<lambda>it. (it, Meta_project
             \<lparr>fs_entry_project_info_permitted =
                may_read_project env ctx (cs_db s) (path_filename (it_path (cs_fs s) it))\<rparr>)) x))
      in reply (Send (cis_project_list_get_success_converter
           \<lparr>cis_project_list_get_success_fs_entries = map entry list\<rparr>)) ctx s)"

definition get_project_info_handler ::
    "cis_env \<Rightarrow> request_context \<Rightarrow> cis_project_info \<Rightarrow> cis_state \<Rightarrow> cis_state handled option" where
  "get_project_info_handler env ctx req s =
     (let prj = cis_project_info_project req;
          (p, s) = get_project_info (ce_now env) prj s
      in case ctx_client_info ctx of
           None \<Rightarrow> Some (reply login_required ctx s)
         | Some c \<Rightarrow>
             (case on_db (check_project_right (ce_engine env) (ci_email c) prj) s of
                (Inl e, s) \<Rightarrow> Some (reply internal_error ctx s)
              | (Inr perm, s) \<Rightarrow>
                  (if \<not> has_right pr_read perm then Some (reply action_not_permitted ctx s)
                   else case p of
                     None \<Rightarrow> Some (reply (project_doesnt_exist prj ''Project doesn't exist.'') ctx s)
                   | Some it \<Rightarrow>
                       map_option (\<lambda>(jobs, fs).
                         reply (Send (cis_project_info_success_converter
                           \<lparr>cis_project_info_success_fs_entries =
                              map (\<lambda>x. listed_entry fs (map_listed (\<lambda>j. (job_it j, Meta_job)) x)) jobs\<rparr>))
                           ctx (s\<lparr>cs_fs := fs\<rparr>))
                         (project_get_job_list (ce_read_params env) (ce_now env) it (cs_fs s)))))"

section \<open>Jobs\<close>

definition job_path :: "string \<Rightarrow> string \<Rightarrow> string" where
  "job_path prj jb = path_div (path_div ''/'' prj) jb"

definition job_conf_text :: string where
  "job_conf_text = ''script=script'' @ [CHR 0x0A] @ ''keep_last_success_builds=5'' @ [CHR 0x0A]
     @ ''keep_last_break_builds=5''"

text \<open>
  Creating the files of a job. The stream to \<^verbatim>\<open>job.conf\<close> is written out when it is
  closed.
\<close>

definition create_job_files ::
    "cis_env \<Rightarrow> request_context \<Rightarrow> string \<Rightarrow> cis_state \<Rightarrow> cis_state handled" where
  "create_job_files env ctx path s =
     (let now = ce_now env
      in check_ec_msg ctx ''Can't create directory.'' (on_fs (create_directory now path) s) (\<lambda>_ s.
         check_ec_msg ctx ''Can't create file.'' (on_fs (create_file_w now (path_div path ''script'')) s) (\<lambda>_ s.
         check_ec_msg ctx ''Can't make script executable.''
             (on_fs (set_permissions (path_div path ''script'') 484) s) (\<lambda>_ s.
         check_ec_msg ctx ''Can't create file.'' (on_fs (create_file_w now (path_div path ''job.params'')) s) (\<lambda>_ s.
         check_ec_msg ctx ''Can't create file.'' (on_fs (create_file_w now (path_div path ''job.conf'')) s) (\<lambda>_ s.
           reply (Send cis_job_add_success) ctx
             (s\<lparr>cs_fs := (cs_fs s)\<lparr>fsc_disk := os_append (root_path_of (cs_fs s) @ path_div path ''job.conf'')
                 job_conf_text (fsc_disk (cs_fs s))\<rparr>\<rparr>)))))))"

text \<open>Without a client the error is sent, and then reading the missing client throws.\<close>

definition add_cis_job_handler ::
    "cis_env \<Rightarrow> request_context \<Rightarrow> cis_job_add \<Rightarrow> cis_state \<Rightarrow> cis_state handled" where
  "add_cis_job_handler env ctx req s =
     (let prj = cis_job_add_project req; jb = cis_job_add_job req;
          (p, s) = get_project_info (ce_now env) prj s
      in case ctx_client_info ctx of
           None \<Rightarrow> send_first login_required (threw ctx s)
         | Some c \<Rightarrow> with_project_right env ctx (ci_email c) pr_write prj s (\<lambda>permitted s.
             if \<not> permitted then reply action_not_permitted ctx s
             else if p = None then reply (project_doesnt_exist prj ''Project doesn't exists.'') ctx s
             else (let (it, s) = on_fs (cache_find (ce_now env) (job_path prj jb)) s
                   in if it_eq it cache_end then create_job_files env ctx (job_path prj jb) s
                      else reply (Send_error (cis_job_error_already_exist_converter
                             \<lparr>cis_job_error_already_exist_project = prj,
                              cis_job_error_already_exist_job = jb\<rparr>) ''Job already exists.'') ctx s)))"

definition job_doesnt_exist :: "string \<Rightarrow> string \<Rightarrow> string \<Rightarrow> ws_reply" where
  "job_doesnt_exist prj jb msg =
     Send_error (cis_job_error_doesnt_exist_converter
       \<lparr>cis_job_error_doesnt_exist_project = prj, cis_job_error_doesnt_exist_job = jb\<rparr>) msg"

text \<open>
  The lookup of a job followed by the check of the rights; then the action runs on the job, if
  there is one.
\<close>

definition with_job ::
    "cis_env \<Rightarrow> request_context \<Rightarrow> string \<Rightarrow> string \<Rightarrow> (project_rights \<Rightarrow> bool) \<Rightarrow> ws_reply \<Rightarrow> cis_state
      \<Rightarrow> (string \<Rightarrow> job_info \<Rightarrow> cis_state \<Rightarrow> cis_state handled option) \<Rightarrow> cis_state handled option" where
  "with_job env ctx prj jb sel missing s k =
     (case get_job_info (ce_read_params env) (ce_now env) prj jb s of
        None \<Rightarrow> None
      | Some (job, s) \<Rightarrow>
          (case ctx_client_info ctx of
             None \<Rightarrow> Some (reply login_required ctx s)
           | Some c \<Rightarrow>
               (case on_db (check_project_right (ce_engine env) (ci_email c) prj) s of
                  (Inl e, s) \<Rightarrow> Some (reply internal_error ctx s)
                | (Inr perm, s) \<Rightarrow>
                    (if \<not> has_right sel perm then Some (reply action_not_permitted ctx s)
                     else case job of
                       None \<Rightarrow> Some (reply missing ctx s)
                     | Some j \<Rightarrow> k (ci_email c) j s))))"

text \<open>Handlers that check the login before they look up the job.\<close>

definition client_first ::
    "request_context \<Rightarrow> cis_state \<Rightarrow> cis_state handled option \<Rightarrow> cis_state handled option" where
  "client_first ctx s h =
     (if ctx_client_info ctx = None then Some (reply login_required ctx s) else h)"

definition remove_cis_job_handler ::
    "cis_env \<Rightarrow> request_context \<Rightarrow> cis_job_remove \<Rightarrow> cis_state \<Rightarrow> cis_state handled option" where
  "remove_cis_job_handler env ctx req s =
     (let prj = cis_job_remove_project req; jb = cis_job_remove_job req
      in client_first ctx s (with_job env ctx prj jb pr_write
           (job_doesnt_exist prj jb ''Job doesn't exists.'') s (\<lambda>_ _ s.
             let (it, s) = on_fs (cache_find (ce_now env) (job_path prj jb)) s
             in Some (if it_eq it cache_end
                      then reply (job_doesnt_exist prj jb ''Job doesn't exist.'') ctx s
                      else reply (Send cis_job_remove_success) ctx (s\<lparr>cs_fs := it_remove it (cs_fs s)\<rparr>)))))"

definition build_status :: "int option \<Rightarrow> string" where
  "build_status status =
     (case status of Some c \<Rightarrow> (if c = 0 then ''success'' else ''failed'') | None \<Rightarrow> ''in_progress'')"

definition unpack_build_meta :: "build_info \<Rightarrow> metainfo" where
  "unpack_build_meta b = Meta_build
     \<lparr>fs_entry_build_info_status = Some (build_status (bi_status b)),
      fs_entry_build_info_exit_code = map_option word_of_int (bi_status b),
      fs_entry_build_info_exit_message = bi_exit_message b,
      fs_entry_build_info_session_id = bi_session_id b,
      fs_entry_build_info_date = bi_date b\<rparr>"

definition is_build_entry :: "fs_entry \<Rightarrow> bool" where
  "is_build_entry e = (case fs_entry_metainfo e of Meta_build _ \<Rightarrow> True | _ \<Rightarrow> False)"

text \<open>
  The builds are listed last first and before the other entries
  (\<^verbatim>\<open>std::reverse\<close>, \<^verbatim>\<open>std::stable_sort\<close>). The configuration of the job is
  dereferenced without a check.
\<close>

definition get_job_info_handler ::
    "cis_env \<Rightarrow> request_context \<Rightarrow> cis_job_info \<Rightarrow> cis_state \<Rightarrow> cis_state handled option" where
  "get_job_info_handler env ctx req s =
     (let prj = cis_job_info_project req; jb = cis_job_info_job req; now = ce_now env
      in with_job env ctx prj jb pr_read (job_doesnt_exist prj jb ''Job doesn't exist.'') s (\<lambda>_ job s.
           let (builds, s) = on_fs (job_get_build_list now job) s;
               entries = map (\<lambda>x. listed_entry (cs_fs s) (map_listed (\<lambda>b. (build_it b, unpack_build_meta b)) x)) builds;
               (script, s) = on_fs (get_script_entry now job) s;
               (params, s) = on_fs (get_params_entry now job) s;
               (conf, s) = on_fs (get_conf_entry now job) s;
               property = (\<lambda>it. Some (make_dir_entry (cs_fs s) it))
           in case conf of
                None \<Rightarrow> Some (threw ctx s)
              | Some c \<Rightarrow> Some (reply (Send (cis_job_info_success_converter
                  \<lparr>cis_job_info_success_fs_entries = sort_key (\<lambda>e. \<not> is_build_entry e) (rev entries),
                   cis_job_info_success_params = map (\<lambda>(n, v).
                     \<lparr>cis_job_info_success_param_name = n, cis_job_info_success_param_value = v\<rparr>) (job_params job),
                   cis_job_info_success_properties =
                     map property ((case script of Some x \<Rightarrow> [x] | None \<Rightarrow> [])
                       @ (case params of Some x \<Rightarrow> [x] | None \<Rightarrow> []) @ [c])\<rparr>)) ctx s)))"

section \<open>Builds\<close>

definition build_doesnt_exist :: "string \<Rightarrow> string \<Rightarrow> string \<Rightarrow> string \<Rightarrow> ws_reply" where
  "build_doesnt_exist prj jb bld msg =
     Send_error (cis_build_error_doesnt_exist_converter
       \<lparr>cis_build_error_doesnt_exist_project = prj, cis_build_error_doesnt_exist_job = jb,
        cis_build_error_doesnt_exist_build = bld\<rparr>) msg"

definition get_build_info_handler ::
    "cis_env \<Rightarrow> request_context \<Rightarrow> cis_build_info \<Rightarrow> cis_state \<Rightarrow> cis_state handled option" where
  "get_build_info_handler env ctx req s =
     (let prj = cis_build_info_project req; jb = cis_build_info_job req; bld = cis_build_info_build req
      in case get_build_info (ce_read_params env) (ce_now env) prj jb bld s of
           None \<Rightarrow> None
         | Some (b, s) \<Rightarrow> Some (with_client ctx s (\<lambda>email.
             with_project_right env ctx email pr_read prj s (\<lambda>permitted s.
               if \<not> permitted then reply action_not_permitted ctx s
               else case b of
                 None \<Rightarrow> reply (build_doesnt_exist prj jb bld ''Build doesn't exist.'') ctx s
               | Some info \<Rightarrow>
                   (let (first, s) = on_fs (it_begin (ce_now env) (build_it info)) s
                    in reply (Send (cis_build_info_success_converter
                         \<lparr>cis_build_info_success_status = build_status (bi_status info),
                          cis_build_info_success_exit_code = map_option word_of_int (bi_status info),
                          cis_build_info_success_exit_message = bi_exit_message info,
                          cis_build_info_success_session_id = bi_session_id info,
                          cis_build_info_success_date = bi_date info,
                          cis_build_info_success_fs_entries =
                            map (make_dir_entry (cs_fs s)) (it_rest (cs_fs s) first)\<rparr>)) ctx s)))))"

text \<open>
  When the build disappeared between the two searches the error carries only the project: the
  code assigns its job to itself.
\<close>

definition remove_cis_build_handler ::
    "cis_env \<Rightarrow> request_context \<Rightarrow> cis_build_remove \<Rightarrow> cis_state \<Rightarrow> cis_state handled option" where
  "remove_cis_build_handler env ctx req s =
     (let prj = cis_build_remove_project req; jb = cis_build_remove_job req; bld = cis_build_remove_build req
      in client_first ctx s (case get_build_info (ce_read_params env) (ce_now env) prj jb bld s of
           None \<Rightarrow> None
         | Some (b, s) \<Rightarrow> Some (with_client ctx s (\<lambda>email.
             with_project_right env ctx email pr_write prj s (\<lambda>permitted s.
               if \<not> permitted then reply action_not_permitted ctx s
               else if b = None then reply (build_doesnt_exist prj jb bld ''Build doesn't exists.'') ctx s
               else (let (it, s) = on_fs (cache_find (ce_now env) (path_div (job_path prj jb) bld)) s
                     in if it_eq it cache_end
                        then reply (build_doesnt_exist prj [] [] ''Build doesn't exist.'') ctx s
                        else reply (Send cis_build_remove_success) ctx (s\<lparr>cs_fs := it_remove it (cs_fs s)\<rparr>)))))))"

section \<open>Running a job\<close>

record execution_info =
  xi_success :: bool
  xi_exit_code :: "int option"
  xi_exit_message :: "string option"
  xi_session_id :: "string option"

text \<open>What the execution of a job reports.\<close>

datatype job_event =
    Session_started string
  | Session_finished string
  | Job_finished execution_info

definition job_event_replies :: "job_event \<Rightarrow> ws_reply list" where
  "job_event_replies e =
     (case e of
        Session_started sid \<Rightarrow>
          [Send (cis_job_run_success_converter \<lparr>cis_job_run_success_session_id = sid\<rparr>)]
      | Session_finished sid \<Rightarrow> []
      | Job_finished info \<Rightarrow>
          (case xi_exit_code info of
             Some code \<Rightarrow>
               (if xi_success info
                then [Send (cis_job_finished_converter
                        \<lparr>cis_job_finished_status = (if code = 0 then ''success'' else ''failed''),
                         cis_job_finished_exit_code = word_of_int code,
                         cis_job_finished_exit_message = xi_exit_message info,
                         cis_job_finished_session_id = xi_session_id info\<rparr>)]
                else [])
           | None \<Rightarrow> []))"

text \<open>
  The values of the parameters of a job: those of the request (the first one for a name), or else the
  defaults; \<open>None\<close> when one is missing.
\<close>

fun param_values ::
    "(string \<times> string) list \<Rightarrow> (string \<times> string) list \<Rightarrow> (string \<times> string) list option" where
  "param_values given [] = Some []"
| "param_values given ((name, dflt) # ps) =
     (case map_of given name of
        Some v \<Rightarrow> map_option (\<lambda>vs. (name, v) # vs) (param_values given ps)
      | None \<Rightarrow> (if dflt = [] then None
                 else map_option (\<lambda>vs. (name, dflt) # vs) (param_values given ps)))"

definition request_params :: "cis_job_run \<Rightarrow> (string \<times> string) list" where
  "request_params req =
     foldl (\<lambda>m p. map_insert (cis_job_run_param_name p) (cis_job_run_param_value p) m) [] (cis_job_run_params req)"

text \<open>
  \<open>exec\<close>: the connection has an executor; \<open>run\<close>: what happens when the job is started with the given values.
\<close>

definition run_job_handler ::
    "cis_env \<Rightarrow> bool \<Rightarrow> ((string \<times> string) list \<Rightarrow> job_event list) \<Rightarrow> request_context \<Rightarrow> cis_job_run
      \<Rightarrow> cis_state \<Rightarrow> cis_state handled option" where
  "run_job_handler env exec run ctx req s =
     (let prj = cis_job_run_project req; jb = cis_job_run_job req
      in client_first ctx s (with_job env ctx prj jb pr_execute
           (job_doesnt_exist prj jb ''Job doesn't exist.'') s (\<lambda>_ job s.
             case param_values (request_params req) (job_params job) of
               None \<Rightarrow> Some (reply (Send_error cis_job_error_invalid_params ''Invalid params.'') ctx s)
             | Some vs \<Rightarrow> Some \<lparr>h_replies = (if exec then concat (map job_event_replies (run vs)) else []),
                               h_ctx = ctx, h_state = s, h_thrown = False\<rparr>)))"

section \<open>Cron\<close>

definition task_replies :: "bool \<Rightarrow> 'a task \<Rightarrow> process_end \<Rightarrow> ('a \<Rightarrow> ws_reply) \<Rightarrow> ws_reply list" where
  "task_replies exec t e f =
     (if exec then (case task_result t e of None \<Rightarrow> [] | Some v \<Rightarrow> [f v]) else [])"

definition cron_handled ::
    "cis_env \<Rightarrow> bool \<Rightarrow> process_end \<Rightarrow> request_context \<Rightarrow> message \<Rightarrow> string
      \<Rightarrow> (bool task \<times> cis_state) option \<Rightarrow> cis_state handled option" where
  "cron_handled env exec pe ctx ok failed t =
     map_option (\<lambda>(t, s). \<lparr>h_replies = task_replies exec t pe
                              (\<lambda>success. if success then Send ok else Send_error_msg failed),
                            h_ctx = ctx, h_state = s, h_thrown = False\<rparr>) t"

definition add_cis_cron_handler ::
    "cis_env \<Rightarrow> (string \<Rightarrow> bool) \<Rightarrow> bool \<Rightarrow> process_end \<Rightarrow> request_context \<Rightarrow> cis_cron_add
      \<Rightarrow> cis_state \<Rightarrow> cis_state handled option" where
  "add_cis_cron_handler env validate_expr exec pe ctx req s =
     (let prj = cis_cron_add_project req; jb = cis_cron_add_job req; expr = cis_cron_add_cron_expr req
      in if \<not> validate_expr expr then Some (reply (Send_error_msg ''Invalid cron expression.'') ctx s)
         else with_job env ctx prj jb (\<lambda>r. pr_write r \<and> pr_execute r)
           (job_doesnt_exist prj jb ''Job doesn't exists.'') s (\<lambda>_ _ s.
             if exec
             then cron_handled env exec pe ctx cis_cron_add_success ''Can't add cron.''
                    (add_cron (ce_read_params env) (ce_now env) prj jb expr s)
             else Some \<lparr>h_replies = [], h_ctx = ctx, h_state = s, h_thrown = False\<rparr>))"

definition remove_cis_cron_handler ::
    "cis_env \<Rightarrow> bool \<Rightarrow> process_end \<Rightarrow> request_context \<Rightarrow> cis_cron_remove
      \<Rightarrow> cis_state \<Rightarrow> cis_state handled option" where
  "remove_cis_cron_handler env exec pe ctx req s =
     (let prj = cis_cron_remove_project req; jb = cis_cron_remove_job req; expr = cis_cron_remove_cron_expr req
      in client_first ctx s (with_job env ctx prj jb (\<lambda>r. pr_write r \<and> pr_execute r)
           (job_doesnt_exist prj jb ''Job doesn't exist.'') s (\<lambda>_ _ s.
             if exec
             then cron_handled env exec pe ctx cis_cron_remove_success ''Can't remove cron.''
                    (remove_cron (ce_read_params env) (ce_now env) prj jb expr s)
             else Some \<lparr>h_replies = [], h_ctx = ctx, h_state = s, h_thrown = False\<rparr>)))"

text \<open>The list of cron entries is given to any client, logged in or not.\<close>

definition list_cis_cron_handler ::
    "bool \<Rightarrow> string \<Rightarrow> process_end \<Rightarrow> request_context \<Rightarrow> cis_cron_list \<Rightarrow> cis_state \<Rightarrow> cis_state handled" where
  "list_cis_cron_handler exec output pe ctx req s =
     \<lparr>h_replies = task_replies exec (list_cron (cis_cron_list_mask req) output) pe
        (\<lambda>(success, entries).
           if success
           then Send (cis_cron_list_success_converter \<lparr>cis_cron_list_success_entries =
             map (\<lambda>e. \<lparr>cis_cron_list_success_entry_project = ce_project e,
                        cis_cron_list_success_entry_job = ce_job e,
                        cis_cron_list_success_entry_cron_expr = ce_expr e\<rparr>) entries\<rparr>)
           else Send_error_msg ''Cron list error.''),
      h_ctx = ctx, h_state = s, h_thrown = False\<rparr>"

end
