(* ===== verification/Cis_Reads.thy ===== *)
theory Cis_Reads
  imports Cis_Handlers
begin

text \<open>
  What searches and listings leave behind. All of them reach the cache through two operations
  only: reading a directory again, and marking a node for reading. The interface says what
  these two keep; every search, listing and description of projects, jobs and builds keeps it
  as well.
\<close>

section \<open>The interface\<close>

locale cache_reads =
  fixes keeps :: "fs_cache \<Rightarrow> bool"
  assumes update_at_keeps: "keeps fs \<Longrightarrow> keeps (update_at now ks fs)"
    and invalidate_keeps: "keeps fs \<Longrightarrow> keeps (it_invalidate it fs)"
begin

lemma find_loop_keeps: "keeps fs \<Longrightarrow> keeps (snd (find_loop now path parts depth current fs))"
  by (induction parts arbitrary: depth current fs) (simp_all add: Let_def update_at_keeps split: option.splits)

lemma cache_find_keeps: "keeps fs \<Longrightarrow> keeps (snd (cache_find now path fs))"
  by (simp add: cache_find_def find_loop_keeps)

lemma cache_begin_keeps: "keeps fs \<Longrightarrow> keeps (snd (cache_begin now fs))"
  by (simp add: cache_begin_def Let_def update_at_keeps)

lemma it_begin_keeps: "keeps fs \<Longrightarrow> keeps (snd (it_begin now it fs))"
  by (simp add: it_begin_def Let_def update_at_keeps split: fs_iter.splits option.splits list.splits)

lemma it_find_keeps: "keeps fs \<Longrightarrow> keeps (snd (it_find now it name fs))"
proof -
  assume k: "keeps fs"
  have "snd ((\<lambda>(b, fs). case b of
          Dir_it dir ns \<Rightarrow> (Dir_it dir (dropWhile (\<lambda>n. n \<noteq> name) ns), fs) | _ \<Rightarrow> (b, fs)) r)
      = snd r" for r :: "fs_iter \<times> fs_cache"
    by (simp add: case_prod_beta split: fs_iter.splits)
  with k show ?thesis
    by (simp add: it_find_def Let_def update_at_keeps it_begin_keeps split: fs_iter.splits option.splits)
qed

lemma it_update_keeps: "keeps fs \<Longrightarrow> keeps (it_update now it fs)"
  by (simp add: it_update_def update_at_keeps split: fs_iter.splits)

lemma find_and_invalidate_keeps: "keeps fs \<Longrightarrow> keeps (find_and_invalidate now path fs)"
  by (simp add: find_and_invalidate_def case_prod_beta cache_find_keeps invalidate_keeps)

lemma file_of_keeps: "keeps fs \<Longrightarrow> keeps (snd (file_of now it name fs))"
  by (simp add: file_of_def case_prod_beta it_find_keeps)

lemma build_new_keeps: "keeps fs \<Longrightarrow> keeps (snd (build_new now it fs))"
  by (simp add: build_new_def case_prod_beta Let_def file_of_keeps)

lemma job_is_entry_keeps: "keeps fs \<Longrightarrow> job_is_entry now it fs = Some (b, fs') \<Longrightarrow> keeps fs'"
  using it_find_keeps [of fs now it "''job.conf''"]
  by (auto simp: job_is_entry_def case_prod_beta split: if_splits)

lemma job_new_keeps: "keeps fs \<Longrightarrow> job_new rp now it fs = Some (j, fs') \<Longrightarrow> keeps fs'"
  using it_find_keeps [of _ now it "''job.params''"] it_find_keeps [of fs now it "''job.conf''"]
  by (auto simp: job_new_def case_prod_beta Let_def split: option.splits)

lemma project_get_job_info_keeps:
  "keeps fs \<Longrightarrow> project_get_job_info rp now prj name fs = Some (j, fs') \<Longrightarrow> keeps fs'"
  using it_find_keeps [of fs now prj name]
  by (auto simp: project_get_job_info_def case_prod_beta split: if_splits option.splits bool.splits)
     (blast intro: job_is_entry_keeps job_new_keeps)+

lemma list_jobs_keeps: "keeps fs \<Longrightarrow> list_jobs rp now its fs = Some (js, fs') \<Longrightarrow> keeps fs'"
  by (induction its arbitrary: fs js fs')
     (auto split: option.splits if_splits, (blast intro: job_is_entry_keeps job_new_keeps)+)

lemma project_get_job_list_keeps:
  "keeps fs \<Longrightarrow> project_get_job_list rp now prj fs = Some (js, fs') \<Longrightarrow> keeps fs'"
  by (auto simp: project_get_job_list_def case_prod_beta dest: list_jobs_keeps [OF it_begin_keeps])

lemma job_get_build_info_keeps: "keeps fs \<Longrightarrow> keeps (snd (job_get_build_info now job name fs))"
  by (simp add: job_get_build_info_def case_prod_beta it_find_keeps build_new_keeps)

lemma list_builds_keeps: "keeps fs \<Longrightarrow> keeps (snd (list_builds now its fs))"
  by (induction its arbitrary: fs) (simp_all add: case_prod_beta Let_def build_new_keeps)

lemma job_get_build_list_keeps: "keeps fs \<Longrightarrow> keeps (snd (job_get_build_list now job fs))"
  by (simp add: job_get_build_list_def case_prod_beta list_builds_keeps it_begin_keeps)

lemma job_find_entry_keeps: "keeps fs \<Longrightarrow> keeps (snd (job_find_entry now name job fs))"
  by (simp add: job_find_entry_def case_prod_beta it_find_keeps)

lemma project_iters_keeps: "keeps fs \<Longrightarrow> keeps (snd (project_iters now fs))"
  by (simp add: project_iters_def case_prod_beta cache_begin_keeps)

text \<open>The state of the manager: the same database, and a cache that keeps the property.\<close>

definition quiet :: "cis_state \<Rightarrow> cis_state \<Rightarrow> bool" where
  "quiet s s' \<longleftrightarrow> (keeps (cs_fs s) \<longrightarrow> keeps (cs_fs s')) \<and> cs_db s' = cs_db s"

lemma quiet_refl: "quiet s s"
  by (simp add: quiet_def)

lemma quiet_trans: "quiet s s' \<Longrightarrow> quiet s' s'' \<Longrightarrow> quiet s s''"
  by (simp add: quiet_def)

lemma quiet_fs: "(keeps (cs_fs s) \<Longrightarrow> keeps fs') \<Longrightarrow> quiet s (s\<lparr>cs_fs := fs'\<rparr>)"
  by (simp add: quiet_def)

lemma quiet_on_fs:
  "(\<And>fs. keeps fs \<Longrightarrow> keeps (snd (f fs))) \<Longrightarrow> quiet s (snd (on_fs f s))"
  by (simp add: quiet_def on_fs_def case_prod_beta Let_def)

lemma quiet_on_db: "snd (f (cs_db s)) = cs_db s \<Longrightarrow> quiet s (snd (on_db f s))"
  by (simp add: quiet_def on_db_def case_prod_beta Let_def)

lemma quiet_get_project_info: "quiet s (snd (get_project_info now name s))"
  by (simp add: get_project_info_def case_prod_beta Let_def quiet_fs cache_find_keeps)

lemma quiet_get_project_list: "quiet s (snd (get_project_list now s))"
  by (simp add: get_project_list_def case_prod_beta Let_def quiet_fs project_iters_keeps)

lemma quiet_refresh: "quiet s (snd (refresh now path s))"
  by (simp add: refresh_def case_prod_beta Let_def quiet_fs cache_find_keeps it_update_keeps)

lemma quiet_get_job_info:
  assumes "get_job_info rp now prj jb s = Some (j, s')"
  shows "quiet s s'"
proof -
  obtain p s1 where p: "get_project_info now prj s = (p, s1)" by fastforce
  with quiet_get_project_info [of s now prj] have q: "quiet s s1" by simp
  show ?thesis
  proof (cases p)
    case None
    with assms p q show ?thesis by (simp add: get_job_info_def)
  next
    case (Some it)
    with assms p obtain fs2 where "project_get_job_info rp now it jb (cs_fs s1) = Some (j, fs2)"
      and s': "s' = s1\<lparr>cs_fs := fs2\<rparr>"
      by (auto simp: get_job_info_def)
    with q show ?thesis by (auto simp: quiet_def dest: project_get_job_info_keeps)
  qed
qed

lemma quiet_get_build_info:
  assumes "get_build_info rp now prj jb bld s = Some (b, s')"
  shows "quiet s s'"
proof -
  from assms obtain j s1 where j: "get_job_info rp now prj jb s = Some (j, s1)"
    and s': "(b, s') = (case j of None \<Rightarrow> (None, s1)
       | Some job \<Rightarrow> (let (b, fs2) = job_get_build_info now job bld (cs_fs s1) in (b, s1\<lparr>cs_fs := fs2\<rparr>)))"
    by (auto simp: get_build_info_def)
  have "quiet s1 s'"
    using s' by (auto simp: case_prod_beta Let_def quiet_refl quiet_fs job_get_build_info_keeps split: option.splits)
  with quiet_get_job_info [OF j] show ?thesis by (rule quiet_trans)
qed

end

section \<open>The disk\<close>

text \<open>Reading leaves the disk as it is.\<close>

interpretation disk: cache_reads "\<lambda>fs. fsc_disk fs = d" for d
  by unfold_locales simp_all

section \<open>The agreement of the cache with the disk\<close>

lemma node_invalidate_ok: "node_ok p lvl x n \<Longrightarrow> node_ok p lvl x (node_invalidate n)"
  by (cases n) (simp add: node_invalidate_def set_state_def)

lemma invalidate_cache_ok:
  assumes "cache_ok base fs"
  shows "cache_ok base (it_invalidate it fs)"
proof (cases it)
  case (Tree_it ks)
  note ok = cache_okD [OF assms]
  have n: "node_ok (root_path_of fs) (fsc_max_level fs) base (map_node node_invalidate ks (fsc_root fs))"
    using ok by (intro map_node_ok [where d = "fsc_disk fs"]) (auto intro: node_invalidate_ok)
  then have "nd_path (map_node node_invalidate ks (fsc_root fs)) = root_path_of fs"
    by (simp add: node_ok_iff [of _ _ _ "map_node _ _ _"])
  with n ok Tree_it show ?thesis
    by (simp add: cache_ok_def it_invalidate_def root_path_of_def)
qed (use assms in \<open>simp_all add: it_invalidate_def\<close>)

interpretation agreeing: cache_reads "cache_ok base" for base
  by unfold_locales (simp_all add: update_at_ok invalidate_cache_ok)

end
