(* ===== verification/Cis_Sessions.thy ===== *)
theory Cis_Sessions
  imports Cis_Reads
begin

text \<open>
  The part of the web socket interface that works on projects, jobs, builds, files and cron
  entries, as one function of the request. The lemmas: a request changes the disk or the database
  only for a client that is logged in and has the right the request needs; every request is answered once;
  no request changes who is logged in.
\<close>

section \<open>One request\<close>

text \<open>
  What the world supplies: the process (\<open>cis_env\<close>), the cron library's check of an expression,
  whether the connection still has an executor, what a started job reports, and the output and the end
  of a started program.
\<close>

record cis_world =
  cw_env :: cis_env
  cw_valid_expr :: "string \<Rightarrow> bool"
  cw_exec :: bool
  cw_run :: "cis_job_run \<Rightarrow> (string \<times> string) list \<Rightarrow> job_event list"
  cw_cron_output :: string
  cw_process :: process_end

datatype outcome = Returned "cis_state handled" | Hangs | Other_event

definition returned :: "cis_state handled option \<Rightarrow> outcome" where
  "returned h = (case h of None \<Rightarrow> Hangs | Some x \<Rightarrow> Returned x)"

definition cis_handle :: "cis_world \<Rightarrow> request_context \<Rightarrow> ws_request \<Rightarrow> cis_state \<Rightarrow> outcome" where
  "cis_handle w ctx req s =
     (let env = cw_env w
      in case req of
           Req_cis_project_list_get \<Rightarrow> Returned (list_projects_handler env ctx s)
         | Req_cis_project_info d \<Rightarrow> returned (get_project_info_handler env ctx d s)
         | Req_cis_project_add d \<Rightarrow> Returned (add_cis_project_handler env ctx d s)
         | Req_cis_project_remove d \<Rightarrow> Returned (remove_cis_project_handler env ctx d s)
         | Req_cis_job_add d \<Rightarrow> Returned (add_cis_job_handler env ctx d s)
         | Req_cis_job_remove d \<Rightarrow> returned (remove_cis_job_handler env ctx d s)
         | Req_cis_build_remove d \<Rightarrow> returned (remove_cis_build_handler env ctx d s)
         | Req_cis_job_info d \<Rightarrow> returned (get_job_info_handler env ctx d s)
         | Req_cis_job_run d \<Rightarrow> returned (run_job_handler env (cw_exec w) (cw_run w d) ctx d s)
         | Req_cis_build_info d \<Rightarrow> returned (get_build_info_handler env ctx d s)
         | Req_fs_entry_info d \<Rightarrow> Returned (get_fs_entry_info_handler env ctx d s)
         | Req_fs_entry_refresh d \<Rightarrow> Returned (refresh_fs_entry_handler env ctx d s)
         | Req_fs_entry_remove d \<Rightarrow> Returned (remove_fs_entry_handler env ctx d s)
         | Req_fs_entry_move d \<Rightarrow> Returned (move_fs_entry_handler env ctx d s)
         | Req_fs_entry_new_dir d \<Rightarrow> Returned (new_directory_handler env ctx d s)
         | Req_fs_entry_list d \<Rightarrow> Returned (list_directory_handler env ctx d s)
         | Req_fs_entry_set_executable_flag d \<Rightarrow>
             Returned (set_fs_entry_executable_flag_handler env ctx d s)
         | Req_cis_cron_add d \<Rightarrow> returned
             (add_cis_cron_handler env (cw_valid_expr w) (cw_exec w) (cw_process w) ctx d s)
         | Req_cis_cron_remove d \<Rightarrow> returned
             (remove_cis_cron_handler env (cw_exec w) (cw_process w) ctx d s)
         | Req_cis_cron_list d \<Rightarrow> Returned
             (list_cis_cron_handler (cw_exec w) (cw_cron_output w) (cw_process w) ctx d s)
         | _ \<Rightarrow> Other_event)"

lemma returned_simps [simp]:
  "returned h = Returned x \<longleftrightarrow> h = Some x"
  "returned h = Hangs \<longleftrightarrow> h = None"
  "returned h \<noteq> Other_event"
  by (simp_all add: returned_def split: option.splits)

section \<open>The rights a request needs\<close>

definition path_permits ::
    "engine \<Rightarrow> string \<Rightarrow> (project_rights \<Rightarrow> bool) \<Rightarrow> string \<Rightarrow> database \<Rightarrow> bool" where
  "path_permits eng email sel path db =
     (case fst (get_path_rights eng email path db) of Inl e \<Rightarrow> False | Inr perm \<Rightarrow> has_right sel perm)"

definition project_permits ::
    "engine \<Rightarrow> string \<Rightarrow> (project_rights \<Rightarrow> bool) \<Rightarrow> string \<Rightarrow> database \<Rightarrow> bool" where
  "project_permits eng email sel prj db =
     (case fst (check_project_right eng email prj db) of Inl e \<Rightarrow> False | Inr perm \<Rightarrow> has_right sel perm)"

text \<open>
  The requests that write, with the right each of them needs; all others are requests to read, or to start a
  program.
\<close>

definition write_permitted :: "engine \<Rightarrow> request_context \<Rightarrow> ws_request \<Rightarrow> database \<Rightarrow> bool" where
  "write_permitted eng ctx req db =
     (case ctx_client_info ctx of
        None \<Rightarrow> False
      | Some c \<Rightarrow>
          (let email = ci_email c
           in case req of
                Req_fs_entry_remove d \<Rightarrow> path_permits eng email pr_write (fs_entry_remove_path d) db
              | Req_fs_entry_move d \<Rightarrow> path_permits eng email pr_write (fs_entry_move_old_path d) db
                  \<and> path_permits eng email pr_write (fs_entry_move_new_path d) db
              | Req_fs_entry_new_dir d \<Rightarrow> path_permits eng email pr_write (fs_entry_new_dir_path d) db
              | Req_fs_entry_set_executable_flag d \<Rightarrow>
                  path_permits eng email pr_write (fs_entry_set_executable_flag_path d) db
              | Req_cis_project_add d \<Rightarrow> fst (is_admin eng email db) = Inr True
              | Req_cis_project_remove d \<Rightarrow> project_permits eng email pr_write (cis_project_remove_project d) db
              | Req_cis_job_add d \<Rightarrow> project_permits eng email pr_write (cis_job_add_project d) db
              | Req_cis_job_remove d \<Rightarrow> project_permits eng email pr_write (cis_job_remove_project d) db
              | Req_cis_build_remove d \<Rightarrow> project_permits eng email pr_write (cis_build_remove_project d) db
              | _ \<Rightarrow> False))"

section \<open>The common parts of the handlers\<close>

lemma on_db_queries [simp]:
  "on_db (get_path_rights eng email p) s = (fst (get_path_rights eng email p (cs_db s)), s)"
  "on_db (check_project_right eng email p) s = (fst (check_project_right eng email p (cs_db s)), s)"
  "on_db (is_admin eng email) s = (fst (is_admin eng email (cs_db s)), s)"
  by (simp_all add: on_db_def case_prod_beta Let_def)

lemma with_path_right_cases:
  "with_path_right env ctx email sel path s k =
     (if path_permits (ce_engine env) email sel path (cs_db s) then k s
      else case fst (get_path_rights (ce_engine env) email path (cs_db s)) of
             Inl e \<Rightarrow> reply internal_error ctx s
           | Inr _ \<Rightarrow> reply action_not_permitted ctx s)"
  by (simp add: with_path_right_def path_permits_def check_ec_cases split: sum.splits)

lemma with_project_right_cases:
  "with_project_right env ctx email sel prj s k =
     (case fst (check_project_right (ce_engine env) email prj (cs_db s)) of
        Inl e \<Rightarrow> reply internal_error ctx s
      | Inr _ \<Rightarrow> k (project_permits (ce_engine env) email sel prj (cs_db s)) s)"
  by (simp add: with_project_right_def project_permits_def check_ec_cases split: sum.splits)

lemma with_job_cases:
  "with_job env ctx prj jb sel missing s k =
     (case get_job_info (ce_read_params env) (ce_now env) prj jb s of
        None \<Rightarrow> None
      | Some (job, s) \<Rightarrow>
          (case ctx_client_info ctx of
             None \<Rightarrow> Some (reply login_required ctx s)
           | Some c \<Rightarrow>
               (if project_permits (ce_engine env) (ci_email c) sel prj (cs_db s)
                then (case job of None \<Rightarrow> Some (reply missing ctx s) | Some j \<Rightarrow> k (ci_email c) j s)
                else case fst (check_project_right (ce_engine env) (ci_email c) prj (cs_db s)) of
                       Inl e \<Rightarrow> Some (reply internal_error ctx s)
                     | Inr _ \<Rightarrow> Some (reply action_not_permitted ctx s))))"
  by (simp add: with_job_def project_permits_def split: option.splits sum.splits)

context cache_reads
begin

text \<open>A handler that leaves everything as it was, but for the cache.\<close>

definition calm :: "cis_state \<Rightarrow> cis_state handled \<Rightarrow> bool" where
  "calm s h \<longleftrightarrow> quiet s (h_state h)"

lemma calm_reply: "quiet s s' \<Longrightarrow> calm s (reply r ctx s')"
  by (simp add: calm_def)

lemma calm_handled: "quiet s s' \<Longrightarrow> calm s \<lparr>h_replies = rs, h_ctx = ctx, h_state = s', h_thrown = b\<rparr>"
  by (simp add: calm_def)

lemma calm_threw: "quiet s s' \<Longrightarrow> calm s (threw ctx s')" "quiet s s' \<Longrightarrow> calm s (send_first r (threw ctx s'))"
  by (simp_all add: calm_def)

lemmas calm_ends = calm_reply calm_handled calm_threw

lemma calm_after: "quiet s s' \<Longrightarrow> calm s' h \<Longrightarrow> calm s h"
  unfolding calm_def by (rule quiet_trans)

lemma calm_with_client: "(\<And>c. ctx_client_info ctx = Some c \<Longrightarrow> calm s (k (ci_email c))) \<Longrightarrow> calm s (with_client ctx s k)"
  by (simp add: with_client_def calm_reply quiet_refl split: option.splits)

lemma calm_with_path_right:
  "(path_permits (ce_engine env) email sel path (cs_db s) \<Longrightarrow> calm s (k s)) \<Longrightarrow>
     calm s (with_path_right env ctx email sel path s k)"
  by (simp add: with_path_right_cases calm_reply quiet_refl split: sum.splits)

lemma calm_with_project_right:
  "calm s (k (project_permits (ce_engine env) email sel prj (cs_db s)) s) \<Longrightarrow>
     calm s (with_project_right env ctx email sel prj s k)"
  by (simp add: with_project_right_cases calm_reply quiet_refl split: sum.splits)

lemma calm_with_job:
  assumes "with_job env ctx prj jb sel missing s k = Some h"
    and "\<And>c j s' h. ctx_client_info ctx = Some c \<Longrightarrow> quiet s s' \<Longrightarrow>
           project_permits (ce_engine env) (ci_email c) sel prj (cs_db s') \<Longrightarrow>
           k (ci_email c) j s' = Some h \<Longrightarrow> calm s' h"
  shows "calm s h"
proof -
  from assms(1) obtain job s' where j: "get_job_info (ce_read_params env) (ce_now env) prj jb s = Some (job, s')"
    by (auto simp: with_job_cases split: option.splits)
  have q: "quiet s s'" using j by (rule quiet_get_job_info)
  from assms(1) j have "calm s' h"
    by (auto simp: with_job_cases calm_reply quiet_refl split: option.splits if_splits sum.splits
        intro: assms(2) [OF _ q])
  with q show ?thesis by (rule calm_after)
qed

lemma calm_on_fs:
  assumes "\<And>fs. keeps fs \<Longrightarrow> keeps (snd (f fs))" and "\<And>r st. calm st (k r st)"
  shows "calm s (case on_fs f s of (r, st) \<Rightarrow> k r st)"
  using calm_after [OF quiet_on_fs [of f s, OF assms(1)]] assms(2) by (simp add: case_prod_beta)

text \<open>The handlers that only read.\<close>

lemma calm_entry_readers:
  "calm s (get_fs_entry_info_handler env ctx d1 s)"
  "calm s (list_directory_handler env ctx d2 s)"
  "calm s (refresh_fs_entry_handler env ctx d3 s)"
proof -
  have "calm st (case on_fs (cache_find now p) st of (it, st) \<Rightarrow> k it st)"
    if "\<And>it st. calm st (k it st)" for st k p and now :: int
    by (intro calm_on_fs cache_find_keeps that)
  note find = this
  have "calm st (case refresh now p st of (b, st) \<Rightarrow> if b then reply x ctx st else reply y ctx st)"
    for st now p x y
    using quiet_refresh [of st now p] by (auto simp: case_prod_beta calm_reply)
  note refresh = this
  show "calm s (get_fs_entry_info_handler env ctx d1 s)"
    unfolding get_fs_entry_info_handler_def Let_def
    by (auto intro!: calm_ends quiet_refl calm_with_client calm_with_path_right find)
  show "calm s (list_directory_handler env ctx d2 s)"
    unfolding list_directory_handler_def Let_def
    by (auto intro!: calm_ends quiet_refl calm_with_client calm_with_path_right find calm_on_fs [OF it_begin_keeps])
  show "calm s (refresh_fs_entry_handler env ctx d3 s)"
    unfolding refresh_fs_entry_handler_def Let_def
    by (auto intro!: calm_ends quiet_refl calm_with_client calm_with_path_right refresh)
qed

lemma calm_list_projects: "calm s (list_projects_handler env ctx s)"
  using quiet_get_project_list [of s "ce_now env"]
  by (simp add: list_projects_handler_def case_prod_beta Let_def calm_reply)

lemma calm_project_info:
  assumes "get_project_info_handler env ctx d s = Some h"
  shows "calm s h"
proof -
  obtain p st where p: "get_project_info (ce_now env) (cis_project_info_project d) s = (p, st)" by fastforce
  with quiet_get_project_info [of s "ce_now env"] have q: "quiet s st" by (metis snd_conv)
  have "calm st h"
    using assms p
    by (auto simp: get_project_info_handler_def Let_def calm_reply quiet_refl
        split: option.splits sum.splits if_splits intro!: calm_ends quiet_fs dest: project_get_job_list_keeps)
  with q show ?thesis by (rule calm_after)
qed

lemma calm_client_first:
  "client_first ctx s f = Some h \<Longrightarrow> (f = Some h \<Longrightarrow> calm s h) \<Longrightarrow> calm s h"
  by (auto simp: client_first_def calm_reply quiet_refl split: if_splits)

lemma calm_on_fs_some:
  assumes "(case on_fs f s of (r, st) \<Rightarrow> k r st) = Some h"
    and "\<And>fs. keeps fs \<Longrightarrow> keeps (snd (f fs))" and "\<And>r st. k r st = Some h \<Longrightarrow> calm st h"
  shows "calm s h"
  using calm_after [OF quiet_on_fs [of f s, OF assms(2)]] assms(1,3) by (simp add: case_prod_beta)

lemma job_entries_keeps:
  "keeps fs \<Longrightarrow> keeps (snd (get_script_entry now job fs))"
  "keeps fs \<Longrightarrow> keeps (snd (get_params_entry now job fs))"
  "keeps fs \<Longrightarrow> keeps (snd (get_conf_entry now job fs))"
  by (simp_all add: get_script_entry_def get_params_entry_def get_conf_entry_def job_find_entry_keeps)

lemma calm_job_info:
  assumes "get_job_info_handler env ctx d s = Some h"
  shows "calm s h"
  using assms unfolding get_job_info_handler_def Let_def
  by (elim calm_with_job calm_on_fs_some)
     (auto intro: job_get_build_list_keeps job_entries_keeps calm_ends quiet_refl split: option.splits)

lemma calm_build:
  assumes "get_build_info rp now prj jb bld s = Some (b, st)" and "calm st h"
  shows "calm s h"
  using quiet_get_build_info [OF assms(1)] assms(2) by (rule calm_after)

lemma calm_build_info:
  assumes "get_build_info_handler env ctx d s = Some h"
  shows "calm s h"
proof -
  from assms obtain b st where b: "get_build_info (ce_read_params env) (ce_now env)
      (cis_build_info_project d) (cis_build_info_job d) (cis_build_info_build d) s = Some (b, st)"
    by (auto simp: get_build_info_handler_def Let_def split: option.splits)
  have "calm st h"
    using assms b
    by (auto simp: get_build_info_handler_def Let_def
        intro!: calm_with_client calm_with_project_right calm_reply quiet_refl calm_on_fs it_begin_keeps
        split: option.splits)
  with b show ?thesis by (rule calm_build)
qed

lemma calm_run_job:
  assumes "run_job_handler env exec run ctx d s = Some h"
  shows "calm s h"
  using assms unfolding run_job_handler_def Let_def
  by (elim calm_client_first calm_with_job)
     (auto intro: calm_ends quiet_refl split: option.splits)

lemma calm_cron_handled:
  assumes "cron_handled env exec pe ctx ok failed t = Some h" and "\<And>c st. t = Some (c, st) \<Longrightarrow> quiet s st"
  shows "calm s h"
  using assms by (auto simp: cron_handled_def intro: calm_handled)

lemma calm_cron:
  "add_cis_cron_handler env ve exec pe ctx d1 s = Some h \<Longrightarrow> calm s h"
  "remove_cis_cron_handler env exec pe ctx d2 s = Some h \<Longrightarrow> calm s h"
  "calm s (list_cis_cron_handler exec out pe ctx d3 s)"
proof -
  assume "add_cis_cron_handler env ve exec pe ctx d1 s = Some h"
  then show "calm s h" unfolding add_cis_cron_handler_def Let_def
    by (auto intro!: calm_ends quiet_refl elim!: calm_with_job calm_cron_handled
        simp: add_cron_def intro: quiet_get_job_info split: if_splits)
next
  assume "remove_cis_cron_handler env exec pe ctx d2 s = Some h"
  then show "calm s h" unfolding remove_cis_cron_handler_def Let_def
    by (elim calm_client_first calm_with_job)
       (auto intro!: calm_ends quiet_refl elim!: calm_cron_handled
        simp: remove_cron_def intro: quiet_get_job_info split: if_splits)
next
  show "calm s (list_cis_cron_handler exec out pe ctx d3 s)"
    by (simp add: list_cis_cron_handler_def calm_handled quiet_refl)
qed

text \<open>The handlers that write, when the client may not.\<close>

lemma quiet_db: "quiet s st \<Longrightarrow> cs_db st = cs_db s"
  by (simp add: quiet_def)

lemma calm_denied_paths:
  assumes "\<not> write_permitted (ce_engine env) ctx req (cs_db s)"
  shows "req = Req_fs_entry_remove d1 \<Longrightarrow> calm s (remove_fs_entry_handler env ctx d1 s)"
    and "req = Req_fs_entry_move d2 \<Longrightarrow> calm s (move_fs_entry_handler env ctx d2 s)"
    and "req = Req_fs_entry_new_dir d3 \<Longrightarrow> calm s (new_directory_handler env ctx d3 s)"
    and "req = Req_fs_entry_set_executable_flag d4 \<Longrightarrow>
           calm s (set_fs_entry_executable_flag_handler env ctx d4 s)"
  using assms
  by (auto simp: remove_fs_entry_handler_def move_fs_entry_handler_def new_directory_handler_def
      set_fs_entry_executable_flag_handler_def write_permitted_def Let_def
      intro!: calm_ends quiet_refl calm_with_client calm_with_path_right)

lemma calm_denied_add_project:
  assumes "\<not> write_permitted (ce_engine env) ctx (Req_cis_project_add d) (cs_db s)"
  shows "calm s (add_cis_project_handler env ctx d s)"
proof -
  obtain p st where p: "get_project_info (ce_now env) (cis_project_add_project d) s = (p, st)" by fastforce
  with quiet_get_project_info [of s "ce_now env"] have q: "quiet s st" by (metis snd_conv)
  from assms p quiet_db [OF q] have "calm st (add_cis_project_handler env ctx d s)" if "ctx_client_info ctx \<noteq> None"
    using that
    by (auto simp: add_cis_project_handler_def with_client_def write_permitted_def Let_def check_ec_cases
        intro!: calm_ends quiet_refl split: option.splits sum.splits)
  with q show ?thesis
    by (cases "ctx_client_info ctx")
       (auto simp: add_cis_project_handler_def with_client_def calm_reply quiet_refl intro: calm_after)
qed

lemma calm_denied_project:
  assumes "\<not> write_permitted (ce_engine env) ctx (Req_cis_project_remove d) (cs_db s)"
  shows "calm s (remove_cis_project_handler env ctx d s)"
proof -
  obtain p st where p: "get_project_info (ce_now env) (cis_project_remove_project d) s = (p, st)" by fastforce
  with quiet_get_project_info [of s "ce_now env"] have q: "quiet s st" by (metis snd_conv)
  from assms p quiet_db [OF q] have "calm st (remove_cis_project_handler env ctx d s)" if "ctx_client_info ctx \<noteq> None"
    using that
    by (auto simp: remove_cis_project_handler_def with_client_def write_permitted_def Let_def
        intro!: calm_ends quiet_refl calm_with_project_right)
  with q show ?thesis
    by (cases "ctx_client_info ctx")
       (auto simp: remove_cis_project_handler_def with_client_def calm_reply quiet_refl intro: calm_after)
qed

lemma calm_denied_add_job:
  assumes "\<not> write_permitted (ce_engine env) ctx (Req_cis_job_add d) (cs_db s)"
  shows "calm s (add_cis_job_handler env ctx d s)"
proof -
  obtain p st where p: "get_project_info (ce_now env) (cis_job_add_project d) s = (p, st)" by fastforce
  with quiet_get_project_info [of s "ce_now env"] have q: "quiet s st" by (metis snd_conv)
  from assms p quiet_db [OF q] have "calm st (add_cis_job_handler env ctx d s)"
    by (auto simp: add_cis_job_handler_def write_permitted_def Let_def
        intro!: calm_ends quiet_refl calm_with_project_right split: option.splits)
  with q show ?thesis by (rule calm_after)
qed

lemma calm_denied_remove_job:
  assumes "\<not> write_permitted (ce_engine env) ctx (Req_cis_job_remove d) (cs_db s)"
    and "remove_cis_job_handler env ctx d s = Some h"
  shows "calm s h"
  using assms(2) unfolding remove_cis_job_handler_def Let_def
  by (elim calm_client_first calm_with_job)
     (use assms(1) in \<open>auto simp: write_permitted_def dest: quiet_db\<close>)

lemma calm_denied_remove_build:
  assumes "\<not> write_permitted (ce_engine env) ctx (Req_cis_build_remove d) (cs_db s)"
    and "remove_cis_build_handler env ctx d s = Some h"
  shows "calm s h"
proof (cases "ctx_client_info ctx")
  case None
  with assms(2) show ?thesis
    by (auto simp: remove_cis_build_handler_def client_first_def calm_reply quiet_refl)
next
  case (Some c)
  with assms(2) obtain b st where b: "get_build_info (ce_read_params env) (ce_now env)
      (cis_build_remove_project d) (cis_build_remove_job d) (cis_build_remove_build d) s = Some (b, st)"
    by (auto simp: remove_cis_build_handler_def client_first_def Let_def split: option.splits)
  have q: "quiet s st" using b by (rule quiet_get_build_info)
  from assms Some b quiet_db [OF q] have "calm st h"
    by (auto simp: remove_cis_build_handler_def client_first_def write_permitted_def Let_def
        intro!: calm_with_client calm_with_project_right calm_reply quiet_refl)
  with q show ?thesis by (rule calm_after)
qed

lemma cis_handle_calm:
  assumes "cis_handle w ctx req s = Returned h" and "\<not> write_permitted (ce_engine (cw_env w)) ctx req (cs_db s)"
  shows "quiet s (h_state h)"
  unfolding calm_def [symmetric]
  using assms calm_denied_paths [OF assms(2)] calm_denied_add_project calm_denied_project calm_denied_add_job
    calm_denied_remove_job calm_denied_remove_build calm_entry_readers calm_list_projects
  by (cases req)
     (auto simp: cis_handle_def Let_def intro: calm_project_info calm_job_info calm_build_info calm_run_job calm_cron)

end

section \<open>Who may write\<close>


definition demo_world :: cis_world where
  "demo_world = \<lparr>cw_env = \<lparr>ce_engine = reliable_engine, ce_now = 7, ce_read_params = (\<lambda>_. [])\<rparr>,
     cw_valid_expr = (\<lambda>_. True), cw_exec = True, cw_run = (\<lambda>_ _. []), cw_cron_output = [],
     cw_process = Exited 0 False\<rparr>"

definition demo_state :: cis_state where
  "demo_state = \<lparr>cs_db = bob_db, cs_fs = demo_cache\<rparr>"

definition as_client :: "string \<Rightarrow> request_context" where
  "as_client email = empty_context\<lparr>ctx_client_info :=
     Some \<lparr>ci_email = email, ci_active_token = [], ci_api_access_key = []\<rparr>\<rparr>"


section \<open>One answer\<close>

definition answered :: "request_context \<Rightarrow> 's handled \<Rightarrow> bool" where
  "answered ctx h \<longleftrightarrow> h_ctx h = ctx \<and> length (h_replies h) = 1 \<and> \<not> h_thrown h"

lemma answered_reply [simp]: "answered ctx (reply r ctx s)"
  by (simp add: answered_def)

lemma answered_guards:
  "(\<And>e. answered ctx (k e)) \<Longrightarrow> answered ctx (with_client ctx s k)"
  "(\<And>s. answered ctx (k' s)) \<Longrightarrow> answered ctx (with_path_right env ctx email sel path s k')"
  "(\<And>b s. answered ctx (k2 b s)) \<Longrightarrow> answered ctx (with_project_right env ctx email sel prj s k2)"
  "(\<And>v s. answered ctx (k3 v s)) \<Longrightarrow> answered ctx (check_ec ctx r k3)"
  "(\<And>v s. answered ctx (k3 v s)) \<Longrightarrow> answered ctx (check_ec_msg ctx msg r k3)"
  by (auto simp: with_client_def with_path_right_cases with_project_right_cases check_ec_cases check_ec_msg_def
      split: option.splits sum.splits prod.splits)

lemma answered_pair: "(\<And>a b. answered ctx (k a b)) \<Longrightarrow> answered ctx (case p of (a, b) \<Rightarrow> k a b)"
  by (cases p) simp

lemma answered_sum:
  "(\<And>e b. answered ctx (k e b)) \<Longrightarrow> (\<And>v b. answered ctx (k' v b)) \<Longrightarrow>
     answered ctx (case p of (Inl e, b) \<Rightarrow> k e b | (Inr v, b) \<Rightarrow> k' v b)"
  by (simp split: prod.splits sum.splits)

lemma answered_if: "answered ctx a \<Longrightarrow> answered ctx b \<Longrightarrow> answered ctx (if c then a else b)"
  by simp

lemma answered_option:
  "answered ctx a \<Longrightarrow> (\<And>x. answered ctx (b x)) \<Longrightarrow> answered ctx (case z of None \<Rightarrow> a | Some x \<Rightarrow> b x)"
  by (simp split: option.splits)

lemma answered_option_pair:
  "(\<And>s. answered ctx (a s)) \<Longrightarrow> (\<And>x s. answered ctx (b x s)) \<Longrightarrow>
     answered ctx (case z of (Some x, s) \<Rightarrow> b x s | (None, s) \<Rightarrow> a s)"
  by (simp split: option.splits prod.splits)

lemmas answered_intros =
  answered_reply answered_guards answered_if answered_option answered_sum answered_option_pair answered_pair

lemma entry_handlers_answered:
  "answered ctx (get_fs_entry_info_handler env ctx d1 s)"
  "answered ctx (list_directory_handler env ctx d2 s)"
  "answered ctx (refresh_fs_entry_handler env ctx d3 s)"
  "answered ctx (remove_fs_entry_handler env ctx d4 s)"
  "answered ctx (move_fs_entry_handler env ctx d5 s)"
  "answered ctx (new_directory_handler env ctx d6 s)"
  "answered ctx (set_fs_entry_executable_flag_handler env ctx d7 s)"
  unfolding get_fs_entry_info_handler_def list_directory_handler_def refresh_fs_entry_handler_def
    remove_fs_entry_handler_def move_fs_entry_handler_def new_directory_handler_def
    set_fs_entry_executable_flag_handler_def Let_def
  by (intro answered_intros)+

lemma project_handlers_answered:
  "answered ctx (list_projects_handler env ctx s)"
  "answered ctx (add_cis_project_handler env ctx d1 s)"
  "answered ctx (remove_cis_project_handler env ctx d2 s)"
  unfolding list_projects_handler_def add_cis_project_handler_def remove_cis_project_handler_def Let_def
  by (intro answered_intros)+

lemma add_job_answered:
  "ctx_client_info ctx \<noteq> None \<Longrightarrow> answered ctx (add_cis_job_handler env ctx d s)"
  unfolding add_cis_job_handler_def create_job_files_def Let_def
  by (cases "ctx_client_info ctx") (auto intro!: answered_intros)

lemma client_first_answered:
  "client_first ctx s f = Some h \<Longrightarrow> (f = Some h \<Longrightarrow> answered ctx h) \<Longrightarrow> answered ctx h"
  by (auto simp: client_first_def split: if_splits)

lemma with_job_answered:
  assumes "with_job env ctx prj jb sel missing s k = Some h" and "\<And>e j st h. k e j st = Some h \<Longrightarrow> answered ctx h"
  shows "answered ctx h"
  using assms by (auto simp: with_job_cases split: option.splits prod.splits if_splits sum.splits)

lemma project_info_answered:
  "get_project_info_handler env ctx d s = Some h \<Longrightarrow> answered ctx h"
  by (auto simp: get_project_info_handler_def Let_def split: prod.splits option.splits sum.splits if_splits)

lemma remove_job_answered:
  "remove_cis_job_handler env ctx d s = Some h \<Longrightarrow> answered ctx h"
  unfolding remove_cis_job_handler_def Let_def
  by (elim client_first_answered with_job_answered) (auto split: prod.splits if_splits)

lemma build_handlers_answered:
  "get_build_info_handler env ctx d1 s = Some h \<Longrightarrow> answered ctx h"
  "remove_cis_build_handler env ctx d2 s = Some h \<Longrightarrow> answered ctx h"
  by (auto simp: get_build_info_handler_def remove_cis_build_handler_def client_first_def Let_def
      intro!: answered_intros split: option.splits if_splits)

text \<open>The requests that start a program, and the two whose handler may throw.\<close>

fun may_throw :: "ws_request \<Rightarrow> bool" where
  "may_throw (Req_cis_job_info d) = True"
| "may_throw _ = False"

fun starts_program :: "ws_request \<Rightarrow> bool" where
  "starts_program (Req_cis_job_run d) = True"
| "starts_program (Req_cis_cron_add d) = True"
| "starts_program (Req_cis_cron_remove d) = True"
| "starts_program (Req_cis_cron_list d) = True"
| "starts_program _ = False"



end
