(* ===== verification/Std_Regex.thy ===== *)
theory Std_Regex
  imports Std_Text
begin

text \<open>
  \<^verbatim>\<open>std::regex\<close> in the ECMAScript grammar, as far as the source uses it. A match is a search
  with backtracking; the value of a matcher is the list of all ways to match at the front of the text,
  in the order in which they are tried: what is left, and the groups that were captured. The first way
  that satisfies the caller is the match.

  The lemmas: the ways in which a repeated class of characters matches.
\<close>

section \<open>Expressions\<close>

text \<open>
  Repetitions are greedy or lazy; an unbounded one never repeats an empty match.
\<close>

datatype regex =
    Class "char \<Rightarrow> bool"
  | Empty
  | Sequence regex regex
  | Either regex regex
  | Repeat nat "nat option" bool regex
  | Group nat regex
  | Not_ahead regex
  | At_begin
  | At_end

type_synonym captures = "(nat \<times> string) list"

fun text_regex :: "string \<Rightarrow> regex" where
  "text_regex [] = Empty"
| "text_regex (c # cs) = Sequence (Class (\<lambda>x. x = c)) (text_regex cs)"

fun sequence :: "regex list \<Rightarrow> regex" where
  "sequence [] = Empty"
| "sequence (r # rs) = Sequence r (sequence rs)"

definition any_char :: "char \<Rightarrow> bool" where
  "any_char c \<longleftrightarrow> c \<noteq> CHR 0x0A \<and> c \<noteq> CHR 0x0D"

abbreviation plus :: "regex \<Rightarrow> regex" where "plus r \<equiv> Repeat 1 None True r"
abbreviation star :: "regex \<Rightarrow> regex" where "star r \<equiv> Repeat 0 None True r"
abbreviation lazy_star :: "regex \<Rightarrow> regex" where "lazy_star r \<equiv> Repeat 0 None False r"

section \<open>Matching\<close>

fun iterate_match ::
    "nat \<Rightarrow> nat \<Rightarrow> bool \<Rightarrow> (string \<times> captures \<Rightarrow> (string \<times> captures) list) \<Rightarrow> string \<times> captures
      \<Rightarrow> (string \<times> captures) list" where
  "iterate_match lo 0 greedy m (s, c) = (if lo = 0 then [(s, c)] else [])"
| "iterate_match lo (Suc n) greedy m (s, c) =
     (let more = concat (map (\<lambda>(s', c'). if s' = s \<and> lo = 0 then []
                                 else iterate_match (lo - 1) n greedy m (s', c')) (m (s, c)));
          stop = (if lo = 0 then [(s, c)] else [])
      in if greedy then more @ stop else stop @ more)"

text \<open>\<open>n\<close> is the length of the range that is searched, where \<open>^\<close> matches.\<close>

fun ways :: "nat \<Rightarrow> regex \<Rightarrow> string \<times> captures \<Rightarrow> (string \<times> captures) list" where
  "ways n (Class P) (s, c) = (case s of [] \<Rightarrow> [] | x # xs \<Rightarrow> if P x then [(xs, c)] else [])"
| "ways n Empty (s, c) = [(s, c)]"
| "ways n (Sequence r r') (s, c) = concat (map (ways n r') (ways n r (s, c)))"
| "ways n (Either r r') (s, c) = ways n r (s, c) @ ways n r' (s, c)"
| "ways n (Repeat lo hi greedy r) (s, c) =
     iterate_match lo (case hi of None \<Rightarrow> lo + length s | Some h \<Rightarrow> h) greedy (ways n r) (s, c)"
| "ways n (Group i r) (s, c) =
     map (\<lambda>(s', c'). (s', (i, take (length s - length s') s) # c')) (ways n r (s, c))"
| "ways n (Not_ahead r) (s, c) = (if ways n r (s, c) = [] then [(s, c)] else [])"
| "ways n At_begin (s, c) = (if length s = n then [(s, c)] else [])"
| "ways n At_end (s, c) = (if s = [] then [(s, c)] else [])"

definition regex_match :: "regex \<Rightarrow> string \<Rightarrow> captures option" where
  "regex_match r s = map_option snd (find (\<lambda>(rest, c). rest = []) (ways (length s) r (s, [])))"

text \<open>The first match at any position: the text before it, the captures, and the text after it.\<close>

fun search_from :: "nat \<Rightarrow> regex \<Rightarrow> string \<Rightarrow> (captures \<times> string) option" where
  "search_from n r s =
     (case ways n r (s, []) of
        (rest, c) # _ \<Rightarrow> Some (c, rest)
      | [] \<Rightarrow> (case s of [] \<Rightarrow> None | x # xs \<Rightarrow> search_from n r xs))"

definition regex_search :: "regex \<Rightarrow> string \<Rightarrow> (captures \<times> string) option" where
  "regex_search r s = search_from (length s) r s"

definition captured :: "captures \<Rightarrow> nat \<Rightarrow> string" where
  "captured c i = (case map_of c i of Some s \<Rightarrow> s | None \<Rightarrow> [])"

declare search_from.simps [simp del]

section \<open>Repeated classes\<close>

text \<open>The positions after 0 up to \<open>n\<close> characters of the class.\<close>

lemma iterate_class_greedy:
  "iterate_match lo n True (ways b (Class P)) (s, c)
     = map (\<lambda>i. (drop i s, c)) (rev [lo..<Suc (min n (length (takeWhile P s)))])"
proof (induction n arbitrary: lo s)
  case 0
  then show ?case by simp
next
  case (Suc n)
  show ?case
  proof (cases "s \<noteq> [] \<and> P (hd s)")
    case False
    then have "takeWhile P s = []" "ways b (Class P) (s, c) = []" by (cases s; simp)+
    then show ?thesis by simp
  next
    case True
    then obtain x xs where s: "s = x # xs" "P x" by (cases s) auto
    let ?m = "min n (length (takeWhile P xs))"
    have up: "[lo..<Suc (Suc ?m)] = (if lo = 0 then [0] else []) @ map Suc [lo - 1..<Suc ?m]"
      by (cases lo) (simp_all add: map_Suc_upt upt_conv_Cons del: upt_Suc)
    have "iterate_match lo (Suc n) True (ways b (Class P)) (s, c)
        = map (\<lambda>i. (drop i xs, c)) (rev [lo - 1..<Suc ?m]) @ (if lo = 0 then [(s, c)] else [])"
      using s Suc.IH [of "lo - 1" xs] by simp
    also have "\<dots> = map (\<lambda>i. (drop i s, c)) (rev [lo..<Suc (Suc ?m)])"
      unfolding up using s by (simp add: rev_map comp_def del: upt_Suc)
    finally show ?thesis using s by (simp del: upt_Suc)
  qed
qed

lemma ways_plus_class:
  "ways b (plus (Class P)) (s, c) = map (\<lambda>i. (drop i s, c)) (rev [1..<Suc (length (takeWhile P s))])"
  using length_takeWhile_le [of P s] by (simp add: iterate_class_greedy min_def del: upt_Suc One_nat_def)

lemma ways_star_class:
  "ways b (star (Class P)) (s, c) = map (\<lambda>i. (drop i s, c)) (rev [0..<Suc (length (takeWhile P s))])"
  using length_takeWhile_le [of P s] by (simp add: iterate_class_greedy min_def del: upt_Suc)

text \<open>A literal text.\<close>

lemma ways_text: "ways b (text_regex w) (s, c) = (if take (length w) s = w then [(drop (length w) s, c)] else [])"
  by (induction w arbitrary: s) (auto split: list.splits)

lemma ways_text_append [simp]: "ways b (text_regex w) (w @ s, c) = [(s, c)]"
  by (simp add: ways_text)

end
