(* ===== verification/Cis_Job.thy ===== *)
theory Cis_Job
  imports Cis_Sessions Std_Regex
begin

text \<open>
  Running a job (\<^verbatim>\<open>src/cis/cis_job.cpp\<close>, \<^verbatim>\<open>cis_manager::run_job\<close>): the arguments and
  the environment of the program, the reader of its output (\<^verbatim>\<open>line_reader\<close> of
  \<^verbatim>\<open>include/child_process.h\<close>) and what is reported. The output arrives in pieces; lines are
  handled one at a time; the end of the process is delivered independently of its output.

  The lemmas: how the output is cut into pieces does not matter; what a job reports once its
  output has been read; what it reports when its end comes first.
\<close>

section \<open>The program\<close>

record webui_config =
  wc_public_address :: string
  wc_public_port :: "16 word"
  wc_internal_address :: string
  wc_internal_port :: "16 word"

text \<open>The variables set on top of the environment of the server.\<close>

definition job_environment :: "webui_config \<Rightarrow> string \<Rightarrow> string \<Rightarrow> (string \<times> string) list" where
  "job_environment webui cis_root email =
     [(''cis_base_dir'', cis_root),
      (''webui_public_address'', wc_public_address webui),
      (''webui_public_port'', decimal (unat (wc_public_port webui))),
      (''webui_internal_address'', wc_internal_address webui),
      (''webui_internal_port'', decimal (unat (wc_internal_port webui))),
      (''webui_username'', email)]"

definition job_args :: "string \<Rightarrow> string \<Rightarrow> bool \<Rightarrow> (string \<times> string) list \<Rightarrow> string list" where
  "job_args prj jb force params =
     path_cat prj (''/'' @ jb)
     # (if force then [''--force''] else [])
     @ (if params \<noteq> [] then [''--params''] else [])
     @ concat (map (\<lambda>(n, v). [n, v]) params)"

text \<open>What is written to the standard input of a program.\<close>

definition make_interactive_args_buffer :: "string list \<Rightarrow> string" where
  "make_interactive_args_buffer args = concat (map (\<lambda>a. a @ [CHR 0x0A]) args)"

section \<open>Lines of the output\<close>

definition status_line_regex :: regex where
  "status_line_regex =
     (let field = (\<lambda>i name. [text_regex name, Group i (plus (Class any_char))]); space = [Class is_space]
      in sequence (field 1 ''session_id='' @ space @ field 2 ''action='' @ space @ field 3 ''job_name='' @ space
           @ field 4 ''build_dir='' @ space @ field 5 ''pid='' @ space @ field 6 ''ppid=''))"

definition exit_code_regex :: regex where
  "exit_code_regex = sequence [text_regex ''Exit code: '', Group 1 (plus (Class is_digit))]"

record job_run =
  jr_buffer :: string
  jr_last :: string
  jr_line :: u32
  jr_session :: "string option"
  jr_build :: "string option"
  jr_finished :: bool

definition job_run_new :: job_run where
  "job_run_new = \<lparr>jr_buffer = [], jr_last = [], jr_line = 0, jr_session = None, jr_build = None,
     jr_finished = False\<rparr>"

definition on_line :: "string \<Rightarrow> job_run \<Rightarrow> job_event list \<times> job_run" where
  "on_line str st =
     (let evs = (if jr_line st = 0 then [Session_started str] else []);
          session = (if jr_line st = 0 then Some str else jr_session st);
          build = (if jr_line st = 1
                   then (case regex_match status_line_regex str of
                           Some c \<Rightarrow> Some (captured c 4) | None \<Rightarrow> jr_build st)
                   else jr_build st)
      in (evs, st\<lparr>jr_line := jr_line st + 1, jr_session := session, jr_build := build\<rparr>))"

text \<open>
  The completion of \<^verbatim>\<open>async_read_until\<close>: one line is taken from the buffer. It is not delivered while
  the buffer holds no end of line.
\<close>

definition next_line :: "job_run \<Rightarrow> (job_event list \<times> job_run) option" where
  "next_line st =
     (if CHR 0x0A \<notin> set (jr_buffer st) then None
      else (let line = takeWhile (\<lambda>c. c \<noteq> CHR 0x0A) (jr_buffer st);
                rest = tl (dropWhile (\<lambda>c. c \<noteq> CHR 0x0A) (jr_buffer st))
            in Some (on_line line (st\<lparr>jr_buffer := rest, jr_last := line\<rparr>))))"

section \<open>The end of the process\<close>

text \<open>The number is converted to \<^verbatim>\<open>int\<close>; \<^verbatim>\<open>stoul\<close> throws when it does not fit into 64 bits.\<close>

definition exit_code_of :: "string \<Rightarrow> int option option" where
  "exit_code_of line =
     (case regex_match exit_code_regex line of
        None \<Rightarrow> Some None
      | Some c \<Rightarrow> (case stoul (captured c 1) of
                     None \<Rightarrow> None
                   | Some v \<Rightarrow> Some (Some (sint (ucast v :: 32 word)))))"

definition exit_message_path :: "string \<Rightarrow> string \<Rightarrow> string" where
  "exit_message_path project_job build =
     path_div (path_div (path_div ''/'' project_job) build) ''exitmessage.txt''"

definition exit_message_of ::
    "int \<Rightarrow> string \<Rightarrow> string option \<Rightarrow> fs_cache \<Rightarrow> string option \<times> fs_cache" where
  "exit_message_of now project_job build fs =
     (case build of
        None \<Rightarrow> (None, fs)
      | Some b \<Rightarrow>
          (let (it, fs') = cache_find now (exit_message_path project_job b) fs
           in if \<not> it_eq it cache_end \<and> it_type fs' it = Ft_regular
              then (Some (case os_read (fsc_disk fs') (it_path fs' it) of Some c \<Rightarrow> c | None \<Rightarrow> []), fs')
              else (None, fs')))"

text \<open>\<open>None\<close>: the handler throws.\<close>

definition on_job_success ::
    "int \<Rightarrow> string \<Rightarrow> job_run \<Rightarrow> fs_cache \<Rightarrow> (job_event list \<times> job_run \<times> fs_cache) option" where
  "on_job_success now project_job st fs =
     (case exit_code_of (jr_last st) of
        None \<Rightarrow> None
      | Some code \<Rightarrow>
          (let session = (case jr_session st of None \<Rightarrow> [] | Some sid \<Rightarrow> [Session_finished sid]);
               (msg, fs') = exit_message_of now project_job (jr_build st) fs
           in Some (session @ [Job_finished \<lparr>xi_success = True,
                       xi_exit_code = Some (case code of Some c \<Rightarrow> c | None \<Rightarrow> -1),
                       xi_exit_message = msg, xi_session_id = jr_session st\<rparr>],
                    st\<lparr>jr_finished := True\<rparr>, fs')))"

definition on_job_error :: "job_run \<Rightarrow> job_event list \<times> job_run" where
  "on_job_error st =
     ((case jr_session st of None \<Rightarrow> [] | Some sid \<Rightarrow> [Session_finished sid])
        @ [Job_finished \<lparr>xi_success = False, xi_exit_code = Some (-1), xi_exit_message = None,
             xi_session_id = None\<rparr>],
      st\<lparr>jr_finished := True\<rparr>)"

section \<open>A run\<close>

datatype job_input =
    Output string
  | Line_ready
  | Process_exit int bool

fun job_step ::
    "int \<Rightarrow> string \<Rightarrow> job_input \<Rightarrow> job_run \<Rightarrow> fs_cache \<Rightarrow> (job_event list \<times> job_run \<times> fs_cache) option" where
  "job_step now pj (Output bytes) st fs = Some ([], st\<lparr>jr_buffer := jr_buffer st @ bytes\<rparr>, fs)"
| "job_step now pj Line_ready st fs = map_option (\<lambda>(evs, st'). (evs, st', fs)) (next_line st)"
| "job_step now pj (Process_exit code wait_error) st fs =
     (if jr_finished st then None
      else if wait_error then (let (evs, st') = on_job_error st in Some (evs, st', fs))
      else on_job_success now pj st fs)"

fun job_steps ::
    "int \<Rightarrow> string \<Rightarrow> job_input list \<Rightarrow> job_run \<Rightarrow> fs_cache \<Rightarrow> (job_event list \<times> job_run \<times> fs_cache) option" where
  "job_steps now pj [] st fs = Some ([], st, fs)"
| "job_steps now pj (i # is) st fs =
     (case job_step now pj i st fs of
        None \<Rightarrow> None
      | Some (evs, st', fs') \<Rightarrow>
          map_option (\<lambda>(evs', r). (evs @ evs', r)) (job_steps now pj is st' fs'))"

text \<open>
  What \<^verbatim>\<open>cis_manager::run_job\<close> does for each report on its way: the listing of the job is read
  again after the start and after the end.
\<close>

definition job_event_effect ::
    "(string \<Rightarrow> (string \<times> string) list) \<Rightarrow> int \<Rightarrow> string \<Rightarrow> string \<Rightarrow> job_event \<Rightarrow> cis_state \<Rightarrow> cis_state option" where
  "job_event_effect rp now prj jb e s =
     (case e of
        Session_started sid \<Rightarrow>
          Some (s\<lparr>cs_fs := find_and_invalidate now (path_div prj jb) (cs_fs s)\<rparr>)
      | Session_finished sid \<Rightarrow> Some s
      | Job_finished info \<Rightarrow>
          map_option (\<lambda>(j, s'). case j of
              None \<Rightarrow> s'
            | Some job \<Rightarrow> s'\<lparr>cs_fs := it_invalidate (job_it job) (cs_fs s')\<rparr>)
            (get_job_info rp now prj jb s))"

section \<open>The output in pieces\<close>

text \<open>The specification: a list of lines is handled one after the other.\<close>

fun on_lines :: "string list \<Rightarrow> job_run \<Rightarrow> job_event list \<times> job_run" where
  "on_lines [] st = ([], st)"
| "on_lines (l # ls) st =
     (let (evs, st1) = on_line l (st\<lparr>jr_last := l\<rparr>); (evs', st2) = on_lines ls st1 in (evs @ evs', st2))"

fun take_lines :: "nat \<Rightarrow> string \<Rightarrow> string list \<times> string" where
  "take_lines 0 text = ([], text)"
| "take_lines (Suc k) text =
     (let (ls, rest) = take_lines k (tl (dropWhile (\<lambda>c. c \<noteq> CHR 0x0A) text))
      in (takeWhile (\<lambda>c. c \<noteq> CHR 0x0A) text # ls, rest))"

fun outputs :: "job_input list \<Rightarrow> string" where
  "outputs [] = []"
| "outputs (Output b # is) = b @ outputs is"
| "outputs (_ # is) = outputs is"

fun lines_read :: "job_input list \<Rightarrow> nat" where
  "lines_read [] = 0"
| "lines_read (Line_ready # is) = Suc (lines_read is)"
| "lines_read (_ # is) = lines_read is"

fun no_exit :: "job_input list \<Rightarrow> bool" where
  "no_exit [] = True"
| "no_exit (Process_exit code e # is) = False"
| "no_exit (_ # is) = no_exit is"

lemma on_line_buffer:
  "on_line l (st\<lparr>jr_buffer := b, jr_last := m\<rparr>)
     = (let (evs, st') = on_line l (st\<lparr>jr_last := m\<rparr>) in (evs, st'\<lparr>jr_buffer := b\<rparr>))"
  by (cases st) (simp add: on_line_def Let_def split: option.splits)

lemma on_lines_buffer:
  "on_lines ls (st\<lparr>jr_buffer := b\<rparr>) = (let (evs, st') = on_lines ls st in (evs, st'\<lparr>jr_buffer := b\<rparr>))"
proof (induction ls arbitrary: st)
  case Nil
  then show ?case by simp
next
  case (Cons l ls)
  obtain evs st1 where l: "on_line l (st\<lparr>jr_last := l\<rparr>) = (evs, st1)" by fastforce
  then have "on_line l (st\<lparr>jr_buffer := b, jr_last := l\<rparr>) = (evs, st1\<lparr>jr_buffer := b\<rparr>)"
    using on_line_buffer [where l = l and m = l and st = st and b = b] by (simp add: Let_def)
  with l Cons.IH [of st1] show ?case by (simp add: Let_def case_prod_beta)
qed

text \<open>
  C6. However the output of a job is cut into pieces, and however the pieces and the handling of lines
  alternate: after \<open>k\<close> lines have been handled the reports and the state are those of handling the first \<open>k\<close>
  lines of the whole output one after the other, and the rest of the output is still in the buffer.
\<close>

theorem job_output_in_pieces:
  assumes "job_steps now pj is st fs = Some (evs, st', fs')" and "no_exit is"
  shows "fs' = fs
         \<and> (evs, st') = (let (ls, rest) = take_lines (lines_read is) (jr_buffer st @ outputs is);
                            (evs, st1) = on_lines ls st
                        in (evs, st1\<lparr>jr_buffer := rest\<rparr>))"
  using assms
proof (induction "is" arbitrary: st evs)
  case Nil
  then show ?case by simp
next
  case (Cons i "is")
  show ?case
  proof (cases i)
    case (Output b)
    with Cons.prems have r: "job_steps now pj is (st\<lparr>jr_buffer := jr_buffer st @ b\<rparr>) fs = Some (evs, st', fs')"
      and n: "no_exit is" by auto
    from Cons.IH [OF r n] Output show ?thesis
      by (simp add: on_lines_buffer Let_def case_prod_beta)
  next
    case Line_ready
    let ?l = "takeWhile (\<lambda>c. c \<noteq> CHR 0x0A) (jr_buffer st)"
    let ?rest = "tl (dropWhile (\<lambda>c. c \<noteq> CHR 0x0A) (jr_buffer st))"
    from Cons.prems Line_ready have nl: "CHR 0x0A \<in> set (jr_buffer st)"
      by (auto simp: next_line_def split: option.splits if_splits)
    obtain e1 st1 where l: "on_line ?l (st\<lparr>jr_last := ?l\<rparr>) = (e1, st1)" by fastforce
    have "on_line ?l (st\<lparr>jr_buffer := ?rest, jr_last := ?l\<rparr>) = (e1, st1\<lparr>jr_buffer := ?rest\<rparr>)"
      using l on_line_buffer [where l = ?l and m = ?l and st = st and b = ?rest] by (simp add: Let_def)
    with Cons.prems Line_ready nl obtain e2 where
      r: "job_steps now pj is (st1\<lparr>jr_buffer := ?rest\<rparr>) fs = Some (e2, st', fs')" and e: "evs = e1 @ e2"
      and n: "no_exit is"
      by (auto simp: next_line_def Let_def)
    have "takeWhile (\<lambda>c. c \<noteq> CHR 0x0A) (jr_buffer st @ outputs is) = ?l"
      using nl by (simp add: takeWhile_append1 [where x = "CHR 0x0A"])
    moreover have "tl (dropWhile (\<lambda>c. c \<noteq> CHR 0x0A) (jr_buffer st @ outputs is)) = ?rest @ outputs is"
      using nl by (subst dropWhile_append1 [where x = "CHR 0x0A"]) (auto simp: dropWhile_eq_Nil_conv tl_append split: list.splits)
    ultimately show ?thesis
      using Cons.IH [OF r n] Line_ready l e
      by (simp add: on_lines_buffer Let_def case_prod_beta)
  next
    case (Process_exit c w)
    with Cons.prems show ?thesis by simp
  qed
qed

theorem job_output_in_pieces_witness:
  "\<exists>evs st. job_steps 7 ''prj/job'' [Output ''2020-01'', Output ''-01'', Output [CHR 0x0A], Line_ready]
       job_run_new demo_cache = Some (evs, st, demo_cache) \<and> evs = [Session_started ''2020-01-01'']"
proof -
  let ?is = "[Output ''2020-01'', Output ''-01'', Output [CHR 0x0A], Line_ready]"
  have "job_steps 7 ''prj/job'' ?is job_run_new demo_cache \<noteq> None"
    by (simp add: job_run_new_def next_line_def on_line_def Let_def)
  then obtain evs st fs where r: "job_steps 7 ''prj/job'' ?is job_run_new demo_cache = Some (evs, st, fs)" by auto
  have "no_exit ?is" by simp
  from job_output_in_pieces [OF r this] r show ?thesis
    by (auto simp: job_run_new_def on_line_def Let_def numeral_nat)
qed

section \<open>What a job reports\<close>

lemma sint_small: "n < 2 ^ 31 \<Longrightarrow> sint (ucast (of_nat n :: u64) :: 32 word) = int n"
proof -
  assume n: "n < 2 ^ 31"
  then have "uint (ucast (of_nat n :: u64) :: 32 word) = int n"
    by (simp add: unsigned_ucast_eq unsigned_of_nat take_bit_nat_eq_self of_nat_take_bit flip: )
  with n show ?thesis by (simp add: sint_uint signed_take_bit_int_eq_self)
qed

lemma match_text_class:
  assumes "takeWhile P d = d" and "d \<noteq> []"
  shows "regex_match (sequence [text_regex w, Group 1 (plus (Class P))]) (w @ d) = Some [(1, d)]"
proof -
  have "ways b (sequence [text_regex w, Group 1 (plus (Class P))]) (w @ d, [])
      = map (\<lambda>i. (drop i d, [(1, take (length d - length (drop i d)) d)])) (rev [1..<Suc (length d)])" for b
    by (simp add: ways_plus_class assms(1) comp_def concat_map_singleton del: upt_Suc One_nat_def ways.simps(5))
  moreover obtain k where "length d = Suc k" using assms(2) by (cases d) auto
  ultimately show ?thesis unfolding regex_match_def by simp
qed

lemma exit_code_of_decimal: "n < 2 ^ 31 \<Longrightarrow> exit_code_of (''Exit code: '' @ decimal n) = Some (Some (int n))"
proof -
  assume n: "n < 2 ^ 31"
  have "takeWhile is_digit (decimal n) = decimal n" using decimal_digits by (simp add: takeWhile_eq_all_conv)
  then have "regex_match exit_code_regex (''Exit code: '' @ decimal n) = Some [(1, decimal n)]"
    unfolding exit_code_regex_def by (rule match_text_class) simp
  with n show ?thesis
    unfolding exit_code_of_def by (simp add: captured_def stoul_decimal sint_small)
qed

text \<open>After the first two lines only the last line counts, as long as the counter of lines does not wrap around.\<close>

lemma on_lines_later:
  assumes "2 \<le> k" "k + length ls \<le> 2 ^ 32" "jr_line st = of_nat k"
  shows "on_lines ls st = ([], st\<lparr>jr_line := of_nat (k + length ls), jr_last := (if ls = [] then jr_last st else last ls)\<rparr>)"
  using assms
proof (induction ls arbitrary: k st)
  case Nil
  then show ?case by simp
next
  case (Cons l ls)
  have "k < 2 ^ 32" using Cons.prems(2) by simp
  then have "unat (of_nat k :: u32) = k"
    by (simp add: unsigned_of_nat take_bit_nat_eq_self)
  then have ne: "(of_nat k :: u32) \<noteq> 0" "(of_nat k :: u32) \<noteq> 1"
    using Cons.prems(1) by auto
  then have "on_line l (st\<lparr>jr_last := l\<rparr>) = ([], st\<lparr>jr_last := l, jr_line := of_nat (Suc k)\<rparr>)"
    using Cons.prems(3) by (simp add: on_line_def Let_def)
  moreover have "on_lines ls (st\<lparr>jr_last := l, jr_line := of_nat (Suc k)\<rparr>)
      = ([], st\<lparr>jr_last := (if ls = [] then l else last ls), jr_line := of_nat (Suc k + length ls)\<rparr>)"
    using Cons.IH [of "Suc k" "st\<lparr>jr_last := l, jr_line := of_nat (Suc k)\<rparr>"] Cons.prems by simp
  ultimately show ?case by simp
qed

lemma job_steps_append:
  "job_steps now pj (is @ js) st fs =
     (case job_steps now pj is st fs of
        None \<Rightarrow> None
      | Some (evs, st', fs') \<Rightarrow> map_option (\<lambda>(evs', r). (evs @ evs', r)) (job_steps now pj js st' fs'))"
proof (induction "is" arbitrary: st fs)
  case Nil
  then show ?case by (cases "job_steps now pj js st fs") auto
next
  case (Cons i "is")
  show ?case
    by (cases "job_step now pj i st fs")
       (auto simp: Cons.IH option.map_comp comp_def case_prod_beta split: option.splits
          intro!: option.map_cong)
qed

definition text_of_lines :: "string list \<Rightarrow> string" where
  "text_of_lines ls = concat (map (\<lambda>l. l @ [CHR 0x0A]) ls)"

lemma take_lines_text:
  "\<forall>l \<in> set ls. CHR 0x0A \<notin> set l \<Longrightarrow> take_lines (length ls) (text_of_lines ls) = (ls, [])"
proof (induction ls)
  case Nil
  then show ?case by (simp add: text_of_lines_def)
next
  case (Cons l ls)
  then have "CHR 0x0A \<notin> set l" by simp
  from span_word [OF this, of "text_of_lines ls"] Cons show ?case
    by (simp add: text_of_lines_def)
qed

text \<open>
  C7. When the output has been read to its end before the process is reaped, a job reports the start of the
  session named by the first line, its end, and the exit code that the last line announces, with the message
  found in the directory of the build that the second line names: the exit code of the process plays no part.
\<close>

theorem job_reports:
  assumes "job_steps now pj is job_run_new fs = Some (evs, st, fs')" and "no_exit is"
    and "outputs is = text_of_lines (sid # status # mids @ [''Exit code: '' @ decimal n])"
    and "lines_read is = length mids + 3"
    and "\<forall>l \<in> set (sid # status # mids). CHR 0x0A \<notin> set l"
    and "n < 2 ^ 31" and "length mids + 3 \<le> 2 ^ 32"
    and "m = exit_message_of now pj (map_option (\<lambda>c. captured c 4) (regex_match status_line_regex status)) fs"
  shows "\<exists>st2. job_steps now pj (is @ [Process_exit code False]) job_run_new fs
           = Some ([Session_started sid, Session_finished sid,
                    Job_finished \<lparr>xi_success = True, xi_exit_code = Some (int n),
                      xi_exit_message = fst m, xi_session_id = Some sid\<rparr>], st2, snd m)"
proof -
  let ?last = "''Exit code: '' @ decimal n"
  let ?ls = "sid # status # mids @ [?last]"
  have digits: "CHR 0x0A \<notin> set (decimal n)"
    using bspec [OF decimal_digits, of "CHR 0x0A" n] by (auto simp: is_digit_def)
  then have "\<forall>l \<in> set ?ls. CHR 0x0A \<notin> set l" using assms(5) by auto
  from take_lines_text [OF this] have t: "take_lines (lines_read is) (outputs is) = (?ls, [])"
    by (simp add: assms(3,4) eval_nat_numeral del: take_lines.simps append.simps)
  have f: "fs' = fs" and r: "(evs, st) = (let (evs, st1) = on_lines ?ls job_run_new in (evs, st1\<lparr>jr_buffer := []\<rparr>))"
    using job_output_in_pieces [OF assms(1,2)] t by (simp_all add: job_run_new_def)
  define build where "build = map_option (\<lambda>c. captured c 4) (regex_match status_line_regex status)"
  let ?st2 = "\<lparr>jr_buffer = [], jr_last = status, jr_line = 2, jr_session = Some sid, jr_build = build, jr_finished = False\<rparr>"
  have "on_lines ?ls job_run_new
      = (let (e, st1) = on_lines (mids @ [?last]) ?st2 in (Session_started sid # e, st1))"
    by (cases "regex_match status_line_regex status")
       (simp_all add: on_line_def job_run_new_def build_def Let_def case_prod_beta)
  also have "\<dots> = ([Session_started sid], ?st2\<lparr>jr_line := of_nat (2 + length (mids @ [?last])), jr_last := ?last\<rparr>)"
    using on_lines_later [of 2 "mids @ [?last]" ?st2] assms(7) by simp
  finally have "evs = [Session_started sid]" "jr_last st = ?last" "jr_session st = Some sid" "jr_build st = build"
      "\<not> jr_finished st"
    using r by simp_all
  with assms(1,6,8) f show ?thesis
    by (simp add: job_steps_append on_job_success_def exit_code_of_decimal case_prod_beta Let_def build_def
        del: append.simps(2))
qed

theorem job_reports_witness:
  "\<exists>st fs. job_steps 7 ''prj/job''
      ([Output (text_of_lines [''2020-01-01'', ''no status'', ''Exit code: 3'']), Line_ready, Line_ready, Line_ready]
        @ [Process_exit 0 False]) job_run_new demo_cache
     = Some ([Session_started ''2020-01-01'', Session_finished ''2020-01-01'',
              Job_finished \<lparr>xi_success = True, xi_exit_code = Some 3,
                xi_exit_message = None, xi_session_id = Some ''2020-01-01''\<rparr>], st, fs)"
proof -
  let ?is = "[Output (text_of_lines [''2020-01-01'', ''no status'', ''Exit code: 3'']), Line_ready, Line_ready, Line_ready]"
  have "job_steps 7 ''prj/job'' ?is job_run_new demo_cache \<noteq> None"
    by (simp add: job_run_new_def text_of_lines_def next_line_def on_line_def Let_def)
  then obtain evs st fs where r: "job_steps 7 ''prj/job'' ?is job_run_new demo_cache = Some (evs, st, fs)" by auto
  have d: "decimal 3 = ''3''" by code_simp
  have o: "outputs ?is = text_of_lines (''2020-01-01'' # ''no status'' # [] @ [''Exit code: '' @ decimal 3])"
    by (simp add: d)
  have s: "regex_match status_line_regex ''no status'' = None" by code_simp
  let ?m = "exit_message_of 7 ''prj/job''
      (map_option (\<lambda>c. captured c 4) (regex_match status_line_regex ''no status'')) demo_cache"
  have m: "fst ?m = None" by (simp add: s exit_message_of_def)
  have "no_exit ?is" "lines_read ?is = length ([] :: string list) + 3"
    "\<forall>l \<in> set (''2020-01-01'' # ''no status'' # []). CHR 0x0A \<notin> set l" by simp_all
  from job_reports [OF r this(1) o this(2,3) _ _ refl [of ?m], of 0] obtain st2 where
    "job_steps 7 ''prj/job'' (?is @ [Process_exit 0 False]) job_run_new demo_cache
       = Some ([Session_started ''2020-01-01'', Session_finished ''2020-01-01'',
                Job_finished \<lparr>xi_success = True, xi_exit_code = Some (int 3),
                  xi_exit_message = fst ?m, xi_session_id = Some ''2020-01-01''\<rparr>], st2, snd ?m)"
    by (simp del: job_steps.simps append.simps) blast
  then show ?thesis unfolding m of_nat_numeral by blast
qed

text \<open>
  When the process is reaped before its output has been read, a job that succeeded is reported
  with the exit code -1, no session and no message.
\<close>

theorem job_exit_before_output:
  "job_steps now pj [Output out, Process_exit 0 False] job_run_new fs
     = Some ([Job_finished \<lparr>xi_success = True, xi_exit_code = Some (-1), xi_exit_message = None,
               xi_session_id = None\<rparr>], job_run_new\<lparr>jr_buffer := out, jr_finished := True\<rparr>, fs)"
proof -
  have "exit_code_of [] = Some None" by code_simp
  then show ?thesis by (simp add: job_run_new_def on_job_success_def exit_message_of_def)
qed

end
