(* ===== verification/Ws_Session.thy ===== *)
theory Ws_Session
  imports Cis_Prelude
begin

text \<open>
  One web socket connection: the queue of outgoing messages (\<^verbatim>\<open>src/net/websocket_queue.cpp\<close>),
  the loop that reads requests (\<^verbatim>\<open>src/net/queued_websocket_session.cpp\<close>) and the timer that pings
  and closes silent connections (\<^verbatim>\<open>src/net/basic_websocket_session.cpp\<close>). The asynchronous operations
  of the socket are counted: one that is started is outstanding until its completion is delivered, which
  is a step of its own. All steps of a connection run on one strand, one after the other.

  The lemmas: messages are written one at a time, in the order in which they were queued, and
  none is lost; the connection goes on reading unless the queue is full; a burst of messages makes it
  read twice at once; a silent peer is disconnected; the ids of close handlers collide.
\<close>

section \<open>State\<close>

record ws_message =
  wm_text :: bool
  wm_buffer :: string

text \<open>
  \<open>ws_reads\<close>, \<open>ws_writes\<close> and \<open>ws_pings\<close> count the operations that were started and have not completed;
  \<open>ws_waiting\<close>: the timer is being waited for. \<open>ws_written\<close> is what was written completely, a
  record for the statements.
\<close>

record ws_conn =
  ws_open :: bool
  ws_socket_open :: bool
  ws_ping_state :: nat
  ws_expiry :: int
  ws_waiting :: bool
  ws_pings :: nat
  ws_reads :: nat
  ws_writes :: nat
  ws_messages :: "ws_message list"
  ws_written :: "ws_message list"

definition ws_limit :: nat where "ws_limit = 64"

section \<open>The queue\<close>

definition ws_start_write :: "ws_conn \<Rightarrow> ws_conn" where
  "ws_start_write s = s\<lparr>ws_writes := Suc (ws_writes s)\<rparr>"

definition ws_enqueue :: "ws_message \<Rightarrow> ws_conn \<Rightarrow> ws_conn" where
  "ws_enqueue m s =
     (let s' = s\<lparr>ws_messages := ws_messages s @ [m]\<rparr>
      in if length (ws_messages s') = 1 then ws_start_write s' else s')"

definition send_text :: "string \<Rightarrow> ws_conn \<Rightarrow> ws_conn" where
  "send_text buffer = ws_enqueue \<lparr>wm_text = True, wm_buffer = buffer\<rparr>"

definition send_binary :: "string \<Rightarrow> ws_conn \<Rightarrow> ws_conn" where
  "send_binary buffer = ws_enqueue \<lparr>wm_text = False, wm_buffer = buffer\<rparr>"

definition ws_is_full :: "ws_conn \<Rightarrow> bool" where
  "ws_is_full s \<longleftrightarrow> length (ws_messages s) \<ge> ws_limit"

text \<open>The first message was written; the result says whether the queue was full before.\<close>

definition ws_queue_on_write :: "ws_conn \<Rightarrow> bool \<times> ws_conn" where
  "ws_queue_on_write s =
     (let was_full = ws_is_full s;
          s' = s\<lparr>ws_messages := tl (ws_messages s), ws_written := ws_written s @ [hd (ws_messages s)]\<rparr>
      in (was_full, if ws_messages s' \<noteq> [] then ws_start_write s' else s'))"

section \<open>Reading and writing\<close>

definition ws_activity :: "int \<Rightarrow> ws_conn \<Rightarrow> ws_conn" where
  "ws_activity now s = s\<lparr>ws_ping_state := 0, ws_expiry := now + 15\<rparr>"

definition ws_do_read :: "ws_conn \<Rightarrow> ws_conn" where
  "ws_do_read s = s\<lparr>ws_reads := Suc (ws_reads s)\<rparr>"

text \<open>How an operation of the socket ends.\<close>

datatype completion = Done | Aborted | Closed | Failed

text \<open>
  \<open>replies\<close>: what the dispatched handler puts into the queue. A read that fails is logged and handled as if it
  had succeeded.
\<close>

definition ws_on_read :: "int \<Rightarrow> completion \<Rightarrow> ws_message list \<Rightarrow> ws_conn \<Rightarrow> ws_conn" where
  "ws_on_read now ec replies s =
     (case ec of
        Aborted \<Rightarrow> s
      | Closed \<Rightarrow> s\<lparr>ws_expiry := now\<rparr>
      | _ \<Rightarrow> (let s' = foldl (\<lambda>s m. ws_enqueue m s) (ws_activity now s) replies
              in if ws_is_full s' then s' else ws_do_read s'))"

definition ws_on_write :: "completion \<Rightarrow> ws_conn \<Rightarrow> ws_conn" where
  "ws_on_write ec s =
     (case ec of
        Done \<Rightarrow> (let (was_full, s') = ws_queue_on_write s in if was_full then ws_do_read s' else s')
      | _ \<Rightarrow> s)"

section \<open>The timer\<close>

definition ws_on_timer :: "completion \<Rightarrow> int \<Rightarrow> ws_conn \<Rightarrow> ws_conn" where
  "ws_on_timer ec now s =
     (if ec \<noteq> Done \<and> ec \<noteq> Aborted then s\<lparr>ws_waiting := False\<rparr>
      else if ws_expiry s \<le> now
      then (if ws_open s \<and> ws_ping_state s = 0
            then s\<lparr>ws_ping_state := 1, ws_expiry := now + 15, ws_pings := Suc (ws_pings s), ws_waiting := True\<rparr>
            else s\<lparr>ws_socket_open := False, ws_waiting := False\<rparr>)
      else s\<lparr>ws_waiting := True\<rparr>)"

definition ws_on_ping :: "completion \<Rightarrow> ws_conn \<Rightarrow> ws_conn" where
  "ws_on_ping ec s = (if ec = Done \<and> ws_ping_state s = 1 then s\<lparr>ws_ping_state := 2\<rparr> else s)"

definition ws_on_control :: "int \<Rightarrow> ws_conn \<Rightarrow> ws_conn" where
  "ws_on_control = ws_activity"

section \<open>A connection\<close>

text \<open>
  \<open>do_accept\<close> waits for a timer that never expires and then moves its deadline; \<open>on_accept\<close> starts the
  first read.
\<close>

definition ws_accepting :: "int \<Rightarrow> ws_conn" where
  "ws_accepting now = \<lparr>ws_open = False, ws_socket_open = True, ws_ping_state = 0, ws_expiry = now + 15,
     ws_waiting = True, ws_pings = 0, ws_reads = 0, ws_writes = 0, ws_messages = [], ws_written = []\<rparr>"

definition ws_on_accept :: "completion \<Rightarrow> ws_conn \<Rightarrow> ws_conn" where
  "ws_on_accept ec s = (if ec = Done then ws_do_read (s\<lparr>ws_open := True\<rparr>) else s)"

datatype ws_event =
    Ev_read completion "ws_message list"
  | Ev_write completion
  | Ev_send ws_message
  | Ev_timer completion
  | Ev_ping completion
  | Ev_control

text \<open>The delivery of an event; a completion ends one of the operations that are outstanding.\<close>

fun ws_deliver :: "int \<Rightarrow> ws_event \<Rightarrow> ws_conn \<Rightarrow> ws_conn option" where
  "ws_deliver now (Ev_read ec replies) s =
     (if ws_reads s = 0 then None else Some (ws_on_read now ec replies (s\<lparr>ws_reads := ws_reads s - 1\<rparr>)))"
| "ws_deliver now (Ev_write ec) s =
     (if ws_writes s = 0 then None else Some (ws_on_write ec (s\<lparr>ws_writes := ws_writes s - 1\<rparr>)))"
| "ws_deliver now (Ev_send m) s = Some (ws_enqueue m s)"
| "ws_deliver now (Ev_timer ec) s = (if ws_waiting s then Some (ws_on_timer ec now s) else None)"
| "ws_deliver now (Ev_ping ec) s =
     (if ws_pings s = 0 then None else Some (ws_on_ping ec (s\<lparr>ws_pings := ws_pings s - 1\<rparr>)))"
| "ws_deliver now Ev_control s = Some (ws_on_control now s)"

text \<open>A history: what happened, and when.\<close>

fun ws_run :: "(int \<times> ws_event) list \<Rightarrow> ws_conn \<Rightarrow> ws_conn option" where
  "ws_run [] s = Some s"
| "ws_run ((now, e) # es) s = (case ws_deliver now e s of None \<Rightarrow> None | Some s' \<Rightarrow> ws_run es s')"

lemma ws_run_append:
  "ws_run (es @ es') s = (case ws_run es s of None \<Rightarrow> None | Some s' \<Rightarrow> ws_run es' s')"
  by (induction es s rule: ws_run.induct) (simp_all split: option.splits)

definition ws_started :: "int \<Rightarrow> ws_conn" where
  "ws_started now = ws_on_accept Done (ws_accepting now)"

section \<open>Writing in order\<close>

text \<open>The messages that a history puts into the queue.\<close>

fun ws_queued :: "(int \<times> ws_event) list \<Rightarrow> ws_message list" where
  "ws_queued [] = []"
| "ws_queued ((now, Ev_read ec replies) # es) = (if ec = Done \<or> ec = Failed then replies else []) @ ws_queued es"
| "ws_queued ((now, Ev_send m) # es) = m # ws_queued es"
| "ws_queued (e # es) = ws_queued es"

text \<open>No write failed, so that each completed write takes the message that was being written.\<close>

definition writes_succeed :: "(int \<times> ws_event) list \<Rightarrow> bool" where
  "writes_succeed es \<longleftrightarrow> (\<forall>e \<in> snd ` set es. \<forall>ec. e = Ev_write ec \<longrightarrow> ec = Done)"

definition write_inv :: "ws_conn \<Rightarrow> bool" where
  "write_inv s \<longleftrightarrow> ws_writes s = (if ws_messages s = [] then 0 else 1)"

lemmas ws_defs =
  ws_enqueue_def ws_start_write_def ws_queue_on_write_def ws_activity_def ws_do_read_def
  ws_on_read_def ws_on_write_def ws_on_timer_def ws_on_ping_def ws_on_control_def

lemma ws_enqueue_facts [simp]:
  "ws_messages (ws_enqueue m s) = ws_messages s @ [m]"
  "ws_written (ws_enqueue m s) = ws_written s"
  "ws_reads (ws_enqueue m s) = ws_reads s"
  "write_inv s \<Longrightarrow> write_inv (ws_enqueue m s)"
  by (auto simp: ws_enqueue_def ws_start_write_def write_inv_def Let_def)

lemma foldl_enqueue [simp]:
  "ws_messages (foldl (\<lambda>s m. ws_enqueue m s) s ms) = ws_messages s @ ms"
  "ws_written (foldl (\<lambda>s m. ws_enqueue m s) s ms) = ws_written s"
  "ws_reads (foldl (\<lambda>s m. ws_enqueue m s) s ms) = ws_reads s"
  "write_inv s \<Longrightarrow> write_inv (foldl (\<lambda>s m. ws_enqueue m s) s ms)"
  by (induction ms arbitrary: s) simp_all

lemma write_inv_other [simp]:
  "write_inv (s\<lparr>ws_reads := n\<rparr>) = write_inv s" "write_inv (ws_activity now s) = write_inv s"
  "write_inv (s\<lparr>ws_expiry := t\<rparr>) = write_inv s" "write_inv (ws_do_read s) = write_inv s"
  by (simp_all add: write_inv_def ws_activity_def ws_do_read_def)

lemma ws_activity_facts [simp]:
  "ws_messages (ws_activity now s) = ws_messages s" "ws_written (ws_activity now s) = ws_written s"
  "ws_reads (ws_activity now s) = ws_reads s" "ws_writes (ws_activity now s) = ws_writes s"
  by (simp_all add: ws_activity_def)

lemma ws_do_read_facts [simp]:
  "ws_messages (ws_do_read s) = ws_messages s" "ws_written (ws_do_read s) = ws_written s"
  "ws_writes (ws_do_read s) = ws_writes s" "ws_reads (ws_do_read s) = Suc (ws_reads s)"
  by (simp_all add: ws_do_read_def)

lemma ws_deliver_order:
  assumes "ws_deliver now e s = Some s'" and "writes_succeed [(now, e)]" and "write_inv s"
  shows "write_inv s'" and "ws_written s' @ ws_messages s' = ws_written s @ ws_messages s @ ws_queued [(now, e)]"
proof -
  have "write_inv s' \<and> ws_written s' @ ws_messages s' = ws_written s @ ws_messages s @ ws_queued [(now, e)]"
  proof (cases e)
    case (Ev_read ec replies)
    with assms show ?thesis
      by (cases ec) (auto simp: ws_on_read_def Let_def split: if_splits)
  next
    case (Ev_write ec)
    with assms obtain m ms where m: "ws_messages s = m # ms" "ws_writes s = 1" "ec = Done"
      by (auto simp: write_inv_def writes_succeed_def split: if_splits list.splits)
         (metis neq_Nil_conv)
    with Ev_write assms(1) show ?thesis
      by (auto simp: ws_on_write_def ws_queue_on_write_def ws_start_write_def Let_def write_inv_def
          ws_do_read_def split: if_splits)
  qed (use assms in \<open>auto simp: ws_defs write_inv_def split: if_splits\<close>)
  then show "write_inv s'"
    and "ws_written s' @ ws_messages s' = ws_written s @ ws_messages s @ ws_queued [(now, e)]" by auto
qed

lemma writes_succeed_Cons: "writes_succeed (e # es) \<longleftrightarrow> writes_succeed [e] \<and> writes_succeed es"
  by (auto simp: writes_succeed_def)

lemma ws_queued_Cons: "ws_queued (e # es) = ws_queued [e] @ ws_queued es"
  by (cases e; cases "snd e") auto

text \<open>
  C5. As long as no write fails, a connection has at most one write outstanding, exactly when there
  are messages left, and what was written so far followed by what is left is what was queued, in
  the order in which it was queued: replies and notifications are neither lost, nor repeated, nor
  reordered, whatever is read, pinged or sent in between.
\<close>

theorem ws_messages_in_order:
  assumes "ws_run es (ws_started now) = Some s" and "writes_succeed es"
  shows "ws_written s @ ws_messages s = ws_queued es \<and> ws_writes s = (if ws_messages s = [] then 0 else 1)"
proof -
  have "ws_written s @ ws_messages s = ws_written s0 @ ws_messages s0 @ ws_queued es \<and> write_inv s"
    if "ws_run es s0 = Some s" "writes_succeed es" "write_inv s0" for s0
    using that
  proof (induction es s0 rule: ws_run.induct)
    case (1 s0)
    then show ?case by simp
  next
    case (2 now e es s0)
    then obtain s1 where s1: "ws_deliver now e s0 = Some s1" "ws_run es s1 = Some s"
      by (auto split: option.splits)
    have w: "writes_succeed [(now, e)]" "writes_succeed es"
      using 2(3) writes_succeed_Cons by blast+
    note step = ws_deliver_order [OF s1(1) w(1) 2(4)]
    from 2(1) [OF s1 w(2) step(1)] step(2) show ?case
      by (simp add: ws_queued_Cons [of _ es])
  qed
  moreover have "write_inv (ws_started now)" "ws_written (ws_started now) = []" "ws_messages (ws_started now) = []"
    by (simp_all add: ws_started_def ws_on_accept_def ws_accepting_def ws_do_read_def write_inv_def)
  ultimately show ?thesis using assms by (auto simp: write_inv_def)
qed

theorem ws_messages_in_order_witness:
  "\<exists>s. ws_run [(1, Ev_read Done [\<lparr>wm_text = True, wm_buffer = ''a''\<rparr>, \<lparr>wm_text = True, wm_buffer = ''b''\<rparr>]),
              (2, Ev_write Done), (3, Ev_send \<lparr>wm_text = True, wm_buffer = ''c''\<rparr>)] (ws_started 0) = Some s
     \<and> ws_written s @ ws_messages s
        = [\<lparr>wm_text = True, wm_buffer = ''a''\<rparr>, \<lparr>wm_text = True, wm_buffer = ''b''\<rparr>, \<lparr>wm_text = True, wm_buffer = ''c''\<rparr>]"
proof -
  let ?es = "[(1, Ev_read Done [\<lparr>wm_text = True, wm_buffer = ''a''\<rparr>, \<lparr>wm_text = True, wm_buffer = ''b''\<rparr>]),
              (2, Ev_write Done), (3, Ev_send \<lparr>wm_text = True, wm_buffer = ''c''\<rparr>)]"
  have "ws_run ?es (ws_started 0) \<noteq> None" by code_simp
  then obtain s where s: "ws_run ?es (ws_started 0) = Some s" by blast
  have "writes_succeed ?es" by (simp add: writes_succeed_def)
  from ws_messages_in_order [OF s this] s show ?thesis by auto
qed

section \<open>Reading\<close>

text \<open>A history in which no read ends the connection.\<close>

definition reads_go_on :: "(int \<times> ws_event) list \<Rightarrow> bool" where
  "reads_go_on es \<longleftrightarrow> (\<forall>e \<in> snd ` set es. \<forall>ec r. e = Ev_read ec r \<longrightarrow> ec = Done \<or> ec = Failed)"

lemma reads_go_on_Cons: "reads_go_on (e # es) \<longleftrightarrow> reads_go_on [e] \<and> reads_go_on es"
  by (auto simp: reads_go_on_def)

lemma ws_deliver_reading:
  assumes "ws_deliver now e s = Some s'" and "writes_succeed [(now, e)]" and "reads_go_on [(now, e)]"
    and "ws_reads s \<ge> 1 \<or> ws_is_full s"
  shows "ws_reads s' \<ge> 1 \<or> ws_is_full s'"
proof (cases e)
  case (Ev_read ec r)
  with assms(3) have "ec = Done \<or> ec = Failed" by (auto simp: reads_go_on_def)
  with Ev_read assms(1) show ?thesis
    by (auto simp: ws_on_read_def Let_def split: if_splits)
next
  case (Ev_write ec)
  with assms(2) have "ec = Done" by (auto simp: writes_succeed_def)
  with Ev_write assms(1,4) show ?thesis
    by (auto simp: ws_on_write_def ws_queue_on_write_def Let_def ws_is_full_def ws_start_write_def split: if_splits)
qed (use assms in \<open>auto simp: ws_defs ws_is_full_def Let_def split: if_splits\<close>)

text \<open>
  C8. A connection never stalls: as long as no write fails and no read reports its end, it is
  reading the next request, or its queue is full and a message is being written whose completion
  starts the next read.
\<close>

theorem ws_never_stalls:
  assumes "ws_run es (ws_started now) = Some s" and "writes_succeed es" and "reads_go_on es"
  shows "ws_reads s \<ge> 1 \<or> (ws_is_full s \<and> ws_writes s = 1
           \<and> (\<exists>s'. ws_deliver t (Ev_write Done) s = Some s' \<and> ws_reads s' \<ge> 1))"
proof -
  have "(ws_reads s \<ge> 1 \<or> ws_is_full s) \<and> write_inv s"
    if "ws_run es s0 = Some s" "writes_succeed es" "reads_go_on es" "ws_reads s0 \<ge> 1 \<or> ws_is_full s0" "write_inv s0" for s0
    using that
  proof (induction es s0 rule: ws_run.induct)
    case (1 s0)
    then show ?case by simp
  next
    case (2 now e es s0)
    then obtain s1 where s1: "ws_deliver now e s0 = Some s1" "ws_run es s1 = Some s"
      by (auto split: option.splits)
    have w: "writes_succeed [(now, e)]" "writes_succeed es" "reads_go_on [(now, e)]" "reads_go_on es"
      using 2(3,4) writes_succeed_Cons reads_go_on_Cons by blast+
    from 2(1) [OF s1 w(2,4) ws_deliver_reading [OF s1(1) w(1,3) 2(5)] ws_deliver_order(1) [OF s1(1) w(1) 2(6)]]
    show ?case .
  qed
  from this [OF assms] have r: "ws_reads s \<ge> 1 \<or> ws_is_full s" and w: "write_inv s"
    by (simp_all add: ws_started_def ws_on_accept_def ws_accepting_def ws_do_read_def write_inv_def)
  show ?thesis
  proof (cases "ws_reads s \<ge> 1")
    case False
    with r have full: "ws_is_full s" by simp
    with w have "ws_writes s = 1" by (auto simp: write_inv_def ws_is_full_def ws_limit_def)
    with full show ?thesis
      by (simp add: ws_on_write_def ws_queue_on_write_def Let_def ws_is_full_def)
  qed simp
qed

theorem ws_never_stalls_witness:
  "\<exists>s. ws_run [(1, Ev_read Done []), (2, Ev_control)] (ws_started 0) = Some s \<and> ws_reads s \<ge> 1"
proof -
  let ?es = "[(1, Ev_read Done []), (2, Ev_control)]"
  have "ws_run ?es (ws_started 0) \<noteq> None" by code_simp
  then obtain s where s: "ws_run ?es (ws_started 0) = Some s" by blast
  have h: "writes_succeed ?es" "reads_go_on ?es" by (simp_all add: writes_succeed_def reads_go_on_def)
  from s have "\<not> ws_is_full s"
    by (auto simp: ws_started_def ws_on_accept_def ws_accepting_def ws_is_full_def ws_limit_def
        ws_on_read_def ws_on_control_def ws_do_read_def split: if_splits)
  with ws_never_stalls [OF s h] s show ?thesis by blast
qed

text \<open>
  The queue can be filled while a request is being read: notifications of a session are sent at any
  time. Each write that completes while the queue is at its limit then starts another read, although
  one is outstanding already, which the socket does not allow. Below the limit exactly one read is outstanding.
\<close>

lemma ws_sends: "ws_run (map (\<lambda>m. (t, Ev_send m)) ms) s = Some (foldl (\<lambda>s m. ws_enqueue m s) s ms)"
  by (induction ms arbitrary: s) simp_all

lemma write_inv_started [simp]: "write_inv (ws_started now)" "ws_reads (ws_started now) = 1"
    "ws_messages (ws_started now) = []"
  by (simp_all add: ws_started_def ws_on_accept_def ws_accepting_def ws_do_read_def write_inv_def)

theorem ws_burst_reads_twice:
  assumes "length ms = ws_limit"
  shows "\<exists>s. ws_run (map (\<lambda>m. (t, Ev_send m)) ms @ [(t, Ev_write Done)]) (ws_started now) = Some s
           \<and> ws_reads s = 2"
proof -
  let ?s = "foldl (\<lambda>s m. ws_enqueue m s) (ws_started now) ms"
  have "write_inv ?s" and m: "ws_messages ?s = ms" and r: "ws_reads ?s = 1" by simp_all
  moreover from this have "ws_writes ?s = 1" using assms by (auto simp: write_inv_def ws_limit_def)
  ultimately show ?thesis using assms
    by (simp add: ws_run_append ws_sends ws_on_write_def ws_queue_on_write_def Let_def ws_is_full_def
        ws_start_write_def)
qed

theorem ws_burst_reads_twice_witness:
  "\<exists>s. ws_run (map (\<lambda>m. (5, Ev_send m)) (replicate 64 \<lparr>wm_text = True, wm_buffer = ''log''\<rparr>)
        @ [(5, Ev_write Done)]) (ws_started 0) = Some s \<and> ws_reads s = 2"
  by (rule ws_burst_reads_twice) (simp add: ws_limit_def)

section \<open>Silent peers\<close>

text \<open>Events that do not show that the peer is there.\<close>

definition silent :: "(int \<times> ws_event) list \<Rightarrow> bool" where
  "silent es \<longleftrightarrow> (\<forall>e \<in> snd ` set es. case e of Ev_send m \<Rightarrow> True | Ev_write ec \<Rightarrow> True | Ev_ping ec \<Rightarrow> True | _ \<Rightarrow> False)"

lemma ws_enqueue_timer [simp]:
  "ws_ping_state (ws_enqueue m s) = ws_ping_state s" "ws_expiry (ws_enqueue m s) = ws_expiry s"
  "ws_waiting (ws_enqueue m s) = ws_waiting s"
  by (simp_all add: ws_enqueue_def ws_start_write_def Let_def)

lemma silent_run:
  "ws_run es s = Some s' \<Longrightarrow> silent es \<Longrightarrow>
     ws_waiting s' = ws_waiting s \<and> ws_expiry s' = ws_expiry s \<and> (ws_ping_state s \<noteq> 0 \<longrightarrow> ws_ping_state s' \<noteq> 0)"
proof (induction es s rule: ws_run.induct)
  case (1 s)
  then show ?case by simp
next
  case (2 now e es s)
  then obtain s1 where s1: "ws_deliver now e s = Some s1" "ws_run es s1 = Some s'"
    by (auto split: option.splits)
  have "ws_waiting s1 = ws_waiting s \<and> ws_expiry s1 = ws_expiry s \<and> (ws_ping_state s \<noteq> 0 \<longrightarrow> ws_ping_state s1 \<noteq> 0)"
    using s1(1) 2(3)
    by (cases e) (auto simp: silent_def ws_on_write_def ws_queue_on_write_def ws_start_write_def ws_do_read_def
        ws_on_ping_def Let_def split: if_splits completion.splits)
  moreover have "silent es" using 2(3) by (simp add: silent_def)
  ultimately show ?case using 2(1) [OF s1] by simp
qed

text \<open>
  C9. A peer that shows no sign of life is disconnected: after the deadline has passed once a ping is sent,
  and when fifteen more seconds pass without a frame from the peer, whatever is sent to it meanwhile,
  the socket is closed. A frame in between keeps the connection open for another round.
\<close>

theorem ws_silent_peer_closed:
  assumes "ws_expiry s \<le> t1" and "t1 + 15 \<le> t2" and "silent es"
    and "ws_run ((t1, Ev_timer Done) # es @ [(t2, Ev_timer Done)]) s = Some s'"
  shows "\<not> ws_socket_open s'
         \<and> (ws_open s \<and> ws_ping_state s = 0 \<and> ws_socket_open s \<longrightarrow>
              (\<exists>s''. ws_run [(t1, Ev_timer Done), (t2, Ev_control), (t2, Ev_timer Done)] s = Some s''
                  \<and> ws_socket_open s'' \<and> ws_waiting s''))"
proof -
  obtain s1 s2 where s1: "ws_on_timer Done t1 s = s1" "ws_run es s1 = Some s2"
    "ws_deliver t2 (Ev_timer Done) s2 = Some s'" and w: "ws_waiting s"
    using assms(4) by (auto simp: ws_run_append split: option.splits if_splits)
  note kept = silent_run [OF s1(2) assms(3)]
  have ping: "ws_open s \<and> ws_ping_state s = 0"
  proof (rule ccontr)
    assume "\<not> (ws_open s \<and> ws_ping_state s = 0)"
    with s1(1) assms(1) have "\<not> ws_waiting s1" by (auto simp: ws_on_timer_def)
    with kept s1(3) show False by simp
  qed
  with s1(1) assms(1) have "ws_ping_state s1 \<noteq> 0" "ws_expiry s1 = t1 + 15"
    by (auto simp: ws_on_timer_def)
  with kept s1(3) assms(2) have "\<not> ws_socket_open s'" by (auto simp: ws_on_timer_def split: if_splits)
  with w assms(1) show ?thesis by (simp add: ws_on_timer_def ws_on_control_def ws_activity_def)
qed

theorem ws_silent_peer_closed_witness:
  "\<exists>s'. ws_run [(15, Ev_timer Done), (16, Ev_ping Done), (20, Ev_send \<lparr>wm_text = True, wm_buffer = ''x''\<rparr>),
           (30, Ev_timer Done)] (ws_started 0) = Some s' \<and> \<not> ws_socket_open s'"
proof -
  let ?es = "[(16, Ev_ping Done), (20, Ev_send \<lparr>wm_text = True, wm_buffer = ''x''\<rparr>)]"
  have "ws_run ((15, Ev_timer Done) # ?es @ [(30, Ev_timer Done)]) (ws_started 0) \<noteq> None" by code_simp
  then obtain s' where s': "ws_run ((15, Ev_timer Done) # ?es @ [(30, Ev_timer Done)]) (ws_started 0) = Some s'" by blast
  have h: "ws_expiry (ws_started 0) \<le> 15" "silent ?es"
    by (simp_all add: ws_started_def ws_on_accept_def ws_accepting_def ws_do_read_def silent_def)
  from ws_silent_peer_closed [OF h(1) _ h(2) s'] s' show ?thesis by auto
qed

section \<open>Close handlers\<close>

text \<open>
  \<^verbatim>\<open>std::map\<close> from 32-bit ids to handlers. A new id is the one below the largest in use.
\<close>

definition add_close_handler :: "'h \<Rightarrow> (u32 \<times> 'h) list \<Rightarrow> u32 \<times> (u32 \<times> 'h) list" where
  "add_close_handler h hs =
     (if hs = [] then (0, [(0, h)])
      else let k = fst (last hs) - 1 in (k, map_insert k h hs))"

definition remove_close_handler :: "u32 \<Rightarrow> (u32 \<times> 'h) list \<Rightarrow> (u32 \<times> 'h) list" where
  "remove_close_handler k hs = filter (\<lambda>e. fst e \<noteq> k) hs"

text \<open>The handlers that run when the queue is closed, in order.\<close>

definition queue_close :: "(u32 \<times> 'h) list \<Rightarrow> 'h list" where
  "queue_close hs = map snd hs"

text \<open>
  The second id wraps around to the largest number, after which every new id is the number below
  it: the fourth handler that is added to a connection gets the id of the third and is dropped, and removing it
  removes the third.
\<close>

theorem close_handler_ids_collide:
  "\<exists>hs3 k3. add_close_handler h3 (snd (add_close_handler h2 (snd (add_close_handler h1 [])))) = (k3, hs3)
     \<and> add_close_handler h4 hs3 = (k3, hs3)
     \<and> set (queue_close hs3) = {h1, h2, h3}
     \<and> remove_close_handler k3 hs3 = snd (add_close_handler h2 (snd (add_close_handler h1 [])))"
  by (auto simp: add_close_handler_def remove_close_handler_def queue_close_def Let_def)

end
