(* ===== verification/Log_Sessions.thy ===== *)
theory Log_Sessions
  imports Ws_Session Std_Regex
begin

text \<open>
  Sessions of jobs and their logs: \<^verbatim>\<open>src/cis/session.cpp\<close>,
  \<^verbatim>\<open>src/cis/offline_session.cpp\<close>, \<^verbatim>\<open>src/cis/session_manager.cpp\<close>, the
  subscribers of \<^verbatim>\<open>src/websocket/handlers/session_subscribe.cpp\<close>, and the connections of the CIS core
  that send the entries (\<^verbatim>\<open>init_cis_app\<close>).

  A session lives as long as somebody holds it: a connection of the core, a subscriber that was
  given the session, or its timer. A subscriber lives as long as a close handler of its web socket
  holds it; the session knows it only weakly. Subscribers are numbered in the order of their
  creation; a web socket is named by the number its context carries.
\<close>

section \<open>Sessions and subscribers\<close>

record log_entry =
  le_time :: int
  le_action :: string
  le_message :: string

datatype notice = Log_notice log_entry | Not_established | Session_closed

datatype session_phase = Pending | Unestablished | In_progress | Finished

record log_session =
  ss_offline :: bool
  ss_phase :: session_phase
  ss_timer :: bool
  ss_logs :: "log_entry list"
  ss_subs :: "(u64 \<times> nat) list"

record subscriber =
  sub_session :: string
  sub_ws :: u64
  sub_holds :: bool
  sub_close_id :: u32

record log_world =
  lw_sessions :: "(string \<times> log_session) list"
  lw_subs :: "subscriber list"
  lw_handlers :: "u64 \<Rightarrow> (u32 \<times> nat) list"
  lw_cores :: "(nat \<times> string) list"
  lw_sent :: "(nat \<times> notice) list"

definition session_new :: log_session where
  "session_new = \<lparr>ss_offline = False, ss_phase = Pending, ss_timer = True, ss_logs = [], ss_subs = []\<rparr>"

definition offline_session_new :: "log_entry list \<Rightarrow> log_session" where
  "offline_session_new logs =
     \<lparr>ss_offline = True, ss_phase = Finished, ss_timer = False, ss_logs = logs, ss_subs = []\<rparr>"

text \<open>\<^verbatim>\<open>weak_ptr::lock\<close> of a subscriber.\<close>

definition alive :: "log_world \<Rightarrow> nat \<Rightarrow> bool" where
  "alive w i \<longleftrightarrow> i < length (lw_subs w) \<and> i \<in> snd ` set (lw_handlers w (sub_ws (lw_subs w ! i)))"

definition session_held :: "log_world \<Rightarrow> string \<times> log_session \<Rightarrow> bool" where
  "session_held w e \<longleftrightarrow>
     ss_timer (snd e) \<or> fst e \<in> snd ` set (lw_cores w)
     \<or> (\<exists>i \<in> set [0..<length (lw_subs w)]. alive w i \<and> sub_holds (lw_subs w ! i) \<and> sub_session (lw_subs w ! i) = fst e)"

text \<open>Sessions that nobody holds are destroyed, and their ids forgotten.\<close>

definition collect_sessions :: "log_world \<Rightarrow> log_world" where
  "collect_sessions w = w\<lparr>lw_sessions := filter (session_held w) (lw_sessions w)\<rparr>"

section \<open>Subscribers\<close>

definition sub_send :: "nat \<Rightarrow> notice \<Rightarrow> log_world \<Rightarrow> log_world" where
  "sub_send i n w = w\<lparr>lw_sent := lw_sent w @ [(i, n)]\<rparr>"

definition sub_unsubscribe :: "nat \<Rightarrow> log_world \<Rightarrow> log_world" where
  "sub_unsubscribe i w =
     (let sub = lw_subs w ! i
      in w\<lparr>lw_subs := (lw_subs w)[i := sub\<lparr>sub_holds := False\<rparr>],
           lw_handlers := (lw_handlers w)(sub_ws sub :=
             remove_close_handler (sub_close_id sub) (lw_handlers w (sub_ws sub)))\<rparr>)"

definition sub_notice :: "nat \<Rightarrow> notice \<Rightarrow> log_world \<Rightarrow> log_world" where
  "sub_notice i n w =
     (case n of Log_notice e \<Rightarrow> sub_send i n w | _ \<Rightarrow> sub_unsubscribe i (sub_send i n w))"

definition notify_all :: "notice \<Rightarrow> (u64 \<times> nat) list \<Rightarrow> log_world \<Rightarrow> log_world" where
  "notify_all n subs w = foldl (\<lambda>w e. if alive w (snd e) then sub_notice (snd e) n w else w) w subs"

section \<open>Sessions\<close>

definition put_session :: "string \<Rightarrow> log_session \<Rightarrow> log_world \<Rightarrow> log_world" where
  "put_session sid s w = w\<lparr>lw_sessions := map_assign sid s (lw_sessions w)\<rparr>"

definition establish :: "log_session \<Rightarrow> log_session" where
  "establish s = (if ss_offline s then s else s\<lparr>ss_phase := In_progress\<rparr>)"

definition session_log :: "string \<Rightarrow> log_entry \<Rightarrow> log_world \<Rightarrow> log_world" where
  "session_log sid e w =
     (case map_of (lw_sessions w) sid of
        None \<Rightarrow> w
      | Some s \<Rightarrow> notify_all (Log_notice e) (ss_subs s) (put_session sid (s\<lparr>ss_logs := ss_logs s @ [e]\<rparr>) w))"

definition send_backlog :: "nat \<Rightarrow> log_entry list \<Rightarrow> log_world \<Rightarrow> log_world" where
  "send_backlog i logs w = foldl (\<lambda>w e. sub_send i (Log_notice e) w) w logs"

text \<open>A web socket that is in the map already is not entered again.\<close>

definition session_subscribe :: "string \<Rightarrow> log_session \<Rightarrow> u64 \<Rightarrow> nat \<Rightarrow> log_world \<Rightarrow> log_world" where
  "session_subscribe sid s ws i w =
     (if ss_offline s
      then sub_notice i Session_closed
             (put_session sid (s\<lparr>ss_subs := map_insert ws i (ss_subs s)\<rparr>) (send_backlog i (ss_logs s) w))
      else if ss_phase s = Unestablished then sub_notice i Not_established w
      else (let w1 = put_session sid (s\<lparr>ss_subs := map_insert ws i (ss_subs s)\<rparr>) (send_backlog i (ss_logs s) w)
            in if ss_phase s = Finished then sub_notice i Session_closed w1 else w1))"

definition session_finish :: "string \<Rightarrow> log_world \<Rightarrow> log_world" where
  "session_finish sid w =
     (case map_of (lw_sessions w) sid of
        None \<Rightarrow> w
      | Some s \<Rightarrow> (if ss_offline s then w
                   else notify_all Session_closed (ss_subs s) (put_session sid (s\<lparr>ss_phase := Finished\<rparr>) w)))"

text \<open>The timer of a session completes, after five seconds or because it was cancelled.\<close>

definition session_on_timer :: "string \<Rightarrow> bool \<Rightarrow> log_world \<Rightarrow> log_world" where
  "session_on_timer sid aborted w =
     (case map_of (lw_sessions w) sid of
        None \<Rightarrow> w
      | Some s \<Rightarrow>
          (let s = s\<lparr>ss_timer := False\<rparr>
           in if \<not> aborted \<and> ss_phase s = Pending
              then notify_all Not_established (ss_subs s) (put_session sid (s\<lparr>ss_phase := Unestablished\<rparr>) w)
              else put_session sid s w))"

section \<open>The manager of sessions\<close>

definition session_connect :: "string \<Rightarrow> log_world \<Rightarrow> log_world" where
  "session_connect sid w =
     (case map_of (lw_sessions w) sid of
        Some s \<Rightarrow> put_session sid (establish s) w
      | None \<Rightarrow> put_session sid (establish session_new) w)"

definition set_holds :: "nat \<Rightarrow> log_world \<Rightarrow> log_world" where
  "set_holds i w = w\<lparr>lw_subs := (lw_subs w)[i := (lw_subs w ! i)\<lparr>sub_holds := True\<rparr>]\<rparr>"

text \<open>\<open>logs\<close>: the entries of the file of a session that ended earlier, if there is one.\<close>

definition manager_subscribe ::
    "(string \<Rightarrow> log_entry list option) \<Rightarrow> string \<Rightarrow> u64 \<Rightarrow> nat \<Rightarrow> log_world \<Rightarrow> log_world" where
  "manager_subscribe logs sid ws i w =
     (case map_of (lw_sessions w) sid of
        Some s \<Rightarrow> set_holds i (session_subscribe sid s ws i w)
      | None \<Rightarrow>
          (let s = (case logs sid of Some es \<Rightarrow> offline_session_new es | None \<Rightarrow> session_new)
           in set_holds i (session_subscribe sid s ws i (put_session sid s w))))"

definition get_subscriber :: "string \<Rightarrow> u64 \<Rightarrow> log_world \<Rightarrow> nat option" where
  "get_subscriber sid ws w =
     (case map_of (lw_sessions w) sid of
        None \<Rightarrow> None
      | Some s \<Rightarrow> (case map_of (ss_subs s) ws of
                     None \<Rightarrow> None
                   | Some i \<Rightarrow> (if alive w i then Some i else None)))"

section \<open>The requests of web sockets\<close>

text \<open>
  The id of the close handler is stored only after the subscription; until then it is whatever was in
  memory (\<open>junk\<close>).
\<close>

definition session_subscribe_handler ::
    "(string \<Rightarrow> log_entry list option) \<Rightarrow> u32 \<Rightarrow> u64 \<Rightarrow> string \<Rightarrow> log_world \<Rightarrow> log_world" where
  "session_subscribe_handler logs junk ws sid w =
     (let i = length (lw_subs w);
          w1 = w\<lparr>lw_subs := lw_subs w @ [\<lparr>sub_session = sid, sub_ws = ws, sub_holds = False, sub_close_id = junk\<rparr>]\<rparr>;
          w2 = manager_subscribe logs sid ws i w1;
          (k, hs) = add_close_handler i (lw_handlers w2 ws)
      in collect_sessions (w2\<lparr>lw_handlers := (lw_handlers w2)(ws := hs),
           lw_subs := (lw_subs w2)[i := (lw_subs w2 ! i)\<lparr>sub_close_id := k\<rparr>]\<rparr>))"

definition session_unsubscribe_handler :: "u64 \<Rightarrow> string \<Rightarrow> log_world \<Rightarrow> log_world" where
  "session_unsubscribe_handler ws sid w =
     (case get_subscriber sid ws w of None \<Rightarrow> w | Some i \<Rightarrow> collect_sessions (sub_unsubscribe i w))"

definition web_socket_closed :: "u64 \<Rightarrow> log_world \<Rightarrow> log_world" where
  "web_socket_closed ws w = collect_sessions (w\<lparr>lw_handlers := (lw_handlers w)(ws := [])\<rparr>)"

section \<open>The connections of the core\<close>

definition core_auth :: "nat \<Rightarrow> string \<Rightarrow> log_world \<Rightarrow> log_world" where
  "core_auth core sid w =
     collect_sessions ((session_connect sid w)\<lparr>lw_cores := map_assign core sid (lw_cores w)\<rparr>)"

text \<open>\<open>None\<close>: an entry on a connection without a session dereferences a null pointer.\<close>

definition core_log :: "nat \<Rightarrow> log_entry \<Rightarrow> log_world \<Rightarrow> log_world option" where
  "core_log core e w =
     (case map_of (lw_cores w) core of None \<Rightarrow> None | Some sid \<Rightarrow> Some (session_log sid e w))"

definition core_closed :: "nat \<Rightarrow> log_world \<Rightarrow> log_world" where
  "core_closed core w = collect_sessions (w\<lparr>lw_cores := filter (\<lambda>e. fst e \<noteq> core) (lw_cores w)\<rparr>)"

end
