(* ===== verification/Log_Delivery.thy ===== *)
theory Log_Delivery
  imports Log_Sessions
begin

text \<open>
  Sessions, web sockets and connections of the core as one state machine, and what subscribers get:
  a registered subscriber has been sent exactly the log of its session; a second subscription of
  the same web socket gets nothing after the entries that are there; a session that the core never
  joins is reported as not established.
\<close>

section \<open>Steps\<close>

datatype log_input =
    Subscribe u32 u64 string
  | Unsubscribe u64 string
  | Ws_closed u64
  | Core_auth nat string
  | Core_log nat log_entry
  | Core_closed nat
  | Timer string bool
  | Finish string

fun log_step :: "(string \<Rightarrow> log_entry list option) \<Rightarrow> log_input \<Rightarrow> log_world \<Rightarrow> log_world option" where
  "log_step logs (Subscribe junk ws sid) w = Some (session_subscribe_handler logs junk ws sid w)"
| "log_step logs (Unsubscribe ws sid) w = Some (session_unsubscribe_handler ws sid w)"
| "log_step logs (Ws_closed ws) w = Some (web_socket_closed ws w)"
| "log_step logs (Core_auth core sid) w = Some (core_auth core sid w)"
| "log_step logs (Core_log core e) w = core_log core e w"
| "log_step logs (Core_closed core) w = Some (core_closed core w)"
| "log_step logs (Timer sid aborted) w = Some (collect_sessions (session_on_timer sid aborted w))"
| "log_step logs (Finish sid) w = Some (collect_sessions (session_finish sid w))"

definition no_sessions :: log_world where
  "no_sessions = \<lparr>lw_sessions = [], lw_subs = [], lw_handlers = (\<lambda>_. []), lw_cores = [], lw_sent = []\<rparr>"

inductive log_reachable :: "(string \<Rightarrow> log_entry list option) \<Rightarrow> log_world \<Rightarrow> bool" for logs where
  start: "log_reachable logs no_sessions"
| step: "log_reachable logs w \<Longrightarrow> log_step logs i w = Some w' \<Longrightarrow> log_reachable logs w'"

fun log_run :: "(string \<Rightarrow> log_entry list option) \<Rightarrow> log_input list \<Rightarrow> log_world \<Rightarrow> log_world option" where
  "log_run logs [] w = Some w"
| "log_run logs (i # is) w = (case log_step logs i w of None \<Rightarrow> None | Some w' \<Rightarrow> log_run logs is w')"

lemma log_run_reachable: "log_reachable logs w \<Longrightarrow> log_run logs is w = Some w' \<Longrightarrow> log_reachable logs w'"
  by (induction "is" arbitrary: w) (auto split: option.splits intro: log_reachable.step)

section \<open>What was delivered\<close>

fun entries_of :: "nat \<Rightarrow> (nat \<times> notice) list \<Rightarrow> log_entry list" where
  "entries_of i [] = []"
| "entries_of i ((j, n) # ns) =
     (case n of Log_notice e \<Rightarrow> (if j = i then e # entries_of i ns else entries_of i ns) | _ \<Rightarrow> entries_of i ns)"

lemma entries_of_append [simp]: "entries_of i (xs @ ys) = entries_of i xs @ entries_of i ys"
  by (induction xs) (auto split: notice.splits)

text \<open>Who the subscribers are, and which of them the close handlers of a web socket hold.\<close>

definition idents :: "log_world \<Rightarrow> (string \<times> u64) list" where
  "idents w = map (\<lambda>s. (sub_session s, sub_ws s)) (lw_subs w)"

definition handled :: "log_world \<Rightarrow> u64 \<Rightarrow> nat set" where
  "handled w ws = snd ` set (lw_handlers w ws)"

definition sent_ok :: "log_world \<Rightarrow> bool" where
  "sent_ok w \<longleftrightarrow> (\<forall>e \<in> set (lw_sent w). fst e < length (idents w))"

lemma alive_iff: "alive w i \<longleftrightarrow> i < length (idents w) \<and> i \<in> handled w (snd (idents w ! i))"
  by (auto simp: alive_def idents_def handled_def)

text \<open>
  The invariant: the subscribers a session knows are its own, one for each web socket, and those that live
  have been sent its log. The subscribers in \<open>fresh\<close> count as living.
\<close>

definition subs_ok :: "nat set \<Rightarrow> log_world \<Rightarrow> string \<Rightarrow> log_session \<Rightarrow> bool" where
  "subs_ok fresh w sid s \<longleftrightarrow>
     ordered_keys (ss_subs s)
     \<and> (\<forall>e \<in> set (ss_subs s). snd e < length (idents w) \<and> idents w ! snd e = (sid, fst e)
          \<and> (alive w (snd e) \<or> snd e \<in> fresh \<longrightarrow> entries_of (snd e) (lw_sent w) = ss_logs s))"

definition delivery_inv :: "nat set \<Rightarrow> log_world \<Rightarrow> bool" where
  "delivery_inv fresh w \<longleftrightarrow>
     ordered_keys (lw_sessions w)
     \<and> (\<forall>e \<in> set (lw_sessions w). subs_ok fresh w (fst e) (snd e))
     \<and> sent_ok w
     \<and> (\<forall>ws. \<forall>i \<in> handled w ws. i < length (idents w))
     \<and> (\<forall>i \<in> fresh. i < length (idents w))"

lemma delivery_invD:
  assumes "delivery_inv fresh w"
  shows "ordered_keys (lw_sessions w)" "(sid, s) \<in> set (lw_sessions w) \<Longrightarrow> subs_ok fresh w sid s"
    "sent_ok w" "i \<in> handled w ws \<Longrightarrow> i < length (idents w)" "i \<in> fresh \<Longrightarrow> i < length (idents w)"
  using assms by (auto simp: delivery_inv_def)

text \<open>Changes that send no entries and revive nobody.\<close>

definition fades :: "nat set \<Rightarrow> log_world \<Rightarrow> log_world \<Rightarrow> bool" where
  "fades fresh w w' \<longleftrightarrow>
     idents w' = idents w
     \<and> (\<forall>ws. handled w' ws \<subseteq> handled w ws \<union> fresh)
     \<and> (\<forall>i. entries_of i (lw_sent w') = entries_of i (lw_sent w))
     \<and> sent_ok w'"

lemma fades_refl: "sent_ok w \<Longrightarrow> fades fresh w w"
  by (simp add: fades_def)

lemma fades_trans: "fades fresh w w' \<Longrightarrow> fades fresh w' w'' \<Longrightarrow> fades fresh w w''"
  unfolding fades_def by fastforce

lemma fades_alive: "fades fresh w w' \<Longrightarrow> alive w' i \<Longrightarrow> alive w i \<or> i \<in> fresh"
  by (auto simp: fades_def alive_iff)

lemma fades_subs_ok:
  assumes "fades fresh w w'" "subs_ok fresh w sid s" "ss_subs s' = ss_subs s" "ss_logs s' = ss_logs s"
  shows "subs_ok fresh w' sid s'"
  using assms fades_alive [OF assms(1)] unfolding subs_ok_def fades_def by auto

lemma delivery_inv_fades:
  assumes "delivery_inv fresh w" "fades fresh w w'" "ordered_keys (lw_sessions w')"
    and "\<And>sid s'. (sid, s') \<in> set (lw_sessions w') \<Longrightarrow>
           \<exists>s. (sid, s) \<in> set (lw_sessions w) \<and> ss_subs s' = ss_subs s \<and> ss_logs s' = ss_logs s"
  shows "delivery_inv fresh w'"
proof -
  have "subs_ok fresh w' sid s'" if "(sid, s') \<in> set (lw_sessions w')" for sid s'
    using assms(4) [OF that] delivery_invD(2) [OF assms(1)] fades_subs_ok [OF assms(2)] by metis
  moreover have "i < length (idents w')" if "i \<in> handled w' ws" for i ws
    using that assms(1,2) unfolding fades_def delivery_inv_def by (metis UnE subsetD)
  ultimately show ?thesis
    using assms(1-3) by (auto simp: delivery_inv_def fades_def)
qed

section \<open>The parts of a step\<close>

lemma ordered_map_of: "ordered_keys m \<Longrightarrow> (k, v) \<in> set m \<longleftrightarrow> map_of m k = Some v"
proof (induction m)
  case Nil
  then show ?case by simp
next
  case (Cons x m)
  then have "fst x \<notin> fst ` set m" by force
  with Cons show ?case by (cases x) (auto simp: map_of_eq_None_iff image_iff)
qed

lemma in_map_assign:
  "ordered_keys m \<Longrightarrow> (k', v') \<in> set (map_assign k v m) \<Longrightarrow> (k' = k \<and> v' = v) \<or> ((k', v') \<in> set m \<and> k' \<noteq> k)"
  by (auto simp: ordered_map_of split: if_splits)

lemma in_map_insert:
  "(k', v') \<in> set (map_insert k v m) \<Longrightarrow> (k' = k \<and> v' = v) \<or> (k', v') \<in> set m"
  by (induction k v m rule: map_insert.induct) (auto split: if_splits)

lemma idents_update [simp]:
  "idents (w\<lparr>lw_sessions := x\<rparr>) = idents w" "idents (w\<lparr>lw_handlers := h\<rparr>) = idents w"
  "idents (w\<lparr>lw_cores := c\<rparr>) = idents w" "idents (w\<lparr>lw_sent := t\<rparr>) = idents w"
  "handled (w\<lparr>lw_sessions := x\<rparr>) = handled w" "handled (w\<lparr>lw_subs := l\<rparr>) = handled w"
  "handled (w\<lparr>lw_cores := c\<rparr>) = handled w" "handled (w\<lparr>lw_sent := t\<rparr>) = handled w"
  "sent_ok (w\<lparr>lw_sessions := x\<rparr>) = sent_ok w" "sent_ok (w\<lparr>lw_handlers := h\<rparr>) = sent_ok w"
  "sent_ok (w\<lparr>lw_cores := c\<rparr>) = sent_ok w"
  by (auto simp: idents_def handled_def sent_ok_def fun_eq_iff)

lemma idents_subs:
  "sub_session s = sub_session (lw_subs w ! i) \<Longrightarrow> sub_ws s = sub_ws (lw_subs w ! i) \<Longrightarrow>
     idents (w\<lparr>lw_subs := (lw_subs w)[i := s]\<rparr>) = idents w"
  by (cases "i < length (lw_subs w)")
     (simp_all add: idents_def map_update list_update_beyond list_update_same_conv)

lemma sub_unsubscribe_fades: "sent_ok w \<Longrightarrow> fades fresh w (sub_unsubscribe i w)"
  by (auto simp: fades_def sub_unsubscribe_def remove_close_handler_def Let_def handled_def sent_ok_def idents_subs)

lemma sub_notice_fades:
  assumes "i < length (idents w)" "sent_ok w" "\<And>e. n \<noteq> Log_notice e"
  shows "fades fresh w (sub_notice i n w)"
proof -
  have s: "fades fresh w (sub_send i n w)"
    using assms by (auto simp: fades_def sub_send_def sent_ok_def split: notice.splits)
  then have "fades fresh (sub_send i n w) (sub_unsubscribe i (sub_send i n w))"
    by (intro sub_unsubscribe_fades) (simp add: fades_def)
  with s assms(3) show ?thesis
    by (cases n) (auto simp: sub_notice_def intro: fades_trans)
qed

lemma notify_end_fades:
  assumes "\<And>e. n \<noteq> Log_notice e"
  shows "sent_ok w \<Longrightarrow> fades fresh w (notify_all n subs w)"
proof (induction subs arbitrary: w)
  case Nil
  then show ?case by (simp add: notify_all_def fades_refl)
next
  case (Cons e subs)
  let ?w1 = "if alive w (snd e) then sub_notice (snd e) n w else w"
  have 1: "fades fresh w ?w1"
  proof (cases "alive w (snd e)")
    case True
    then have "snd e < length (idents w)" by (simp add: alive_iff)
    from sub_notice_fades [OF this Cons.prems assms] True show ?thesis by simp
  next
    case False
    with fades_refl [OF Cons.prems] show ?thesis by simp
  qed
  then have "sent_ok ?w1" by (simp add: fades_def)
  from Cons.IH [OF this] have "fades fresh ?w1 (notify_all n (e # subs) w)"
    by (simp only: notify_all_def foldl.simps)
  with 1 show ?case by (rule fades_trans)
qed

lemma sub_notice_sessions [simp]: "lw_sessions (sub_notice i n w) = lw_sessions w"
  by (simp add: sub_notice_def sub_send_def sub_unsubscribe_def Let_def split: notice.splits)

lemma notify_sessions [simp]: "lw_sessions (notify_all n subs w) = lw_sessions w"
  by (induction subs arbitrary: w) (simp_all add: notify_all_def)

lemma ordered_filter: "ordered_keys m \<Longrightarrow> ordered_keys (filter P m)"
  by (induction m) auto

lemma delivery_inv_same_sessions:
  "delivery_inv fresh w \<Longrightarrow> fades fresh w w' \<Longrightarrow> lw_sessions w' = lw_sessions w \<Longrightarrow> delivery_inv fresh w'"
  by (rule delivery_inv_fades) (auto dest: delivery_invD(1))

lemma collect_inv: "delivery_inv fresh w \<Longrightarrow> delivery_inv fresh (collect_sessions w)"
  by (rule delivery_inv_fades)
     (auto simp: collect_sessions_def fades_def ordered_filter dest: delivery_invD)

text \<open>A session that changes neither its log nor its subscribers.\<close>

lemma put_session_simps [simp]:
  "idents (put_session sid s w) = idents w" "handled (put_session sid s w) = handled w"
  "alive (put_session sid s w) = alive w" "lw_sent (put_session sid s w) = lw_sent w"
  "sent_ok (put_session sid s w) = sent_ok w" "lw_subs (put_session sid s w) = lw_subs w"
  by (auto simp: put_session_def alive_iff fun_eq_iff)

lemma put_session_in:
  "delivery_inv fresh w \<Longrightarrow> (k, v) \<in> set (lw_sessions (put_session sid s w)) \<Longrightarrow>
     (k = sid \<and> v = s) \<or> ((k, v) \<in> set (lw_sessions w) \<and> k \<noteq> sid)"
  by (auto simp: put_session_def dest: in_map_assign delivery_invD(1))

lemma put_session_inv:
  assumes "delivery_inv fresh w" "subs_ok fresh w sid s"
  shows "delivery_inv fresh (put_session sid s w)"
proof -
  have "subs_ok fresh (put_session sid s w) k v" if "(k, v) \<in> set (lw_sessions (put_session sid s w))" for k v
    using put_session_in [OF assms(1) that] assms delivery_invD(2) [OF assms(1)]
    by (auto simp: subs_ok_def)
  moreover have "ordered_keys (lw_sessions (put_session sid s w))"
    using delivery_invD(1) [OF assms(1)] by (simp add: put_session_def)
  ultimately show ?thesis
    using assms(1) by (auto simp: delivery_inv_def)
qed

section \<open>A step\<close>

lemma set_holds_inv: "delivery_inv fresh w \<Longrightarrow> delivery_inv fresh (set_holds i w)"
  by (rule delivery_inv_same_sessions)
     (use delivery_invD(3) [of fresh w] in \<open>auto simp: set_holds_def fades_def idents_subs sent_ok_def\<close>)

lemma session_subs_ok:
  "delivery_inv fresh w \<Longrightarrow> map_of (lw_sessions w) sid = Some s \<Longrightarrow> subs_ok fresh w sid s"
  by (blast dest: map_of_SomeD delivery_invD(2))

text \<open>An entry goes to every living subscriber once.\<close>

lemma notify_log:
  "notify_all (Log_notice e) subs w =
     w\<lparr>lw_sent := lw_sent w @ map (\<lambda>x. (snd x, Log_notice e)) (filter (\<lambda>x. alive w (snd x)) subs)\<rparr>"
proof (induction subs arbitrary: w)
  case Nil
  then show ?case by (simp add: notify_all_def)
next
  case (Cons x subs)
  have "alive (w\<lparr>lw_sent := t\<rparr>) = alive w" for t by (simp add: fun_eq_iff alive_iff)
  with Cons.IH show ?case by (simp add: notify_all_def sub_notice_def sub_send_def)
qed

lemma entries_of_notified:
  "entries_of i (map (\<lambda>x. (snd x, Log_notice e)) xs) = replicate (length (filter (\<lambda>x. snd x = i) xs)) e"
  by (induction xs) auto

lemma length_filter_single:
  "ordered_keys m \<Longrightarrow> \<forall>x \<in> set m. snd x = i \<longrightarrow> fst x = k \<Longrightarrow>
     length (filter (\<lambda>x. snd x = i) m) = (if i \<in> snd ` set m then 1 else 0)"
proof (induction m)
  case Nil
  then show ?case by simp
next
  case (Cons x m)
  show ?case
  proof (cases "snd x = i")
    case True
    have "snd y \<noteq> i" if "y \<in> set m" for y
      using Cons.prems that True by (metis fst_conv image_eqI less_irrefl list.set_intros(1,2) list.simps(9) list.set_map sorted_wrt.simps(2))
    with True show ?thesis by (auto simp: filter_empty_conv)
  next
    case False
    with Cons show ?thesis by simp
  qed
qed

lemma session_log_inv:
  assumes "delivery_inv {} w"
  shows "delivery_inv {} (session_log sid e w)"
proof (cases "map_of (lw_sessions w) sid")
  case None
  with assms show ?thesis by (simp add: session_log_def)
next
  case (Some s)
  let ?s = "s\<lparr>ss_logs := ss_logs s @ [e]\<rparr>"
  let ?new = "map (\<lambda>x. (snd x, Log_notice e)) (filter (\<lambda>x. alive w (snd x)) (ss_subs s))"
  let ?w = "(put_session sid ?s w)\<lparr>lw_sent := lw_sent w @ ?new\<rparr>"
  have w: "session_log sid e w = ?w"
    using Some by (simp add: session_log_def notify_log)
  have s: "subs_ok {} w sid s" using assms Some by (rule session_subs_ok)
  have alive: "alive ?w = alive w" by (simp add: fun_eq_iff alive_iff)
  have once: "entries_of i ?new = (if alive w i \<and> i \<in> snd ` set (ss_subs s) then [e] else [])" for i
  proof -
    have "length (filter (\<lambda>x. snd x = i) (filter (\<lambda>x. alive w (snd x)) (ss_subs s)))
        = (if i \<in> snd ` set (filter (\<lambda>x. alive w (snd x)) (ss_subs s)) then 1 else 0)"
      using s by (intro length_filter_single [where k = "snd (idents w ! i)"]) (auto simp: subs_ok_def ordered_filter)
    moreover have "i \<in> snd ` set (filter (\<lambda>x. alive w (snd x)) (ss_subs s)) \<longleftrightarrow> alive w i \<and> i \<in> snd ` set (ss_subs s)"
      by auto
    ultimately show ?thesis unfolding entries_of_notified by simp
  qed
  have "subs_ok {} ?w k v" if kv: "(k, v) \<in> set (lw_sessions ?w)" for k v
  proof -
    have "(k = sid \<and> v = ?s) \<or> ((k, v) \<in> set (lw_sessions w) \<and> k \<noteq> sid)"
      by (rule put_session_in [OF assms]) (use kv in simp)
    then show ?thesis
    proof
      assume "k = sid \<and> v = ?s"
      then show ?thesis
        using s by (auto simp: subs_ok_def alive once simp del: filter_filter)
    next
      assume other: "(k, v) \<in> set (lw_sessions w) \<and> k \<noteq> sid"
      then have v: "subs_ok {} w k v" using delivery_invD(2) [OF assms] by blast
      have "i \<notin> snd ` set (ss_subs s)" if "(ws, i) \<in> set (ss_subs v)" for ws i
        using that v s other unfolding subs_ok_def by fastforce
      then have "entries_of i ?new = []" if "(ws, i) \<in> set (ss_subs v)" for ws i
        using that by (simp add: once del: filter_filter)
      with v show ?thesis by (auto simp: subs_ok_def alive simp del: filter_filter)
    qed
  qed
  moreover have "sent_ok ?w"
    using delivery_invD(3) [OF assms] s by (auto simp: sent_ok_def subs_ok_def)
  moreover have "ordered_keys (lw_sessions ?w)"
    using delivery_invD(1) [OF assms] by (simp add: put_session_def)
  ultimately show ?thesis
    unfolding w using delivery_invD(4) [OF assms] by (auto simp: delivery_inv_def)
qed

lemma send_backlog_eq:
  "send_backlog i logs w = w\<lparr>lw_sent := lw_sent w @ map (\<lambda>e. (i, Log_notice e)) logs\<rparr>"
  unfolding send_backlog_def by (induction logs arbitrary: w) (simp_all add: sub_send_def)

lemma entries_of_backlog: "entries_of j (map (\<lambda>e. (i, Log_notice e)) logs) = (if j = i then logs else [])"
  by (induction logs) auto

text \<open>A subscriber that no session knows yet and that was sent nothing.\<close>

definition newcomer :: "nat \<Rightarrow> log_world \<Rightarrow> bool" where
  "newcomer i w \<longleftrightarrow> entries_of i (lw_sent w) = [] \<and> (\<forall>e \<in> set (lw_sessions w). i \<notin> snd ` set (ss_subs (snd e)))"

lemma register_inv:
  assumes inv: "delivery_inv {i} w" and s: "map_of (lw_sessions w) sid = Some s"
    and i: "idents w ! i = (sid, ws)" "newcomer i w"
  shows "delivery_inv {i} (put_session sid (s\<lparr>ss_subs := map_insert ws i (ss_subs s)\<rparr>) (send_backlog i (ss_logs s) w))"
    (is "delivery_inv _ (put_session sid ?s ?b)")
proof -
  let ?w = "put_session sid ?s ?b"
  have len: "i < length (idents w)" using delivery_invD(5) [OF inv] by simp
  have alive: "alive ?w = alive w" by (simp add: send_backlog_eq fun_eq_iff alive_iff)
  have sent: "entries_of j (lw_sent ?w) = entries_of j (lw_sent w) @ (if j = i then ss_logs s else [])" for j
    by (simp add: send_backlog_eq entries_of_backlog)
  have id: "idents ?w = idents w" by (simp add: send_backlog_eq)
  have others: "j \<noteq> i" if "(k, v) \<in> set (lw_sessions w)" "(u, j) \<in> set (ss_subs v)" for k v u j
    using i(2) that unfolding newcomer_def by force
  have "subs_ok {i} ?w k v" if kv: "(k, v) \<in> set (lw_sessions ?w)" for k v
  proof -
    have "lw_sessions ?w = lw_sessions (put_session sid ?s w)"
      by (simp add: put_session_def send_backlog_eq)
    then have "(k = sid \<and> v = ?s) \<or> ((k, v) \<in> set (lw_sessions w) \<and> k \<noteq> sid)"
      using put_session_in [OF inv] kv by metis
    then show ?thesis
    proof
      assume kv: "k = sid \<and> v = ?s"
      have so: "subs_ok {i} w sid s" using inv s by (rule session_subs_ok)
      have "snd e < length (idents w) \<and> idents w ! snd e = (sid, fst e)
          \<and> (alive w (snd e) \<or> snd e \<in> {i} \<longrightarrow> entries_of (snd e) (lw_sent ?w) = ss_logs s)"
        if "e \<in> set (map_insert ws i (ss_subs s))" for e
      proof -
        have "e = (ws, i) \<or> e \<in> set (ss_subs s)" using that in_map_insert [of "fst e" "snd e"] by force
        then show ?thesis
        proof
          assume "e = (ws, i)"
          with i len show ?thesis unfolding sent by (simp add: newcomer_def)
        next
          assume e: "e \<in> set (ss_subs s)"
          with so others [OF map_of_SomeD [OF s], of "fst e" "snd e"] show ?thesis
            unfolding sent by (auto simp: subs_ok_def)
        qed
      qed
      with kv so show ?thesis
        unfolding subs_ok_def alive id by (simp del: put_session_simps)
    next
      assume "(k, v) \<in> set (lw_sessions w) \<and> k \<noteq> sid"
      then have v: "(k, v) \<in> set (lw_sessions w)" by simp
      have "snd e \<noteq> i" if "e \<in> set (ss_subs v)" for e
        using others [OF v, of "fst e" "snd e"] that by simp
      with delivery_invD(2) [OF inv v] show ?thesis
        unfolding subs_ok_def alive id sent by (simp del: put_session_simps)
    qed
  qed
  moreover have "sent_ok ?w" "handled ?w = handled w"
    using delivery_invD(3) [OF inv] len by (auto simp: sent_ok_def send_backlog_eq)
  moreover have "ordered_keys (lw_sessions ?w)"
    using delivery_invD(1) [OF inv] by (simp add: put_session_def send_backlog_eq)
  ultimately show ?thesis
    using delivery_invD(4,5) [OF inv] id unfolding delivery_inv_def by auto
qed

lemma session_subscribe_inv:
  assumes "delivery_inv {i} w" "map_of (lw_sessions w) sid = Some s" "idents w ! i = (sid, ws)" "newcomer i w"
  shows "delivery_inv {i} (session_subscribe sid s ws i w)"
proof -
  have n: "delivery_inv {i} (sub_notice i n u)" if "delivery_inv {i} u" "\<And>e. n \<noteq> Log_notice e" for u n
    using that delivery_invD(3,5) [OF that(1)] by (intro delivery_inv_same_sessions [OF that(1) sub_notice_fades]) auto
  show ?thesis
    using register_inv [OF assms] assms(1) unfolding session_subscribe_def Let_def
    by (auto intro!: n)
qed

lemma newcomer_put:
  "delivery_inv fresh w \<Longrightarrow> newcomer i w \<Longrightarrow> ss_subs s = [] \<Longrightarrow> newcomer i (put_session sid s w)"
  unfolding newcomer_def using put_session_in [of fresh w] by fastforce

lemma manager_subscribe_inv:
  assumes "delivery_inv {i} w" "idents w ! i = (sid, ws)" "newcomer i w"
  shows "delivery_inv {i} (manager_subscribe logs sid ws i w)"
proof (cases "map_of (lw_sessions w) sid")
  case (Some s)
  with assms show ?thesis by (simp add: manager_subscribe_def set_holds_inv session_subscribe_inv)
next
  case None
  let ?s = "case logs sid of Some es \<Rightarrow> offline_session_new es | None \<Rightarrow> session_new"
  have e: "ss_subs ?s = []" by (simp add: offline_session_new_def session_new_def split: option.splits)
  then have p: "delivery_inv {i} (put_session sid ?s w)"
    using assms(1) by (intro put_session_inv) (simp_all add: subs_ok_def)
  have "map_of (lw_sessions (put_session sid ?s w)) sid = Some ?s"
    using delivery_invD(1) [OF assms(1)] by (simp add: put_session_def)
  from session_subscribe_inv [OF p this _ newcomer_put [OF assms(1,3) e]] assms(2) None show ?thesis
    by (simp add: manager_subscribe_def set_holds_inv Let_def)
qed

lemma add_handler_fades:
  assumes "sent_ok w" "add_close_handler i (lw_handlers w ws) = (k, hs)"
  shows "fades {i} w (w\<lparr>lw_handlers := (lw_handlers w)(ws := hs),
           lw_subs := (lw_subs w)[i := (lw_subs w ! i)\<lparr>sub_close_id := k\<rparr>]\<rparr>)" (is "fades _ _ ?w")
proof -
  have "snd ` set hs \<subseteq> snd ` set (lw_handlers w ws) \<union> {i}"
    using assms(2) in_map_insert [of _ _ _ i "lw_handlers w ws"]
    by (fastforce simp: add_close_handler_def Let_def split: if_splits)
  then have "\<forall>u. handled ?w u \<subseteq> handled w u \<union> {i}" by (auto simp: handled_def)
  moreover have "idents ?w = idents w"
    by (cases "i < length (lw_subs w)")
       (simp_all add: idents_def map_update list_update_beyond list_update_same_conv)
  ultimately show ?thesis using assms(1) by (simp add: fades_def sent_ok_def)
qed

lemma session_subscribe_handler_inv:
  assumes "delivery_inv {} w"
  shows "delivery_inv {} (session_subscribe_handler logs junk ws sid w)"
proof -
  let ?i = "length (lw_subs w)"
  let ?w1 = "w\<lparr>lw_subs := lw_subs w @ [\<lparr>sub_session = sid, sub_ws = ws, sub_holds = False, sub_close_id = junk\<rparr>]\<rparr>"
  let ?w2 = "manager_subscribe logs sid ws ?i ?w1"
  obtain k hs where k: "add_close_handler ?i (lw_handlers ?w2 ws) = (k, hs)" by fastforce
  let ?w3 = "?w2\<lparr>lw_handlers := (lw_handlers ?w2)(ws := hs), lw_subs := (lw_subs ?w2)[?i := (lw_subs ?w2 ! ?i)\<lparr>sub_close_id := k\<rparr>]\<rparr>"
  have li: "length (idents w) = ?i" by (simp add: idents_def)
  have id1: "idents ?w1 = idents w @ [(sid, ws)]" by (simp add: idents_def)
  have alive1: "alive ?w1 j \<Longrightarrow> alive w j" for j
    using delivery_invD(4) [OF assms, of j] li by (auto simp: alive_iff id1 nth_append split: if_splits)
  have subs: "subs_ok {} w a b" if "(a, b) \<in> set (lw_sessions w)" for a b
    using assms that by (rule delivery_invD(2))
  have "subs_ok {?i} ?w1 a b" if "(a, b) \<in> set (lw_sessions w)" for a b
    using subs [OF that] alive1 li unfolding subs_ok_def by (auto simp: id1 nth_append)
  then have inv1: "delivery_inv {?i} ?w1"
    using assms li by (auto simp: delivery_inv_def id1 sent_ok_def less_Suc_eq)
  have "entries_of ?i ns = []" if "\<forall>e \<in> set ns. fst e < ?i" for ns
    using that by (induction ns) (auto split: notice.splits)
  then have "entries_of ?i (lw_sent w) = []"
    using delivery_invD(3) [OF assms] li by (simp add: sent_ok_def)
  moreover have "?i \<notin> snd ` set (ss_subs b)" if "(a, b) \<in> set (lw_sessions w)" for a b
    using subs [OF that] li by (auto simp: subs_ok_def)
  then have "\<forall>e \<in> set (lw_sessions w). ?i \<notin> snd ` set (ss_subs (snd e))" by (metis prod.collapse)
  ultimately have new: "newcomer ?i ?w1" by (simp add: newcomer_def)
  have inv2: "delivery_inv {?i} ?w2"
    using inv1 new li by (intro manager_subscribe_inv) (simp_all add: id1 nth_append)
  have "fades {?i} ?w2 ?w3" using delivery_invD(3) [OF inv2] k by (rule add_handler_fades)
  then have "delivery_inv {?i} ?w3" by (rule delivery_inv_same_sessions [OF inv2]) simp
  then have "delivery_inv {} ?w3" by (auto simp: delivery_inv_def subs_ok_def)
  then have "delivery_inv {} (collect_sessions ?w3)" by (rule collect_inv)
  with k show ?thesis by (simp add: session_subscribe_handler_def Let_def)
qed

lemma fresh_session_ok [simp]: "ss_subs s = [] \<Longrightarrow> subs_ok fresh w sid s"
  by (simp add: subs_ok_def)

lemma subs_ok_cong:
  "subs_ok fresh w sid s \<Longrightarrow> ss_subs s' = ss_subs s \<Longrightarrow> ss_logs s' = ss_logs s \<Longrightarrow> subs_ok fresh w sid s'"
  by (simp add: subs_ok_def)

lemma notify_end_inv:
  "delivery_inv {} w \<Longrightarrow> (\<And>e. n \<noteq> Log_notice e) \<Longrightarrow> delivery_inv {} (notify_all n subs w)"
  by (rule delivery_inv_same_sessions [OF _ notify_end_fades]) (auto dest: delivery_invD(3))

lemma put_known_inv:
  assumes "delivery_inv {} w" "map_of (lw_sessions w) sid = Some s" "ss_subs s' = ss_subs s" "ss_logs s' = ss_logs s"
  shows "delivery_inv {} (put_session sid s' w)"
  by (rule put_session_inv [OF assms(1) subs_ok_cong [OF session_subs_ok [OF assms(1,2)] assms(3,4)]])

lemma session_ends_inv:
  assumes "delivery_inv {} w"
  shows "delivery_inv {} (session_finish sid w)" and "delivery_inv {} (session_on_timer sid aborted w)"
  using assms
  by (auto simp: session_finish_def session_on_timer_def Let_def split: option.splits
      intro!: notify_end_inv put_known_inv)

lemma session_connect_inv:
  assumes "delivery_inv {} w"
  shows "delivery_inv {} (session_connect sid w)"
proof (cases "map_of (lw_sessions w) sid")
  case None
  with assms show ?thesis
    by (auto simp: session_connect_def establish_def session_new_def intro: put_session_inv)
next
  case (Some s)
  have "ss_subs (establish s) = ss_subs s" "ss_logs (establish s) = ss_logs s"
    by (simp_all add: establish_def)
  with put_known_inv [OF assms Some] Some show ?thesis by (simp add: session_connect_def)
qed

lemma cores_inv: "delivery_inv {} w \<Longrightarrow> delivery_inv {} (w\<lparr>lw_cores := c\<rparr>)"
  by (rule delivery_inv_same_sessions) (auto simp: fades_def dest: delivery_invD(3))

lemma log_step_inv:
  assumes "delivery_inv {} w" "log_step logs i w = Some w'"
  shows "delivery_inv {} w'"
proof (cases i)
  case (Unsubscribe ws sid)
  have "delivery_inv {} (sub_unsubscribe j w)" for j
    by (rule delivery_inv_same_sessions [OF assms(1) sub_unsubscribe_fades])
       (use assms(1) in \<open>auto simp: sub_unsubscribe_def Let_def dest: delivery_invD(3)\<close>)
  with Unsubscribe assms show ?thesis
    by (auto simp: session_unsubscribe_handler_def split: option.splits intro: collect_inv)
next
  case (Ws_closed ws)
  have "delivery_inv {} (w\<lparr>lw_handlers := (lw_handlers w)(ws := [])\<rparr>)"
    by (rule delivery_inv_same_sessions [OF assms(1)])
       (use delivery_invD(3) [OF assms(1)] in \<open>auto simp: fades_def handled_def\<close>)
  with Ws_closed assms show ?thesis by (auto simp: web_socket_closed_def intro: collect_inv)
qed (use assms in \<open>auto simp: core_auth_def core_log_def core_closed_def
       split: option.splits intro: session_subscribe_handler_inv collect_inv cores_inv session_connect_inv
       session_log_inv session_ends_inv\<close>)

text \<open>
  C10. Whatever clients subscribe and unsubscribe, however connections come and go, and in whatever
  order entries, time-outs and ends of sessions arrive: a subscriber that lives and that a session has
  registered has been sent the entries of this session, all of them, once and in order, those from before its
  subscription included, and no entries of another session.
\<close>

theorem subscribers_get_the_log:
  assumes "log_reachable logs w" and "(sid, s) \<in> set (lw_sessions w)" and "(ws, i) \<in> set (ss_subs s)" and "alive w i"
  shows "entries_of i (lw_sent w) = ss_logs s"
proof -
  have "delivery_inv {} w" using assms(1)
  proof (induction rule: log_reachable.induct)
    case start
    then show ?case by (simp add: delivery_inv_def no_sessions_def sent_ok_def handled_def)
  next
    case (step w i w')
    then show ?case by (blast intro: log_step_inv)
  qed
  from delivery_invD(2) [OF this assms(2)] assms(3,4) show ?thesis by (auto simp: subs_ok_def)
qed

definition demo_entry :: "string \<Rightarrow> log_entry" where
  "demo_entry m = \<lparr>le_time = 0, le_action = ''log'', le_message = m\<rparr>"

theorem subscribers_get_the_log_witness:
  "\<exists>w. log_run (\<lambda>_. None)
      [Core_auth 0 ''s'', Core_log 0 (demo_entry ''a''), Subscribe 77 1 ''s'', Core_log 0 (demo_entry ''b'')]
      no_sessions = Some w
     \<and> entries_of 0 (lw_sent w) = [demo_entry ''a'', demo_entry ''b'']"
proof -
  let ?is = "[Core_auth 0 ''s'', Core_log 0 (demo_entry ''a''), Subscribe 77 1 ''s'', Core_log 0 (demo_entry ''b'')]"
  let ?r = "log_run (\<lambda>_. None) ?is no_sessions"
  have r: "?r \<noteq> None" by code_simp
  have e: "map (\<lambda>(sid, s). (sid, ss_subs s, ss_logs s)) (lw_sessions (the ?r))
      = [(''s'', [(1, 0)], [demo_entry ''a'', demo_entry ''b''])]" by code_simp
  have al: "alive (the ?r) 0" by code_simp
  from r obtain w where w: "?r = Some w" by blast
  with e obtain s where s: "(''s'', s) \<in> set (lw_sessions w)" "(1, 0) \<in> set (ss_subs s)"
    "ss_logs s = [demo_entry ''a'', demo_entry ''b'']"
    by (auto simp del: log_run.simps)
  from log_run_reachable [OF log_reachable.start w] have "log_reachable (\<lambda>_. None) w" .
  from subscribers_get_the_log [OF this s(1,2)] al s(3) w show ?thesis by (simp del: log_run.simps)
qed

section \<open>Subscribing again\<close>

lemma reachable_inv: "log_reachable logs w \<Longrightarrow> delivery_inv {} w"
proof (induction rule: log_reachable.induct)
  case start
  then show ?case by (simp add: delivery_inv_def no_sessions_def sent_ok_def handled_def)
next
  case (step w i w')
  then show ?case by (blast intro: log_step_inv)
qed

lemma map_insert_present: "ordered_keys m \<Longrightarrow> map_of m k \<noteq> None \<Longrightarrow> map_insert k v m = m"
  by (induction k v m rule: map_insert.induct) (fastforce dest: map_of_SomeD split: if_splits)+

lemma map_assign_same: "ordered_keys m \<Longrightarrow> map_of m k = Some v \<Longrightarrow> map_assign k v m = m"
  by (induction k v m rule: map_assign.induct) (fastforce dest: map_of_SomeD split: if_splits)+

lemma no_entries: "\<forall>e \<in> set ns. fst e < i \<Longrightarrow> entries_of i ns = []"
  by (induction ns) (auto split: notice.splits)

text \<open>
  A web socket that subscribes to a running session for a second time, after it has unsubscribed or not, is
  sent the entries that are there, but is not registered: the place of the first subscription is taken, even if it is
  dead. No later entry reaches it.
\<close>

theorem second_subscription_is_deaf:
  assumes "log_reachable logs w" and "map_of (lw_sessions w) sid = Some s" and "ss_phase s = In_progress"
    and "\<not> ss_offline s" and "map_of (ss_subs s) ws \<noteq> None"
    and "w' = session_subscribe_handler logs junk ws sid w"
  shows "entries_of (length (lw_subs w)) (lw_sent w') = ss_logs s
         \<and> entries_of (length (lw_subs w)) (lw_sent (session_log sid e w')) = ss_logs s"
proof -
  let ?i = "length (lw_subs w)"
  have inv: "delivery_inv {} w" using assms(1) by (rule reachable_inv)
  have so: "subs_ok {} w sid s" using inv assms(2) by (rule session_subs_ok)
  then have same: "map_insert ws ?i (ss_subs s) = ss_subs s"
    using assms(5) by (intro map_insert_present) (auto simp: subs_ok_def)
  have li: "length (idents w) = ?i" by (simp add: idents_def)
  then have not: "?i \<notin> snd ` set (ss_subs s)" using so by (auto simp: subs_ok_def)
  have ord: "ordered_keys (lw_sessions w)" using inv by (rule delivery_invD(1))
  have sess: "map_assign sid (s\<lparr>ss_subs := ss_subs s\<rparr>) (lw_sessions w) = lw_sessions w"
    using assms(2) ord by (simp add: map_assign_same)
  have sent: "lw_sent w' = lw_sent w @ map (\<lambda>e. (?i, Log_notice e)) (ss_logs s)"
    using assms(2-4) unfolding assms(6)
    by (simp add: session_subscribe_handler_def Let_def case_prod_beta collect_sessions_def manager_subscribe_def
        session_subscribe_def send_backlog_eq set_holds_def put_session_def)
  have sub: "set (lw_sessions w') \<subseteq> set (lw_sessions w)"
    using assms(2-4) same sess unfolding assms(6)
    by (auto simp: session_subscribe_handler_def Let_def case_prod_beta collect_sessions_def manager_subscribe_def
        session_subscribe_def send_backlog_eq set_holds_def put_session_def)
  have old: "entries_of ?i (lw_sent w) = []"
    using delivery_invD(3) [OF inv] li by (intro no_entries) (simp add: sent_ok_def)
  then have first: "entries_of ?i (lw_sent w') = ss_logs s" by (simp add: sent entries_of_backlog)
  have "entries_of ?i (lw_sent (session_log sid e w')) = entries_of ?i (lw_sent w')"
  proof (cases "map_of (lw_sessions w') sid")
    case None
    then show ?thesis by (simp add: session_log_def)
  next
    case (Some s')
    then have "(sid, s') \<in> set (lw_sessions w)" using sub map_of_SomeD by fastforce
    then have "s' = s" using assms(2) ord by (simp add: ordered_map_of)
    with not have "filter (\<lambda>x. snd x = ?i) (filter (\<lambda>x. alive (put_session sid (s'\<lparr>ss_logs := ss_logs s' @ [e]\<rparr>) w') (snd x)) (ss_subs s')) = []"
      by (force simp: filter_empty_conv)
    with Some show ?thesis
      by (simp add: session_log_def notify_log entries_of_notified del: filter_filter put_session_simps(3))
  qed
  with first show ?thesis by simp
qed

theorem second_subscription_is_deaf_witness:
  "\<exists>w. log_run (\<lambda>_. None) [Core_auth 0 ''s'', Subscribe 77 1 ''s'', Unsubscribe 1 ''s''] no_sessions = Some w
     \<and> entries_of 1 (lw_sent (session_log ''s'' (demo_entry ''a'')
          (session_subscribe_handler (\<lambda>_. None) 77 1 ''s'' w))) = []"
proof -
  let ?r = "log_run (\<lambda>_. None) [Core_auth 0 ''s'', Subscribe 77 1 ''s'', Unsubscribe 1 ''s''] no_sessions"
  have r: "?r \<noteq> None" by code_simp
  have s: "map_of (lw_sessions (the ?r)) ''s''
      = Some \<lparr>ss_offline = False, ss_phase = In_progress, ss_timer = True, ss_logs = [], ss_subs = [(1, 0)]\<rparr>"
    by code_simp
  have l: "length (lw_subs (the ?r)) = 1" by code_simp
  from r obtain w where w: "?r = Some w" by blast
  from log_run_reachable [OF log_reachable.start w] have "log_reachable (\<lambda>_. None) w" .
  from second_subscription_is_deaf [OF this, of "''s''" _ 1 _ 77 "demo_entry ''a''", OF _ _ _ _ refl] s l w
  show ?thesis by (simp del: log_run.simps)
qed

section \<open>Sessions that never start\<close>

text \<open>
  A client that asks for a session that the core does not join is told so: the time-out of the session
  reaches the subscriber, unless the connection ran out of ids for its close handlers.
\<close>

theorem unestablished_session_is_reported:
  assumes "log_reachable logs w" and "map_of (lw_sessions w) sid = None" and "logs sid = None"
    and "lw_handlers w ws = []"
    and "log_run logs [Subscribe junk ws sid, Timer sid False] w = Some w'"
  shows "(length (lw_subs w), Not_established) \<in> set (lw_sent w') \<and> \<not> alive w' (length (lw_subs w))"
proof -
  let ?i = "length (lw_subs w)"
  have ord: "ordered_keys (lw_sessions w)" using reachable_inv [OF assms(1)] by (rule delivery_invD(1))
  let ?w1 = "session_subscribe_handler logs junk ws sid w"
  let ?s = "session_new\<lparr>ss_subs := [(ws, ?i)]\<rparr>"
  have subs: "lw_subs ?w1 = lw_subs w @ [\<lparr>sub_session = sid, sub_ws = ws, sub_holds = True, sub_close_id = 0\<rparr>]"
    and handlers: "lw_handlers ?w1 = (lw_handlers w)(ws := [(0, ?i)])"
    using assms(2-4)
    by (simp_all add: session_subscribe_handler_def Let_def case_prod_beta collect_sessions_def manager_subscribe_def
        session_subscribe_def send_backlog_eq set_holds_def put_session_def session_new_def add_close_handler_def ord)
  let ?l = "map_assign sid ?s (map_assign sid session_new (lw_sessions w))"
  have "(sid, ?s) \<in> set ?l" using ord by (simp add: ordered_map_of)
  moreover have "\<exists>P. lw_sessions ?w1 = filter P ?l \<and> P (sid, ?s)"
    using assms(2-4)
    by (simp add: session_subscribe_handler_def Let_def case_prod_beta collect_sessions_def manager_subscribe_def
        session_subscribe_def send_backlog_eq set_holds_def put_session_def session_new_def add_close_handler_def)
       (auto simp: session_held_def)
  ultimately have "(sid, ?s) \<in> set (lw_sessions ?w1)" by auto
  moreover have "ordered_keys (lw_sessions ?w1)"
    using session_subscribe_handler_inv [OF reachable_inv [OF assms(1)]] by (rule delivery_invD(1))
  ultimately have sess: "map_of (lw_sessions ?w1) sid = Some ?s" by (simp add: ordered_map_of)
  have alive: "alive ?w1 ?i" by (simp add: alive_def subs handlers)
  let ?w2 = "put_session sid (?s\<lparr>ss_timer := False, ss_phase := Unestablished\<rparr>) ?w1"
  have "w' = collect_sessions (sub_notice ?i Not_established ?w2)"
    using assms(5) sess alive
    by (simp add: session_on_timer_def Let_def notify_all_def session_new_def)
  then show ?thesis
    by (simp add: collect_sessions_def sub_notice_def sub_send_def sub_unsubscribe_def Let_def alive_def
        put_session_def subs handlers remove_close_handler_def)
qed

theorem unestablished_session_is_reported_witness:
  "\<exists>w'. log_run (\<lambda>_. None) [Subscribe 77 1 ''s'', Timer ''s'' False] no_sessions = Some w'
     \<and> (0, Not_established) \<in> set (lw_sent w')"
proof -
  have "log_run (\<lambda>_. None) [Subscribe 77 1 ''s'', Timer ''s'' False] no_sessions \<noteq> None" by simp
  then obtain w' where w': "log_run (\<lambda>_. None) [Subscribe 77 1 ''s'', Timer ''s'' False] no_sessions = Some w'" by blast
  from unestablished_session_is_reported [OF log_reachable.start _ _ _ w'] w' show ?thesis
    by (simp add: no_sessions_def del: log_run.simps)
qed

end
