(* ===== verification/Log_Files.thy ===== *)
theory Log_Files
  imports Log_Sessions
begin

text \<open>
  The logs of sessions that ended earlier (\<^verbatim>\<open>offline_session\<close>): the file is read line by line, and
  the lines that have the form of an entry become the log. Reading the date
  (\<^verbatim>\<open>std::get_time\<close>, \<^verbatim>\<open>mktime\<close>) depends on the time zone and is an argument.
\<close>

section \<open>The files of earlier sessions\<close>

definition combined_log_regex :: regex where
  "combined_log_regex =
     (let digits = (\<lambda>k. Repeat k (Some k) True (Class is_digit)); dash = text_regex ''-'';
          delimiter = [plus (Class is_space), text_regex ''|'', plus (Class is_space)]
      in sequence ([Group 1 (sequence [digits 4, dash, digits 2, dash, digits 2, dash, digits 2, dash, digits 2,
             dash, digits 2])] @ delimiter
           @ [Group 2 (Repeat 1 (Some 8) True (Class is_digit))] @ delimiter
           @ [Group 3 (Repeat 1 (Some 8) True (Class is_digit))] @ delimiter
           @ [Group 4 (plus (Class (\<lambda>c. (CHR ''a'' \<le> c \<and> c \<le> CHR ''z'') \<or> c = CHR ''_'')))] @ delimiter
           @ [Group 5 (star (Class any_char))]))"

text \<open>Lines as \<^verbatim>\<open>std::getline\<close> gives them: text after the last end of line is a line.\<close>

function file_lines :: "string \<Rightarrow> string list" where
  "file_lines input =
     (if input = [] then []
      else takeWhile (\<lambda>c. c \<noteq> CHR 0x0A) input # file_lines (tl (dropWhile (\<lambda>c. c \<noteq> CHR 0x0A) input)))"
  by auto

termination
proof (relation "measure length", goal_cases)
  case (2 input)
  then show ?case
    using length_dropWhile_le [of "\<lambda>c. c \<noteq> CHR 0x0A" input] by (cases input) (auto simp: less_Suc_eq_le intro: le_trans [OF diff_le_self])
qed simp

declare file_lines.simps [simp del]

definition parse_log_line :: "(string \<Rightarrow> int) \<Rightarrow> string \<Rightarrow> log_entry option" where
  "parse_log_line to_time line =
     (case regex_match combined_log_regex line of
        None \<Rightarrow> None
      | Some c \<Rightarrow> Some \<lparr>le_time = to_time (captured c 1), le_action = captured c 4, le_message = captured c 5\<rparr>)"

definition offline_log :: "(string \<Rightarrow> int) \<Rightarrow> string \<Rightarrow> log_entry list" where
  "offline_log to_time input = List.map_filter (parse_log_line to_time) (file_lines input)"

section \<open>Greedy classes\<close>

text \<open>An expression that matches at no text that begins with a character of the class.\<close>

definition rejects :: "nat \<Rightarrow> regex \<Rightarrow> (char \<Rightarrow> bool) \<Rightarrow> bool" where
  "rejects n r P \<longleftrightarrow> (\<forall>x xs c. P x \<longrightarrow> ways n r (x # xs, c) = [])"

definition no_front :: "(char \<Rightarrow> bool) \<Rightarrow> string \<Rightarrow> bool" where
  "no_front P s \<longleftrightarrow> (s = [] \<or> \<not> P (hd s))"

lemma takeWhile_front: "\<forall>x \<in> set w. P x \<Longrightarrow> no_front P s \<Longrightarrow> takeWhile P (w @ s) = w"
  by (cases s) (auto simp: no_front_def takeWhile_append)

lemma ways_repeat_class:
  assumes "\<forall>x \<in> set w. P x" "no_front P s" "case hi of None \<Rightarrow> True | Some h \<Rightarrow> length w \<le> h" "lo \<le> length w"
  shows "ways n (Repeat lo hi True (Class P)) (w @ s, c)
     = (s, c) # map (\<lambda>i. (drop i w @ s, c)) (rev [lo..<length w])"
proof -
  have "ways n (Repeat lo hi True (Class P)) (w @ s, c)
      = map (\<lambda>i. (drop i (w @ s), c)) (rev [lo..<Suc (length w)])"
    using assms(3,4) takeWhile_front [OF assms(1,2)]
    by (simp add: iterate_class_greedy min_def split: option.splits del: upt_Suc)
  also have "\<dots> = (s, c) # map (\<lambda>i. (drop i w @ s, c)) (rev [lo..<length w])"
    using assms(4) by (auto intro!: map_cong)
  finally show ?thesis .
qed

lemma concat_map_Nil: "\<forall>x \<in> set xs. f x = [] \<Longrightarrow> concat (map f xs) = []"
  by (induction xs) auto

lemma rejects_rest:
  assumes "rejects n r P" "\<forall>x \<in> set w. P x"
  shows "concat (map (\<lambda>i. ways n r (drop i w @ s, f i)) (rev [lo..<length w])) = []"
proof (rule concat_map_Nil, rule ballI)
  fix i
  assume "i \<in> set (rev [lo..<length w])"
  then have i: "i < length w" by simp
  then have "drop i w @ s = (w ! i) # drop (Suc i) w @ s" by (simp add: Cons_nth_drop_Suc flip: append_Cons)
  moreover have "P (w ! i)" using assms(2) i by simp
  ultimately show "ways n r (drop i w @ s, f i) = []" using assms(1) by (simp add: rejects_def)
qed

text \<open>A field, and a stretch of text that is not captured, each up to a character of another class.\<close>

lemma ways_field:
  assumes "\<forall>x \<in> set w. P x" "no_front P s" "case hi of None \<Rightarrow> True | Some h \<Rightarrow> length w \<le> h" "lo \<le> length w"
    and "rejects n r P"
  shows "ways n (Sequence (Group i (Repeat lo hi True (Class P))) r) (w @ s, c) = ways n r (s, (i, w) # c)"
  using rejects_rest [OF assms(5,1), of s "\<lambda>k. (i, take (length w + length s - (length w - k + length s)) (w @ s)) # c" lo]
  by (simp add: ways_repeat_class [OF assms(1-4)] comp_def del: ways.simps(5))

lemma ways_stretch:
  assumes "\<forall>x \<in> set w. P x" "no_front P s" "case hi of None \<Rightarrow> True | Some h \<Rightarrow> length w \<le> h" "lo \<le> length w"
    and "rejects n r P"
  shows "ways n (Sequence (Repeat lo hi True (Class P)) r) (w @ s, c) = ways n r (s, c)"
  using rejects_rest [OF assms(5,1), of s "\<lambda>_. c" lo]
  by (simp add: ways_repeat_class [OF assms(1-4)] comp_def del: ways.simps(5))

lemma rejects_text: "\<not> P y \<Longrightarrow> rejects n (Sequence (text_regex (y # ys)) r) P"
  by (auto simp: rejects_def)

lemma rejects_class:
  "(\<And>x. P x \<Longrightarrow> \<not> Q x) \<Longrightarrow> lo > 0 \<Longrightarrow> rejects n (Sequence (Repeat lo hi True (Class Q)) r) P"
  "(\<And>x. P x \<Longrightarrow> \<not> Q x) \<Longrightarrow> lo > 0 \<Longrightarrow> rejects n (Sequence (Group i (Repeat lo hi True (Class Q))) r) P"
  by (auto simp: rejects_def iterate_class_greedy simp del: upt_Suc)

lemma ways_text_step: "ways n (Sequence (text_regex w) r) (w @ s, c) = ways n r (s, c)"
  by simp

lemma ways_exact:
  assumes "\<forall>x \<in> set w. P x" "length w = k"
  shows "ways n (Sequence (Repeat k (Some k) True (Class P)) r) (w @ s, c) = ways n r (s, c)"
proof -
  have "k \<le> length (takeWhile P (w @ s))" using assms by (simp add: takeWhile_append)
  then show ?thesis using assms(2) by (simp add: iterate_class_greedy min_def del: upt_Suc) simp
qed

section \<open>Reading a printed log\<close>

definition delimiter :: string where "delimiter = '' | ''"

definition print_date :: "string list \<Rightarrow> string" where
  "print_date ds = ds ! 0 @ ''-'' @ ds ! 1 @ ''-'' @ ds ! 2 @ ''-'' @ ds ! 3 @ ''-'' @ ds ! 4 @ ''-'' @ ds ! 5"

definition print_log_line :: "string list \<Rightarrow> string \<Rightarrow> string \<Rightarrow> string \<Rightarrow> string \<Rightarrow> string" where
  "print_log_line ds ppid pid action msg =
     print_date ds @ delimiter @ ppid @ delimiter @ pid @ delimiter @ action @ delimiter @ msg"

definition digits_of :: "nat \<Rightarrow> string \<Rightarrow> bool" where
  "digits_of k w \<longleftrightarrow> length w = k \<and> (\<forall>c \<in> set w. is_digit c)"

definition date_ok :: "string list \<Rightarrow> bool" where
  "date_ok ds \<longleftrightarrow> length ds = 6 \<and> digits_of 4 (ds ! 0) \<and> (\<forall>i \<in> {1..<6}. digits_of 2 (ds ! i))"

definition action_char :: "char \<Rightarrow> bool" where
  "action_char c \<longleftrightarrow> (CHR ''a'' \<le> c \<and> c \<le> CHR ''z'') \<or> c = CHR ''_''"

definition date_regex :: regex where
  "date_regex = (let digits = (\<lambda>k. Repeat k (Some k) True (Class is_digit)); dash = text_regex ''-''
     in sequence [digits 4, dash, digits 2, dash, digits 2, dash, digits 2, dash, digits 2, dash, digits 2])"

lemma ways_date:
  assumes "date_ok ds"
  shows "ways n date_regex (print_date ds @ s, c) = [(s, c)]"
proof -
  have d: "digits_of 4 (ds ! 0)" "digits_of 2 (ds ! 1)" "digits_of 2 (ds ! 2)" "digits_of 2 (ds ! 3)"
    "digits_of 2 (ds ! 4)" "digits_of 2 (ds ! 5)"
    using assms by (simp_all add: date_ok_def)
  have step: "ways n (Sequence (Repeat k (Some k) True (Class is_digit)) r) (w @ t, c) = ways n r (t, c)"
    if "digits_of k w" for k w r t
    using that by (intro ways_exact) (simp_all add: digits_of_def)
  show ?thesis
    unfolding date_regex_def print_date_def Let_def sequence.simps append.assoc
    by (simp only: step [OF d(1)] step [OF d(2)] step [OF d(3)] step [OF d(4)] step [OF d(5)] step [OF d(6)]
        ways_text_step) simp
qed

definition delimited :: "regex \<Rightarrow> regex" where
  "delimited r = Sequence (plus (Class is_space)) (Sequence (text_regex ''|'') (Sequence (plus (Class is_space)) r))"

lemma ways_delimited:
  assumes "no_front is_space s"
  shows "ways n (delimited r) (delimiter @ s, c) = ways n r (s, c)"
proof -
  have sp: "is_space (CHR '' '')" "\<not> is_space (CHR ''|'')" by (simp_all add: is_space_def)
  have blank: "ways n (Sequence (plus (Class is_space)) r) ('' '' @ t, c) = ways n r (t, c)" if "no_front is_space t" for r t
    using ways_repeat_class [of "'' ''" is_space t None 1 n c] sp that by (simp del: ways.simps(5))
  have "ways n (delimited r) ('' '' @ ''|'' @ '' '' @ s, c)
      = ways n (Sequence (text_regex ''|'') (Sequence (plus (Class is_space)) r)) (''|'' @ '' '' @ s, c)"
    unfolding delimited_def using sp by (intro blank) (simp add: no_front_def)
  also have "\<dots> = ways n (Sequence (plus (Class is_space)) r) ('' '' @ s, c)" by (rule ways_text_step)
  also have "\<dots> = ways n r (s, c)" using assms by (rule blank)
  finally show ?thesis by (simp add: delimiter_def)
qed

lemma rejects_delimited: "(\<And>x. P x \<Longrightarrow> \<not> is_space x) \<Longrightarrow> rejects n (delimited r) P"
  unfolding delimited_def by (rule rejects_class) simp_all

lemma combined_log_regex_eq:
  "combined_log_regex =
     Sequence (Group 1 date_regex) (delimited
       (Sequence (Group 2 (Repeat 1 (Some 8) True (Class is_digit))) (delimited
         (Sequence (Group 3 (Repeat 1 (Some 8) True (Class is_digit))) (delimited
           (Sequence (Group 4 (plus (Class action_char))) (delimited
             (Sequence (Group 5 (star (Class any_char))) Empty))))))))"
  by (simp add: combined_log_regex_def date_regex_def delimited_def action_char_def [abs_def] Let_def)

lemma action_char_class: "action_char c \<Longrightarrow> \<not> is_space c" "action_char c \<Longrightarrow> \<not> is_digit c"
  by (auto simp: action_char_def is_space_def is_digit_def less_eq_char_def)

lemma no_front_append: "w \<noteq> [] \<Longrightarrow> (\<And>x. x \<in> set w \<Longrightarrow> \<not> P x) \<Longrightarrow> no_front P (w @ t)"
  by (simp add: no_front_def)

lemma no_front_delimiter: "no_front is_digit (delimiter @ t)" "no_front action_char (delimiter @ t)"
  by (simp_all add: no_front_def delimiter_def is_digit_def action_char_def less_eq_char_def)

lemma ways_captured_exact:
  assumes "ways n r (w @ s, c) = [(s, c)]"
  shows "ways n (Sequence (Group i r) r') (w @ s, c) = ways n r' (s, (i, w) # c)"
  using assms by simp

text \<open>A captured field and the delimiter after it.\<close>

lemma ways_log_field:
  assumes "\<forall>x \<in> set w. P x" "case hi of None \<Rightarrow> True | Some h \<Rightarrow> length w \<le> h" "lo \<le> length w"
    and "\<And>x. P x \<Longrightarrow> \<not> is_space x" "no_front P (delimiter @ s)" "no_front is_space s"
  shows "ways n (Sequence (Group i (Repeat lo hi True (Class P))) (delimited r)) (w @ delimiter @ s, c)
     = ways n r (s, (i, w) # c)"
  using ways_field [OF assms(1,5,2,3) rejects_delimited [OF assms(4)]] ways_delimited [OF assms(6)] by simp

lemma ways_log_line:
  assumes "date_ok ds" "\<forall>c \<in> set ppid. is_digit c" "\<forall>c \<in> set pid. is_digit c"
    and "length ppid \<le> 8" "1 \<le> length ppid" "length pid \<le> 8" "1 \<le> length pid" "1 \<le> length action"
    and "\<forall>c \<in> set action. action_char c" "no_front is_space msg"
  shows "ways n combined_log_regex (print_log_line ds ppid pid action msg, [])
     = ways n (Sequence (Group 5 (star (Class any_char))) Empty)
         (msg, [(4, action), (3, pid), (2, ppid), (1, print_date ds)])"
proof -
  have front: "no_front is_space (ppid @ t)" "no_front is_space (pid @ t)" "no_front is_space (action @ t)" for t
    using assms(2,3,5,7-9) is_digit_not_space action_char_class(1) by (intro no_front_append; force)+
  have number: "ways n (Sequence (Group i (Repeat 1 (Some 8) True (Class is_digit))) (delimited r)) (w @ delimiter @ s, c)
      = ways n r (s, (i, w) # c)"
    if "\<forall>c \<in> set w. is_digit c" "length w \<le> 8" "1 \<le> length w" "no_front is_space s" for w i r s c
    using that by (intro ways_log_field) (simp_all add: is_digit_not_space no_front_delimiter)
  have word: "ways n (Sequence (Group i (plus (Class action_char))) (delimited r)) (action @ delimiter @ msg, c)
      = ways n r (msg, (i, action) # c)" for i r c
    using assms(8-10) by (intro ways_log_field) (simp_all add: action_char_class no_front_delimiter)
  show ?thesis
    unfolding combined_log_regex_eq print_log_line_def
    by (simp only: ways_captured_exact [OF ways_date [OF assms(1)]] ways_delimited [OF front(1)]
        number [OF assms(2,4,5) front(2)] number [OF assms(3,6,7) front(3)] word)
qed

lemma find_hd: "xs \<noteq> [] \<Longrightarrow> P (hd xs) \<Longrightarrow> find P xs = Some (hd xs)"
  by (cases xs) simp_all

text \<open>
  The lines of a log that were printed are read back: time, action and message of every entry, for
  messages that neither contain an end of line nor begin with a blank.
\<close>

theorem parse_printed_log_line:
  assumes "date_ok ds" and "\<forall>c \<in> set (ppid @ pid). is_digit c"
    and "length ppid \<in> {1..8}" and "length pid \<in> {1..8}"
    and "action \<noteq> []" and "\<forall>c \<in> set action. action_char c"
    and "\<forall>c \<in> set msg. any_char c" and "no_front is_space msg"
  shows "parse_log_line to_time (print_log_line ds ppid pid action msg)
     = Some \<lparr>le_time = to_time (print_date ds), le_action = action, le_message = msg\<rparr>"
proof -
  let ?c = "[(4, action), (3, pid), (2, ppid), (1, print_date ds)]"
  have "length (takeWhile any_char msg) = length msg" using assms(7) by (simp add: takeWhile_eq_all_conv [THEN iffD2])
  then have "hd (ways n (Sequence (Group 5 (star (Class any_char))) Empty) (msg, ?c)) = ([], (5, msg) # ?c)
      \<and> ways n (Sequence (Group 5 (star (Class any_char))) Empty) (msg, ?c) \<noteq> []" for n
    by (simp add: iterate_class_greedy comp_def)
  moreover have "ways n combined_log_regex (print_log_line ds ppid pid action msg, [])
      = ways n (Sequence (Group 5 (star (Class any_char))) Empty) (msg, ?c)" for n
    using assms by (intro ways_log_line) (auto simp: Suc_le_eq)
  ultimately have "regex_match combined_log_regex (print_log_line ds ppid pid action msg) = Some ((5, msg) # ?c)"
    unfolding regex_match_def by (simp add: find_hd)
  then show ?thesis by (simp add: parse_log_line_def captured_def)
qed

theorem parse_printed_log_line_witness:
  "parse_log_line (\<lambda>d. int (length d))
       (print_log_line [''2020'', ''01'', ''02'', ''03'', ''04'', ''05''] ''12'' ''345'' ''run_job'' ''ok'')
     = Some \<lparr>le_time = 19, le_action = ''run_job'', le_message = ''ok''\<rparr>"
  by (subst parse_printed_log_line)
    (simp_all add: date_ok_def digits_of_def is_digit_def action_char_def any_char_def no_front_def is_space_def
      print_date_def less_eq_char_def atLeastLessThan_nat_numeral)

end
