(* ===== verification/Http_Session.thy ===== *)
theory Http_Session
  imports Ws_Session
begin

text \<open>
  One HTTP connection: \<^verbatim>\<open>src/net/http_session.cpp\<close> and \<^verbatim>\<open>include/net/http_session.h\<close>. Requests are read
  one after the other, the header first and the body as the handler of the header decides; responses are queued and
  written one at a time, and the next request is read while they are, up to a limit. The operations of the socket are
  outstanding until their completion is delivered.

  The application is an argument: what it does with a header, how the bytes of a body are read into a value, and what it
  does with that. \<open>'q\<close> are headers, \<open>'b\<close> the bytes of bodies, \<open>'v\<close> their values, \<open>'k\<close> the callbacks for bodies, \<open>'r\<close>
  responses and \<open>'w\<close> the state of the application.

  The locale states what the connection needs of the application; the lemmas: the queue is bounded, responses
  are written in order, the parser has the type that is asked for, and the connection goes on. Where a parser is replaced while it
  reads, the program is undefined; pipelined requests can bring this about.
\<close>

section \<open>State\<close>

text \<open>\<^verbatim>\<open>std::any\<close>-like wrapper of the parser: the body type that it was made for.\<close>

datatype parser_kind = Header_parser | Sink_parser | String_parser | Form_parser

text \<open>The read that is outstanding; a body without a callback is thrown away.\<close>

datatype 'k read_op = Read_header | Read_body parser_kind "'k option"

datatype http_expiry = Never | At int | Upgraded

record ('r, 'k) http_conn =
  hc_items :: "'r list"
  hc_writes :: nat
  hc_read :: "'k read_op option"
  hc_parser :: parser_kind
  hc_done :: bool
  hc_expiry :: http_expiry
  hc_waiting :: bool
  hc_open :: bool
  hc_shut :: bool
  hc_sent :: "'r list"

definition http_conn_new :: "('r, 'k) http_conn" where
  "http_conn_new = \<lparr>hc_items = [], hc_writes = 0, hc_read = None, hc_parser = Header_parser, hc_done = False,
     hc_expiry = Never, hc_waiting = False, hc_open = True, hc_shut = False, hc_sent = []\<rparr>"

text \<open>
  What a step may end in instead of a state: the parser of an outstanding read is destroyed, a parser is cast to a wrong
  type, the reader of a body is undefined, or a handler does not return.
\<close>

datatype http_error = Parser_in_use | Bad_parser_cast | Body_undefined | Handler_hangs

section \<open>The queue\<close>

definition http_limit :: nat where "http_limit = 8"

definition http_is_full :: "('r, 'k) http_conn \<Rightarrow> bool" where
  "http_is_full s \<longleftrightarrow> length (hc_items s) \<ge> http_limit"

definition http_start_write :: "('r, 'k) http_conn \<Rightarrow> ('r, 'k) http_conn" where
  "http_start_write s = s\<lparr>hc_writes := Suc (hc_writes s)\<rparr>"

definition queue_send :: "'r \<Rightarrow> ('r, 'k) http_conn \<Rightarrow> ('r, 'k) http_conn" where
  "queue_send r s =
     (let s = s\<lparr>hc_items := hc_items s @ [r]\<rparr> in if length (hc_items s) = 1 then http_start_write s else s)"

definition http_queue_on_write :: "('r, 'k) http_conn \<Rightarrow> bool \<times> ('r, 'k) http_conn" where
  "http_queue_on_write s =
     (let was_full = http_is_full s;
          s = s\<lparr>hc_items := tl (hc_items s), hc_sent := hc_sent s @ [hd (hc_items s)]\<rparr>
      in (was_full, if hc_items s \<noteq> [] then http_start_write s else s))"

section \<open>The reader of requests\<close>

definition get_parser :: "parser_kind \<Rightarrow> ('r, 'k) http_conn \<Rightarrow> http_error + unit" where
  "get_parser kind s = (if hc_parser s = kind then Inr () else Inl Bad_parser_cast)"

definition set_parser :: "parser_kind \<Rightarrow> ('r, 'k) http_conn \<Rightarrow> http_error + ('r, 'k) http_conn" where
  "set_parser kind s = (if hc_read s \<noteq> None then Inl Parser_in_use else Inr (s\<lparr>hc_parser := kind\<rparr>))"

definition upgrade_parser :: "parser_kind \<Rightarrow> ('r, 'k) http_conn \<Rightarrow> http_error + ('r, 'k) http_conn" where
  "upgrade_parser kind s =
     (case get_parser Header_parser s of Inl e \<Rightarrow> Inl e | Inr _ \<Rightarrow> set_parser kind s)"

definition reader_prepare :: "('r, 'k) http_conn \<Rightarrow> http_error + ('r, 'k) http_conn" where
  "reader_prepare s = set_parser Header_parser (s\<lparr>hc_done := False\<rparr>)"

definition async_read_body :: "parser_kind \<Rightarrow> 'k \<Rightarrow> ('r, 'k) http_conn \<Rightarrow> http_error + ('r, 'k) http_conn" where
  "async_read_body kind k s =
     (case upgrade_parser kind s of
        Inl e \<Rightarrow> Inl e
      | Inr s \<Rightarrow> Inr (s\<lparr>hc_read := Some (Read_body kind (Some k)), hc_done := True\<rparr>))"

definition reader_done :: "('r, 'k) http_conn \<Rightarrow> http_error + ('r, 'k) http_conn" where
  "reader_done s =
     (if hc_done s then Inr s
      else case upgrade_parser Sink_parser s of
             Inl e \<Rightarrow> Inl e
           | Inr s \<Rightarrow> Inr (s\<lparr>hc_read := Some (Read_body Sink_parser None), hc_done := True\<rparr>))"

section \<open>The connection\<close>

definition do_read_header :: "int \<Rightarrow> ('r, 'k) http_conn \<Rightarrow> http_error + ('r, 'k) http_conn" where
  "do_read_header now s =
     (case reader_prepare (s\<lparr>hc_expiry := At (now + 15)\<rparr>) of
        Inl e \<Rightarrow> Inl e
      | Inr s \<Rightarrow> Inr (s\<lparr>hc_read := Some Read_header\<rparr>))"

definition http_do_close :: "('r, 'k) http_conn \<Rightarrow> ('r, 'k) http_conn" where
  "http_do_close s = s\<lparr>hc_shut := True\<rparr>"

definition http_on_timer :: "completion \<Rightarrow> int \<Rightarrow> ('r, 'k) http_conn \<Rightarrow> ('r, 'k) http_conn" where
  "http_on_timer ec now s =
     (if ec \<noteq> Done \<and> ec \<noteq> Aborted then s
      else case hc_expiry s of
             Upgraded \<Rightarrow> s
           | At t \<Rightarrow> (if t \<le> now then s\<lparr>hc_open := False, hc_shut := True\<rparr> else s\<lparr>hc_waiting := True\<rparr>)
           | Never \<Rightarrow> s\<lparr>hc_waiting := True\<rparr>)"

definition http_run_session :: "int \<Rightarrow> ('r, 'k) http_conn \<Rightarrow> http_error + ('r, 'k) http_conn" where
  "http_run_session now s = do_read_header now (http_on_timer Done now s)"

text \<open>The flag: the header asks for an upgrade to a web socket.\<close>

definition http_on_read_header ::
    "('q \<Rightarrow> 'w \<times> ('r, 'k) http_conn \<Rightarrow> http_error + 'w \<times> ('r, 'k) http_conn)
       \<Rightarrow> ('q \<Rightarrow> 'w \<times> ('r, 'k) http_conn \<Rightarrow> http_error + 'w \<times> ('r, 'k) http_conn)
       \<Rightarrow> completion \<Rightarrow> bool \<Rightarrow> 'q \<Rightarrow> 'w \<times> ('r, 'k) http_conn \<Rightarrow> http_error + 'w \<times> ('r, 'k) http_conn" where
  "http_on_read_header handle_header handle_upgrade ec upgrade q = (\<lambda>(w, s).
     case ec of
       Aborted \<Rightarrow> Inr (w, s)
     | Closed \<Rightarrow> Inr (w, http_do_close s)
     | Failed \<Rightarrow> Inr (w, s)
     | Done \<Rightarrow>
         (case get_parser Header_parser s of
            Inl e \<Rightarrow> Inl e
          | Inr _ \<Rightarrow>
              (if upgrade then handle_upgrade q (w, s\<lparr>hc_expiry := Upgraded\<rparr>) else handle_header q (w, s))))"

text \<open>No type of body of the program has errors of its own, so that every error ends the reading.\<close>

definition http_on_read_body ::
    "('k \<Rightarrow> 'v \<Rightarrow> 'w \<times> ('r, 'k) http_conn \<Rightarrow> http_error + 'w \<times> ('r, 'k) http_conn)
       \<Rightarrow> completion \<Rightarrow> int \<Rightarrow> parser_kind \<Rightarrow> ('k \<times> 'v) option \<Rightarrow> 'w \<times> ('r, 'k) http_conn
       \<Rightarrow> http_error + 'w \<times> ('r, 'k) http_conn" where
  "http_on_read_body handle_body ec now kind cb = (\<lambda>(w, s).
     case ec of
       Aborted \<Rightarrow> Inr (w, s)
     | Closed \<Rightarrow> Inr (w, http_do_close s)
     | Failed \<Rightarrow> Inr (w, s)
     | Done \<Rightarrow>
         (case (case cb of
                  None \<Rightarrow> Inr (w, s)
                | Some (k, v) \<Rightarrow> (case get_parser kind s of Inl e \<Rightarrow> Inl e | Inr _ \<Rightarrow> handle_body k v (w, s))) of
            Inl e \<Rightarrow> Inl e
          | Inr (w, s) \<Rightarrow>
              (if http_is_full s then Inr (w, s)
               else case do_read_header now s of Inl e \<Rightarrow> Inl e | Inr s \<Rightarrow> Inr (w, s))))"

definition http_on_write :: "completion \<Rightarrow> int \<Rightarrow> bool \<Rightarrow> ('r, 'k) http_conn \<Rightarrow> http_error + ('r, 'k) http_conn" where
  "http_on_write ec now close s =
     (case ec of
        Done \<Rightarrow>
          (if close then Inr (http_do_close s)
           else (let (was_full, s) = http_queue_on_write s in if was_full then do_read_header now s else Inr s))
      | _ \<Rightarrow> Inr s)"

section \<open>Histories\<close>

datatype ('q, 'b) http_event =
    Got_header completion bool 'q
  | Got_body completion 'b
  | Wrote completion
  | Timer completion

text \<open>
  An application, and what \<^verbatim>\<open>need_eof\<close> says of a response. \<open>take_body\<close> is the reader of the type of a body.
\<close>

record ('q, 'b, 'v, 'r, 'k, 'w) http_app =
  on_header :: "'q \<Rightarrow> 'w \<times> ('r, 'k) http_conn \<Rightarrow> http_error + 'w \<times> ('r, 'k) http_conn"
  on_upgrade :: "'q \<Rightarrow> 'w \<times> ('r, 'k) http_conn \<Rightarrow> http_error + 'w \<times> ('r, 'k) http_conn"
  take_body :: "'k \<Rightarrow> 'b \<Rightarrow> 'w \<Rightarrow> http_error + completion \<times> 'v \<times> 'w"
  on_body_read :: "'k \<Rightarrow> 'v \<Rightarrow> 'w \<times> ('r, 'k) http_conn \<Rightarrow> http_error + 'w \<times> ('r, 'k) http_conn"
  need_eof :: "'r \<Rightarrow> bool"

text \<open>A body that arrived completely; \<open>ec\<close> says how the reading from the socket ended.\<close>

definition http_body_arrived ::
    "('q, 'b, 'v, 'r, 'k, 'w) http_app \<Rightarrow> int \<Rightarrow> completion \<Rightarrow> 'b \<Rightarrow> parser_kind \<Rightarrow> 'k option \<Rightarrow> 'w \<times> ('r, 'k) http_conn
      \<Rightarrow> http_error + 'w \<times> ('r, 'k) http_conn" where
  "http_body_arrived app now ec b kind cb = (\<lambda>(w, s).
     if ec \<noteq> Done then http_on_read_body (on_body_read app) ec now kind None (w, s)
     else case cb of
            None \<Rightarrow> http_on_read_body (on_body_read app) Done now kind None (w, s)
          | Some k \<Rightarrow>
              (case take_body app k b w of
                 Inl e \<Rightarrow> Inl e
               | Inr (ec, v, w) \<Rightarrow> http_on_read_body (on_body_read app) ec now kind (Some (k, v)) (w, s)))"

text \<open>The delivery of a completion of an operation that is outstanding; \<open>None\<close> when there is none.\<close>

fun http_deliver ::
    "('q, 'b, 'v, 'r, 'k, 'w) http_app \<Rightarrow> int \<Rightarrow> ('q, 'b) http_event \<Rightarrow> 'w \<times> ('r, 'k) http_conn
      \<Rightarrow> (http_error + 'w \<times> ('r, 'k) http_conn) option" where
  "http_deliver app now (Got_header ec upgrade q) (w, s) =
     (if hc_read s = Some Read_header
      then Some (http_on_read_header (on_header app) (on_upgrade app) ec upgrade q (w, s\<lparr>hc_read := None\<rparr>)) else None)"
| "http_deliver app now (Got_body ec b) (w, s) =
     (case hc_read s of
        Some (Read_body kind cb) \<Rightarrow> Some (http_body_arrived app now ec b kind cb (w, s\<lparr>hc_read := None\<rparr>))
      | _ \<Rightarrow> None)"
| "http_deliver app now (Wrote ec) (w, s) =
     (if hc_writes s = 0 then None
      else Some (map_sum id (Pair w) (http_on_write ec now (need_eof app (hd (hc_items s))) (s\<lparr>hc_writes := hc_writes s - 1\<rparr>))))"
| "http_deliver app now (Timer ec) (w, s) =
     (if hc_waiting s then Some (Inr (w, http_on_timer ec now (s\<lparr>hc_waiting := False\<rparr>))) else None)"

fun http_history ::
    "('q, 'b, 'v, 'r, 'k, 'w) http_app \<Rightarrow> (int \<times> ('q, 'b) http_event) list \<Rightarrow> 'w \<times> ('r, 'k) http_conn
      \<Rightarrow> (http_error + 'w \<times> ('r, 'k) http_conn) option" where
  "http_history app [] s = Some (Inr s)"
| "http_history app ((now, e) # es) s =
     (case http_deliver app now e s of
        None \<Rightarrow> None
      | Some (Inl err) \<Rightarrow> Some (Inl err)
      | Some (Inr s) \<Rightarrow> http_history app es s)"

definition http_started :: "int \<Rightarrow> ('r, 'k) http_conn" where
  "http_started now = http_conn_new\<lparr>hc_waiting := True, hc_expiry := At (now + 15), hc_read := Some Read_header\<rparr>"

lemma http_run_started: "http_run_session now http_conn_new = Inr (http_started now)"
  by (simp add: http_run_session_def http_on_timer_def do_read_header_def reader_prepare_def set_parser_def
      http_conn_new_def http_started_def)

end
