(* ===== verification/Http_Answers.thy ===== *)
theory Http_Answers
  imports Http_Session "HOL-Library.Sublist"
begin

text \<open>
  What a connection needs of its application, as an interface: a header is answered at once, or leads to the reading of
  a body; a body with a callback is answered. From it: the queue is bounded, no response is lost or reordered, every
  request is answered, the parser is never asked for a wrong type, and the connection does not stall. The interface is
  interpreted on the application of the server in \<^verbatim>\<open>Http_Server\<close>.
\<close>

section \<open>Operations of the queue and the reader\<close>

lemmas http_defs =
  queue_send_def http_start_write_def http_queue_on_write_def get_parser_def set_parser_def upgrade_parser_def
  reader_prepare_def async_read_body_def reader_done_def do_read_header_def http_do_close_def

lemma queue_send_fields [simp]:
  "hc_items (queue_send r s) = hc_items s @ [r]" "hc_sent (queue_send r s) = hc_sent s"
  "hc_read (queue_send r s) = hc_read s" "hc_parser (queue_send r s) = hc_parser s" "hc_done (queue_send r s) = hc_done s"
  "hc_expiry (queue_send r s) = hc_expiry s" "hc_shut (queue_send r s) = hc_shut s"
  "hc_writes (queue_send r s) = (if hc_items s = [] then Suc (hc_writes s) else hc_writes s)"
  by (simp_all add: queue_send_def http_start_write_def Let_def)

definition send_all :: "'r list \<Rightarrow> ('r, 'k) http_conn \<Rightarrow> ('r, 'k) http_conn" where
  "send_all rs s = foldl (\<lambda>s r. queue_send r s) s rs"

lemma send_all_fields [simp]:
  "hc_items (send_all rs s) = hc_items s @ rs" "hc_sent (send_all rs s) = hc_sent s"
  "hc_read (send_all rs s) = hc_read s" "hc_parser (send_all rs s) = hc_parser s" "hc_done (send_all rs s) = hc_done s"
  "hc_expiry (send_all rs s) = hc_expiry s" "hc_shut (send_all rs s) = hc_shut s"
  by (induction rs arbitrary: s) (simp_all add: send_all_def)

lemma send_all_one [simp]: "send_all [r] s = queue_send r s"
  by (simp add: send_all_def)

lemma send_all_writes:
  "hc_writes (send_all rs s) = (if hc_items s = [] \<and> rs \<noteq> [] then Suc (hc_writes s) else hc_writes s)"
  by (induction rs arbitrary: s) (auto simp: send_all_def)

section \<open>The interface\<close>

text \<open>
  \<open>once k v\<close>: the callback \<open>k\<close> answers the body \<open>v\<close> once. An application that is asked for a header finds no read
  outstanding and a reader that is not done.
\<close>

definition header_due :: "('r, 'k) http_conn \<Rightarrow> bool" where
  "header_due s \<longleftrightarrow> hc_read s = None \<and> hc_parser s = Header_parser \<and> \<not> hc_done s"

locale http_application =
  fixes app :: "('q, 'b, 'v, 'r, 'k, 'w) http_app"
    and once :: "'k \<Rightarrow> 'v \<Rightarrow> bool"
  assumes header_answered: "header_due s \<Longrightarrow>
      (\<exists>w' r. on_header app q (w, s) = map_sum id (Pair w') (reader_done (queue_send r s)))
      \<or> (\<exists>w' kind k. on_header app q (w, s) = map_sum id (Pair w') (async_read_body kind k s))"
    and body_answered: "take_body app k b w0 = Inr (Done, v, w) \<Longrightarrow> on_body_read app k v (w, s) = Inl Handler_hangs
      \<or> (\<exists>w' rs. on_body_read app k v (w, s) = Inr (w', send_all rs s) \<and> (once k v \<longrightarrow> length rs = 1))"

text \<open>All completions report success, and the bodies are answered once.\<close>

fun step_well ::
    "('q, 'b, 'v, 'r, 'k, 'w) http_app \<Rightarrow> ('k \<Rightarrow> 'v \<Rightarrow> bool) \<Rightarrow> ('q, 'b) http_event \<Rightarrow> 'w \<times> ('r, 'k) http_conn \<Rightarrow> bool" where
  "step_well app once (Got_header ec upgrade q) (w, s) = (ec = Done \<and> \<not> upgrade)"
| "step_well app once (Got_body ec b) (w, s) =
     (ec = Done
      \<and> (case hc_read s of
            Some (Read_body kind (Some k)) \<Rightarrow> (case take_body app k b w of Inr (Done, v, w) \<Rightarrow> once k v | _ \<Rightarrow> False)
          | _ \<Rightarrow> True))"
| "step_well app once (Wrote ec) (w, s) = (ec = Done)"
| "step_well app once (Timer ec) (w, s) = True"

fun goes_well ::
    "('q, 'b, 'v, 'r, 'k, 'w) http_app \<Rightarrow> ('k \<Rightarrow> 'v \<Rightarrow> bool) \<Rightarrow> (int \<times> ('q, 'b) http_event) list
      \<Rightarrow> 'w \<times> ('r, 'k) http_conn \<Rightarrow> bool" where
  "goes_well app once [] s = True"
| "goes_well app once ((now, e) # es) s =
     (step_well app once e s
      \<and> (case http_deliver app now e s of Some (Inr s) \<Rightarrow> goes_well app once es s | _ \<Rightarrow> True))"

definition awaits_body :: "('r, 'k) http_conn \<Rightarrow> bool" where
  "awaits_body s \<longleftrightarrow> (\<exists>kind k. hc_read s = Some (Read_body kind (Some k)))"

fun read_fits :: "'k read_op option \<Rightarrow> parser_kind \<Rightarrow> bool \<Rightarrow> bool" where
  "read_fits None kind d = True"
| "read_fits (Some Read_header) kind d = (kind = Header_parser \<and> \<not> d)"
| "read_fits (Some (Read_body kind' cb)) kind d = (kind = kind')"

definition parser_fits :: "('r, 'k) http_conn \<Rightarrow> bool" where
  "parser_fits s \<longleftrightarrow> read_fits (hc_read s) (hc_parser s) (hc_done s)"

definition bounded :: "('r, 'k) http_conn \<Rightarrow> bool" where
  "bounded s \<longleftrightarrow> length (hc_items s) \<le> http_limit
     \<and> (hc_read s = Some Read_header \<or> awaits_body s \<longrightarrow> length (hc_items s) < http_limit)"

definition goes_on :: "('r, 'k) http_conn \<Rightarrow> bool" where
  "goes_on s \<longleftrightarrow> (hc_read s \<noteq> None \<or> http_is_full s) \<and> hc_writes s \<le> (if hc_items s = [] then 0 else 1)
     \<and> (\<not> hc_shut s \<longrightarrow> hc_items s \<noteq> [] \<longrightarrow> hc_writes s = 1)"

definition responses :: "('r, 'k) http_conn \<Rightarrow> 'r list" where
  "responses s = hc_sent s @ hc_items s"

text \<open>How many requests arrived.\<close>

fun requests_in :: "(int \<times> ('q, 'b) http_event) list \<Rightarrow> nat" where
  "requests_in [] = 0"
| "requests_in ((now, Got_header ec upgrade q) # es) = Suc (requests_in es)"
| "requests_in (e # es) = requests_in es"

lemma do_read_header_ok:
  assumes "hc_read s = None"
  shows "do_read_header now s =
    Inr (s\<lparr>hc_expiry := At (now + 15), hc_done := False, hc_parser := Header_parser, hc_read := Some Read_header\<rparr>)"
  using assms by (simp add: http_defs)

lemma do_read_header_busy: "hc_read s \<noteq> None \<Longrightarrow> do_read_header now s = Inl Parser_in_use"
  by (simp add: http_defs)

lemma header_due_after:
  assumes "parser_fits s" "hc_read s = Some Read_header"
  shows "header_due (s\<lparr>hc_read := None\<rparr>)"
  using assms by (simp add: parser_fits_def header_due_def)

section \<open>What follows from it\<close>

definition conn_inv :: "nat \<Rightarrow> ('r, 'k) http_conn \<Rightarrow> bool" where
  "conn_inv n s \<longleftrightarrow> parser_fits s \<and> bounded s \<and> goes_on s
     \<and> length (responses s) + (if awaits_body s then 1 else 0) = n"

lemma inv_started: "conn_inv 0 (http_started now)"
  by (simp add: conn_inv_def parser_fits_def bounded_def goes_on_def responses_def awaits_body_def http_started_def
      http_conn_new_def http_limit_def)

lemma inv_write:
  assumes "conn_inv n s" "hc_writes s \<noteq> 0"
    and "http_on_write Done now close (s\<lparr>hc_writes := hc_writes s - 1\<rparr>) = Inr s'"
  shows "conn_inv n s' \<and> responses s' = responses s"
proof -
  from assms(1,2) obtain r rs where items: "hc_items s = r # rs" "hc_writes s = 1"
    by (cases "hc_items s") (auto simp: conn_inv_def goes_on_def)
  show ?thesis
  proof (cases close)
    case True
    then have "s' = s\<lparr>hc_writes := 0, hc_shut := True\<rparr>" using assms(3) items by (simp add: http_on_write_def http_do_close_def)
    then show ?thesis
      using assms(1) by (simp add: conn_inv_def parser_fits_def bounded_def goes_on_def responses_def awaits_body_def http_is_full_def)
  next
    case nc: False
    let ?s = "s\<lparr>hc_writes := (if rs = [] then 0 else 1), hc_items := rs, hc_sent := hc_sent s @ [r]\<rparr>"
    have q: "http_queue_on_write (s\<lparr>hc_writes := hc_writes s - 1\<rparr>) = (http_is_full s, ?s)"
      using items by (auto simp: http_queue_on_write_def http_start_write_def http_is_full_def Let_def)
    show ?thesis
    proof (cases "http_is_full s")
      case True
      then have d: "do_read_header now ?s = Inr s'" using nc assms(3) q by (simp add: http_on_write_def)
      then have none: "hc_read s = None" using do_read_header_busy [of ?s now] by (cases "hc_read s") simp_all
      then have "s' = ?s\<lparr>hc_expiry := At (now + 15), hc_done := False, hc_parser := Header_parser, hc_read := Some Read_header\<rparr>"
        using d do_read_header_ok [of ?s now] by simp
      then show ?thesis
        using assms(1) items none
        by (simp add: conn_inv_def parser_fits_def bounded_def goes_on_def responses_def awaits_body_def http_is_full_def)
    next
      case False
      then have "s' = ?s" using nc assms(3) q by (simp add: http_on_write_def)
      then show ?thesis
        using assms(1) items False
        by (simp add: conn_inv_def parser_fits_def bounded_def goes_on_def responses_def awaits_body_def http_is_full_def)
    qed
  qed
qed

lemma inv_read_header:
  assumes "conn_inv n s" "hc_read s = None" "length (hc_items s) < http_limit"
  shows "\<exists>s'. do_read_header now s = Inr s' \<and> conn_inv n s' \<and> responses s' = responses s"
  using assms
  by (simp add: do_read_header_ok conn_inv_def parser_fits_def bounded_def goes_on_def responses_def awaits_body_def
      http_is_full_def)

lemma inv_timer: "conn_inv n s \<Longrightarrow> conn_inv n (http_on_timer ec now (s\<lparr>hc_waiting := False\<rparr>))
    \<and> responses (http_on_timer ec now (s\<lparr>hc_waiting := False\<rparr>)) = responses s"
  by (cases "hc_expiry s"; cases ec)
    (auto simp: http_on_timer_def conn_inv_def parser_fits_def bounded_def goes_on_def responses_def awaits_body_def
      http_is_full_def)

lemma send_fresh: "header_due s \<Longrightarrow> header_due (queue_send r s)"
  by (simp add: header_due_def)

lemma reader_done_due:
  "header_due s \<Longrightarrow> reader_done s = Inr (s\<lparr>hc_parser := Sink_parser, hc_read := Some (Read_body Sink_parser None), hc_done := True\<rparr>)"
  by (simp add: header_due_def http_defs)

lemma async_read_due:
  "header_due s \<Longrightarrow>
     async_read_body kind k s = Inr (s\<lparr>hc_parser := kind, hc_read := Some (Read_body kind (Some k)), hc_done := True\<rparr>)"
  by (simp add: header_due_def http_defs)

context http_application
begin

lemma inv_header:
  assumes "conn_inv n s" "hc_read s = Some Read_header"
  shows "\<exists>w' s'. http_on_read_header (on_header app) (on_upgrade app) Done False q (w, s\<lparr>hc_read := None\<rparr>) = Inr (w', s')
     \<and> conn_inv (Suc n) s' \<and> prefix (responses s) (responses s')"
proof -
  let ?s = "s\<lparr>hc_read := None\<rparr>"
  have due: "header_due ?s" using assms by (simp add: header_due_def conn_inv_def parser_fits_def)
  have get: "get_parser Header_parser ?s = Inr ()" using due by (simp add: header_due_def get_parser_def)
  have n: "length (hc_items s) < http_limit" "n = length (hc_sent s) + length (hc_items s)" "\<not> http_is_full s"
    using assms by (auto simp: conn_inv_def bounded_def responses_def awaits_body_def http_is_full_def)
  from header_answered [OF due, of q w] show ?thesis
  proof (elim disjE exE)
    fix w' r assume "on_header app q (w, ?s) = map_sum id (Pair w') (reader_done (queue_send r ?s))"
    then show ?thesis
      using get assms n reader_done_due [OF send_fresh [OF due], of r]
      by (auto simp: http_on_read_header_def conn_inv_def parser_fits_def bounded_def goes_on_def responses_def
          awaits_body_def)
  next
    fix w' kind k assume "on_header app q (w, ?s) = map_sum id (Pair w') (async_read_body kind k ?s)"
    then show ?thesis
      using get assms n async_read_due [OF due, of kind k]
      by (auto simp: http_on_read_header_def conn_inv_def parser_fits_def bounded_def goes_on_def responses_def
          awaits_body_def)
  qed
qed

lemma inv_body:
  assumes "conn_inv n s" "hc_read s = Some (Read_body kind cb)" "map_option fst kv = cb"
    and "\<forall>k v. kv = Some (k, v) \<longrightarrow> once k v \<and> (\<exists>b w0. take_body app k b w0 = Inr (Done, v, w))"
  shows "http_on_read_body (on_body_read app) Done now kind kv (w, s\<lparr>hc_read := None\<rparr>) = Inl Handler_hangs
     \<or> (\<exists>w' s'. http_on_read_body (on_body_read app) Done now kind kv (w, s\<lparr>hc_read := None\<rparr>) = Inr (w', s')
          \<and> conn_inv n s' \<and> prefix (responses s) (responses s'))"
proof -
  let ?s = "s\<lparr>hc_read := None\<rparr>"
  let ?answer = "case kv of None \<Rightarrow> Inr (w, ?s) | Some (k, v) \<Rightarrow> (case get_parser kind ?s of Inl e \<Rightarrow> Inl e
      | Inr _ \<Rightarrow> on_body_read app k v (w, ?s))"
  have "?answer = Inl Handler_hangs \<or> (\<exists>w' rs. ?answer = Inr (w', send_all rs ?s) \<and> length rs = (if cb = None then 0 else 1))"
  proof (cases kv)
    case None
    then show ?thesis using assms(3) by (intro disjI2 exI [of _ w] exI [of _ "[]"]) (simp add: send_all_def)
  next
    case (Some kv')
    then obtain k v where kv: "kv = Some (k, v)" by (cases kv') auto
    then have "get_parser kind ?s = Inr ()" using assms(1,2) by (simp add: conn_inv_def parser_fits_def get_parser_def)
    moreover obtain b w0 where "take_body app k b w0 = Inr (Done, v, w)" "once k v" using assms(4) kv by blast
    ultimately show ?thesis using body_answered [of k b w0 v w ?s] assms(3) kv by auto
  qed
  then consider "?answer = Inl Handler_hangs"
    | w' rs where "?answer = Inr (w', send_all rs ?s)" "length rs = (if cb = None then 0 else 1)" by blast
  then show ?thesis
  proof cases
    case 1
    then show ?thesis by (simp add: http_on_read_body_def)
  next
    case (2 w' rs)
    note rs = 2
    let ?s2 = "send_all rs ?s"
    have n: "length (hc_items s) + length rs \<le> http_limit" "n = length (hc_sent s) + length (hc_items s) + length rs"
      using assms(1,2) rs(2) by (auto simp: conn_inv_def bounded_def responses_def awaits_body_def split: if_splits option.splits)
    have inv: "http_is_full ?s2 \<Longrightarrow> conn_inv n ?s2" "responses ?s2 = responses s @ rs"
      using assms n send_all_writes [of rs ?s]
      by (auto simp: conn_inv_def parser_fits_def bounded_def goes_on_def responses_def awaits_body_def http_is_full_def)
    show ?thesis
    proof (cases "http_is_full ?s2")
      case True
      then show ?thesis using rs(1) inv by (simp add: http_on_read_body_def)
    next
      case False
      then have "conn_inv n (?s2\<lparr>hc_expiry := At (now + 15), hc_done := False, hc_parser := Header_parser, hc_read := Some Read_header\<rparr>)"
        using assms n send_all_writes [of rs ?s]
        by (auto simp: conn_inv_def parser_fits_def bounded_def goes_on_def responses_def awaits_body_def http_is_full_def)
      then show ?thesis using rs(1) inv(2) False do_read_header_ok [of ?s2 now]
        by (simp add: http_on_read_body_def responses_def)
    qed
  qed
qed

lemma arrived_well:
  assumes "conn_inv n s" "step_well app once (Got_body ec b) (w, s)"
  shows "http_deliver app now (Got_body ec b) (w, s) \<in> {None, Some (Inl Handler_hangs)}
    \<or> (\<exists>w' s'. http_deliver app now (Got_body ec b) (w, s) = Some (Inr (w', s')) \<and> conn_inv n s' \<and> prefix (responses s) (responses s'))"
proof (cases "\<exists>kind cb. hc_read s = Some (Read_body kind cb)")
  case False
  then have "http_deliver app now (Got_body ec b) (w, s) = None" by (auto split: option.split read_op.split)
  then show ?thesis by simp
next
  case True
  then obtain kind cb where r: "hc_read s = Some (Read_body kind cb)" by blast
  show ?thesis
  proof (cases cb)
    case None
    then show ?thesis
      using inv_body [OF assms(1) r, where kv = None and now = now and w = w] r assms(2) by (auto simp: http_body_arrived_def)
  next
    case (Some k)
    then obtain v w' where v: "take_body app k b w = Inr (Done, v, w')" "once k v" "ec = Done"
      using assms(2) r by (auto split: sum.splits completion.splits; metis completion.exhaust)
    then show ?thesis
      using inv_body [OF assms(1) r, where kv = "Some (k, v)" and now = now and w = w'] v r Some by (auto simp: http_body_arrived_def)
  qed
qed

text \<open>One step: the parser of an outstanding read may be destroyed, but nothing else goes wrong.\<close>

lemma inv_deliver:
  assumes "conn_inv n s" "step_well app once e (w, s)" "http_deliver app now e (w, s) = Some (Inr (w', s'))"
  shows "conn_inv (n + requests_in [(now, e)]) s' \<and> prefix (responses s) (responses s')"
proof (cases e)
  case (Got_header ec upgrade q)
  then have "hc_read s = Some Read_header" "ec = Done" "\<not> upgrade" using assms(2,3) by (auto split: if_splits)
  then show ?thesis using inv_header [OF assms(1), of q w] assms(3) Got_header by auto
next
  case (Got_body ec b)
  note arrived_well [OF assms(1) assms(2) [unfolded Got_body], of now]
  then show ?thesis using assms(3) Got_body by auto
next
  case (Wrote ec)
  then have "hc_writes s \<noteq> 0" "ec = Done" using assms(2,3) by (auto split: if_splits)
  then obtain s2 where "http_on_write Done now (need_eof app (hd (hc_items s))) (s\<lparr>hc_writes := hc_writes s - 1\<rparr>) = Inr s2" "s' = s2"
    using assms(3) Wrote
    by (cases "http_on_write Done now (need_eof app (hd (hc_items s))) (s\<lparr>hc_writes := hc_writes s - 1\<rparr>)") auto
  then show ?thesis using inv_write [OF assms(1) \<open>hc_writes s \<noteq> 0\<close>] Wrote by auto
next
  case (Timer ec)
  then show ?thesis using inv_timer [OF assms(1), of ec now] assms(3) by (auto split: if_splits)
qed

lemma deliver_error:
  assumes "conn_inv n s" "step_well app once e (w, s)" "http_deliver app now e (w, s) = Some (Inl err)"
  shows "err = Handler_hangs \<or> err = Parser_in_use \<and> e = Wrote Done \<and> (\<exists>kind. hc_read s = Some (Read_body kind None))
     \<and> length (hc_items s) = http_limit \<and> \<not> need_eof app (hd (hc_items s))"
proof (cases e)
  case (Got_header ec upgrade q)
  then have "hc_read s = Some Read_header" "ec = Done" "\<not> upgrade" using assms(2,3) by (auto split: if_splits)
  then show ?thesis using inv_header [OF assms(1), of q w] assms(3) Got_header by auto
next
  case (Got_body ec b)
  note arrived_well [OF assms(1) assms(2) [unfolded Got_body], of now]
  then show ?thesis using assms(3) Got_body by auto
next
  case (Wrote ec)
  let ?s = "s\<lparr>hc_writes := hc_writes s - 1\<rparr>" and ?close = "need_eof app (hd (hc_items s))"
  have ec: "ec = Done" "hc_writes s \<noteq> 0" using Wrote assms(2,3) by (auto split: if_splits)
  then have err: "http_on_write Done now ?close ?s = Inl err"
    using assms(3) Wrote by (cases "http_on_write Done now ?close ?s") auto
  then have nc: "\<not> ?close" "http_is_full s"
    by (auto simp: http_on_write_def http_queue_on_write_def http_is_full_def Let_def split: if_splits)
  let ?s2 = "snd (http_queue_on_write ?s)"
  have s2: "do_read_header now ?s2 = Inl err" "hc_read ?s2 = hc_read s"
    using err nc by (simp_all add: http_on_write_def http_queue_on_write_def http_is_full_def http_start_write_def Let_def)
  then have busy: "hc_read s \<noteq> None" "err = Parser_in_use"
    using do_read_header_ok [of ?s2 now] do_read_header_busy [of ?s2 now] by (cases "hc_read s"; simp)+
  have full: "length (hc_items s) = http_limit" using nc(2) assms(1) by (simp add: conn_inv_def bounded_def http_is_full_def)
  moreover have "\<exists>kind. hc_read s = Some (Read_body kind None)"
  proof -
    obtain op where r: "hc_read s = Some op" using busy by blast
    have b: "hc_read s \<noteq> Some Read_header" "\<not> awaits_body s"
      using full assms(1) by (auto simp: conn_inv_def bounded_def)
    show ?thesis
    proof (cases op)
      case Read_header
      then show ?thesis using b r by simp
    next
      case (Read_body kind cb)
      then show ?thesis using b r by (cases cb) (auto simp: awaits_body_def)
    qed
  qed
  ultimately show ?thesis using Wrote ec busy nc by simp
next
  case (Timer ec)
  then show ?thesis using assms(3) by (auto split: if_splits)
qed

lemma history_inv:
  "http_history app es (w, s) = Some r \<Longrightarrow> goes_well app once es (w, s) \<Longrightarrow> conn_inv n s \<Longrightarrow>
     (\<forall>w' s'. r = Inr (w', s') \<longrightarrow> conn_inv (n + requests_in es) s' \<and> prefix (responses s) (responses s'))
     \<and> (\<forall>err. r = Inl err \<longrightarrow> err \<in> {Parser_in_use, Handler_hangs})"
proof (induction es arbitrary: w s n)
  case Nil
  then show ?case by auto
next
  case (Cons ev es)
  obtain now e where ev: "ev = (now, e)" by (cases ev)
  have well: "step_well app once e (w, s)" using Cons.prems(2) ev by simp
  have requests: "requests_in (ev # es) = requests_in [(now, e)] + requests_in es" using ev by (cases e) simp_all
  consider err where "http_deliver app now e (w, s) = Some (Inl err)" "r = Inl err"
    | w2 s2 where "http_deliver app now e (w, s) = Some (Inr (w2, s2))" "http_history app es (w2, s2) = Some r"
    using Cons.prems(1) ev by (cases "http_deliver app now e (w, s)") (auto split: sum.splits)
  then show ?case
  proof cases
    case 1
    then show ?thesis using deliver_error [OF Cons.prems(3) well 1(1)] by auto
  next
    case 2
    have "goes_well app once es (w2, s2)" using Cons.prems(2) ev 2(1) by simp
    moreover note inv_deliver [OF Cons.prems(3) well 2(1)]
    ultimately have "(\<forall>w' s'. r = Inr (w', s') \<longrightarrow> conn_inv (n + requests_in [(now, e)] + requests_in es) s' \<and> prefix (responses s2) (responses s'))
     \<and> (\<forall>err. r = Inl err \<longrightarrow> err \<in> {Parser_in_use, Handler_hangs})" "prefix (responses s) (responses s2)"
      using Cons.IH [OF 2(2)] by blast+
    then show ?thesis unfolding requests by (auto simp: add.assoc intro: prefix_order.trans)
  qed
qed

text \<open>The facts of the interface.\<close>

lemma queue_bounded:
  assumes "http_history app es (w, http_started t) = Some (Inr (w', s))" "goes_well app once es (w, http_started t)"
  shows "length (hc_items s) \<le> http_limit"
  using history_inv [OF assms inv_started] by (simp add: conn_inv_def bounded_def)

lemma requests_answered:
  assumes "http_history app es (w, http_started t) = Some (Inr (w', s))" "goes_well app once es (w, http_started t)"
  shows "length (hc_sent s) + length (hc_items s) + (if awaits_body s then 1 else 0) = requests_in es"
  using history_inv [OF assms inv_started] by (simp add: conn_inv_def responses_def)

lemma parser_type_safe:
  assumes "http_history app es (w, http_started t) = Some r" "goes_well app once es (w, http_started t)"
  shows "r \<noteq> Inl Bad_parser_cast \<and> (\<forall>w' s. r = Inr (w', s) \<longrightarrow> parser_fits s)"
  using history_inv [OF assms inv_started] by (auto simp: conn_inv_def)

lemma not_stuck:
  assumes "http_history app es (w, http_started t) = Some (Inr (w', s))" "goes_well app once es (w, http_started t)"
    and "\<not> hc_shut s"
  shows "hc_read s \<noteq> None \<or> hc_writes s = 1 \<and> http_is_full s"
proof -
  have "goes_on s" using history_inv [OF assms(1,2) inv_started] by (simp add: conn_inv_def)
  then show ?thesis using assms(3) by (auto simp: goes_on_def http_is_full_def http_limit_def)
qed

lemma history_append:
  "http_history app (es @ es') s =
     (case http_history app es s of Some (Inr s) \<Rightarrow> http_history app es' s | r \<Rightarrow> r)"
proof (induction es arbitrary: s)
  case Nil
  then show ?case by simp
next
  case (Cons ev es)
  obtain now e where "ev = (now, e)" by (cases ev)
  with Cons show ?case by (auto split: option.split sum.split)
qed

end

section \<open>Pipelined requests\<close>

text \<open>
  Requests that are answered when their headers are read: each leaves a response, and its body is thrown away. If eight of
  them are read before the first response is written, the queue is full while the body of the last is being read, and the completion of the
  write starts to read another header.
\<close>

definition answers_at_once :: "('q, 'b, 'v, 'r, 'k, 'w) http_app \<Rightarrow> 'q \<Rightarrow> bool" where
  "answers_at_once app q \<longleftrightarrow> (\<forall>w s. header_due s \<longrightarrow>
     (\<exists>w' r. on_header app q (w, s) = map_sum id (Pair w') (reader_done (queue_send r s)) \<and> \<not> need_eof app r))"

fun pipelined :: "int \<Rightarrow> 'q list \<Rightarrow> 'b \<Rightarrow> (int \<times> ('q, 'b) http_event) list" where
  "pipelined t [] b = []"
| "pipelined t (q # qs) b = (t, Got_header Done False q) # (t, Got_body Done b) # pipelined t qs b"

lemma header_at_once:
  assumes "answers_at_once app q" "header_due s"
  shows "\<exists>w' r. on_header app q (w, s) = Inr (w', (queue_send r s)\<lparr>hc_parser := Sink_parser, hc_read := Some (Read_body Sink_parser None), hc_done := True\<rparr>)
     \<and> \<not> need_eof app r"
  using assms reader_done_due [OF send_fresh [OF assms(2)]] by (fastforce simp: answers_at_once_def)

definition piled :: "('q, 'b, 'v, 'r, 'k, 'w) http_app \<Rightarrow> nat \<Rightarrow> ('r, 'k) http_conn \<Rightarrow> bool" where
  "piled app n s \<longleftrightarrow> length (hc_items s) = n \<and> (\<forall>r \<in> set (hc_items s). \<not> need_eof app r) \<and> hc_writes s = (if n = 0 then 0 else 1)"

definition reads_header :: "('r, 'k) http_conn \<Rightarrow> bool" where
  "reads_header s \<longleftrightarrow> hc_read s = Some Read_header \<and> hc_parser s = Header_parser \<and> \<not> hc_done s"

lemma header_piles:
  assumes "reads_header s" "piled app n s" "answers_at_once app q"
  shows "\<exists>w' s'. http_deliver app t (Got_header Done False q) (w, s) = Some (Inr (w', s')) \<and> piled app (Suc n) s'
     \<and> hc_read s' = Some (Read_body Sink_parser None)"
proof -
  let ?s = "s\<lparr>hc_read := None\<rparr>"
  have due: "header_due ?s" "get_parser Header_parser ?s = Inr ()"
    using assms(1) by (simp_all add: reads_header_def header_due_def get_parser_def)
  from header_at_once [OF assms(3) due(1), of w] obtain w' r where
    "on_header app q (w, ?s) = Inr (w', (queue_send r ?s)\<lparr>hc_parser := Sink_parser, hc_read := Some (Read_body Sink_parser None), hc_done := True\<rparr>)"
    "\<not> need_eof app r" by blast
  then show ?thesis
    using due(2) assms(1,2) by (auto simp: http_on_read_header_def reads_header_def piled_def)
qed

lemma body_piles:
  assumes "hc_read s = Some (Read_body Sink_parser None)" "piled app n s" "n < http_limit"
  shows "\<exists>s'. http_deliver app t (Got_body Done b) (w, s) = Some (Inr (w, s')) \<and> piled app n s' \<and> reads_header s'"
  using assms do_read_header_ok [of "s\<lparr>hc_read := None\<rparr>" t]
  by (simp add: http_body_arrived_def http_on_read_body_def piled_def reads_header_def http_is_full_def)

lemma pipelined_piles:
  "reads_header s \<Longrightarrow> piled app n s \<Longrightarrow> \<forall>q \<in> set qs. answers_at_once app q \<Longrightarrow> n + length qs < http_limit \<Longrightarrow>
     \<exists>w' s'. http_history app (pipelined t qs b @ es) (w, s) = http_history app es (w', s') \<and> reads_header s' \<and> piled app (n + length qs) s'"
proof (induction qs arbitrary: n s w)
  case Nil
  then show ?case by auto
next
  case (Cons q qs)
  obtain w1 s1 where s1: "http_deliver app t (Got_header Done False q) (w, s) = Some (Inr (w1, s1))" "piled app (Suc n) s1"
    "hc_read s1 = Some (Read_body Sink_parser None)"
    using header_piles [OF Cons.prems(1,2), of q t w] Cons.prems(3) by (meson list.set_intros(1))
  obtain s2 where s2: "http_deliver app t (Got_body Done b) (w1, s1) = Some (Inr (w1, s2))" "piled app (Suc n) s2" "reads_header s2"
    using body_piles [OF s1(3,2), of t b w1] Cons.prems(4) by (metis Suc_leI add_Suc_right le_add1 le_less_trans length_Cons not_less_eq order_le_less_trans)
  have "\<exists>w' s'. http_history app (pipelined t qs b @ es) (w1, s2) = http_history app es (w', s') \<and> reads_header s'
      \<and> piled app (Suc n + length qs) s'"
    by (rule Cons.IH [OF s2(3,2)]) (use Cons.prems(3,4) in auto)
  then show ?case using s1(1) s2(1) by simp
qed

lemma pipelining_destroys_parser:
  assumes "\<forall>q \<in> set (qs @ [q]). answers_at_once app q" "Suc (length qs) = http_limit"
  shows "http_history app (pipelined t qs b @ [(t, Got_header Done False q), (t, Wrote Done)]) (w, http_started t0) = Some (Inl Parser_in_use)"
proof -
  have start: "reads_header (http_started t0)" "piled app 0 (http_started t0)"
    by (simp_all add: reads_header_def piled_def http_started_def http_conn_new_def)
  obtain w1 s1 where s1: "http_history app (pipelined t qs b @ [(t, Got_header Done False q), (t, Wrote Done)]) (w, http_started t0)
      = http_history app [(t, Got_header Done False q), (t, Wrote Done)] (w1, s1)" "reads_header s1" "piled app (length qs) s1"
    using pipelined_piles [OF start, of qs t b "[(t, Got_header Done False q), (t, Wrote Done)]" w] assms
    by (auto simp del: http_history.simps)
  obtain w2 s2 where s2: "http_deliver app t (Got_header Done False q) (w1, s1) = Some (Inr (w2, s2))" "piled app http_limit s2"
    "hc_read s2 = Some (Read_body Sink_parser None)"
    using header_piles [OF s1(2,3), of q t w1] assms by (simp del: http_deliver.simps) blast
  have items: "hc_items s2 \<noteq> []" "\<not> need_eof app (hd (hc_items s2))" "hc_writes s2 = 1" "http_is_full s2"
    using s2(2) by (cases "hc_items s2"; auto simp: piled_def http_limit_def http_is_full_def)+
  then have "http_deliver app t (Wrote Done) (w2, s2) = Some (Inl Parser_in_use)"
    using s2(3) by (simp add: http_on_write_def http_queue_on_write_def http_is_full_def http_start_write_def do_read_header_busy Let_def)
  then show ?thesis using s1(1) s2(1) by simp
qed

end
