(* ===== verification/Http_Text.thy ===== *)
theory Http_Text
  imports Std_Regex "HOL-Library.Signed_Division" "HOL-Library.Sublist"
begin

text \<open>
  The texts of requests: \<^verbatim>\<open>src/http/request_util.cpp\<close>. Escaped characters of targets, the parameters of a query, and
  cookies. A character is a signed byte, as on the platforms the server is built for.

  The lemmas: a target that is escaped as it should be is read back, one that is escaped by \<^verbatim>\<open>escape_uri\<close> is not; the
  parameters of a query are never found; cookies are read until there are no more.
\<close>

section \<open>Escaping\<close>

definition byte_of :: "char \<Rightarrow> u8" where "byte_of c = of_nat (of_char c)"

definition char_of_byte :: "u8 \<Rightarrow> char" where "char_of_byte b = char_of (unat b)"

definition to_hex :: "u8 \<Rightarrow> u8" where
  "to_hex ch = ch + (if ch > 9 then 65 - 10 else 48)"

definition from_hex :: "u8 \<Rightarrow> u8" where
  "from_hex ch =
     (if 48 \<le> ch \<and> ch \<le> 57 then ch - 48
      else if 97 \<le> ch \<and> ch \<le> 102 then ch - (97 - 10)
      else if 65 \<le> ch \<and> ch \<le> 70 then ch - (65 - 10)
      else 0)"

fun unescape_uri :: "string \<Rightarrow> string" where
  "unescape_uri [] = []"
| "unescape_uri (c # cs) =
     (if c = CHR ''+'' then CHR '' '' # unescape_uri cs
      else if c = CHR ''%'' \<and> length cs \<ge> 2
      then char_of_byte (from_hex (byte_of (cs ! 0)) * 16 + from_hex (byte_of (cs ! 1))) # unescape_uri (drop 2 cs)
      else c # unescape_uri cs)"

definition is_letter_or_digit :: "char \<Rightarrow> bool" where
  "is_letter_or_digit c \<longleftrightarrow> (let n = of_char c :: nat in 97 \<le> n \<and> n \<le> 122 \<or> 65 \<le> n \<and> n \<le> 90 \<or> 48 \<le> n \<and> n \<le> 57)"

definition signed_char :: "char \<Rightarrow> int" where
  "signed_char c = sint (byte_of c)"

definition escape_char :: "char \<Rightarrow> string" where
  "escape_char ch =
     (if is_letter_or_digit ch then [ch]
      else if ch = CHR '' '' then ''+''
      else [CHR ''%'', char_of_byte (to_hex (word_of_int (signed_char ch * 16))),
            char_of_byte (to_hex (word_of_int (signed_char ch smod 16)))])"

definition escape_uri :: "string \<Rightarrow> string" where
  "escape_uri s = concat (map escape_char s)"

section \<open>Queries\<close>

text \<open>The expressions are raw strings: their double backslashes stand for a backslash in the text.\<close>

definition backslash :: char where "backslash = CHR 0x5C"

definition query_begin_regex :: regex where
  "query_begin_regex = sequence
     [At_begin, Repeat 0 (Some 1) False (Class (\<lambda>c. c = backslash)),
      Group 1 (plus (Class (\<lambda>c. c \<noteq> CHR ''=''))), Class (\<lambda>c. c = backslash), Class (\<lambda>c. c = CHR ''=''),
      Group 2 (plus (Class (\<lambda>c. c \<noteq> CHR ''&'')))]"

definition query_entry_regex :: regex where
  "query_entry_regex = sequence
     [Class (\<lambda>c. c = backslash), Class (\<lambda>c. c = CHR ''&''),
      Group 1 (plus (Class (\<lambda>c. c \<noteq> CHR ''=''))), Class (\<lambda>c. c = backslash), Class (\<lambda>c. c = CHR ''=''),
      Group 2 (plus (Class (\<lambda>c. c \<noteq> CHR ''&'')))]"

partial_function (option) query_loop :: "string \<Rightarrow> (string \<times> string) list \<Rightarrow> (string \<times> string) list option" where
  "query_loop s m =
     (case regex_search query_entry_regex s of
        None \<Rightarrow> Some m
      | Some (c, rest) \<Rightarrow> query_loop rest (map_insert (captured c 1) (captured c 2) m))"

text \<open>The groups of a search that failed are empty, and its end is the end of the text.\<close>

definition parse_request_query :: "string \<Rightarrow> (string \<times> string) list option" where
  "parse_request_query body =
     (case regex_search query_begin_regex body of
        None \<Rightarrow> query_loop [] (map_insert [] [] [])
      | Some (c, rest) \<Rightarrow> query_loop rest (map_insert (captured c 1) (captured c 2) []))"

section \<open>Cookies\<close>

definition cookies_regex :: regex where
  "cookies_regex = sequence
     [star (Either (Class (\<lambda>c. c = CHR 0x09)) (Class (\<lambda>c. c = CHR '' ''))),
      Group 1 (lazy_star (Class any_char)), Class (\<lambda>c. c = CHR ''=''), Group 2 (lazy_star (Class any_char)),
      Group 3 (Either At_end (Either (Class (\<lambda>c. c = CHR '';''))
        (Sequence (Class (\<lambda>c. c = CHR '','')) (Not_ahead (Class (\<lambda>c. c = CHR '' ''))))))]"

partial_function (option) cookies_loop :: "string \<Rightarrow> (string \<times> string) list \<Rightarrow> (string \<times> string) list option" where
  "cookies_loop s m =
     (case regex_search cookies_regex s of
        None \<Rightarrow> Some m
      | Some (c, rest) \<Rightarrow> cookies_loop rest (map_insert (captured c 1) (unescape_uri (captured c 2)) m))"

definition parse_cookies :: "string \<Rightarrow> (string \<times> string) list option" where
  "parse_cookies cookies = cookies_loop cookies []"

declare query_loop.simps [code] cookies_loop.simps [code]

section \<open>Reading an escaped text\<close>

definition percent :: "char \<Rightarrow> string" where
  "percent c = [CHR ''%'', char_of_byte (to_hex (byte_of c div 16)), char_of_byte (to_hex (byte_of c mod 16))]"

lemma byte_of_char [simp]: "byte_of (char_of_byte b) = b"
proof -
  have "unat b < 2 ^ LENGTH(8)" by (rule unsigned_less)
  then have "unat b < 256" by simp
  then show ?thesis by (simp add: byte_of_def char_of_byte_def)
qed

lemma char_of_byte_of [simp]: "char_of_byte (byte_of c) = c"
proof -
  have "of_char c < (256 :: nat)" by simp
  then show ?thesis by (simp add: byte_of_def char_of_byte_def unat_of_nat)
qed

lemma small_byte: "n < 16 \<Longrightarrow> n \<in> set (map of_nat [0..<16])" for n :: u8
  by (auto simp: word_less_nat_alt image_iff intro!: bexI [of _ "unat n"])

lemma hex_digit: "n < 16 \<Longrightarrow> from_hex (to_hex n) = n" for n :: u8
proof -
  assume "n < 16"
  then have "n \<in> set (map of_nat [0..<16])" by (rule small_byte)
  moreover have "\<forall>n \<in> set (map of_nat [0..<16]). from_hex (to_hex n) = (n :: u8)" by code_simp
  ultimately show ?thesis by blast
qed

lemma byte_digits: "from_hex (to_hex (b div 16)) * 16 + from_hex (to_hex (b mod 16)) = b" for b :: u8
proof -
  have "b div 16 < 16" "b mod 16 < 16"
    using unsigned_less [of b, where ?'a = nat] by (simp_all add: word_less_nat_alt unat_div_distrib unat_mod_distrib)
  then have "from_hex (to_hex (b div 16)) * 16 + from_hex (to_hex (b mod 16)) = b div 16 * 16 + b mod 16"
    by (simp add: hex_digit)
  then show ?thesis by (simp only: div_mult_mod_eq)
qed

lemma unescape_percent: "unescape_uri (percent c @ s) = c # unescape_uri s"
  by (simp add: percent_def byte_digits)

lemma unescape_plain: "c \<noteq> CHR ''%'' \<Longrightarrow> c \<noteq> CHR ''+'' \<Longrightarrow> unescape_uri (c # s) = c # unescape_uri s"
  by simp

text \<open>An escaped text: every character escaped, or left as it is when it may be.\<close>

inductive escapes :: "string \<Rightarrow> string \<Rightarrow> bool" where
  "escapes [] []"
| "escapes s t \<Longrightarrow> escapes (c # s) (percent c @ t)"
| "escapes s t \<Longrightarrow> c \<noteq> CHR ''%'' \<Longrightarrow> c \<noteq> CHR ''+'' \<Longrightarrow> escapes (c # s) (c # t)"
| "escapes s t \<Longrightarrow> escapes (CHR '' '' # s) (CHR ''+'' # t)"

text \<open>A text that was escaped as the standard says is read back.\<close>

theorem unescape_escaped:
  assumes "escapes s t"
  shows "unescape_uri t = s"
  using assms by induction (simp_all only: unescape_percent unescape_plain, simp_all)

theorem unescape_escaped_witness: "unescape_uri ''a%2Fb+'' = ''a/b ''"
proof -
  have p: "percent (CHR ''/'') = ''%2F''" by code_simp
  have "escapes ''b '' ''b+''" by (intro escapes.intros(3) escapes.intros(4) escapes.intros(1)) simp_all
  then have "escapes (CHR ''/'' # ''b '') (percent (CHR ''/'') @ ''b+'')" by (rule escapes.intros(2))
  then have "escapes ''a/b '' ''a%2Fb+''" unfolding p by (intro escapes.intros(3)) simp_all
  then show ?thesis by (rule unescape_escaped)
qed

section \<open>\<^verbatim>\<open>escape\_uri\<close>\<close>

text \<open>What an escaped character is read back as.\<close>

definition reread :: "char \<Rightarrow> char" where
  "reread c =
     (if is_letter_or_digit c \<or> c = CHR '' '' then c
      else char_of_byte (from_hex (to_hex (word_of_int (signed_char c * 16))) * 16
        + from_hex (to_hex (word_of_int (signed_char c smod 16)))))"

lemma unescape_escape_char: "unescape_uri (escape_char c @ t) = reread c # unescape_uri t"
proof -
  have "is_letter_or_digit c \<Longrightarrow> c \<noteq> CHR ''%'' \<and> c \<noteq> CHR ''+''" by (auto simp: is_letter_or_digit_def Let_def)
  then show ?thesis by (auto simp: escape_char_def reread_def)
qed

lemma unescape_escape: "unescape_uri (escape_uri s) = map reread s"
  by (induction s) (simp_all add: escape_uri_def unescape_escape_char)

lemma high_digit_lost: "from_hex (to_hex (x * 16)) = 0" for x :: u8
proof -
  have "x = (x div 16) * 16 + x mod 16" by (simp only: div_mult_mod_eq)
  then have "x * 16 = ((x div 16) * 16 + x mod 16) * 16" by (rule arg_cong)
  also have "\<dots> = (x div 16) * (16 * 16) + x mod 16 * 16" by (simp only: distrib_right mult.assoc)
  also have "(16 * 16 :: u8) = 0" by code_simp
  finally have x: "x * 16 = (x mod 16) * 16" by simp
  have "x mod 16 < 16" using unsigned_less [of x, where ?'a = nat] by (simp add: word_less_nat_alt unat_mod_distrib)
  then have "x mod 16 \<in> set (map of_nat [0..<16])" by (rule small_byte)
  moreover have "\<forall>n \<in> set (map of_nat [0..<16]). from_hex (to_hex (n * 16)) = (0 :: u8)" by code_simp
  ultimately show ?thesis unfolding x by blast
qed

lemma from_hex_small: "unat (from_hex d) < 16"
  by (auto simp: from_hex_def word_le_nat_alt unat_sub)

lemma low_digit: "b < 16 \<Longrightarrow> from_hex (to_hex (word_of_int (sint b smod 16))) = b" for b :: u8
proof -
  assume "b < 16"
  then have "b \<in> set (map of_nat [0..<16])" by (rule small_byte)
  moreover have "\<forall>n \<in> set (map of_nat [0..<16]). from_hex (to_hex (word_of_int (sint n smod 16))) = (n :: u8)" by code_simp
  ultimately show ?thesis by blast
qed

lemma reread_same: "reread c = c \<longleftrightarrow> is_letter_or_digit c \<or> c = CHR '' '' \<or> of_char c < (16 :: nat)"
proof (cases "is_letter_or_digit c \<or> c = CHR '' ''")
  case True
  then show ?thesis by (auto simp: reread_def)
next
  case False
  let ?d = "from_hex (to_hex (word_of_int (signed_char c smod 16)))"
  have "reread c = char_of_byte ?d"
    using False high_digit_lost [of "word_of_int (signed_char c)"] by (simp add: reread_def)
  then have "reread c = c \<longleftrightarrow> ?d = byte_of c" by (metis byte_of_char char_of_byte_of)
  moreover have n: "unat (byte_of c) = of_char c" by (simp add: byte_of_def unat_of_nat)
  moreover have "?d = byte_of c \<longleftrightarrow> of_char c < (16 :: nat)"
  proof
    assume "?d = byte_of c"
    then show "of_char c < (16 :: nat)" using from_hex_small n by metis
  next
    assume "of_char c < (16 :: nat)"
    then have "byte_of c < 16" using n by (simp add: word_less_nat_alt)
    then show "?d = byte_of c" by (simp add: signed_char_def low_digit)
  qed
  ultimately show ?thesis using False by simp
qed

text \<open>
  A text that \<^verbatim>\<open>escape_uri\<close> wrote is read back exactly if it consists of letters, digits, spaces and control
  characters below 16: the high digit of an escaped character is computed by a multiplication instead of a division.
\<close>

theorem escape_uri_read_back:
  "unescape_uri (escape_uri s) = s \<longleftrightarrow> (\<forall>c \<in> set s. is_letter_or_digit c \<or> c = CHR '' '' \<or> of_char c < (16 :: nat))"
  by (simp add: unescape_escape reread_same map_idI list_eq_iff_nth_eq all_set_conv_all_nth)

theorem escape_uri_read_back_witness:
  "unescape_uri (escape_uri ''a 1'') = ''a 1'' \<and> unescape_uri (escape_uri ''a/1'') \<noteq> ''a/1''"
proof -
  have a: "\<forall>c \<in> set ''a 1''. is_letter_or_digit c \<or> c = CHR '' '' \<or> of_char c < (16 :: nat)"
    and b: "\<not> (\<forall>c \<in> set ''a/1''. is_letter_or_digit c \<or> c = CHR '' '' \<or> of_char c < (16 :: nat))" by code_simp+
  show ?thesis using escape_uri_read_back [of "''a 1''"] escape_uri_read_back [of "''a/1''"] a b by blast
qed

section \<open>The parameters of a query\<close>

lemma iterate_suffix:
  assumes "\<And>s c s' c'. (s', c') \<in> set (m (s, c)) \<Longrightarrow> suffix s' s"
  shows "(s', c') \<in> set (iterate_match lo n greedy m (s, c)) \<Longrightarrow> suffix s' s"
proof (induction n arbitrary: lo s c)
  case 0
  then show ?case by (auto split: if_splits)
next
  case (Suc n)
  then consider "s' = s" | s2 c2 where "(s2, c2) \<in> set (m (s, c))" "(s', c') \<in> set (iterate_match (lo - 1) n greedy m (s2, c2))"
    by (auto simp: Let_def split: if_splits)
  then show ?case
  proof cases
    case (2 s2 c2)
    then show ?thesis using assms [OF 2(1)] Suc.IH [OF 2(2)] suffix_order.trans by blast
  qed simp
qed

lemma ways_suffix: "(s', c') \<in> set (ways n r (s, c)) \<Longrightarrow> suffix s' s"
proof (induction r arbitrary: s c s' c')
  case (Class P)
  then show ?case by (auto split: list.splits if_splits intro: suffix_ConsI)
next
  case (Sequence r1 r2)
  then obtain s2 c2 where "(s2, c2) \<in> set (ways n r1 (s, c))" "(s', c') \<in> set (ways n r2 (s2, c2))" by auto
  then show ?case using Sequence.IH suffix_order.trans by blast
next
  case (Repeat lo hi greedy r)
  then show ?case using iterate_suffix [of "ways n r" s' c' lo _ greedy s c] by auto
qed (auto split: if_splits)

text \<open>An expression that needs a character matches only where there is one.\<close>

lemma needs_class: "\<forall>x \<in> set s. \<not> P x \<Longrightarrow> ways n (Sequence (Class P) r) (s, c) = []"
  by (cases s) auto

lemma needs_later:
  assumes "\<And>s c. \<forall>x \<in> set s. \<not> P x \<Longrightarrow> ways n r2 (s, c) = []" "\<forall>x \<in> set s. \<not> P x"
  shows "ways n (Sequence r1 r2) (s, c) = []"
proof -
  have "ways n r2 y = []" if "y \<in> set (ways n r1 (s, c))" for y
  proof (cases y)
    case (Pair s2 c2)
    then have "set s2 \<subseteq> set s" using ways_suffix [of s2 c2 n r1 s c] that set_mono_suffix by auto
    then show ?thesis using assms Pair by blast
  qed
  then show ?thesis by auto
qed

lemma search_none:
  "(\<And>s c. \<forall>x \<in> set s. \<not> P x \<Longrightarrow> ways n r (s, c) = []) \<Longrightarrow> \<forall>x \<in> set s. \<not> P x \<Longrightarrow> search_from n r s = None"
  by (induction s) (simp_all add: search_from.simps)

lemma query_begin_needs: "\<forall>x \<in> set s. x \<noteq> backslash \<Longrightarrow> ways n query_begin_regex (s, c) = []"
  unfolding query_begin_regex_def sequence.simps
  by (intro needs_later [where P = "\<lambda>x. x = backslash"] needs_class) simp_all

lemma query_entry_needs: "\<forall>x \<in> set s. x \<noteq> backslash \<Longrightarrow> ways n query_entry_regex (s, c) = []"
  unfolding query_entry_regex_def sequence.simps by (intro needs_class) simp

text \<open>
  The parameters of a query are not found: a query without a backslash, such as \<^verbatim>\<open>?a=1&b=2\<close>, gives one
  parameter with an empty name and an empty value.
\<close>

theorem query_parameters_lost:
  assumes "backslash \<notin> set body"
  shows "parse_request_query body = Some [([], [])]"
proof -
  have "regex_search query_begin_regex body = None"
    unfolding regex_search_def using assms by (intro search_none [where P = "\<lambda>x. x = backslash"] query_begin_needs) auto
  moreover have "regex_search query_entry_regex [] = None"
    unfolding regex_search_def by (intro search_none [where P = "\<lambda>x. x = backslash"] query_entry_needs) auto
  ultimately show ?thesis by (simp add: parse_request_query_def query_loop.simps)
qed

theorem query_parameters_lost_witness: "parse_request_query ''?a=1&b=2'' = Some [([], [])]"
  by (rule query_parameters_lost) code_simp

section \<open>The parsers return\<close>

lemma class_consumes: "(s', c') \<in> set (ways n (Sequence (Class P) r) (s, c)) \<Longrightarrow> length s' < length s"
proof (cases s)
  case (Cons x xs)
  assume "(s', c') \<in> set (ways n (Sequence (Class P) r) (s, c))"
  then have "(s', c') \<in> set (ways n r (xs, c))" using Cons by (auto split: if_splits)
  then show ?thesis using ways_suffix suffix_length_le Cons by fastforce
qed simp

lemma later_consumes:
  assumes "\<And>s c s' c'. (s', c') \<in> set (ways n r2 (s, c)) \<Longrightarrow> length s' < length s"
    and "(s', c') \<in> set (ways n (Sequence r1 r2) (s, c))"
  shows "length s' < length s"
proof -
  from assms(2) obtain s2 c2 where "(s2, c2) \<in> set (ways n r1 (s, c))" "(s', c') \<in> set (ways n r2 (s2, c2))" by auto
  then show ?thesis using assms(1) ways_suffix suffix_length_le by (meson order_less_le_trans)
qed

lemma search_consumes:
  assumes less: "\<And>s c s' c'. (s', c') \<in> set (ways n r (s, c)) \<Longrightarrow> length s' < length s"
  shows "search_from n r s = Some (c, rest) \<Longrightarrow> length rest < length s"
proof (induction s)
  case Nil
  have "y \<notin> set (ways n r ([], []))" for y using less [of "fst y" "snd y" "[]" "[]"] by auto
  then have "ways n r ([], []) = []" by (cases "ways n r ([], [])") auto
  then show ?case using Nil by (simp add: search_from.simps)
next
  case (Cons x xs)
  show ?case
  proof (cases "ways n r (x # xs, [])")
    case Nil
    then have "search_from n r xs = Some (c, rest)" using Cons.prems by (subst (asm) search_from.simps) simp
    then show ?thesis using Cons.IH by simp
  next
    case (Cons y ys)
    then have "y = (rest, c)" using Cons.prems by (subst (asm) search_from.simps) (auto split: prod.splits)
    then have "(rest, c) \<in> set (ways n r (x # xs, []))" using Cons by simp
    then show ?thesis using less by blast
  qed
qed

lemma cookies_consume: "regex_search cookies_regex s = Some (c, rest) \<Longrightarrow> length rest < length s"
  unfolding regex_search_def cookies_regex_def sequence.simps
  by (erule search_consumes [rotated]) (blast intro: later_consumes class_consumes)

lemma query_consumes: "regex_search query_entry_regex s = Some (c, rest) \<Longrightarrow> length rest < length s"
  unfolding regex_search_def query_entry_regex_def sequence.simps
  by (erule search_consumes [rotated]) (rule class_consumes)

lemma cookies_loop_returns: "cookies_loop s m \<noteq> None"
proof (induction "length s" arbitrary: s m rule: less_induct)
  case less
  then show ?case
    by (subst cookies_loop.simps) (auto split: option.split dest!: cookies_consume)
qed

lemma query_loop_returns: "query_loop s m \<noteq> None"
proof (induction "length s" arbitrary: s m rule: less_induct)
  case less
  then show ?case
    by (subst query_loop.simps) (auto split: option.split dest!: query_consumes)
qed

text \<open>The loops over the cookies and over the parameters of a query end, whatever the text.\<close>

theorem request_text_parsers_return: "parse_cookies s \<noteq> None \<and> parse_request_query t \<noteq> None"
  using cookies_loop_returns query_loop_returns by (simp add: parse_cookies_def parse_request_query_def split: option.split prod.split)

section \<open>Reading a list of cookies\<close>

lemma iterate_class_lazy:
  "iterate_match 0 n False (ways b (Class P)) (s, c)
     = map (\<lambda>i. (drop i s, c)) [0..<Suc (min n (length (takeWhile P s)))]"
proof (induction n arbitrary: s)
  case 0
  then show ?case by simp
next
  case (Suc n)
  show ?case
  proof (cases "s \<noteq> [] \<and> P (hd s)")
    case False
    then have "takeWhile P s = []" "ways b (Class P) (s, c) = []" by (cases s; simp)+
    then show ?thesis by simp
  next
    case True
    then obtain x xs where s: "s = x # xs" "P x" by (cases s) auto
    let ?m = "min n (length (takeWhile P xs))"
    have "iterate_match 0 (Suc n) False (ways b (Class P)) (s, c) = (s, c) # map (\<lambda>i. (drop i xs, c)) [0..<Suc ?m]"
      using s Suc.IH [of xs] by (simp del: upt_Suc)
    also have "\<dots> = map (\<lambda>i. (drop i s, c)) (0 # map Suc [0..<Suc ?m])" using s by simp
    also have "0 # map Suc [0..<Suc ?m] = [0..<Suc (Suc ?m)]" by (simp add: map_Suc_upt upt_conv_Cons del: upt_Suc)
    finally show ?thesis using s by (simp del: upt_Suc)
  qed
qed

text \<open>A lazy field up to what follows it: the expression after it matches at none of its characters.\<close>

lemma ways_lazy_field:
  assumes "\<forall>x \<in> set w. P x" "\<And>x xs c. x \<in> set w \<Longrightarrow> ways n r (x # xs, c) = []"
  shows "\<exists>more. ways n (Sequence (Group i (lazy_star (Class P))) r) (w @ s, c) = ways n r (s, (i, w) # c) @ more"
proof -
  let ?n = "length (w @ s)" and ?k = "length (takeWhile P (w @ s))"
  have k: "length w \<le> ?k" "?k \<le> ?n" using assms(1) by (simp_all add: takeWhile_append length_takeWhile_le)
  let ?f = "\<lambda>j. ways n r (drop j (w @ s), (i, take j (w @ s)) # c)"
  have "ways n (Sequence (Group i (lazy_star (Class P))) r) (w @ s, c) = concat (map ?f [0..<Suc ?k])"
  proof -
    have "ways n (Group i (lazy_star (Class P))) (u, c)
        = map (\<lambda>j. (drop j u, (i, take j u) # c)) [0..<Suc (length (takeWhile P u))]" for u
      using length_takeWhile_le [of P u] by (auto simp: iterate_class_lazy min_def simp del: upt_Suc)
    then show ?thesis by (simp only: ways.simps(3) map_map comp_def)
  qed
  also have "[0..<Suc ?k] = [0..<length w] @ length w # [Suc (length w)..<Suc ?k]"
    using k(1) by (metis le_Suc_eq le_add_diff_inverse less_Suc_eq_le upt_add_eq_append upt_conv_Cons zero_le add_0)
  also have "concat (map ?f ([0..<length w] @ length w # [Suc (length w)..<Suc ?k]))
      = concat (map ?f [0..<length w]) @ ?f (length w) @ concat (map ?f [Suc (length w)..<Suc ?k])" by simp
  also have "concat (map ?f [0..<length w]) = []"
  proof -
    have "?f j = []" if "j < length w" for j
    proof -
      have "drop j (w @ s) = w ! j # drop (Suc j) (w @ s)" using that by (simp add: Cons_nth_drop_Suc nth_append flip: append_Cons)
      then show ?thesis using assms(2) that by simp
    qed
    then show ?thesis by simp
  qed
  finally show ?thesis by auto
qed

lemma lazy_field_first:
  assumes "\<forall>x \<in> set w. P x" "\<And>x xs c. x \<in> set w \<Longrightarrow> ways n r (x # xs, c) = []" "ways n r (s, (i, w) # c) \<noteq> []"
  shows "hd (ways n (Sequence (Group i (lazy_star (Class P))) r) (w @ s, c)) = hd (ways n r (s, (i, w) # c))
    \<and> ways n (Sequence (Group i (lazy_star (Class P))) r) (w @ s, c) \<noteq> []"
proof -
  obtain more where "ways n (Sequence (Group i (lazy_star (Class P))) r) (w @ s, c) = ways n r (s, (i, w) # c) @ more"
    using ways_lazy_field [OF assms(1,2), of i s c] by blast
  then show ?thesis using assms(3) by (simp only: hd_append append_is_Nil_conv) simp
qed

definition cookie_ok :: "string \<times> string \<Rightarrow> bool" where
  "cookie_ok kv \<longleftrightarrow> (\<forall>x \<in> set (fst kv). any_char x \<and> x \<noteq> CHR ''='') \<and> (fst kv = [] \<or> hd (fst kv) \<notin> {CHR 0x09, CHR '' ''})
     \<and> (\<forall>x \<in> set (snd kv). any_char x \<and> x \<noteq> CHR '';'' \<and> x \<noteq> CHR '','')"

fun print_cookies :: "(string \<times> string) list \<Rightarrow> string" where
  "print_cookies [] = []"
| "print_cookies [(k, v)] = k @ ''='' @ v"
| "print_cookies ((k, v) # kv # kvs) = k @ ''='' @ v @ ''; '' @ print_cookies (kv # kvs)"

definition cookie_end :: regex where
  "cookie_end = Sequence (Group 3 (Either At_end (Either (Class (\<lambda>c. c = CHR '';''))
     (Sequence (Class (\<lambda>c. c = CHR '','')) (Not_ahead (Class (\<lambda>c. c = CHR '' ''))))))) Empty"

lemma cookie_end_ways:
  "ways n cookie_end ([], c) = [([], (3, []) # c)]"
  "ways n cookie_end (CHR '';'' # t, c) = [(t, (3, '';'') # c)]"
  "x \<noteq> CHR '';'' \<Longrightarrow> x \<noteq> CHR '','' \<Longrightarrow> ways n cookie_end (x # t, c) = []"
  by (simp_all add: cookie_end_def)

lemma ways_blanks:
  assumes "s \<noteq> []" "hd s \<notin> {CHR 0x09, CHR '' ''}" "b = [] \<or> b = '' ''" "ways n r (s, c) \<noteq> []"
  shows "ways n (Sequence (star (Either (Class (\<lambda>c. c = CHR 0x09)) (Class (\<lambda>c. c = CHR '' '')))) r) (b @ s, c) \<noteq> []
    \<and> hd (ways n (Sequence (star (Either (Class (\<lambda>c. c = CHR 0x09)) (Class (\<lambda>c. c = CHR '' '')))) r) (b @ s, c)) = hd (ways n r (s, c))"
proof -
  obtain x xs where s: "s = x # xs" "x \<noteq> CHR 0x09" "x \<noteq> CHR '' ''" using assms(1,2) by (cases s) auto
  have none: "iterate_match 0 m True (ways n (Either (Class (\<lambda>c. c = CHR 0x09)) (Class (\<lambda>c. c = CHR '' '')))) (s, c) = [(s, c)]" for m c
    using s by (cases m) simp_all
  show ?thesis using assms(3,4) s none by (auto simp: hd_append)
qed

lemma cookie_search:
  assumes "cookie_ok (k, v)" "b = [] \<or> b = '' ''" "t = [] \<and> rest = [] \<or> t = CHR '';'' # rest"
  shows "\<exists>c. regex_search cookies_regex (b @ k @ ''='' @ v @ t) = Some (c, rest) \<and> captured c 1 = k \<and> captured c 2 = v"
proof -
  let ?n = "length (b @ k @ ''='' @ v @ t)"
  obtain e where e: "ways ?n cookie_end (t, c) = [(rest, (3, e) # c)]" for c
    using assms(3) cookie_end_ways(1,2) by blast
  let ?r2 = "Sequence (Group 2 (lazy_star (Class any_char))) cookie_end"
  have r2: "hd (ways ?n ?r2 (v @ t, c)) = (rest, (3, e) # (2, v) # c) \<and> ways ?n ?r2 (v @ t, c) \<noteq> []" for c
    using lazy_field_first [of v any_char ?n cookie_end t 2 c] assms(1) e cookie_end_ways(3) by (auto simp: cookie_ok_def)
  let ?r1 = "Sequence (Class (\<lambda>c. c = CHR ''='')) ?r2"
  have r1: "ways ?n ?r1 (''='' @ v @ t, c) = ways ?n ?r2 (v @ t, c)" for c by simp
  have reject: "x \<noteq> CHR ''='' \<Longrightarrow> ways ?n ?r1 (x # xs, c) = []" for x xs c by simp
  let ?r = "Sequence (Group 1 (lazy_star (Class any_char))) ?r1"
  have r: "hd (ways ?n ?r (k @ ''='' @ v @ t, [])) = (rest, [(3, e), (2, v), (1, k)]) \<and> ways ?n ?r (k @ ''='' @ v @ t, []) \<noteq> []"
    using lazy_field_first [of k any_char ?n ?r1 "''='' @ v @ t" 1 "[]"] assms(1) r2 [of "[(1, k)]"] reject
    unfolding r1 by (auto simp: cookie_ok_def simp del: ways.simps)
  have "hd (k @ ''='' @ v @ t) \<notin> {CHR 0x09, CHR '' ''}" using assms(1) by (cases k) (auto simp: cookie_ok_def)
  then have "ways ?n cookies_regex (b @ k @ ''='' @ v @ t, []) \<noteq> []
      \<and> hd (ways ?n cookies_regex (b @ k @ ''='' @ v @ t, [])) = (rest, [(3, e), (2, v), (1, k)])"
    using ways_blanks [of "k @ ''='' @ v @ t" b ?n ?r "[]"] r assms(2)
    unfolding cookies_regex_def sequence.simps cookie_end_def [symmetric] by simp
  then obtain ws where "ways ?n cookies_regex (b @ k @ ''='' @ v @ t, []) = (rest, [(3, e), (2, v), (1, k)]) # ws"
    by (cases "ways ?n cookies_regex (b @ k @ ''='' @ v @ t, [])") auto
  then have "regex_search cookies_regex (b @ k @ ''='' @ v @ t) = Some ([(3, e), (2, v), (1, k)], rest)"
    unfolding regex_search_def by (subst search_from.simps) simp
  then show ?thesis by (simp add: captured_def)
qed

definition add_cookies :: "(string \<times> string) list \<Rightarrow> (string \<times> string) list \<Rightarrow> (string \<times> string) list" where
  "add_cookies kvs m = foldl (\<lambda>m (k, v). map_insert k (unescape_uri v) m) m kvs"

lemma no_cookies: "cookies_loop [] m = Some m"
proof -
  have "regex_search cookies_regex [] = None" by code_simp
  then show ?thesis by (simp add: cookies_loop.simps)
qed

lemma cookies_loop_printed:
  "\<forall>kv \<in> set kvs. cookie_ok kv \<Longrightarrow> b = [] \<or> b = '' '' \<and> kvs \<noteq> [] \<Longrightarrow>
     cookies_loop (b @ print_cookies kvs) m = Some (add_cookies kvs m)"
proof (induction kvs arbitrary: b m rule: print_cookies.induct)
  case 1
  then show ?case by (simp add: no_cookies add_cookies_def)
next
  case (2 k v)
  obtain c where "regex_search cookies_regex (b @ k @ ''='' @ v) = Some (c, [])" "captured c 1 = k" "captured c 2 = v"
    using cookie_search [of k v b "[]" "[]"] 2 by auto
  then show ?case by (simp add: cookies_loop.simps [of "b @ k @ CHR ''='' # v"] no_cookies add_cookies_def)
next
  case (3 k v kv kvs)
  let ?t = "print_cookies (kv # kvs)"
  obtain c where c: "regex_search cookies_regex (b @ k @ ''='' @ v @ ''; '' @ ?t) = Some (c, '' '' @ ?t)" "captured c 1 = k" "captured c 2 = v"
    using cookie_search [of k v b "''; '' @ ?t" "'' '' @ ?t"] "3.prems" by auto
  have "cookies_loop ('' '' @ ?t) (map_insert k (unescape_uri v) m) = Some (add_cookies (kv # kvs) (map_insert k (unescape_uri v) m))"
    by (rule "3.IH") (use "3.prems" in auto)
  then show ?case using c by (simp add: cookies_loop.simps [of "b @ k @ CHR ''='' # v @ CHR '';'' # CHR '' '' # ?t"] add_cookies_def)
qed

text \<open>
  The cookies of a request are read back: a printed list of names and escaped values gives the map of the names to
  the values, with the first value of a name that is repeated.
\<close>

theorem parse_printed_cookies:
  assumes "\<forall>kv \<in> set kvs. cookie_ok kv"
  shows "parse_cookies (print_cookies kvs) = Some (add_cookies kvs [])"
  using cookies_loop_printed [of kvs "[]"] assms by (simp add: parse_cookies_def)

theorem parse_printed_cookies_witness:
  "parse_cookies ''lang=en; auth_token=a%2Fb; lang=de'' = Some [(''auth_token'', ''a/b''), (''lang'', ''en'')]"
proof -
  let ?kvs = "[(''lang'', ''en''), (''auth_token'', ''a%2Fb''), (''lang'', ''de'')]"
  have "\<forall>kv \<in> set ?kvs. cookie_ok kv" by code_simp
  from parse_printed_cookies [OF this] show ?thesis by (simp add: add_cookies_def) code_simp
qed

end
