(* ===== verification/Http_Messages.thy ===== *)
theory Http_Messages
  imports Http_Text Auth_Manager Cis_Manager Request_Context Http_Session
begin

text \<open>
  Requests and responses, and what does not depend on a particular handler: the responses of
  \<^verbatim>\<open>src/http/response.cpp\<close>, the handler of errors (\<^verbatim>\<open>src/http/error_handler.cpp\<close>), the two handlers that
  prepare the context of a request (\<^verbatim>\<open>src/http/cookie_parser.cpp\<close>, \<^verbatim>\<open>src/http/common_handlers.cpp\<close>), and the files that are
  sent (\<^verbatim>\<open>src/file_util.cpp\<close>, \<^verbatim>\<open>src/http/file_handler.cpp\<close>).

  Fields of a message are found whatever the case of their names. A file is read when it is opened.
\<close>

section \<open>Messages\<close>

record http_request =
  rq_method :: string
  rq_target :: string
  rq_version :: nat
  rq_keep_alive :: bool
  rq_fields :: "(string \<times> string) list"

datatype response_body = No_body | Text_body string | File_body fs_obj

record http_response =
  rs_status :: nat
  rs_version :: nat
  rs_fields :: "(string \<times> string) list"
  rs_length :: "nat option"
  rs_keep_alive :: bool
  rs_body :: response_body

definition ascii_lower :: "char \<Rightarrow> char" where
  "ascii_lower c = (let n = of_char c :: nat in if 65 \<le> n \<and> n \<le> 90 then char_of (n + 32) else c)"

definition iequals :: "string \<Rightarrow> string \<Rightarrow> bool" where
  "iequals a b \<longleftrightarrow> map ascii_lower a = map ascii_lower b"

definition find_field :: "http_request \<Rightarrow> string \<Rightarrow> string option" where
  "find_field req name = map_option snd (find (\<lambda>(n, v). iequals n name) (rq_fields req))"

text \<open>\<^verbatim>\<open>operator[]\<close>: the empty text when there is no such field.\<close>

definition field_value :: "http_request \<Rightarrow> string \<Rightarrow> string" where
  "field_value req name = (case find_field req name of None \<Rightarrow> [] | Some v \<Rightarrow> v)"

section \<open>The environment\<close>

text \<open>
  The libraries and the system under the handlers: the database engine, the clocks (for tokens and for the cache),
  the name and version of the HTTP library, the keyed hash, the random numbers, the working directory, the parser of a file of
  parameters, the size that the system reports for a directory, the test of the HTTP library whether a response ends with the
  connection, and the conversion of the groups of a match into the arguments of a route.
\<close>

record http_env =
  he_engine :: engine
  he_now :: u64
  he_clock :: int
  he_library :: string
  he_hmac :: "string \<Rightarrow> string \<Rightarrow> u8 list"
  he_random :: "nat \<Rightarrow> u64"
  he_directory :: string
  he_read_params :: "string \<Rightarrow> (string \<times> string) list"
  he_directory_size :: nat
  he_need_eof :: "http_response \<Rightarrow> bool"
  he_maybe_tuple :: "nat \<Rightarrow> (nat \<Rightarrow> string) \<Rightarrow> string list option"

text \<open>A job that was started by a request, with the file of its body.\<close>

record webhook_task =
  wt_project :: string
  wt_job :: string
  wt_force :: bool
  wt_params :: "(string \<times> string) list"
  wt_email :: string
  wt_found :: bool
  wt_file :: string

text \<open>
  The state of the application as far as requests reach it: the manager, the jobs that were started, the number of the next
  session of a web socket, and the sessions that were accepted, with their contexts.
\<close>

record http_world =
  hw_cis :: cis_state
  hw_tasks :: "webhook_task list"
  hw_session_id :: u64
  hw_accepted :: "(request_context \<times> http_request) list"

definition hw_disk :: "http_world \<Rightarrow> fs_obj" where
  "hw_disk w = fsc_disk (cs_fs (hw_cis w))"

definition set_disk :: "fs_obj \<Rightarrow> http_world \<Rightarrow> http_world" where
  "set_disk d w = w\<lparr>hw_cis := (hw_cis w)\<lparr>cs_fs := (cs_fs (hw_cis w))\<lparr>fsc_disk := d\<rparr>\<rparr>\<rparr>"

definition web_db :: "(database \<Rightarrow> 'a \<times> database) \<Rightarrow> http_world \<Rightarrow> 'a \<times> http_world" where
  "web_db f w = (let (r, db) = f (cs_db (hw_cis w)) in (r, w\<lparr>hw_cis := (hw_cis w)\<lparr>cs_db := db\<rparr>\<rparr>))"

section \<open>Responses\<close>

definition verb_get :: string where "verb_get = ''GET''"

definition verb_post :: string where "verb_post = ''POST''"

definition text_response :: "http_env \<Rightarrow> http_request \<Rightarrow> nat \<Rightarrow> (string \<times> string) list \<Rightarrow> string \<Rightarrow> http_response" where
  "text_response env req status fs body =
     \<lparr>rs_status = status, rs_version = rq_version req,
      rs_fields = [(''Server'', he_library env), (''Content-Type'', ''text/html'')] @ fs,
      rs_length = Some (length body), rs_keep_alive = rq_keep_alive req, rs_body = Text_body body\<rparr>"

definition accepted :: "http_env \<Rightarrow> http_request \<Rightarrow> http_response" where
  "accepted env req = text_response env req 202 [] ''Request accepted.''"

fun join_verbs :: "string list \<Rightarrow> string" where
  "join_verbs [] = []"
| "join_verbs [v] = v"
| "join_verbs (v # vs) = v @ '', '' @ join_verbs vs"

definition method_not_allowed :: "http_env \<Rightarrow> http_request \<Rightarrow> string list \<Rightarrow> http_response" where
  "method_not_allowed env req verbs =
     text_response env req 405 [(''Allow'', join_verbs verbs)] ''Method not allowed.''"

definition not_found :: "http_env \<Rightarrow> http_request \<Rightarrow> http_response" where
  "not_found env req = text_response env req 404 []
     (''The resource '' @ [CHR 0x27] @ rq_target req @ [CHR 0x27] @ '' was not found.'')"

definition forbidden :: "http_env \<Rightarrow> http_request \<Rightarrow> http_response" where
  "forbidden env req = text_response env req 403 [] ''Forbidden.''"

definition bad_request :: "http_env \<Rightarrow> http_request \<Rightarrow> string \<Rightarrow> http_response" where
  "bad_request env req why = text_response env req 400 [] why"

definition server_error :: "http_env \<Rightarrow> http_request \<Rightarrow> string \<Rightarrow> http_response" where
  "server_error env req what = text_response env req 500 []
     (''An error occurred: '' @ [CHR 0x27] @ what @ [CHR 0x27])"

definition error_response :: "http_env \<Rightarrow> http_request \<Rightarrow> request_context \<Rightarrow> http_response" where
  "error_response env req ctx =
     (if ctx_res_status ctx = 404 then not_found env req
      else if ctx_res_status ctx = 403 then forbidden env req
      else if ctx_res_status ctx = 405 then method_not_allowed env req (ctx_allowed_verbs ctx)
      else server_error env req (ctx_error ctx))"

definition error_handler ::
    "http_env \<Rightarrow> http_request \<Rightarrow> request_context \<Rightarrow> (http_response, 'k) http_conn \<Rightarrow> (http_response, 'k) http_conn" where
  "error_handler env req ctx = queue_send (error_response env req ctx)"

text \<open>A response without a body and without a length, as two of the handlers send it.\<close>

definition empty_response :: "http_env \<Rightarrow> http_request \<Rightarrow> nat \<Rightarrow> http_response" where
  "empty_response env req status =
     \<lparr>rs_status = status, rs_version = rq_version req,
      rs_fields = [(''Server'', he_library env), (''Content-Type'', ''text/html'')],
      rs_length = None, rs_keep_alive = rq_keep_alive req, rs_body = No_body\<rparr>"

section \<open>Handlers\<close>

datatype handle_result = Result_done | Result_next | Result_error

text \<open>
  A handler gets the request, the context, and the reader and the queue of the connection; what it returns is the result, the
  context, and what it leaves.
\<close>

type_synonym 'k http_state = "http_world \<times> (http_response, 'k) http_conn"
type_synonym 'k handler_end = "http_error + handle_result \<times> request_context \<times> 'k http_state"
type_synonym 'k handler = "http_request \<Rightarrow> request_context \<Rightarrow> 'k http_state \<Rightarrow> 'k handler_end"

definition fails_with :: "nat \<Rightarrow> request_context \<Rightarrow> 'k http_state \<Rightarrow> 'k handler_end" where
  "fails_with status ctx s = Inr (Result_error, ctx\<lparr>ctx_res_status := status\<rparr>, s)"

definition wrong_method :: "string \<Rightarrow> request_context \<Rightarrow> 'k http_state \<Rightarrow> 'k handler_end" where
  "wrong_method verb ctx s = Inr (Result_error, ctx\<lparr>ctx_allowed_verbs := [verb], ctx_res_status := 405\<rparr>, s)"

text \<open>\<open>None\<close>: the loop over the cookies does not end (it always does).\<close>

definition cookie_parser_parse :: "'k handler" where
  "cookie_parser_parse req ctx s =
     (case parse_cookies (field_value req ''Cookie'') of
        None \<Rightarrow> Inl Handler_hangs
      | Some m \<Rightarrow> Inr (Result_next, ctx\<lparr>ctx_cookies := m\<rparr>, s))"

definition handle_authenticate :: "http_env \<Rightarrow> 'k handler" where
  "handle_authenticate env req ctx = (\<lambda>(w, s).
     case map_of (ctx_cookies ctx) ''auth_token'' of
       None \<Rightarrow> Inr (Result_next, ctx, (w, s))
     | Some token \<Rightarrow>
         (case web_db (authenticate_token (he_engine env) (he_now env) token) w of
            (Inl e, w) \<Rightarrow> fails_with 500 ctx (w, s)
          | (Inr None, w) \<Rightarrow> Inr (Result_next, ctx, (w, s))
          | (Inr (Some email), w) \<Rightarrow>
              Inr (Result_next,
                   ctx\<lparr>ctx_client_info := Some \<lparr>ci_email = email, ci_active_token = [], ci_api_access_key = []\<rparr>\<rparr>,
                   (w, s))))"

end
