(* ===== verification/Http_Files.thy ===== *)
theory Http_Files
  imports Http_Messages Fs_Cache_Correct
begin

text \<open>
  The files that are sent: \<^verbatim>\<open>src/file_util.cpp\<close>, \<^verbatim>\<open>src/http/file_handler.cpp\<close> and
  \<^verbatim>\<open>src/http/download_handler.cpp\<close>.

  The lemmas: which file a request gets; names with \<^verbatim>\<open>..\<close> and doubled slashes lead out of the directory of the documents,
  and out of the project whose rights were checked.
\<close>

section \<open>Types of files\<close>

definition start_with :: "string \<Rightarrow> string \<Rightarrow> bool" where
  "start_with src dst \<longleftrightarrow> take (length dst) src = dst"

definition interpreters :: "(string \<times> string) list" where
  "interpreters =
     [(''bash'', ''text/x-shellscript''), (''sh'', ''text/x-shellscript''), (''java'', ''text/x-java-source''),
      (''python'', ''text/x-python''), (''php'', ''text/php''), (''perl'', ''text/x-perl''), (''php'', ''text/php'')]"

definition mime_type_from_interpreter :: "string \<Rightarrow> string option" where
  "mime_type_from_interpreter interpreter =
     map_option snd (find (\<lambda>(n, t). start_with interpreter n) interpreters)"

text \<open>The words that \<^verbatim>\<open>getline\<close> reads up to a separator: a last empty word is not read.\<close>

definition words_of :: "char \<Rightarrow> string \<Rightarrow> string list" where
  "words_of c s = (let ws = split_on c s in if last ws = [] then butlast ws else ws)"

definition shebang_type :: "string \<Rightarrow> string option" where
  "shebang_type line =
     foldl (\<lambda>type w.
         let interpreter = path_filename w
         in if interpreter = ''env'' then type
            else case mime_type_from_interpreter interpreter of None \<Rightarrow> type | Some t \<Rightarrow> Some t)
       None (words_of (CHR '' '') (drop 2 line))"

definition mime_type_from_shebang :: "fs_obj \<Rightarrow> string \<Rightarrow> string option" where
  "mime_type_from_shebang d path =
     (case os_read d path of
        None \<Rightarrow> None
      | Some content \<Rightarrow>
          (let line = takeWhile (\<lambda>c. c \<noteq> CHR 0x0A) content
           in if start_with line ''#!'' then shebang_type line else None))"

definition path_extension :: "string \<Rightarrow> string" where
  "path_extension p =
     (let n = path_filename p; tail = takeWhile (\<lambda>c. c \<noteq> CHR ''.'') (rev n)
      in if n = ''.'' \<or> n = ''..'' \<or> CHR ''.'' \<notin> set n \<or> Suc (length tail) = length n then []
         else CHR ''.'' # rev tail)"

definition extensions :: "(string \<times> string) list" where
  "extensions =
     [(''.htm'', ''text/html''), (''.html'', ''text/html''), (''.php'', ''text/html''), (''.css'', ''text/css''),
      (''.txt'', ''text/plain''), (''.sh'', ''text/x-shellscript''), (''.py'', ''text/x-python''),
      (''.jav'', ''text/x-java-source''), (''.java'', ''text/x-java-source''), (''.pas'', ''text/pascal''),
      (''.js'', ''application/javascript''), (''.json'', ''application/json''), (''.xml'', ''application/xml''),
      (''.class'', ''application/java''), (''.swf'', ''application/x-shockwave-flash''), (''.flv'', ''video/x-flv''),
      (''.png'', ''image/png''), (''.jpe'', ''image/jpeg''), (''.jpeg'', ''image/jpeg''), (''.jpg'', ''image/jpeg''),
      (''.gif'', ''image/gif''), (''.bmp'', ''image/bmp''), (''.ico'', ''image/vnd.microsoft.icon''),
      (''.tiff'', ''image/tiff''), (''.tif'', ''image/tiff''), (''.svg'', ''image/svg+xml''), (''.svgz'', ''image/svg+xml'')]"

definition mime_type :: "fs_obj \<Rightarrow> string \<Rightarrow> string" where
  "mime_type d path =
     (let shebang = (case mime_type_from_shebang d path of None \<Rightarrow> ''application/text'' | Some t \<Rightarrow> t);
          ext = path_extension path
      in if ext = [] then shebang
         else case find (\<lambda>(e, t). iequals ext e) extensions of None \<Rightarrow> shebang | Some (_, t) \<Rightarrow> t)"

section \<open>Opening a file\<close>

text \<open>A name that is not found below a file, and not below a directory, is another error.\<close>

fun walk_blocked :: "fs_obj \<Rightarrow> string list \<Rightarrow> string list \<Rightarrow> bool" where
  "walk_blocked d at [] = False"
| "walk_blocked d at (n # ns) =
     (case obj_at d at of
        None \<Rightarrow> False
      | Some (Regular _ _) \<Rightarrow> True
      | Some (Directory _ _) \<Rightarrow>
          (if n = ''.'' then walk_blocked d at ns
           else if n = ''..'' then walk_blocked d (butlast at) ns
           else walk_blocked d (at @ [n]) ns))"

definition os_open_read :: "fs_obj \<Rightarrow> string \<Rightarrow> fs_obj res" where
  "os_open_read d path =
     (case os_stat d path of
        Some x \<Rightarrow> Inr x
      | None \<Rightarrow>
          Inl (if walk_blocked d [] (path_names path @ (if path \<noteq> [] \<and> last path = slash then [''.''] else []))
               then ENOTDIR else ENOENT))"

definition obj_size :: "http_env \<Rightarrow> fs_obj \<Rightarrow> nat" where
  "obj_size env x = (case x of Regular c _ \<Rightarrow> length c | Directory _ _ \<Rightarrow> he_directory_size env)"

section \<open>The handler of files\<close>

record file_handler =
  fh_doc_root :: string
  fh_download :: bool

definition quoted :: "string \<Rightarrow> string" where
  "quoted s = [CHR 0x22] @ concat (map (\<lambda>c. if c = CHR 0x22 \<or> c = CHR 0x5C then [CHR 0x5C, c] else [c]) s) @ [CHR 0x22]"

definition file_response :: "http_env \<Rightarrow> file_handler \<Rightarrow> http_request \<Rightarrow> fs_obj \<Rightarrow> string \<Rightarrow> fs_obj \<Rightarrow> http_response" where
  "file_response env fh req d path x =
     \<lparr>rs_status = 200, rs_version = rq_version req,
      rs_fields =
        [(''Server'', he_library env), (''Content-Type'', mime_type d path),
         (''Content-Disposition'',
          if fh_download fh then ''attachment; filename='' @ quoted (path_filename path) else ''inline'')],
      rs_length = Some (obj_size env x), rs_keep_alive = rq_keep_alive req, rs_body = File_body x\<rparr>"

definition single_file :: "http_env \<Rightarrow> file_handler \<Rightarrow> string \<Rightarrow> 'k handler" where
  "single_file env fh path req ctx = (\<lambda>(w, s).
     if rq_method req = verb_get
     then (let full_path = path_cat (fh_doc_root fh) path; d = hw_disk w
           in case os_open_read d full_path of
                Inl e \<Rightarrow>
                  (if e = ENOENT then fails_with 404 ctx (w, s)
                   else fails_with 500 (ctx\<lparr>ctx_error := ''Not a directory''\<rparr>) (w, s))
              | Inr x \<Rightarrow> Inr (Result_done, ctx, (w, queue_send (file_response env fh req d full_path x) s)))
     else wrong_method verb_get ctx (w, s))"

definition file_handler_call :: "http_env \<Rightarrow> file_handler \<Rightarrow> 'k handler" where
  "file_handler_call env fh req = single_file env fh (rq_target req) req"

definition file_handler_sef :: "http_env \<Rightarrow> file_handler \<Rightarrow> 'k handler" where
  "file_handler_sef env fh req = single_file env fh (rq_target req @ ''.html'') req"

section \<open>Downloads\<close>

definition projects_dir :: string where "projects_dir = ''jobs''"

definition download_files :: "string \<Rightarrow> file_handler" where
  "download_files files_root = \<lparr>fh_doc_root = files_root, fh_download = True\<rparr>"

definition download_handler :: "http_env \<Rightarrow> string \<Rightarrow> string \<Rightarrow> string \<Rightarrow> 'k handler" where
  "download_handler env files_root project file req ctx = (\<lambda>(w, s).
     if rq_method req = verb_get
     then (case ctx_client_info ctx of
             None \<Rightarrow> fails_with 403 ctx (w, s)
           | Some client \<Rightarrow>
               (case web_db (check_project_right (he_engine env) (ci_email client) project) w of
                  (Inl e, w) \<Rightarrow> fails_with 500 ctx (w, s)
                | (Inr rights, w) \<Rightarrow>
                    (case rights of
                       None \<Rightarrow> fails_with 403 ctx (w, s)
                     | Some r \<Rightarrow>
                         (if \<not> pr_read r then fails_with 403 ctx (w, s)
                          else single_file env (download_files files_root)
                                 (path_div (path_div ''/'' project) file) req ctx (w, s)))))
     else wrong_method verb_get ctx (w, s))"

section \<open>Which file is sent\<close>

text \<open>The right of the client that the database holds.\<close>

definition checked_right :: "http_env \<Rightarrow> request_context \<Rightarrow> string \<Rightarrow> http_world \<Rightarrow> project_rights option" where
  "checked_right env ctx project w =
     (case ctx_client_info ctx of
        None \<Rightarrow> None
      | Some client \<Rightarrow>
          (case fst (check_project_right (he_engine env) (ci_email client) project (cs_db (hw_cis w))) of
             Inl e \<Rightarrow> None | Inr r \<Rightarrow> r))"

lemma web_db_disk: "hw_disk (snd (web_db f w)) = hw_disk w"
  by (simp add: web_db_def hw_disk_def split: prod.split)

lemma web_db_fst: "fst (web_db f w) = fst (f (cs_db (hw_cis w)))"
  by (simp add: web_db_def split: prod.split)

lemma download_permitted:
  assumes "rq_method req = verb_get" "checked_right env ctx project w = Some r" "pr_read r"
  shows "\<exists>w'. download_handler env root project file req ctx (w, s)
      = single_file env (download_files root) (path_div (path_div ''/'' project) file) req ctx (w', s) \<and> hw_disk w' = hw_disk w"
proof -
  obtain client where c: "ctx_client_info ctx = Some client"
    using assms(2) by (auto simp: checked_right_def split: option.splits)
  let ?q = "web_db (check_project_right (he_engine env) (ci_email client) project) w"
  have "fst ?q = Inr (Some r)"
    using assms(2) c by (auto simp: checked_right_def web_db_fst split: sum.splits)
  then obtain w' where "?q = (Inr (Some r), w')" by (cases ?q) simp
  then show ?thesis using assms(1,3) c web_db_disk [of "check_project_right (he_engine env) (ci_email client) project" w]
    by (intro exI [of _ w']) (simp add: download_handler_def)
qed

lemma single_file_found:
  assumes "rq_method req = verb_get" "os_stat (hw_disk w) (path_cat (fh_doc_root fh) path) = Some x"
  shows "single_file env fh path req ctx (w, s)
    = Inr (Result_done, ctx, (w, queue_send (file_response env fh req (hw_disk w) (path_cat (fh_doc_root fh) path) x) s))"
  using assms by (simp add: single_file_def os_open_read_def Let_def)

lemma path_cat_join:
  assumes "rs \<noteq> []" "\<forall>k \<in> set rs. plain_name k"
  shows "path_cat (join_names rs) p = join_names rs @ p"
proof -
  have "join_names rs \<noteq> []" using assms(1) by (cases rs) simp_all
  moreover have "last (join_names rs) \<noteq> slash" using last_join [OF assms(2,1), of "[]"] by simp
  ultimately show ?thesis by (simp add: path_cat_def)
qed

lemma download_found:
  assumes "rq_method req = verb_get" and "checked_right env ctx project w = Some r" and "pr_read r"
    and "rs \<noteq> []" and "\<forall>k \<in> set (rs @ project # fs). plain_name k" and "fs \<noteq> []"
    and "obj_at (hw_disk w) (rs @ project # fs) = Some x"
  shows "\<exists>w' resp. download_handler env (join_names rs) project (tl (join_names fs)) req ctx (w, s)
      = Inr (Result_done, ctx, (w', queue_send resp s))
    \<and> rs_status resp = 200 \<and> rs_body resp = File_body x \<and> hw_disk w' = hw_disk w"
proof -
  let ?file = "tl (join_names fs)"
  obtain f fs' where fs: "fs = f # fs'" using assms(6) by (cases fs) auto
  have not_root: "root_path (k @ p) = []" if "plain_name k" for k p
    using that by (cases k) (auto simp: plain_name_def root_path_def validate_path_fragment_def)
  have rel: "root_path ?file = []" "root_path project = []"
    using assms(5) fs not_root [of f "join_names fs'"] not_root [of project "[]"] by simp_all
  have project: "plain_name project" using assms(5) by simp
  then have "project \<noteq> []" "last project \<noteq> slash"
    by (auto simp: plain_name_def validate_path_fragment_def dest: last_in_set)
  then have "path_div (path_div ''/'' project) (tl (join_names fs)) = join_names (project # fs)"
    using rel fs by (simp add: path_div_def)
  then have path: "path_cat (join_names rs) (path_div (path_div ''/'' project) (tl (join_names fs))) = join_names (rs @ project # fs)"
    using path_cat_join [OF assms(4)] assms(5) by simp
  have "os_stat (hw_disk w) (join_names (rs @ project # fs)) = Some x"
    using os_stat_plain [of "rs @ project # fs" "hw_disk w"] assms(5,7) by simp
  moreover obtain w' where w': "download_handler env (join_names rs) project ?file req ctx (w, s)
      = single_file env (download_files (join_names rs)) (path_div (path_div ''/'' project) ?file) req ctx (w', s)" "hw_disk w' = hw_disk w"
    using download_permitted [OF assms(1-3)] by blast
  ultimately have "download_handler env (join_names rs) project ?file req ctx (w, s)
      = Inr (Result_done, ctx, (w', queue_send (file_response env (download_files (join_names rs)) req (hw_disk w') (join_names (rs @ project # fs)) x) s))"
    using single_file_found [OF assms(1), of w' "download_files (join_names rs)" "path_div (path_div ''/'' project) ?file" x env ctx s] path
    by (simp add: download_files_def)
  then show ?thesis using w'(2) by (intro exI [of _ w'] exI conjI) (assumption | simp add: file_response_def)+
qed

text \<open>
  A client that may read a project gets the file of the project that the request names: its content, with the status 200.
\<close>

theorem download_sends_file:
  assumes "rq_method req = verb_get" and "checked_right env ctx project w = Some r" and "pr_read r"
    and "rs \<noteq> []" and "\<forall>k \<in> set (rs @ project # fs). plain_name k" and "fs \<noteq> []"
    and "obj_at (hw_disk w) (rs @ project # fs) = Some x"
  shows "\<exists>w' resp. download_handler env (join_names rs) project (tl (join_names fs)) req ctx (w, s)
      = Inr (Result_done, ctx, (w', queue_send resp s))
    \<and> rs_status resp = 200 \<and> rs_body resp = File_body x \<and> hw_disk w' = hw_disk w"
  by (rule download_found [OF assms])

text \<open>
  C22. The rights of one project open all others: a file that is named with two slashes is looked up below the directory
  of all projects, while the right that is checked is that of the project before them.
\<close>

theorem download_leaves_project:
  assumes "rq_method req = verb_get" and "checked_right env ctx project w = Some r" and "pr_read r"
    and "rs \<noteq> []" and "\<forall>k \<in> set (rs @ other # fs). plain_name k"
    and "obj_at (hw_disk w) (rs @ other # fs) = Some x"
  shows "\<exists>w' resp. download_handler env (join_names rs) project (join_names (other # fs)) req ctx (w, s)
      = Inr (Result_done, ctx, (w', queue_send resp s))
    \<and> rs_status resp = 200 \<and> rs_body resp = File_body x"
proof -
  let ?file = "join_names (other # fs)"
  have "path_div (path_div ''/'' project) (join_names (other # fs)) = join_names (other # fs)"
    by (simp add: path_div_def root_path_def)
  then have path: "path_cat (join_names rs) (path_div (path_div ''/'' project) (join_names (other # fs))) = join_names (rs @ other # fs)"
    using path_cat_join [OF assms(4)] assms(5) by simp
  have "os_stat (hw_disk w) (join_names (rs @ other # fs)) = Some x"
    using os_stat_plain [of "rs @ other # fs" "hw_disk w"] assms(5,6) by simp
  moreover obtain w' where w': "download_handler env (join_names rs) project ?file req ctx (w, s)
      = single_file env (download_files (join_names rs)) (path_div (path_div ''/'' project) ?file) req ctx (w', s)" "hw_disk w' = hw_disk w"
    using download_permitted [OF assms(1-3)] by blast
  ultimately have "download_handler env (join_names rs) project ?file req ctx (w, s)
      = Inr (Result_done, ctx, (w', queue_send (file_response env (download_files (join_names rs)) req (hw_disk w') (join_names (rs @ other # fs)) x) s))"
    using single_file_found [OF assms(1), of w' "download_files (join_names rs)" "path_div (path_div ''/'' project) ?file" x env ctx s] path
    by (simp add: download_files_def)
  then show ?thesis using w'(2) by (intro exI [of _ w'] exI conjI) (assumption | simp add: file_response_def)+
qed

text \<open>
  Files outside the directory of the documents are sent to anyone: a target that begins with \<^verbatim>\<open>/..\<close> is resolved by
  the system.
\<close>

theorem static_files_escape:
  assumes "rq_method req = verb_get" and "rq_target req = ''/..'' @ join_names fs"
    and "\<forall>k \<in> set (rs @ n # fs). plain_name k" and "is_dir (obj_at (hw_disk w) (rs @ [n]))"
    and "obj_at (hw_disk w) (rs @ fs) = Some x" and "fs \<noteq> []"
  shows "\<exists>resp. file_handler_call env \<lparr>fh_doc_root = join_names (rs @ [n]), fh_download = False\<rparr> req ctx (w, s)
      = Inr (Result_done, ctx, (w, queue_send resp s)) \<and> rs_body resp = File_body x"
proof -
  let ?d = "hw_disk w" and ?root = "join_names (rs @ [n])"
  let ?p = "?root @ ''/..'' @ join_names fs"
  have cat: "path_cat ?root (rq_target req) = ?p" unfolding assms(2) using assms(3) by (intro path_cat_join) auto
  have "path_names ?p = path_names ((?root @ ''/..'') @ join_names fs)" by simp
  also have "\<dots> = path_names (?root @ slash # ''..'') @ fs" using path_names_join [of fs "?root @ ''/..''"] assms(3) by simp
  also have "path_names (?root @ slash # ''..'') = (rs @ [n]) @ [''..'']"
    using path_names_join [of "rs @ [n]" "[]"] assms(3) path_names_app [of ?root "''..''"] by (simp add: path_names_def)
  finally have names: "path_names ?p = (rs @ [n]) @ ''..'' # fs" by simp
  have "last ?p \<noteq> slash" using last_join [of fs "?root @ ''/..''"] assms(3,6) by simp
  then have res: "os_resolve ?d ?p = os_walk ?d [] ((rs @ [n]) @ ''..'' # fs)" unfolding os_resolve_def names by simp
  have dir: "obj_at ?d (rs @ [n]) \<noteq> None" using assms(4) by (cases "obj_at ?d (rs @ [n])") auto
  then have "os_walk ?d [] (rs @ [n]) = Some (rs @ [n])"
    using os_walk_plain [of ?d "[]" ?d "rs @ [n]"] assms(3) by auto
  then have "os_walk ?d [] ((rs @ [n]) @ ''..'' # fs) = os_walk ?d rs fs"
    using assms(4) by (simp only: os_walk_append option.case) simp
  moreover obtain y where y: "obj_at ?d rs = Some y" "obj_at y fs = Some x"
    using assms(5) by (auto simp: obj_at_append split: option.splits)
  moreover have "os_walk ?d rs fs = Some (rs @ fs)" using os_walk_plain [OF y(1), of fs] y(2) assms(3) by simp
  ultimately have "os_stat ?d ?p = Some x" using res assms(5) by (simp add: os_stat_def)
  then show ?thesis
    using single_file_found [OF assms(1), of w "\<lparr>fh_doc_root = ?root, fh_download = False\<rparr>" "rq_target req" x env ctx s] cat
    by (intro exI conjI) (simp add: file_handler_call_def, simp add: file_response_def)
qed

section \<open>Examples\<close>

text \<open>An account that may read one of two projects, and a disk with both and a directory of documents.\<close>

definition web_db_example :: database where
  "web_db_example =
     \<lparr>db_users = [\<lparr>user_id = 1, user_email = ''b@x'', user_pass = ''pw'', user_admin = False\<rparr>],
      db_projects = [\<lparr>project_id = 1, project_name = ''mine'', project_deleted = False\<rparr>,
                     \<lparr>project_id = 2, project_name = ''other'', project_deleted = False\<rparr>],
      db_rights = [\<lparr>pur_id = 1, pur_project_id = 1, pur_user_id = 1, pur_read = True, pur_write = False, pur_execute = False\<rparr>],
      db_tokens = [\<lparr>token_id = 1, token_user_id = 1, token_value = ''abc'', token_expiration_time = 1000\<rparr>],
      db_api_keys = []\<rparr>"

definition web_disk_example :: fs_obj where
  "web_disk_example = Directory 493
     [(''cis'', Directory 493 [(''mine'', Directory 493 [(''a.txt'', Regular ''mine'' 420)]),
                               (''other'', Directory 493 [(''key'', Regular ''secret'' 420)])]),
      (''docs'', Directory 493 [(''index.html'', Regular ''hello'' 420)]),
      (''shadow'', Regular ''root'' 420)]"

definition web_world_example :: http_world where
  "web_world_example =
     \<lparr>hw_cis = \<lparr>cs_db = web_db_example, cs_fs = fs_cache_new web_disk_example 0 ''/cis'' 4 60\<rparr>, hw_tasks = [],
      hw_session_id = 0, hw_accepted = []\<rparr>"

definition web_env_example :: http_env where
  "web_env_example =
     \<lparr>he_engine = reliable_engine, he_now = 0, he_clock = 0, he_library = ''lib'', he_hmac = (\<lambda>key text. [171]),
      he_random = (\<lambda>n. of_nat n), he_directory = ''/run'', he_read_params = (\<lambda>s. []), he_directory_size = 4096,
      he_need_eof = (\<lambda>r. rs_length r = None \<or> \<not> rs_keep_alive r),
      he_maybe_tuple = (\<lambda>n groups. Some (map groups [1..<Suc n]))\<rparr>"

definition get_request :: "string \<Rightarrow> http_request" where
  "get_request target = \<lparr>rq_method = ''GET'', rq_target = target, rq_version = 11, rq_keep_alive = True, rq_fields = []\<rparr>"

definition reader_context :: request_context where
  "reader_context = empty_context\<lparr>ctx_client_info := Some \<lparr>ci_email = ''b@x'', ci_active_token = [], ci_api_access_key = []\<rparr>\<rparr>"

lemma example_right:
  "checked_right web_env_example reader_context ''mine'' web_world_example
     = Some \<lparr>pr_read = True, pr_write = False, pr_execute = False\<rparr>"
  by code_simp

theorem download_sends_file_witness:
  "\<exists>w' resp. download_handler web_env_example ''/cis'' ''mine'' ''a.txt'' (get_request []) reader_context
       (web_world_example, http_started 0 :: (http_response, unit) http_conn) = Inr (Result_done, reader_context, (w', queue_send resp (http_started 0)))
     \<and> rs_status resp = 200 \<and> rs_body resp = File_body (Regular ''mine'' 420) \<and> hw_disk w' = hw_disk web_world_example"
proof -
  have "rq_method (get_request []) = verb_get" "obj_at (hw_disk web_world_example) ([''cis''] @ ''mine'' # [''a.txt'']) = Some (Regular ''mine'' 420)"
    "\<forall>k \<in> set ([''cis''] @ ''mine'' # [''a.txt'']). plain_name k" by code_simp+
  from download_sends_file [OF this(1) example_right _ _ this(3) _ this(2), of "http_started 0 :: (http_response, unit) http_conn"]
  show ?thesis by simp
qed

theorem download_leaves_project_witness:
  "\<exists>w' resp. download_handler web_env_example ''/cis'' ''mine'' ''/other/key'' (get_request []) reader_context
       (web_world_example, http_started 0 :: (http_response, unit) http_conn) = Inr (Result_done, reader_context, (w', queue_send resp (http_started 0)))
     \<and> rs_status resp = 200 \<and> rs_body resp = File_body (Regular ''secret'' 420)
     \<and> checked_right web_env_example reader_context ''other'' web_world_example = None"
proof -
  have "rq_method (get_request []) = verb_get" "obj_at (hw_disk web_world_example) ([''cis''] @ ''other'' # [''key'']) = Some (Regular ''secret'' 420)"
    "\<forall>k \<in> set ([''cis''] @ ''other'' # [''key'']). plain_name k" by code_simp+
  note leaves = download_leaves_project [OF this(1) example_right _ _ this(3) this(2), of "http_started 0 :: (http_response, unit) http_conn"]
  have "checked_right web_env_example reader_context ''other'' web_world_example = None" by code_simp
  then show ?thesis using leaves by simp
qed

theorem static_files_escape_witness:
  "\<exists>resp. file_handler_call web_env_example \<lparr>fh_doc_root = ''/docs'', fh_download = False\<rparr> (get_request ''/../shadow'') empty_context
       (web_world_example, http_started 0 :: (http_response, unit) http_conn)
     = Inr (Result_done, empty_context, (web_world_example, queue_send resp (http_started 0))) \<and> rs_body resp = File_body (Regular ''root'' 420)"
proof -
  have "rq_method (get_request ''/../shadow'') = verb_get" "rq_target (get_request ''/../shadow'') = ''/..'' @ join_names [''shadow'']"
    "\<forall>k \<in> set ([] @ ''docs'' # [''shadow'']). plain_name k" "is_dir (obj_at (hw_disk web_world_example) ([] @ [''docs'']))"
    "obj_at (hw_disk web_world_example) ([] @ [''shadow'']) = Some (Regular ''root'' 420)" by code_simp+
  from static_files_escape [OF this, of web_env_example empty_context "http_started 0 :: (http_response, unit) http_conn"]
  show ?thesis by simp
qed

end
