(* ===== verification/Kmp_Searcher.thy ===== *)
theory Kmp_Searcher
  imports Cis_Prelude "HOL-Library.Sublist"
begin

text \<open>
  The search of Knuth, Morris and Pratt over a text that arrives one character at a time:
  \<^verbatim>\<open>src/beast_ext/knuth_morris_pratt_searcher.cpp\<close>. The two loops are partial functions, so that
  a loop that does not end has the value \<open>None\<close>; for a table that was built they end.

  The lemmas: the entries of the table are the lengths of the longest borders, and a search returns
  the length of the longest beginning of the pattern that ends the text.
\<close>

section \<open>The searcher\<close>

record searcher =
  ks_m :: nat
  ks_i :: nat
  ks_pattern :: string
  ks_table :: "int list"

definition searcher_new :: searcher where
  "searcher_new = \<lparr>ks_m = 0, ks_i = 0, ks_pattern = [], ks_table = []\<rparr>"

definition searcher_reset :: "searcher \<Rightarrow> searcher" where
  "searcher_reset s = s\<lparr>ks_m := 0, ks_i := 0\<rparr>"

partial_function (option) build_loop :: "string \<Rightarrow> nat \<Rightarrow> nat \<Rightarrow> int list \<Rightarrow> int list option" where
  "build_loop p pos condition t =
     (if pos < length p
      then (if p ! (pos - 1) = p ! condition
            then build_loop p (Suc pos) (Suc condition) (t[pos := int (Suc condition)])
            else if condition > 0 then build_loop p pos (nat (t ! condition)) t
            else build_loop p (Suc pos) condition (t[pos := 0]))
      else Some t)"

definition table_start :: "string \<Rightarrow> int list" where
  "table_start p =
     (let t = replicate (Suc (length p)) 0;
          t = (if length p > 2 then t[length p := 0] else t[2 := 0])
      in t[0 := -1, 1 := 0])"

definition build_table :: "string \<Rightarrow> int list option" where
  "build_table p = build_loop p 2 0 (table_start p)"

text \<open>A pattern of less than two characters terminates the program.\<close>

definition searcher_init :: "string \<Rightarrow> searcher \<Rightarrow> searcher option" where
  "searcher_init pattern s =
     (if length pattern < 2 then None
      else if pattern \<noteq> ks_pattern s
      then (case build_table pattern of
              None \<Rightarrow> None
            | Some t \<Rightarrow> Some (searcher_reset (s\<lparr>ks_pattern := pattern, ks_table := t\<rparr>)))
      else Some (searcher_reset s))"

text \<open>The loop of a search for one character; \<open>offset\<close> is where the character is in the text.\<close>

partial_function (option) search_loop :: "nat \<Rightarrow> char \<Rightarrow> searcher \<Rightarrow> (nat \<times> searcher) option" where
  "search_loop offset c s =
     (if ks_m s + ks_i s - offset < 1
      then (if ks_pattern s ! ks_i s = c
            then (if ks_i s = length (ks_pattern s) - 1 then Some (Suc (ks_i s), s)
                  else search_loop offset c (s\<lparr>ks_i := Suc (ks_i s)\<rparr>))
            else (let t = ks_table s ! ks_i s;
                      m = nat (int (ks_m s) + int (ks_i s) - t)
                  in if t > -1 then search_loop offset c (s\<lparr>ks_m := m, ks_i := nat t\<rparr>)
                     else search_loop offset c (s\<lparr>ks_m := m, ks_i := 0\<rparr>)))
      else Some (ks_i s, s))"

definition partial_search :: "char \<Rightarrow> searcher \<Rightarrow> (nat \<times> searcher) option" where
  "partial_search c s = search_loop (ks_m s + ks_i s) c s"

declare build_loop.simps [code] search_loop.simps [code]

section \<open>Borders\<close>

text \<open>The longest beginning of the pattern that ends a text, and the longest that properly ends its own
  first \<open>j\<close> characters.\<close>

definition ends :: "string \<Rightarrow> string \<Rightarrow> nat \<Rightarrow> bool" where
  "ends p s k \<longleftrightarrow> k \<le> length p \<and> suffix (take k p) s"

definition longest :: "string \<Rightarrow> string \<Rightarrow> nat \<Rightarrow> bool" where
  "longest p s k \<longleftrightarrow> ends p s k \<and> (\<forall>m. ends p s m \<longrightarrow> m \<le> k)"

definition border :: "string \<Rightarrow> nat \<Rightarrow> nat \<Rightarrow> bool" where
  "border p j k \<longleftrightarrow> k < j \<and> ends p (take j p) k \<and> (\<forall>m < j. ends p (take j p) m \<longrightarrow> m \<le> k)"

lemma ends_0 [simp]: "ends p s 0"
  by (simp add: ends_def)

lemma ends_length: "ends p s k \<Longrightarrow> k \<le> length s"
  by (auto simp: ends_def dest: suffix_length_le)

lemma ends_Suc: "ends p (s @ [c]) (Suc k) \<longleftrightarrow> k < length p \<and> ends p s k \<and> p ! k = c"
  by (auto simp: ends_def take_Suc_conv_app_nth suffix_def)

lemma ends_chain: "ends p s k \<Longrightarrow> ends p s m \<Longrightarrow> m \<le> k \<Longrightarrow> ends p (take k p) m"
  by (auto simp: ends_def intro: suffix_length_suffix)

lemma ends_trans: "ends p s k \<Longrightarrow> ends p (take k p) m \<Longrightarrow> ends p s m"
  unfolding ends_def using suffix_order.trans by blast

lemma border_ends: "border p k b \<Longrightarrow> ends p s k \<Longrightarrow> ends p s b"
  by (auto simp: border_def intro: ends_trans)

lemma longest_unique: "longest p s k \<Longrightarrow> longest p s k' \<Longrightarrow> k = k'"
  unfolding longest_def by (meson order_antisym)

lemma longest_whole: "longest p s k \<Longrightarrow> k = length p \<longleftrightarrow> suffix p s"
proof -
  assume k: "longest p s k"
  have "ends p s (length p) \<longleftrightarrow> suffix p s" by (simp add: ends_def)
  moreover have "k \<le> length p" using k by (simp add: longest_def ends_def)
  ultimately show ?thesis using k unfolding longest_def by (metis order_antisym)
qed

section \<open>The table\<close>

definition table_ok :: "string \<Rightarrow> nat \<Rightarrow> int list \<Rightarrow> bool" where
  "table_ok p n t \<longleftrightarrow> length t = Suc (length p) \<and> t ! 0 = -1
     \<and> (\<forall>j. 0 < j \<and> j < n \<longrightarrow> 0 \<le> t ! j \<and> border p j (nat (t ! j)))"

text \<open>No border of the next beginning is longer than one more than \<open>condition\<close>.\<close>

definition candidate :: "string \<Rightarrow> nat \<Rightarrow> nat \<Rightarrow> bool" where
  "candidate p pos condition \<longleftrightarrow> Suc condition < pos \<and> ends p (take (pos - 1) p) condition
     \<and> (\<forall>m. Suc m < pos \<and> ends p (take pos p) (Suc m) \<longrightarrow> m \<le> condition)"

lemma ends_take:
  "0 < pos \<Longrightarrow> pos \<le> length p \<Longrightarrow>
     ends p (take pos p) (Suc m) \<longleftrightarrow> m < length p \<and> ends p (take (pos - 1) p) m \<and> p ! m = p ! (pos - 1)"
  by (cases pos) (simp_all add: take_Suc_conv_app_nth ends_Suc)

lemma border_match:
  assumes "candidate p pos k" "pos < length p" "p ! (pos - 1) = p ! k"
  shows "border p pos (Suc k)" "candidate p (Suc pos) (Suc k)"
proof -
  have k: "Suc k < pos" "ends p (take (pos - 1) p) k"
    and most: "\<And>m. Suc m < pos \<Longrightarrow> ends p (take pos p) (Suc m) \<Longrightarrow> m \<le> k"
    using assms(1) by (auto simp: candidate_def)
  have e: "ends p (take pos p) (Suc k)"
    using k assms(2,3) by (simp add: ends_take)
  have "m \<le> Suc k" if "m < pos" "ends p (take pos p) m" for m
    using that most by (cases m) auto
  then show "border p pos (Suc k)" using k e by (auto simp: border_def)
  have "m \<le> Suc k" if "Suc m < Suc pos" "ends p (take (Suc pos) p) (Suc m)" for m
  proof -
    have "ends p (take pos p) m" using that(2) assms(2) by (simp add: take_Suc_conv_app_nth ends_Suc)
    then show ?thesis using most [of "m - 1"] that(1) by (cases m) auto
  qed
  then show "candidate p (Suc pos) (Suc k)" using k e by (auto simp: candidate_def)
qed

lemma border_mismatch:
  assumes "candidate p pos k" "pos < length p" "p ! (pos - 1) \<noteq> p ! k" "border p k b" "0 < k"
  shows "candidate p pos b"
proof -
  have k: "Suc k < pos" "ends p (take (pos - 1) p) k"
    and most: "\<And>m. Suc m < pos \<Longrightarrow> ends p (take pos p) (Suc m) \<Longrightarrow> m \<le> k"
    using assms(1) by (auto simp: candidate_def)
  have "m \<le> b" if m: "Suc m < pos" "ends p (take pos p) (Suc m)" for m
  proof -
    have at: "ends p (take (pos - 1) p) m" "p ! m = p ! (pos - 1)"
      using m assms(2) by (simp_all add: ends_take)
    then have "m \<noteq> k" using assms(3) by auto
    then have "m < k" using most [OF m] by simp
    then show ?thesis using ends_chain [OF k(2) at(1)] assms(4) by (auto simp: border_def)
  qed
  then show ?thesis using k assms(4) border_ends [OF assms(4) k(2)] by (auto simp: candidate_def border_def)
qed

lemma border_none:
  assumes "candidate p pos 0" "pos < length p" "p ! (pos - 1) \<noteq> p ! 0"
  shows "border p pos 0" "candidate p (Suc pos) 0"
proof -
  have most: "\<And>m. Suc m < pos \<Longrightarrow> ends p (take pos p) (Suc m) \<Longrightarrow> m = 0" and pos: "1 < pos"
    using assms(1) by (auto simp: candidate_def)
  have no: "\<not> ends p (take pos p) (Suc m)" if "Suc m < pos" for m
  proof
    assume e: "ends p (take pos p) (Suc m)"
    then have "p ! m = p ! (pos - 1)" using pos assms(2) by (simp add: ends_take)
    then show False using most [OF that e] assms(3) by simp
  qed
  then have zero: "m = 0" if "m < pos" "ends p (take pos p) m" for m
    using that by (cases m) auto
  then show "border p pos 0" using pos by (auto simp: border_def)
  have "m = 0" if "Suc m < Suc pos" "ends p (take (Suc pos) p) (Suc m)" for m
    using that assms(2) zero [of m] by (simp add: take_Suc_conv_app_nth ends_Suc)
  then show "candidate p (Suc pos) 0" using pos by (auto simp: candidate_def)
qed

lemma build_loop_ok:
  "table_ok p pos t \<Longrightarrow> candidate p pos k \<Longrightarrow> pos \<le> length p \<Longrightarrow>
     \<exists>t'. build_loop p pos k t = Some t' \<and> table_ok p (length p) t'"
proof (induction "2 * (length p - pos) + k" arbitrary: pos k t rule: less_induct)
  case less
  show ?case
  proof (cases "pos < length p")
    case False
    then show ?thesis using less.prems by (subst build_loop.simps) simp
  next
    case True
    have k: "Suc k < pos" using less.prems(2) by (simp add: candidate_def)
    have store: "table_ok p (Suc pos) (t[pos := int b])" if "border p pos b" for b
      using that less.prems(1) True k by (auto simp: table_ok_def nth_list_update less_Suc_eq)
    consider (same) "p ! (pos - 1) = p ! k" | (fall) "p ! (pos - 1) \<noteq> p ! k" "0 < k"
      | (none) "p ! (pos - 1) \<noteq> p ! k" "k = 0" by blast
    then show ?thesis
    proof cases
      case same
      note m = border_match [OF less.prems(2) True same]
      have "\<exists>t'. build_loop p (Suc pos) (Suc k) (t[pos := int (Suc k)]) = Some t' \<and> table_ok p (length p) t'"
        by (rule less.hyps) (use True store [OF m(1)] m(2) in auto)
      then show ?thesis using same True by (subst build_loop.simps) simp
    next
      case fall
      have b: "border p k (nat (t ! k))" "0 \<le> t ! k" using less.prems(1) fall k by (auto simp: table_ok_def)
      then have "nat (t ! k) < k" by (simp add: border_def)
      then have "\<exists>t'. build_loop p pos (nat (t ! k)) t = Some t' \<and> table_ok p (length p) t'"
        by (intro less.hyps) (use less.prems border_mismatch [OF less.prems(2) True fall(1) b(1) fall(2)] in auto)
      then show ?thesis using fall True by (subst build_loop.simps) simp
    next
      case none
      note m = border_none [OF less.prems(2) [unfolded none(2)] True none(1) [unfolded none(2)]]
      have "\<exists>t'. build_loop p (Suc pos) 0 (t[pos := 0]) = Some t' \<and> table_ok p (length p) t'"
        by (rule less.hyps) (use True none(2) store [OF m(1)] m(2) in auto)
      then show ?thesis using none True by (subst build_loop.simps) simp
    qed
  qed
qed

lemma build_table_ok:
  assumes "2 \<le> length p"
  shows "\<exists>t. build_table p = Some t \<and> table_ok p (length p) t"
proof -
  have "border p 1 0" by (simp add: border_def)
  then have "table_ok p 2 (table_start p)"
    using assms by (cases "length p") (auto simp: table_ok_def table_start_def nth_list_update Let_def less_2_cases_iff
        simp del: replicate.simps)
  moreover have "candidate p 2 0" by (simp add: candidate_def)
  ultimately show ?thesis using assms build_loop_ok by (simp add: build_table_def)
qed

section \<open>A search\<close>

definition searcher_ok :: "searcher \<Rightarrow> bool" where
  "searcher_ok s \<longleftrightarrow> ks_pattern s = []
     \<or> (2 \<le> length (ks_pattern s) \<and> table_ok (ks_pattern s) (length (ks_pattern s)) (ks_table s))"

text \<open>The searcher has read a text that does not end in the pattern.\<close>

definition tracks :: "string \<Rightarrow> string \<Rightarrow> searcher \<Rightarrow> bool" where
  "tracks p doc s \<longleftrightarrow> ks_pattern s = p \<and> p \<noteq> [] \<and> searcher_ok s \<and> ks_i s < length p \<and> longest p doc (ks_i s)"

lemma searcher_new_ok [simp]: "searcher_ok searcher_new"
  by (simp add: searcher_ok_def searcher_new_def)

lemma searcher_init_ok:
  assumes "searcher_ok s" "2 \<le> length p"
  shows "\<exists>s'. searcher_init p s = Some s' \<and> tracks p [] s'"
proof -
  have "longest p [] 0" by (auto simp: longest_def dest: ends_length)
  then show ?thesis
    using assms build_table_ok [OF assms(2)]
    by (cases "ks_pattern s = p") (auto simp: searcher_init_def tracks_def searcher_ok_def searcher_reset_def)
qed

lemma search_loop_done: "offset < ks_m s + ks_i s \<Longrightarrow> search_loop offset c s = Some (ks_i s, s)"
  by (subst search_loop.simps) simp

lemma search_loop_ok:
  assumes "table_ok p (length p) (ks_table s)" "ks_pattern s = p" "ks_i s < length p"
    and "ks_m s + ks_i s = offset" "ends p doc (ks_i s)"
    and "\<And>m. ends p (doc @ [c]) (Suc m) \<Longrightarrow> m \<le> ks_i s"
  shows "\<exists>k s'. search_loop offset c s = Some (k, s') \<and> longest p (doc @ [c]) k
     \<and> ks_pattern s' = p \<and> ks_table s' = ks_table s \<and> (k < length p \<longrightarrow> ks_i s' = k)"
  using assms
proof (induction "ks_i s" arbitrary: s rule: less_induct)
  case less
  let ?i = "ks_i s"
  show ?case
  proof (cases "p ! ?i = c")
    case True
    have "longest p (doc @ [c]) (Suc ?i)"
      using less.prems(3,5,6) True unfolding longest_def by (metis Suc_le_mono ends_Suc le_0_eq not0_implies_Suc nle_le)
    then show ?thesis
      using less.prems True
      by (cases "?i = length p - 1")
        (auto simp: search_loop.simps [of offset c s] search_loop_done)
  next
    case no: False
    have most: "m < ?i" if "ends p (doc @ [c]) (Suc m)" for m
      using less.prems(6) [OF that] that no by (metis ends_Suc le_neq_implies_less)
    show ?thesis
    proof (cases "?i = 0")
      case True
      then have "longest p (doc @ [c]) 0" using most unfolding longest_def by (metis ends_0 le_0_eq not0_implies_Suc not_less0)
      moreover have "ks_table s ! 0 = -1" using less.prems(1) by (simp add: table_ok_def)
      ultimately show ?thesis
        using less.prems True no
        by (auto simp: search_loop.simps [of offset c s] search_loop_done Let_def nat_add_distrib)
    next
      case False
      have b: "0 \<le> ks_table s ! ?i" "border p ?i (nat (ks_table s ! ?i))"
        using less.prems(1,3) False by (auto simp: table_ok_def)
      let ?s = "s\<lparr>ks_m := nat (int (ks_m s) + int ?i - ks_table s ! ?i), ks_i := nat (ks_table s ! ?i)\<rparr>"
      have lt: "nat (ks_table s ! ?i) < ?i" using b(2) by (simp add: border_def)
      have "m \<le> nat (ks_table s ! ?i)" if "ends p (doc @ [c]) (Suc m)" for m
      proof -
        have "ends p (take ?i p) m"
          using that most [OF that] less.prems(5) by (meson ends_Suc ends_chain less_imp_le)
        then show ?thesis using b(2) most [OF that] by (simp add: border_def)
      qed
      then have "\<exists>k s'. search_loop offset c ?s = Some (k, s') \<and> longest p (doc @ [c]) k
         \<and> ks_pattern s' = p \<and> ks_table s' = ks_table ?s \<and> (k < length p \<longrightarrow> ks_i s' = k)"
        by (intro less.hyps) (use less.prems lt b border_ends [OF b(2)] in auto)
      then show ?thesis
        using less.prems no b(1) by (simp add: search_loop.simps [of offset c s] Let_def)
    qed
  qed
qed

lemma partial_search_ok:
  assumes "tracks p doc s"
  shows "\<exists>k s'. partial_search c s = Some (k, s') \<and> longest p (doc @ [c]) k \<and> searcher_ok s'
     \<and> (k < length p \<longrightarrow> tracks p (doc @ [c]) s')"
proof -
  have s: "table_ok p (length p) (ks_table s)" "ks_pattern s = p" "ks_i s < length p" "longest p doc (ks_i s)" "2 \<le> length p"
    using assms by (auto simp: tracks_def searcher_ok_def)
  then have "ends p doc (ks_i s)" "\<And>m. ends p (doc @ [c]) (Suc m) \<Longrightarrow> m \<le> ks_i s"
    by (auto simp: longest_def ends_Suc)
  from search_loop_ok [OF s(1-3) refl this] show ?thesis
    using s unfolding partial_search_def tracks_def searcher_ok_def by fastforce
qed

text \<open>All characters of a text; the result is that of the last one.\<close>

fun search_text :: "nat \<Rightarrow> string \<Rightarrow> searcher \<Rightarrow> (nat \<times> searcher) option" where
  "search_text k [] s = Some (k, s)"
| "search_text k (c # cs) s = (case partial_search c s of None \<Rightarrow> None | Some (k', s') \<Rightarrow> search_text k' cs s')"

lemma search_text_snoc:
  "search_text k (cs @ [c]) s = (case search_text k cs s of None \<Rightarrow> None | Some (_, s') \<Rightarrow> partial_search c s')"
  by (induction cs arbitrary: k s) (auto split: option.splits)

lemma search_text_tracks:
  "tracks p [] s \<Longrightarrow> \<not> sublist p doc \<Longrightarrow> \<exists>k s'. search_text 0 doc s = Some (k, s') \<and> tracks p doc s' \<and> longest p doc k"
proof (induction doc rule: rev_induct)
  case Nil
  then show ?case by (auto simp: tracks_def longest_def dest: ends_length)
next
  case (snoc c doc)
  have "\<not> sublist p doc" using snoc.prems(2) sublist_order.order.trans [OF _ sublist_append_rightI] by blast
  then obtain k s' where s': "search_text 0 doc s = Some (k, s')" "tracks p doc s'" using snoc by blast
  obtain k' s'' where k': "partial_search c s' = Some (k', s'')" "longest p (doc @ [c]) k'"
    "k' < length p \<longrightarrow> tracks p (doc @ [c]) s''"
    using partial_search_ok [OF s'(2), of c] by blast
  have "\<not> suffix p (doc @ [c])" using snoc.prems(2) suffix_imp_sublist by blast
  then have "k' < length p" using k'(2) longest_whole [OF k'(2)] by (auto simp: longest_def ends_def le_less)
  then show ?case using s' k' by (simp add: search_text_snoc)
qed

text \<open>
  C20. Searching returns: after every text that does not contain the pattern before its last character the
  result is the length of the longest beginning of the pattern that ends the text, so it is the length of
  the pattern exactly if the text ends in the pattern.
\<close>

theorem search_finds_longest:
  assumes "2 \<le> length p" and "\<not> sublist p doc"
  shows "\<exists>s k s'. searcher_init p searcher_new = Some s \<and> search_text 0 (doc @ [c]) s = Some (k, s')
     \<and> longest p (doc @ [c]) k \<and> (k = length p \<longleftrightarrow> suffix p (doc @ [c]))"
proof -
  obtain s where s: "searcher_init p searcher_new = Some s" "tracks p [] s"
    using searcher_init_ok [OF searcher_new_ok assms(1)] by blast
  obtain k s' where t: "search_text 0 doc s = Some (k, s')" "tracks p doc s'"
    using search_text_tracks [OF s(2) assms(2)] by blast
  show ?thesis
    using s(1) t(1) partial_search_ok [OF t(2), of c] longest_whole by (fastforce simp: search_text_snoc)
qed

theorem search_finds_longest_witness:
  "\<exists>s k s'. searcher_init ''abab'' searcher_new = Some s \<and> search_text 0 (''abaaba'' @ ''b'') s = Some (k, s')
     \<and> longest ''abab'' (''abaaba'' @ ''b'') k \<and> (k = length ''abab'' \<longleftrightarrow> suffix ''abab'' (''abaaba'' @ ''b''))"
  by (rule search_finds_longest) code_simp+

end
