(* ===== verification/Multipart_Parser.thy ===== *)
theory Multipart_Parser
  imports Kmp_Searcher
begin

text \<open>
  The two automata that take a form apart: \<^verbatim>\<open>src/beast_ext/multipart_stream_parser.cpp\<close> finds
  the messages of a multipart body, \<^verbatim>\<open>src/beast_ext/message_stream_parser.cpp\<close> the name, the
  name of the file and the content of a message. A call of \<^verbatim>\<open>std::terminate\<close>, and a search
  that does not end, is \<open>None\<close>; a flag says whether the error code was set.

  The lemmas: the characters that the first automaton holds back are a function of its state, and what
  it lets go is the text that was read, in order.
\<close>

section \<open>Messages of a body\<close>

datatype multi_event = Multi_none | Message_begin | Message_end

datatype multi_phase =
    Multi_start | Preamble | First_message | Maybe_end_or_encapsulation | Maybe_end | Maybe_encapsulation
  | Encapsulation | Epilogue

record multi_parser =
  mp_phase :: multi_phase
  mp_kmp :: searcher
  mp_preamble :: string
  mp_encapsulation :: string
  mp_last :: nat

definition crlf :: string where "crlf = [CHR 0x0D, CHR 0x0A]"

definition ddash :: string where "ddash = ''--''"

definition multi_new :: multi_parser where
  "multi_new = \<lparr>mp_phase = Multi_start, mp_kmp = searcher_new, mp_preamble = [], mp_encapsulation = [], mp_last = 0\<rparr>"

definition multi_init :: "string \<Rightarrow> multi_parser \<Rightarrow> multi_parser" where
  "multi_init boundary p =
     p\<lparr>mp_preamble := mp_preamble p @ ddash @ boundary @ crlf,
       mp_encapsulation := mp_encapsulation p @ crlf @ ddash @ boundary\<rparr>"

definition tr_delim :: "multi_parser \<Rightarrow> string option" where
  "tr_delim p =
     (case mp_phase p of
        Preamble \<Rightarrow> Some (mp_preamble p)
      | First_message \<Rightarrow> Some (mp_encapsulation p)
      | Encapsulation \<Rightarrow> Some (mp_encapsulation p)
      | _ \<Rightarrow> None)"

definition tr_init :: "multi_parser \<Rightarrow> multi_parser option" where
  "tr_init p =
     (case tr_delim p of
        None \<Rightarrow> None
      | Some d \<Rightarrow> (case searcher_init d (mp_kmp p) of
                     None \<Rightarrow> None
                   | Some k \<Rightarrow> Some (p\<lparr>mp_last := 0, mp_kmp := k\<rparr>)))"

definition tr_check :: "char \<Rightarrow> multi_parser \<Rightarrow> (nat \<times> bool \<times> multi_parser) option" where
  "tr_check c p =
     (case partial_search c (mp_kmp p) of
        None \<Rightarrow> None
      | Some (matched, k) \<Rightarrow>
          (case tr_delim p of
             None \<Rightarrow> None
           | Some d \<Rightarrow>
               (let found = (matched = length d);
                    adv = (if mp_last p + 1 \<noteq> matched then mp_last p + 1 - matched else 0)
                          + (if found then length d else 0)
                in Some (adv, found, p\<lparr>mp_kmp := k, mp_last := matched\<rparr>))))"

text \<open>The characters by which the text advances, an event, and whether the error code was set.\<close>

type_synonym multi_result = "(nat \<times> multi_event \<times> bool \<times> multi_parser) option"

definition preamble_char :: "char \<Rightarrow> multi_parser \<Rightarrow> multi_result" where
  "preamble_char c p =
     (case tr_check c p of
        None \<Rightarrow> None
      | Some (adv, found, p) \<Rightarrow>
          (if found
           then (case tr_init (p\<lparr>mp_phase := First_message\<rparr>) of
                   None \<Rightarrow> None
                 | Some p \<Rightarrow> Some (adv, Message_begin, False, p))
           else Some (adv, Multi_none, False, p)))"

definition message_char :: "char \<Rightarrow> multi_parser \<Rightarrow> multi_result" where
  "message_char c p =
     (case tr_check c p of
        None \<Rightarrow> None
      | Some (adv, found, p) \<Rightarrow>
          (if found then Some (adv, Message_end, False, p\<lparr>mp_phase := Maybe_end_or_encapsulation\<rparr>)
           else Some (adv, Multi_none, False, p)))"

definition handle_char :: "char \<Rightarrow> multi_parser \<Rightarrow> multi_result" where
  "handle_char c p =
     (case mp_phase p of
        Multi_start \<Rightarrow>
          (case tr_init (p\<lparr>mp_phase := Preamble\<rparr>) of None \<Rightarrow> None | Some p \<Rightarrow> preamble_char c p)
      | Preamble \<Rightarrow> preamble_char c p
      | First_message \<Rightarrow> message_char c p
      | Maybe_end_or_encapsulation \<Rightarrow>
          (if c = CHR ''-'' then Some (0, Multi_none, False, p\<lparr>mp_phase := Maybe_end\<rparr>)
           else if c = CHR 0x0D then Some (0, Multi_none, False, p\<lparr>mp_phase := Maybe_encapsulation\<rparr>)
           else Some (0, Multi_none, True, p))
      | Maybe_end \<Rightarrow>
          (if c = CHR ''-'' then Some (2, Multi_none, False, p\<lparr>mp_phase := Epilogue\<rparr>)
           else Some (0, Multi_none, True, p))
      | Maybe_encapsulation \<Rightarrow>
          (if c = CHR 0x0A
           then (case tr_init (p\<lparr>mp_phase := Encapsulation\<rparr>) of
                   None \<Rightarrow> None
                 | Some p \<Rightarrow> Some (2, Message_begin, False, p))
           else Some (0, Multi_none, True, p))
      | Encapsulation \<Rightarrow> message_char c p
      | Epilogue \<Rightarrow> Some (1, Multi_none, False, p))"

section \<open>Parts of a message\<close>

datatype part_event =
    Part_none | Begin_name | End_name | Begin_filename | End_filename | Begin_body | End_body

datatype part_phase =
    Part_start | Content_disposition | Part_name | Maybe_filename | Filename | Filename_body | Content_type
  | Content_type_body | Pre_body | Part_body

text \<open>\<open>pp_at\<close> is where \<^verbatim>\<open>transition_it\<close> is in the text of the state.\<close>

record part_parser =
  pp_phase :: part_phase
  pp_at :: nat

definition part_new :: part_parser where
  "part_new = \<lparr>pp_phase = Part_start, pp_at = 0\<rparr>"

definition tr_text :: "part_phase \<Rightarrow> string option" where
  "tr_text phase =
     (case phase of
        Content_disposition \<Rightarrow> Some (''Content-Disposition: form-data; name='' @ [CHR 0x22])
      | Filename \<Rightarrow> Some ('' filename='' @ [CHR 0x22])
      | Content_type \<Rightarrow> Some (crlf @ ''Content-Type: '')
      | Pre_body \<Rightarrow> Some (crlf @ crlf)
      | _ \<Rightarrow> None)"

definition tr_reset :: "part_parser \<Rightarrow> part_parser option" where
  "tr_reset p = (case tr_text (pp_phase p) of None \<Rightarrow> None | Some _ \<Rightarrow> Some (p\<lparr>pp_at := 0\<rparr>))"

definition tr_next :: "part_parser \<Rightarrow> (bool \<times> part_parser) option" where
  "tr_next p =
     (case tr_text (pp_phase p) of
        None \<Rightarrow> None
      | Some s \<Rightarrow> Some (Suc (pp_at p) = length s, p\<lparr>pp_at := Suc (pp_at p)\<rparr>))"

text \<open>The next character of the text of a state, with what happens at its end.\<close>

type_synonym part_result = "(part_event \<times> bool \<times> part_parser) option"

definition part_expect :: "char \<Rightarrow> part_phase \<Rightarrow> part_event \<Rightarrow> part_parser \<Rightarrow> part_result" where
  "part_expect c next_phase ev p =
     (case tr_text (pp_phase p) of
        None \<Rightarrow> None
      | Some s \<Rightarrow>
          (if c = s ! pp_at p
           then (case tr_next p of
                   None \<Rightarrow> None
                 | Some (at_end, p) \<Rightarrow>
                     (if at_end then Some (ev, False, p\<lparr>pp_phase := next_phase\<rparr>) else Some (Part_none, False, p)))
           else Some (Part_none, True, p)))"

definition part_goto :: "part_phase \<Rightarrow> part_event \<Rightarrow> part_parser \<Rightarrow> part_result" where
  "part_goto phase ev p = map_option (\<lambda>p. (ev, False, p)) (tr_reset (p\<lparr>pp_phase := phase\<rparr>))"

definition part_pre_body :: "part_parser \<Rightarrow> part_result" where
  "part_pre_body p =
     (case tr_reset (p\<lparr>pp_phase := Pre_body\<rparr>) of
        None \<Rightarrow> None
      | Some p \<Rightarrow> map_option (\<lambda>(_, p). (Part_none, False, p)) (tr_next p))"

definition handle_message_char :: "char \<Rightarrow> part_parser \<Rightarrow> part_result" where
  "handle_message_char c p =
     (case pp_phase p of
        Part_start \<Rightarrow>
          (case tr_reset (p\<lparr>pp_phase := Content_disposition\<rparr>) of
             None \<Rightarrow> None
           | Some p \<Rightarrow> part_expect c Part_name Begin_name p)
      | Content_disposition \<Rightarrow> part_expect c Part_name Begin_name p
      | Part_name \<Rightarrow>
          (if c = CHR 0x22 then Some (End_name, False, p\<lparr>pp_phase := Maybe_filename\<rparr>)
           else Some (Part_none, False, p))
      | Maybe_filename \<Rightarrow>
          (if c = CHR '';'' then part_goto Filename Part_none p
           else if c = CHR 0x0D then part_pre_body p
           else Some (Part_none, True, p))
      | Filename \<Rightarrow> part_expect c Filename_body Begin_filename p
      | Filename_body \<Rightarrow>
          (if c = CHR 0x22 then part_goto Content_type End_filename p else Some (Part_none, False, p))
      | Content_type \<Rightarrow> part_expect c Content_type_body Part_none p
      | Content_type_body \<Rightarrow> (if c = CHR 0x0D then part_pre_body p else Some (Part_none, False, p))
      | Pre_body \<Rightarrow> part_expect c Part_body Begin_body p
      | Part_body \<Rightarrow> Some (Part_none, False, p))"

definition handle_message_end :: "part_parser \<Rightarrow> part_event \<times> bool \<times> part_parser" where
  "handle_message_end p =
     (if pp_phase p \<noteq> Part_body then (Part_none, True, p) else (End_body, False, p\<lparr>pp_phase := Part_start\<rparr>))"

section \<open>What is held back\<close>

text \<open>A text phase of the first automaton, and the characters that it has read and not let go.\<close>

definition held :: "multi_parser \<Rightarrow> string" where
  "held p =
     (case mp_phase p of
        Preamble \<Rightarrow> take (mp_last p) (mp_preamble p)
      | First_message \<Rightarrow> take (mp_last p) (mp_encapsulation p)
      | Encapsulation \<Rightarrow> take (mp_last p) (mp_encapsulation p)
      | Maybe_end \<Rightarrow> ''-''
      | Maybe_encapsulation \<Rightarrow> [CHR 0x0D]
      | _ \<Rightarrow> [])"

definition multi_ok :: "multi_parser \<Rightarrow> bool" where
  "multi_ok p \<longleftrightarrow> 2 \<le> length (mp_preamble p) \<and> 2 \<le> length (mp_encapsulation p) \<and> searcher_ok (mp_kmp p)
     \<and> (\<forall>d. tr_delim p = Some d \<longrightarrow> (\<exists>doc. tracks d doc (mp_kmp p) \<and> mp_last p = ks_i (mp_kmp p)))"

lemma tr_delim_update [simp]:
  "tr_delim (p\<lparr>mp_kmp := k\<rparr>) = tr_delim p" "tr_delim (p\<lparr>mp_last := n\<rparr>) = tr_delim p"
  by (simp_all add: tr_delim_def cong: multi_phase.case_cong)

lemma multi_init_ok: "multi_ok (multi_init boundary multi_new)"
  by (simp add: multi_ok_def multi_init_def multi_new_def ddash_def crlf_def tr_delim_def)

lemma tr_init_ok:
  assumes "tr_delim p = Some d" "2 \<le> length d" "searcher_ok (mp_kmp p)"
  shows "\<exists>k. tr_init p = Some (p\<lparr>mp_last := 0, mp_kmp := k\<rparr>) \<and> tracks d [] k \<and> ks_i k = 0"
proof -
  obtain k where k: "searcher_init d (mp_kmp p) = Some k" "tracks d [] k"
    using searcher_init_ok [OF assms(3,2)] by blast
  moreover have "ks_i k = 0" using k(2) by (auto simp: tracks_def longest_def dest: ends_length)
  ultimately show ?thesis using assms(1) by (intro exI [of _ k]) (simp add: tr_init_def)
qed

lemma tracks_held: "tracks d doc k \<Longrightarrow> suffix (take (ks_i k) d) doc \<and> ks_i k < length d"
  by (simp add: tracks_def longest_def ends_def)

lemma suffix_drop: "suffix xs ys \<Longrightarrow> drop (length ys - length xs) ys = xs"
  by (auto simp: suffix_def)

text \<open>One more character: what is let go and what is held back afterwards are what was held and the character.\<close>

lemma tr_check_ok:
  assumes "tr_delim p = Some d" "tracks d doc (mp_kmp p)" "mp_last p = ks_i (mp_kmp p)"
  shows "\<exists>adv found k n. tr_check c p = Some (adv, found, p\<lparr>mp_kmp := k, mp_last := n\<rparr>) \<and> searcher_ok k
     \<and> longest d (doc @ [c]) n \<and> found = (n = length d)
     \<and> (\<not> found \<longrightarrow> tracks d (doc @ [c]) k \<and> ks_i k = n)
     \<and> adv + (if found then 0 else n) = Suc (mp_last p)
     \<and> drop adv (take (mp_last p) d @ [c]) = (if found then [] else take n d)"
proof -
  obtain n k where k: "partial_search c (mp_kmp p) = Some (n, k)" "longest d (doc @ [c]) n" "searcher_ok k"
    "n < length d \<longrightarrow> tracks d (doc @ [c]) k"
    using partial_search_ok [OF assms(2)] by blast
  let ?h = "take (mp_last p) d"
  have h: "suffix ?h doc" "length ?h = mp_last p" using tracks_held [OF assms(2)] assms(3) by simp_all
  have n: "n \<le> length d" "suffix (take n d) (doc @ [c])" using k(2) by (simp_all add: longest_def ends_def)
  have le: "n \<le> Suc (mp_last p)"
  proof (cases n)
    case (Suc m)
    then have "ends d doc m" using k(2) by (auto simp: longest_def ends_Suc)
    then have "m \<le> mp_last p" using assms(2,3) by (auto simp: tracks_def longest_def)
    then show ?thesis using Suc by simp
  qed simp
  have "suffix (?h @ [c]) (doc @ [c])" using h(1) by (auto simp: suffix_def)
  then have "suffix (take n d) (?h @ [c])"
    using n h(2) le by (intro suffix_length_suffix [OF n(2)]) simp_all
  from suffix_drop [OF this] have drop: "drop (Suc (mp_last p) - n) (?h @ [c]) = take n d"
    using h(2) n(1) by (simp add: min_absorb2)
  have i: "n < length d \<longrightarrow> ks_i k = n"
    using k(2,4) longest_unique by (auto simp: tracks_def)
  have lt: "n \<le> length d" "mp_last p < length d" using n(1) assms(2,3) by (simp_all add: tracks_def)
  let ?adv = "Suc (mp_last p) - n + (if n = length d then length d else 0)"
  have check: "tr_check c p = Some (?adv, n = length d, p\<lparr>mp_kmp := k, mp_last := n\<rparr>)"
    using k(1) assms(1) le by (simp add: tr_check_def Let_def)
  have sum: "?adv + (if n = length d then 0 else n) = Suc (mp_last p)" using le by simp
  have rest: "drop ?adv (?h @ [c]) = (if n = length d then [] else take n d)"
    using drop lt le h(2) by (cases "n = length d") simp_all
  show ?thesis
    by (rule exI [of _ ?adv], rule exI [of _ "n = length d"], rule exI [of _ k], rule exI [of _ n])
      (use check k(2-4) i sum rest lt in auto)
qed

definition lets_go :: "multi_parser \<Rightarrow> char \<Rightarrow> nat \<Rightarrow> multi_parser \<Rightarrow> bool" where
  "lets_go p c adv p' \<longleftrightarrow> adv \<le> Suc (length (held p)) \<and> drop adv (held p @ [c]) = held p' \<and> multi_ok p'
     \<and> mp_preamble p' = mp_preamble p \<and> mp_encapsulation p' = mp_encapsulation p"

lemma held_text: "tr_delim p = Some d \<Longrightarrow> held p = take (mp_last p) d"
  by (auto simp: tr_delim_def held_def split: multi_phase.splits)

lemma multi_ok_text:
  assumes "multi_ok p" "tr_delim p = Some d"
  obtains doc where "tracks d doc (mp_kmp p)" "mp_last p = ks_i (mp_kmp p)" "2 \<le> length d"
proof -
  have "2 \<le> length d" using assms by (auto simp: multi_ok_def tr_delim_def split: multi_phase.splits)
  then show ?thesis using assms that by (auto simp: multi_ok_def)
qed

lemma held_at_most: "multi_ok p \<Longrightarrow> tr_delim p = Some d \<Longrightarrow> length (held p) = mp_last p"
  using multi_ok_text [of p d] by (metis held_text length_take min.absorb2 order_less_imp_le tracks_held)

text \<open>The step of a text phase, when the delimiter is not complete and when it is.\<close>

lemma text_step_at:
  assumes "multi_ok p" "tr_delim p = Some d" "tracks d doc (mp_kmp p)"
  shows "\<exists>adv k n. tr_check c p = Some (adv, held p @ [c] = d, p\<lparr>mp_kmp := k, mp_last := n\<rparr>) \<and> searcher_ok k
     \<and> (held p @ [c] = d \<longrightarrow> adv = Suc (length (held p)))
     \<and> (held p @ [c] \<noteq> d \<longrightarrow> lets_go p c adv (p\<lparr>mp_kmp := k, mp_last := n\<rparr>) \<and> tracks d (doc @ [c]) k)
     \<and> (held p @ [c] = d \<longleftrightarrow> suffix d (doc @ [c]))"
proof -
  have t: "tracks d doc (mp_kmp p)" "mp_last p = ks_i (mp_kmp p)" "2 \<le> length d"
    using assms multi_ok_text [OF assms(1,2)] by blast+
  from tr_check_ok [OF assms(2) t(1,2), of c] obtain adv found k n where
    r: "tr_check c p = Some (adv, found, p\<lparr>mp_kmp := k, mp_last := n\<rparr>)" "searcher_ok k" "longest d (doc @ [c]) n"
      "found = (n = length d)" "\<not> found \<longrightarrow> tracks d (doc @ [c]) k \<and> ks_i k = n"
      "adv + (if found then 0 else n) = Suc (mp_last p)"
      "drop adv (take (mp_last p) d @ [c]) = (if found then [] else take n d)"
    by blast
  have h: "held p = take (mp_last p) d" "length (held p) = mp_last p"
    using held_text [OF assms(2)] held_at_most [OF assms(1,2)] by simp_all
  have d': "tr_delim (p\<lparr>mp_kmp := k, mp_last := n\<rparr>) = Some d" using assms(2) by simp
  have "lets_go p c adv (p\<lparr>mp_kmp := k, mp_last := n\<rparr>)" if "\<not> found"
    using that r h d' held_text [OF d'] assms(1) by (auto simp: lets_go_def multi_ok_def)
  moreover have "held p @ [c] = d" if "found"
  proof -
    have n: "n = length d" using that r(4) by simp
    then have "ends d (doc @ [c]) (length d)" using r(3) by (simp add: longest_def)
    then obtain m where m: "length d = Suc m" "ends d doc m" "d ! m = c"
      using t(3) by (cases "length d") (auto simp: ends_Suc)
    have "mp_last p < length d" using t(1,2) by (simp add: tracks_def)
    moreover have "m \<le> mp_last p" using m(2) t(1,2) by (auto simp: tracks_def longest_def)
    ultimately have "mp_last p = m" using m(1) by simp
    then show ?thesis using m(1,3) h(1) by (metis lessI take_Suc_conv_app_nth take_all order_refl)
  qed
  moreover have "found" if "held p @ [c] = d"
  proof -
    have "suffix (held p) doc" using tracks_held [OF t(1)] h(1) t(2) by simp
    then have "suffix d (doc @ [c])" using that by (auto simp: suffix_def)
    then show ?thesis using longest_whole [OF r(3)] r(4) by simp
  qed
  ultimately have "found = (held p @ [c] = d)" "held p @ [c] \<noteq> d \<longrightarrow> lets_go p c adv (p\<lparr>mp_kmp := k, mp_last := n\<rparr>)"
    by blast+
  moreover have "adv = Suc (length (held p))" if found using r(6) h(2) that by simp
  moreover have "found = suffix d (doc @ [c])" using longest_whole [OF r(3)] r(4) by simp
  ultimately show ?thesis using r(1,2,5) by (intro exI [of _ adv] exI [of _ k] exI [of _ n]) auto
qed

lemma text_step:
  assumes "multi_ok p" "tr_delim p = Some d"
  shows "\<exists>adv k n. tr_check c p = Some (adv, held p @ [c] = d, p\<lparr>mp_kmp := k, mp_last := n\<rparr>) \<and> searcher_ok k
     \<and> (held p @ [c] = d \<longrightarrow> adv = Suc (length (held p)))
     \<and> (held p @ [c] \<noteq> d \<longrightarrow> lets_go p c adv (p\<lparr>mp_kmp := k, mp_last := n\<rparr>))"
  using multi_ok_text [OF assms] text_step_at [OF assms] by metis

lemma start_text:
  assumes "multi_ok p" "phase \<in> {Preamble, First_message, Encapsulation}"
  shows "\<exists>p'. tr_init (p\<lparr>mp_phase := phase\<rparr>) = Some p' \<and> held p' = [] \<and> multi_ok p' \<and> mp_phase p' = phase
     \<and> mp_preamble p' = mp_preamble p \<and> mp_encapsulation p' = mp_encapsulation p"
proof -
  obtain d where d: "tr_delim (p\<lparr>mp_phase := phase\<rparr>) = Some d" "2 \<le> length d"
    using assms by (auto simp: tr_delim_def multi_ok_def)
  obtain k where k: "tr_init (p\<lparr>mp_phase := phase\<rparr>) = Some (p\<lparr>mp_phase := phase, mp_last := 0, mp_kmp := k\<rparr>)"
    "tracks d [] k" "ks_i k = 0"
    using tr_init_ok [OF d] assms(1) by (auto simp: multi_ok_def)
  have "tr_delim (p\<lparr>mp_phase := phase, mp_last := 0, mp_kmp := k\<rparr>) = Some d"
    using d(1) by simp
  then show ?thesis
    using k assms(1) held_text by (auto simp: multi_ok_def tracks_def)
qed

text \<open>The events of the automaton: what it lets go ends with a delimiter exactly at an event.\<close>

lemma preamble_char_ok:
  assumes "multi_ok p" "mp_phase p = Preamble"
  shows "\<exists>adv p'. preamble_char c p =
       Some (adv, if held p @ [c] = mp_preamble p then Message_begin else Multi_none, False, p')
     \<and> lets_go p c adv p' \<and> mp_phase p' = (if held p @ [c] = mp_preamble p then First_message else Preamble)"
proof -
  have d: "tr_delim p = Some (mp_preamble p)" using assms(2) by (simp add: tr_delim_def)
  from text_step [OF assms(1) d, of c] obtain adv k n where
    r: "tr_check c p = Some (adv, held p @ [c] = mp_preamble p, p\<lparr>mp_kmp := k, mp_last := n\<rparr>)" "searcher_ok k"
      "held p @ [c] = mp_preamble p \<longrightarrow> adv = Suc (length (held p))"
      "held p @ [c] \<noteq> mp_preamble p \<longrightarrow> lets_go p c adv (p\<lparr>mp_kmp := k, mp_last := n\<rparr>)"
    by blast
  have ok: "multi_ok (p\<lparr>mp_kmp := k, mp_last := n, mp_phase := Multi_start\<rparr>)"
    using assms(1) r(2) by (simp add: multi_ok_def tr_delim_def)
  from start_text [OF this, of First_message] obtain p' where p':
    "tr_init (p\<lparr>mp_kmp := k, mp_last := n, mp_phase := First_message\<rparr>) = Some p'"
    "held p' = []" "multi_ok p'" "mp_phase p' = First_message" "mp_preamble p' = mp_preamble p"
    "mp_encapsulation p' = mp_encapsulation p"
    by auto
  have "length (mp_preamble p) = Suc (length (held p))" if "held p @ [c] = mp_preamble p"
    using that by (metis length_append_singleton)
  then show ?thesis
    using r p' assms(2) by (cases "held p @ [c] = mp_preamble p") (simp_all add: preamble_char_def lets_go_def)
qed

lemma message_char_ok:
  assumes "multi_ok p" "mp_phase p \<in> {First_message, Encapsulation}"
  shows "\<exists>adv p'. message_char c p =
       Some (adv, if held p @ [c] = mp_encapsulation p then Message_end else Multi_none, False, p')
     \<and> lets_go p c adv p'
     \<and> mp_phase p' = (if held p @ [c] = mp_encapsulation p then Maybe_end_or_encapsulation else mp_phase p)
     \<and> (held p @ [c] = mp_encapsulation p \<longrightarrow> adv = length (mp_encapsulation p))"
proof -
  have d: "tr_delim p = Some (mp_encapsulation p)" using assms(2) by (auto simp: tr_delim_def)
  from text_step [OF assms(1) d, of c] obtain adv k n where
    r: "tr_check c p = Some (adv, held p @ [c] = mp_encapsulation p, p\<lparr>mp_kmp := k, mp_last := n\<rparr>)" "searcher_ok k"
      "held p @ [c] = mp_encapsulation p \<longrightarrow> adv = Suc (length (held p))"
      "held p @ [c] \<noteq> mp_encapsulation p \<longrightarrow> lets_go p c adv (p\<lparr>mp_kmp := k, mp_last := n\<rparr>)"
    by blast
  let ?q = "p\<lparr>mp_kmp := k, mp_last := n, mp_phase := Maybe_end_or_encapsulation\<rparr>"
  have "multi_ok ?q" using assms(1) r(2) by (simp add: multi_ok_def tr_delim_def)
  then have "lets_go p c (Suc (length (held p))) ?q" by (simp add: lets_go_def held_def)
  moreover have "length (mp_encapsulation p) = Suc (length (held p))" if "held p @ [c] = mp_encapsulation p"
    using that by (metis length_append_singleton)
  ultimately show ?thesis
    using r by (cases "held p @ [c] = mp_encapsulation p") (simp_all add: message_char_def)
qed

text \<open>
  Every character is handled, and unless it is an error what was held back and the character are what is
  let go and what is held back.
\<close>

theorem handle_char_lets_go:
  assumes "multi_ok p"
  shows "\<exists>adv ev ec p'. handle_char c p = Some (adv, ev, ec, p') \<and> (\<not> ec \<longrightarrow> lets_go p c adv p')"
proof -
  have plain: "lets_go p c adv (p\<lparr>mp_phase := ph\<rparr>)"
    if "adv \<le> Suc (length (held p))" "drop adv (held p @ [c]) = held (p\<lparr>mp_phase := ph\<rparr>)"
      "ph \<notin> {Preamble, First_message, Encapsulation}" for adv ph
    using that assms by (cases ph) (auto simp: lets_go_def multi_ok_def tr_delim_def)
  have handled: ?thesis if "handle_char c p = Some (adv, ev, False, p')" "lets_go p c adv p'" for adv ev p'
    using that by blast
  show ?thesis
  proof (cases "mp_phase p")
    case Multi_start
    then have h: "held p = []" by (simp add: held_def)
    from start_text [OF assms, of Preamble] obtain p1 where p1: "tr_init (p\<lparr>mp_phase := Preamble\<rparr>) = Some p1"
      "held p1 = []" "multi_ok p1" "mp_phase p1 = Preamble" "mp_preamble p1 = mp_preamble p"
      "mp_encapsulation p1 = mp_encapsulation p" by auto
    obtain adv ev p' where "preamble_char c p1 = Some (adv, ev, False, p')" "lets_go p1 c adv p'"
      using preamble_char_ok [OF p1(3,4), of c] by blast
    then show ?thesis using p1 h Multi_start by (auto simp: handle_char_def lets_go_def)
  next
    case Maybe_encapsulation
    from start_text [OF assms, of Encapsulation] obtain p1 where p1: "tr_init (p\<lparr>mp_phase := Encapsulation\<rparr>) = Some p1"
      "held p1 = []" "multi_ok p1" "mp_preamble p1 = mp_preamble p" "mp_encapsulation p1 = mp_encapsulation p" by auto
    have "held p = [CHR 0x0D]" using Maybe_encapsulation by (simp add: held_def)
    then show ?thesis using Maybe_encapsulation p1 by (auto simp: handle_char_def lets_go_def)
  next
    case Preamble
    then have h: "handle_char c p = preamble_char c p" by (simp add: handle_char_def)
    from Preamble obtain adv ev p' where "preamble_char c p = Some (adv, ev, False, p')" "lets_go p c adv p'"
      using preamble_char_ok [OF assms, of c] by auto
    then show ?thesis using h by auto
  next
    case First_message
    then have h: "handle_char c p = message_char c p" by (simp add: handle_char_def)
    from First_message obtain adv ev p' where "message_char c p = Some (adv, ev, False, p')" "lets_go p c adv p'"
      using message_char_ok [OF assms, of c] by auto
    then show ?thesis using h by auto
  next
    case Encapsulation
    then have h: "handle_char c p = message_char c p" by (simp add: handle_char_def)
    from Encapsulation obtain adv ev p' where "message_char c p = Some (adv, ev, False, p')" "lets_go p c adv p'"
      using message_char_ok [OF assms, of c] by auto
    then show ?thesis using h by auto
  next
    case Maybe_end_or_encapsulation
    then have h: "held p = []" by (simp add: held_def)
    consider "c = CHR ''-''" | "c = CHR 0x0D" | "c \<noteq> CHR ''-''" "c \<noteq> CHR 0x0D" by blast
    then show ?thesis
    proof cases
      case 1
      with Maybe_end_or_encapsulation h show ?thesis
        by (intro handled [OF _ plain [of 0 Maybe_end]]) (simp_all add: handle_char_def held_def)
    next
      case 2
      with Maybe_end_or_encapsulation h show ?thesis
        by (intro handled [OF _ plain [of 0 Maybe_encapsulation]]) (simp_all add: handle_char_def held_def)
    next
      case 3
      with Maybe_end_or_encapsulation show ?thesis by (auto simp: handle_char_def)
    qed
  next
    case Maybe_end
    then have "held p = ''-''" by (simp add: held_def)
    with Maybe_end show ?thesis
      by (cases "c = CHR ''-''")
        (intro handled [OF _ plain [of 2 Epilogue]], auto simp: handle_char_def held_def)
  next
    case Epilogue
    then have "held p = []" by (simp add: held_def)
    with Epilogue show ?thesis
      by (intro handled [OF _ plain [of 1 Epilogue]]) (simp_all add: handle_char_def held_def)
  qed
qed

end
