(* ===== verification/Form_Body.thy ===== *)
theory Form_Body
  imports Multipart_Parser Fs_Disk
begin

text \<open>
  The body of a form that is uploaded: \<^verbatim>\<open>include/beast_ext/basic_multipart_form_body.h\<close>. The
  HTTP parser hands over the body in pieces (\<^verbatim>\<open>reader::put\<close>); names, contents and files are
  taken out of it while it arrives.

  A position in the sequence of buffers (\<^verbatim>\<open>it\<close>, \<^verbatim>\<open>offset\<close>) is the number of
  characters before it; the sequence is the text \<open>view\<close>. \<open>None\<close> stands for what has no result in C++:
  the end of the sequence is dereferenced, or \<^verbatim>\<open>std::terminate\<close> is called. A multimap keeps its
  entries in the order in which they were emplaced, so that the iterators of the source are the last
  entries; iterating over it visits them sorted by key. Writing to a file that is open succeeds.
\<close>

section \<open>The value of a body\<close>

datatype form_mode = Mode_add | Mode_replace | Mode_add_or_replace | Mode_ignore

record form_value =
  fv_name :: string
  fv_is_file :: bool
  fv_written :: bool
  fv_content :: string

text \<open>An open file is a place in the tree, whatever happens to its path.\<close>

type_synonym form_file = "string \<times> string list option"

record form_body =
  fb_dir :: string
  fb_mode :: form_mode
  fb_values :: "form_value list"
  fb_files :: "form_file list"

definition form_body_new :: form_body where
  "form_body_new = \<lparr>fb_dir = [], fb_mode = Mode_add, fb_values = [], fb_files = []\<rparr>"

text \<open>The flag: \<^verbatim>\<open>not_a_directory\<close>.\<close>

definition set_dir :: "fs_obj \<Rightarrow> string \<Rightarrow> form_body \<Rightarrow> bool \<times> form_body" where
  "set_dir d path b = (os_type d path \<noteq> Ft_directory, b\<lparr>fb_dir := path\<rparr>)"

definition set_form_mode :: "form_mode \<Rightarrow> form_body \<Rightarrow> form_body" where
  "set_form_mode mode b = b\<lparr>fb_mode := mode\<rparr>"

definition get_values :: "form_body \<Rightarrow> form_value list" where
  "get_values b = sort_key fv_name (fb_values b)"

section \<open>The reader\<close>

datatype form_phase = Form_name | Form_filename | Form_content | Form_file

record form_reader =
  fr_body :: form_body
  fr_boundary :: string
  fr_multi :: multi_parser
  fr_part :: part_parser
  fr_message :: bool
  fr_writable :: bool
  fr_phase :: form_phase
  fr_name :: string
  fr_pending :: string
  fr_disk :: fs_obj

definition boundary_of :: "string \<Rightarrow> string" where
  "boundary_of content_type = tl (dropWhile (\<lambda>c. c \<noteq> CHR ''='') content_type)"

definition form_reader_new :: "string \<Rightarrow> form_body \<Rightarrow> fs_obj \<Rightarrow> form_reader" where
  "form_reader_new content_type b d =
     \<lparr>fr_body = b, fr_boundary = boundary_of content_type, fr_multi = multi_new, fr_part = part_new,
      fr_message = False, fr_writable = False, fr_phase = Form_name, fr_name = [], fr_pending = [], fr_disk = d\<rparr>"

definition form_init :: "form_reader \<Rightarrow> bool \<times> form_reader" where
  "form_init r =
     (if fr_boundary r = [] then (True, r)
      else (False, r\<lparr>fr_multi := multi_init (fr_boundary r) (fr_multi r)\<rparr>))"

definition form_finish :: "form_reader \<Rightarrow> bool" where
  "form_finish r \<longleftrightarrow> fr_phase r \<noteq> Form_name"

section \<open>Changes of the reader\<close>

fun map_last :: "('a \<Rightarrow> 'a) \<Rightarrow> 'a list \<Rightarrow> 'a list" where
  "map_last f [] = []"
| "map_last f [x] = [f x]"
| "map_last f (x # y # ys) = x # map_last f (y # ys)"

definition file_append :: "string list \<Rightarrow> string \<Rightarrow> fs_obj \<Rightarrow> fs_obj" where
  "file_append at s d =
     (case obj_at d at of Some (Regular c p) \<Rightarrow> put_at (Some (Regular (c @ s) p)) at d | _ \<Rightarrow> d)"

definition on_body :: "(form_body \<Rightarrow> form_body) \<Rightarrow> form_reader \<Rightarrow> form_reader" where
  "on_body f r = r\<lparr>fr_body := f (fr_body r)\<rparr>"

definition on_values :: "(form_value list \<Rightarrow> form_value list) \<Rightarrow> form_body \<Rightarrow> form_body" where
  "on_values f b = b\<lparr>fb_values := f (fb_values b)\<rparr>"

definition add_value :: "bool \<Rightarrow> form_reader \<Rightarrow> form_reader" where
  "add_value is_file r =
     (on_body (on_values (\<lambda>vs. vs @ [\<lparr>fv_name = fr_name r, fv_is_file = is_file, fv_written = True, fv_content = []\<rparr>])) r)
       \<lparr>fr_name := []\<rparr>"

text \<open>The file that is being written, if it is open.\<close>

definition current_file :: "form_reader \<Rightarrow> string list option" where
  "current_file r = (case rev (fb_files (fr_body r)) of [] \<Rightarrow> None | (_, at) # _ \<Rightarrow> at)"

text \<open>Characters of a part reach the name, the value or the file.\<close>

definition sink :: "string \<Rightarrow> form_reader \<Rightarrow> form_reader" where
  "sink s r =
     (case fr_phase r of
        Form_name \<Rightarrow> r\<lparr>fr_name := fr_name r @ s\<rparr>
      | Form_filename \<Rightarrow> on_body (on_values (map_last (\<lambda>v. v\<lparr>fv_content := fv_content v @ s\<rparr>))) r
      | Form_content \<Rightarrow> on_body (on_values (map_last (\<lambda>v. v\<lparr>fv_content := fv_content v @ s\<rparr>))) r
      | Form_file \<Rightarrow> (case current_file r of None \<Rightarrow> r | Some at \<Rightarrow> r\<lparr>fr_disk := file_append at s (fr_disk r)\<rparr>))"

text \<open>The file whose name was read: the mode decides whether it is opened.\<close>

definition open_file :: "form_reader \<Rightarrow> bool \<times> form_reader" where
  "open_file r =
     (let b = fr_body r;
          name = (case rev (fb_values b) of [] \<Rightarrow> [] | v # _ \<Rightarrow> fv_content v);
          path = path_div (fb_dir b) name;
          exists = os_type (fr_disk r) path \<noteq> Ft_not_found;
          unopened = on_body (\<lambda>b. b\<lparr>fb_files := fb_files b @ [(name, None)]\<rparr>) r;
          skipped = on_body (on_values (map_last (\<lambda>v. v\<lparr>fv_written := False\<rparr>))) unopened
      in if fb_mode b = Mode_ignore then (False, skipped)
         else if fb_mode b = Mode_replace \<and> \<not> exists then (False, skipped)
         else if fb_mode b = Mode_add \<and> exists then (False, skipped)
         else (case os_open_write path (fr_disk r) of
                 None \<Rightarrow> (True, unopened)
               | Some d \<Rightarrow>
                   (False, on_body (\<lambda>b. b\<lparr>fb_files := fb_files b @ [(name, os_target d path)]\<rparr>) (r\<lparr>fr_disk := d\<rparr>))))"

definition close_file :: "form_reader \<Rightarrow> form_reader" where
  "close_file = on_body (\<lambda>b. b\<lparr>fb_files := map_last (\<lambda>(name, _). (name, None)) (fb_files b)\<rparr>)"

section \<open>One piece of the body\<close>

record form_put =
  pl_reader :: form_reader
  pl_msg :: nat
  pl_part :: nat
  pl_end :: nat
  pl_ec :: bool

text \<open>\<^verbatim>\<open>write_part\<close>: a name that is cut by the end of the buffers reads past them.\<close>

definition part_text :: "string \<Rightarrow> form_put \<Rightarrow> string" where
  "part_text view p = take (pl_end p - pl_part p) (drop (pl_part p) view)"

definition write_part :: "string \<Rightarrow> form_put \<Rightarrow> form_put option" where
  "write_part view p =
     (let r = pl_reader p
      in if fr_phase r = Form_name \<and> pl_end p = length view then None
         else Some (p\<lparr>pl_reader := sink (part_text view p) r, pl_part := pl_end p,
                      pl_ec := (if fr_phase r = Form_file \<and> current_file r \<noteq> None \<and> pl_part p < length view
                                then False else pl_ec p)\<rparr>))"

definition begin_part :: "form_put \<Rightarrow> form_put" where
  "begin_part p = p\<lparr>pl_reader := (pl_reader p)\<lparr>fr_writable := True\<rparr>, pl_part := Suc (pl_msg p)\<rparr>"

definition end_part :: "string \<Rightarrow> form_put \<Rightarrow> form_put option" where
  "end_part view p =
     write_part view (p\<lparr>pl_reader := (pl_reader p)\<lparr>fr_writable := False\<rparr>, pl_end := pl_msg p\<rparr>)"

definition on_reader :: "(form_reader \<Rightarrow> form_reader) \<Rightarrow> form_put \<Rightarrow> form_put" where
  "on_reader f p = p\<lparr>pl_reader := f (pl_reader p)\<rparr>"

definition message_part_event :: "string \<Rightarrow> part_event \<Rightarrow> form_put \<Rightarrow> form_put option" where
  "message_part_event view ev p =
     (case ev of
        Part_none \<Rightarrow> Some p
      | Begin_name \<Rightarrow> Some (begin_part p)
      | End_name \<Rightarrow> map_option (on_reader (\<lambda>r. r\<lparr>fr_phase := Form_content\<rparr>)) (end_part view p)
      | Begin_filename \<Rightarrow> Some (begin_part (on_reader (\<lambda>r. (add_value True r)\<lparr>fr_phase := Form_filename\<rparr>) p))
      | End_filename \<Rightarrow>
          (case end_part view p of
             None \<Rightarrow> None
           | Some p \<Rightarrow>
               (let (failed, r) = open_file (pl_reader p);
                    opened = (\<not> failed \<and> current_file r \<noteq> None)
                in Some (p\<lparr>pl_reader := r\<lparr>fr_phase := Form_file\<rparr>,
                           pl_ec := (if failed then True else if opened then False else pl_ec p)\<rparr>)))
      | Begin_body \<Rightarrow>
          Some (begin_part (on_reader (\<lambda>r. if fr_phase r = Form_content then add_value False r else r) p))
      | End_body \<Rightarrow>
          (case end_part view p of
             None \<Rightarrow> None
           | Some p \<Rightarrow>
               (let file = (fr_phase (pl_reader p) = Form_file)
                in Some (on_reader (\<lambda>r. (if file then close_file r else r)\<lparr>fr_phase := Form_name\<rparr>)
                     (p\<lparr>pl_ec := (if file then False else pl_ec p)\<rparr>)))))"

text \<open>The error of an early end of a message goes to a copy of the error code, and is lost.\<close>

definition on_parser_event :: "string \<Rightarrow> multi_event \<Rightarrow> form_put \<Rightarrow> form_put option" where
  "on_parser_event view ev p =
     (case ev of
        Multi_none \<Rightarrow> Some p
      | Message_begin \<Rightarrow> Some (on_reader (\<lambda>r. r\<lparr>fr_message := True\<rparr>) p)
      | Message_end \<Rightarrow>
          (let (pev, _, part) = handle_message_end (fr_part (pl_reader p))
           in map_option (on_reader (\<lambda>r. r\<lparr>fr_message := False\<rparr>))
                (message_part_event view pev (on_reader (\<lambda>r. r\<lparr>fr_part := part\<rparr>) p))))"

text \<open>\<^verbatim>\<open>parsed_offset\<close> is always where the message is.\<close>

definition advance_one :: "string \<Rightarrow> form_put \<Rightarrow> form_put option" where
  "advance_one view p =
     map_option (\<lambda>p. p\<lparr>pl_msg := Suc (pl_msg p)\<rparr>)
       (if fr_message (pl_reader p)
        then (case handle_message_char (view ! pl_msg p) (fr_part (pl_reader p)) of
                None \<Rightarrow> None
              | Some (ev, failed, part) \<Rightarrow>
                  message_part_event view ev
                    (on_reader (\<lambda>r. r\<lparr>fr_part := part\<rparr>) (p\<lparr>pl_ec := (failed \<or> pl_ec p)\<rparr>)))
        else Some p)"

fun advance :: "string \<Rightarrow> nat \<Rightarrow> form_put \<Rightarrow> form_put option" where
  "advance view 0 p = Some p"
| "advance view (Suc n) p = (case advance_one view p of None \<Rightarrow> None | Some p \<Rightarrow> advance view n p)"

text \<open>The characters of the piece; the flag says that an error ended the loop.\<close>

fun put_loop :: "string \<Rightarrow> string \<Rightarrow> form_put \<Rightarrow> (bool \<times> form_put) option" where
  "put_loop view [] p = Some (False, p)"
| "put_loop view (c # cs) p =
     (case handle_char c (fr_multi (pl_reader p)) of
        None \<Rightarrow> None
      | Some (adv, ev, failed, multi) \<Rightarrow>
          (let p = on_reader (\<lambda>r. r\<lparr>fr_multi := multi\<rparr>) (p\<lparr>pl_ec := (failed \<or> pl_ec p)\<rparr>)
           in if pl_ec p then Some (True, p)
              else (case (if ev = Message_begin
                          then (case advance view adv p of None \<Rightarrow> None | Some p \<Rightarrow> on_parser_event view ev p)
                          else (case on_parser_event view ev p of None \<Rightarrow> None | Some p \<Rightarrow> advance view adv p)) of
                      None \<Rightarrow> None
                    | Some p \<Rightarrow> if pl_ec p then Some (True, p) else put_loop view cs p)))"

definition put_start :: "form_reader \<Rightarrow> form_put" where
  "put_start r = \<lparr>pl_reader = r, pl_msg = 0, pl_part = 0, pl_end = 0, pl_ec = False\<rparr>"

text \<open>What was read and not parsed is kept for the next piece.\<close>

definition keep_pending :: "string \<Rightarrow> nat \<Rightarrow> nat \<Rightarrow> string \<Rightarrow> string" where
  "keep_pending view nwritten parsed pending =
     (let consumed = min parsed (length pending);
          buf_size = nwritten + consumed - parsed
      in drop consumed (pending @ take buf_size (drop parsed view)))"

definition form_piece :: "string \<Rightarrow> form_reader \<Rightarrow> (bool \<times> form_reader) option" where
  "form_piece s r =
     (let view = fr_pending r @ s
      in case put_loop view s (put_start r) of
           None \<Rightarrow> None
         | Some (True, p) \<Rightarrow> Some (True, pl_reader p)
         | Some (False, p) \<Rightarrow>
             (case (if fr_writable (pl_reader p) then write_part view (p\<lparr>pl_end := pl_msg p\<rparr>) else Some p) of
                None \<Rightarrow> None
              | Some p \<Rightarrow>
                  Some (False, (pl_reader p)\<lparr>fr_pending := keep_pending view (length s) (pl_msg p) (fr_pending r)\<rparr>)))"

text \<open>A body that arrives in several pieces; an error ends the reading.\<close>

fun form_pieces :: "string list \<Rightarrow> form_reader \<Rightarrow> (bool \<times> form_reader) option" where
  "form_pieces [] r = Some (form_finish r, r)"
| "form_pieces (s # ss) r =
     (case form_piece s r of
        None \<Rightarrow> None
      | Some (True, r) \<Rightarrow> Some (True, r)
      | Some (False, r) \<Rightarrow> form_pieces ss r)"

end
