(* ===== verification/Form_Feed.thy ===== *)
theory Form_Feed
  imports Form_Body
begin

text \<open>
  A form that is read one character at a time: the characters that the first automaton lets go are
  handed to the second and reach the name, the value or the file at once, without buffers and positions.
  Reading a piece (\<^verbatim>\<open>reader::put\<close>) does the same as reading its characters, and so the way a
  body is cut into pieces does not matter, unless a piece ends inside a name, or more is held back at its
  end than it brought.
\<close>

section \<open>One character at a time\<close>

definition ends_part :: "part_event \<Rightarrow> bool" where
  "ends_part ev \<longleftrightarrow> ev \<in> {End_name, End_filename, End_body}"

definition apply_event :: "part_event \<Rightarrow> bool \<times> form_reader \<Rightarrow> bool \<times> form_reader" where
  "apply_event ev = (\<lambda>(ec, r).
     case ev of
       Part_none \<Rightarrow> (ec, r)
     | Begin_name \<Rightarrow> (ec, r\<lparr>fr_writable := True\<rparr>)
     | End_name \<Rightarrow> (ec, r\<lparr>fr_writable := False, fr_phase := Form_content\<rparr>)
     | Begin_filename \<Rightarrow> (ec, (add_value True r)\<lparr>fr_phase := Form_filename, fr_writable := True\<rparr>)
     | End_filename \<Rightarrow>
         (let (failed, r) = open_file (r\<lparr>fr_writable := False\<rparr>)
          in (if failed then True else if current_file r \<noteq> None then False else ec, r\<lparr>fr_phase := Form_file\<rparr>))
     | Begin_body \<Rightarrow> (ec, (if fr_phase r = Form_content then add_value False r else r)\<lparr>fr_writable := True\<rparr>)
     | End_body \<Rightarrow>
         (if fr_phase r = Form_file
          then (False, (close_file (r\<lparr>fr_writable := False\<rparr>))\<lparr>fr_phase := Form_name\<rparr>)
          else (ec, r\<lparr>fr_writable := False, fr_phase := Form_name\<rparr>)))"

definition feed_one :: "char \<Rightarrow> bool \<times> form_reader \<Rightarrow> (bool \<times> form_reader) option" where
  "feed_one c = (\<lambda>(ec, r).
     if fr_message r
     then (case handle_message_char c (fr_part r) of
             None \<Rightarrow> None
           | Some (ev, failed, part) \<Rightarrow>
               Some (apply_event ev (failed \<or> ec,
                 (if fr_writable r \<and> \<not> ends_part ev then sink [c] r else r)\<lparr>fr_part := part\<rparr>)))
     else Some (ec, if fr_writable r then sink [c] r else r))"

fun feed_text :: "string \<Rightarrow> bool \<times> form_reader \<Rightarrow> (bool \<times> form_reader) option" where
  "feed_text [] s = Some s"
| "feed_text (c # cs) s = (case feed_one c s of None \<Rightarrow> None | Some s \<Rightarrow> feed_text cs s)"

definition apply_multi :: "multi_event \<Rightarrow> bool \<times> form_reader \<Rightarrow> bool \<times> form_reader" where
  "apply_multi ev = (\<lambda>(ec, r).
     case ev of
       Multi_none \<Rightarrow> (ec, r)
     | Message_begin \<Rightarrow> (ec, r\<lparr>fr_message := True\<rparr>)
     | Message_end \<Rightarrow>
         (let (pev, _, part) = handle_message_end (fr_part r); (ec, r) = apply_event pev (ec, r\<lparr>fr_part := part\<rparr>)
          in (ec, r\<lparr>fr_message := False\<rparr>)))"

text \<open>\<open>None\<close>: an error.\<close>

definition unfailed :: "(bool \<times> form_reader) option \<Rightarrow> form_reader option" where
  "unfailed x = (case x of Some (False, r) \<Rightarrow> Some r | _ \<Rightarrow> None)"

definition feed_char :: "char \<Rightarrow> form_reader \<Rightarrow> form_reader option" where
  "feed_char c r =
     (case handle_char c (fr_multi r) of
        None \<Rightarrow> None
      | Some (adv, ev, failed, multi) \<Rightarrow>
          if failed then None
          else (let out = take adv (held (fr_multi r) @ [c]); r = r\<lparr>fr_multi := multi\<rparr>
                in unfailed (if ev = Message_begin then map_option (apply_multi ev) (feed_text out (False, r))
                             else feed_text out (apply_multi ev (False, r)))))"

fun feed_chars :: "string \<Rightarrow> form_reader \<Rightarrow> form_reader option" where
  "feed_chars [] r = Some r"
| "feed_chars (c # cs) r = (case feed_char c r of None \<Rightarrow> None | Some r \<Rightarrow> feed_chars cs r)"

lemma feed_chars_append:
  "feed_chars (s @ t) r = (case feed_chars s r of None \<Rightarrow> None | Some r \<Rightarrow> feed_chars t r)"
  by (induction s arbitrary: r) (auto split: option.splits)

lemma feed_text_append:
  "feed_text (s @ t) x = (case feed_text s x of None \<Rightarrow> None | Some x \<Rightarrow> feed_text t x)"
  by (induction s arbitrary: x) (auto split: option.splits)

section \<open>Sinks\<close>

lemma entry_set_found: "map_of es n = Some x \<Longrightarrow> entry_set n (Some x) es = es"
  by (induction es) (auto split: if_splits)

lemma entry_set_again [simp]: "entry_set n (Some x) (entry_set n (Some y) es) = entry_set n (Some x) es"
  by (induction es) auto

lemma map_of_entry_set_same [simp]: "map_of (entry_set n (Some x) es) n = Some x"
  by (induction es) auto

lemma put_at_same: "obj_at d at = Some x \<Longrightarrow> put_at (Some x) at d = d"
  by (induction "Some x" at d rule: put_at.induct) (auto simp: entry_set_found split: option.splits if_splits)

lemma obj_at_put: "obj_at d at \<noteq> None \<Longrightarrow> obj_at (put_at (Some x) at d) at = Some x"
  by (induction "Some x" at d rule: put_at.induct) (auto split: option.splits)

lemma put_at_again: "obj_at d at \<noteq> None \<Longrightarrow> put_at (Some x) at (put_at (Some y) at d) = put_at (Some x) at d"
  by (induction "Some y" at d rule: put_at.induct) (auto split: option.splits)

lemma file_append_Nil [simp]: "file_append at [] d = d"
  by (auto simp: file_append_def put_at_same split: option.splits fs_obj.splits)

lemma file_append_append: "file_append at (s @ t) d = file_append at t (file_append at s d)"
  by (auto simp: file_append_def obj_at_put put_at_again split: option.splits fs_obj.splits)

lemma map_last_id [simp]: "map_last (\<lambda>v. v) vs = vs"
  by (induction vs rule: induct_list012) auto

lemma map_last_comp: "map_last f (map_last g vs) = map_last (\<lambda>v. f (g v)) vs"
  by (induction vs rule: induct_list012) (auto elim: map_last.elims)

lemma map_last_snoc [simp]: "map_last f (vs @ [v]) = vs @ [f v]"
  by (induction vs rule: induct_list012) auto

text \<open>What does not matter to the sinks and the events.\<close>

named_theorems reader_simps "how the changes of a reader commute with updates of the fields they do not use"

lemma current_file_update [reader_simps]:
  "current_file (r\<lparr>fr_part := a\<rparr>) = current_file r" "current_file (r\<lparr>fr_pending := b\<rparr>) = current_file r"
  "current_file (r\<lparr>fr_multi := c\<rparr>) = current_file r" "current_file (r\<lparr>fr_message := d\<rparr>) = current_file r"
  "current_file (r\<lparr>fr_writable := e\<rparr>) = current_file r" "current_file (r\<lparr>fr_phase := f\<rparr>) = current_file r"
  "current_file (r\<lparr>fr_name := g\<rparr>) = current_file r" "current_file (r\<lparr>fr_disk := h\<rparr>) = current_file r"
  by (simp_all add: current_file_def)

lemma on_body_update [reader_simps]:
  "on_body k (r\<lparr>fr_part := a\<rparr>) = (on_body k r)\<lparr>fr_part := a\<rparr>"
  "on_body k (r\<lparr>fr_pending := b\<rparr>) = (on_body k r)\<lparr>fr_pending := b\<rparr>"
  "on_body k (r\<lparr>fr_multi := c\<rparr>) = (on_body k r)\<lparr>fr_multi := c\<rparr>"
  "on_body k (r\<lparr>fr_message := d\<rparr>) = (on_body k r)\<lparr>fr_message := d\<rparr>"
  "on_body k (r\<lparr>fr_writable := e\<rparr>) = (on_body k r)\<lparr>fr_writable := e\<rparr>"
  by (simp_all add: on_body_def)

lemma on_body_fields [simp]:
  "fr_part (on_body k r) = fr_part r" "fr_pending (on_body k r) = fr_pending r" "fr_multi (on_body k r) = fr_multi r"
  "fr_message (on_body k r) = fr_message r" "fr_writable (on_body k r) = fr_writable r"
  "fr_phase (on_body k r) = fr_phase r" "fr_name (on_body k r) = fr_name r" "fr_disk (on_body k r) = fr_disk r"
  "fr_body (on_body k r) = k (fr_body r)"
  by (simp_all add: on_body_def)

lemma add_value_fields [simp]:
  "fr_part (add_value k r) = fr_part r" "fr_pending (add_value k r) = fr_pending r" "fr_multi (add_value k r) = fr_multi r"
  "fr_message (add_value k r) = fr_message r" "fr_writable (add_value k r) = fr_writable r"
  "fr_phase (add_value k r) = fr_phase r" "fr_disk (add_value k r) = fr_disk r"
  by (simp_all add: add_value_def)

lemma add_value_update [reader_simps]:
  "add_value k (r\<lparr>fr_part := a\<rparr>) = (add_value k r)\<lparr>fr_part := a\<rparr>"
  "add_value k (r\<lparr>fr_pending := b\<rparr>) = (add_value k r)\<lparr>fr_pending := b\<rparr>"
  "add_value k (r\<lparr>fr_multi := c\<rparr>) = (add_value k r)\<lparr>fr_multi := c\<rparr>"
  "add_value k (r\<lparr>fr_message := d\<rparr>) = (add_value k r)\<lparr>fr_message := d\<rparr>"
  "add_value k (r\<lparr>fr_writable := e\<rparr>) = (add_value k r)\<lparr>fr_writable := e\<rparr>"
  by (simp_all add: add_value_def on_body_def)

lemma sink_update [reader_simps]:
  "sink s (r\<lparr>fr_part := a\<rparr>) = (sink s r)\<lparr>fr_part := a\<rparr>"
  "sink s (r\<lparr>fr_pending := b\<rparr>) = (sink s r)\<lparr>fr_pending := b\<rparr>"
  "sink s (r\<lparr>fr_multi := c\<rparr>) = (sink s r)\<lparr>fr_multi := c\<rparr>"
  "sink s (r\<lparr>fr_message := d\<rparr>) = (sink s r)\<lparr>fr_message := d\<rparr>"
  "sink s (r\<lparr>fr_writable := e\<rparr>) = (sink s r)\<lparr>fr_writable := e\<rparr>"
  by (simp_all add: sink_def reader_simps split: form_phase.split option.split)

lemma sink_fields [simp]:
  "fr_part (sink s r) = fr_part r" "fr_pending (sink s r) = fr_pending r" "fr_multi (sink s r) = fr_multi r"
  "fr_message (sink s r) = fr_message r" "fr_writable (sink s r) = fr_writable r" "fr_phase (sink s r) = fr_phase r"
  by (simp_all add: sink_def split: form_phase.split option.split)

lemma current_file_sink [simp]: "current_file (sink s r) = current_file r"
  by (simp add: sink_def current_file_def on_body_def on_values_def split: form_phase.split option.split)

lemma sink_Nil [simp]: "sink [] r = r"
  by (simp add: sink_def on_body_def on_values_def split: form_phase.split option.split)

lemma sink_append: "sink (s @ t) r = sink t (sink s r)"
proof (cases "fr_phase r")
  case Form_file
  then show ?thesis
    by (cases "current_file r") (simp_all add: sink_def file_append_append reader_simps)
qed (simp_all add: sink_def on_body_def on_values_def map_last_comp)

lemma open_file_update [reader_simps]:
  "open_file (r\<lparr>fr_part := a\<rparr>) = map_prod id (\<lambda>r. r\<lparr>fr_part := a\<rparr>) (open_file r)"
  "open_file (r\<lparr>fr_pending := b\<rparr>) = map_prod id (\<lambda>r. r\<lparr>fr_pending := b\<rparr>) (open_file r)"
  by (simp_all add: open_file_def on_body_def Let_def split: option.split)

lemma open_file_fields:
  "open_file r = (failed, r') \<Longrightarrow> fr_part r' = fr_part r \<and> fr_pending r' = fr_pending r \<and> fr_multi r' = fr_multi r
     \<and> fr_message r' = fr_message r \<and> fr_writable r' = fr_writable r"
  by (auto simp: open_file_def Let_def split: option.splits if_splits)

lemma close_file_update [reader_simps]:
  "close_file (r\<lparr>fr_part := a\<rparr>) = (close_file r)\<lparr>fr_part := a\<rparr>"
  "close_file (r\<lparr>fr_pending := b\<rparr>) = (close_file r)\<lparr>fr_pending := b\<rparr>"
  "close_file (r\<lparr>fr_writable := e\<rparr>) = (close_file r)\<lparr>fr_writable := e\<rparr>"
  by (simp_all add: close_file_def reader_simps)

lemma close_file_fields [simp]:
  "fr_part (close_file r) = fr_part r" "fr_pending (close_file r) = fr_pending r" "fr_multi (close_file r) = fr_multi r"
  "fr_message (close_file r) = fr_message r" "fr_writable (close_file r) = fr_writable r"
  by (simp_all add: close_file_def)

text \<open>What is pending is used only by the reading of a piece.\<close>

abbreviation pending_to :: "string \<Rightarrow> form_reader \<Rightarrow> form_reader" where
  "pending_to s r \<equiv> r\<lparr>fr_pending := s\<rparr>"

lemma pending_outer:
  "pending_to s r\<lparr>fr_part := a\<rparr> = pending_to s (r\<lparr>fr_part := a\<rparr>)"
  "pending_to s r\<lparr>fr_multi := b\<rparr> = pending_to s (r\<lparr>fr_multi := b\<rparr>)"
  "pending_to s r\<lparr>fr_message := c\<rparr> = pending_to s (r\<lparr>fr_message := c\<rparr>)"
  "pending_to s r\<lparr>fr_writable := d\<rparr> = pending_to s (r\<lparr>fr_writable := d\<rparr>)"
  "pending_to s r\<lparr>fr_phase := e\<rparr> = pending_to s (r\<lparr>fr_phase := e\<rparr>)"
  for r :: form_reader
  by simp_all

lemma apply_event_pending:
  "apply_event ev (ec, pending_to s r) = map_prod id (pending_to s) (apply_event ev (ec, r))"
proof (cases ev)
  case End_filename
  then show ?thesis
    by (cases "open_file (r\<lparr>fr_writable := False\<rparr>)")
      (simp add: apply_event_def pending_outer open_file_update current_file_update)
qed (simp_all add: apply_event_def add_value_update close_file_update pending_outer)

lemma feed_one_pending:
  "feed_one c (ec, pending_to s r) = map_option (map_prod id (pending_to s)) (feed_one c (ec, r))"
proof (cases "fr_message r")
  case True
  then show ?thesis
    by (cases "handle_message_char c (fr_part r)")
      (auto simp: feed_one_def sink_update pending_outer apply_event_pending)
qed (simp add: feed_one_def sink_update)

lemma feed_text_pending:
  "feed_text t (ec, pending_to s r) = map_option (map_prod id (pending_to s)) (feed_text t (ec, r))"
  by (induction t arbitrary: ec r) (auto simp: feed_one_pending split: option.split)

lemma apply_multi_pending:
  "apply_multi ev (ec, pending_to s r) = map_prod id (pending_to s) (apply_multi ev (ec, r))"
  by (cases ev) (simp_all add: apply_multi_def apply_event_pending pending_outer split: prod.split)

lemma unfailed_map: "unfailed (map_option (map_prod id f) x) = map_option f (unfailed x)"
  by (auto simp: unfailed_def split: option.splits bool.splits)

lemma feed_char_pending: "feed_char c (pending_to s r) = map_option (pending_to s) (feed_char c r)"
proof (cases "handle_char c (fr_multi r)")
  case (Some x)
  obtain adv ev ec multi where x: "x = (adv, ev, ec, multi)" by (cases x)
  let ?out = "take adv (held (fr_multi r) @ [c])" let ?r = "r\<lparr>fr_multi := multi\<rparr>"
  have "map_option (apply_multi ev) (feed_text ?out (False, pending_to s ?r))
      = map_option (map_prod id (pending_to s)) (map_option (apply_multi ev) (feed_text ?out (False, ?r)))"
    by (cases "feed_text ?out (False, ?r)") (auto simp: feed_text_pending apply_multi_pending)
  moreover have "feed_text ?out (apply_multi ev (False, pending_to s ?r))
      = map_option (map_prod id (pending_to s)) (feed_text ?out (apply_multi ev (False, ?r)))"
    by (cases "apply_multi ev (False, ?r)") (simp add: feed_text_pending apply_multi_pending)
  ultimately show ?thesis
    using Some x by (cases "ev = Message_begin") (simp_all add: feed_char_def Let_def pending_outer unfailed_map del: take_append)
qed (simp add: feed_char_def)

lemma feed_chars_pending: "feed_chars t (pending_to s r) = map_option (pending_to s) (feed_chars t r)"
  by (induction t arbitrary: r) (auto simp: feed_char_pending split: option.split)

section \<open>A piece\<close>

text \<open>What a position of the message parser stands for: the part that was not yet written is written.\<close>

definition flush :: "string \<Rightarrow> form_put \<Rightarrow> form_reader" where
  "flush view p =
     (if fr_writable (pl_reader p) then sink (take (pl_msg p - pl_part p) (drop (pl_part p) view)) (pl_reader p)
      else pl_reader p)"

definition phase_writable :: "part_phase \<Rightarrow> bool" where
  "phase_writable ph \<longleftrightarrow> ph \<in> {Part_name, Filename_body, Part_body}"

definition phase_fits :: "part_phase \<Rightarrow> form_phase \<Rightarrow> bool" where
  "phase_fits ph fp \<longleftrightarrow>
     (case ph of
        Part_start \<Rightarrow> fp = Form_name
      | Content_disposition \<Rightarrow> fp = Form_name
      | Part_name \<Rightarrow> fp = Form_name
      | Maybe_filename \<Rightarrow> fp = Form_content
      | Filename \<Rightarrow> fp = Form_content
      | Filename_body \<Rightarrow> fp = Form_filename
      | Content_type \<Rightarrow> fp = Form_file
      | Content_type_body \<Rightarrow> fp = Form_file
      | Pre_body \<Rightarrow> fp \<in> {Form_content, Form_file}
      | Part_body \<Rightarrow> fp \<in> {Form_content, Form_file})"

definition reader_fits :: "form_reader \<Rightarrow> bool" where
  "reader_fits r \<longleftrightarrow> fr_writable r = phase_writable (pp_phase (fr_part r)) \<and> phase_fits (pp_phase (fr_part r)) (fr_phase r)"

definition put_ok :: "form_put \<Rightarrow> bool" where
  "put_ok p \<longleftrightarrow> reader_fits (pl_reader p) \<and> (fr_writable (pl_reader p) \<longrightarrow> pl_part p \<le> pl_msg p)"

definition begins_part :: "part_event \<Rightarrow> bool" where
  "begins_part ev \<longleftrightarrow> ev \<in> {Begin_name, Begin_filename, Begin_body}"

definition phase_after :: "part_event \<Rightarrow> form_phase \<Rightarrow> form_phase" where
  "phase_after ev fp =
     (case ev of End_name \<Rightarrow> Form_content | Begin_filename \<Rightarrow> Form_filename | End_filename \<Rightarrow> Form_file
      | End_body \<Rightarrow> Form_name | _ \<Rightarrow> fp)"

lemma handle_message_char_phases:
  "handle_message_char c p = Some (ev, failed, p') \<Longrightarrow> phase_fits (pp_phase p) fp \<Longrightarrow>
     phase_writable (pp_phase p') = (begins_part ev \<or> phase_writable (pp_phase p) \<and> \<not> ends_part ev)
     \<and> (begins_part ev \<longrightarrow> \<not> phase_writable (pp_phase p)) \<and> (ends_part ev \<longrightarrow> phase_writable (pp_phase p))
     \<and> phase_fits (pp_phase p') (phase_after ev fp) \<and> ev \<noteq> End_body
     \<and> (ev = End_name \<longrightarrow> fp = Form_name) \<and> (ev = End_filename \<longrightarrow> fp = Form_filename)"
  by (cases "pp_phase p")
    (auto simp: handle_message_char_def part_expect_def part_goto_def part_pre_body_def tr_next_def tr_reset_def
      phase_writable_def begins_part_def ends_part_def tr_text_def phase_fits_def phase_after_def split: if_splits)

lemma flush_fields [simp]:
  "fr_part (flush view p) = fr_part (pl_reader p)" "fr_pending (flush view p) = fr_pending (pl_reader p)"
  "fr_multi (flush view p) = fr_multi (pl_reader p)" "fr_message (flush view p) = fr_message (pl_reader p)"
  "fr_writable (flush view p) = fr_writable (pl_reader p)" "fr_phase (flush view p) = fr_phase (pl_reader p)"
  by (simp_all add: flush_def)

lemma slice_Suc:
  "a \<le> b \<Longrightarrow> b < length view \<Longrightarrow> take (Suc b - a) (drop a view) = take (b - a) (drop a view) @ [view ! b]"
  by (simp add: Suc_diff_le take_Suc_conv_app_nth)

text \<open>An event at a character that is in the buffers.\<close>

lemma event_begin:
  assumes "begins_part ev" "\<not> fr_writable (pl_reader p)"
  shows "\<exists>p'. message_part_event view ev p = Some p' \<and> (pl_ec p', pl_reader p') = apply_event ev (pl_ec p, pl_reader p)
     \<and> pl_msg p' = pl_msg p \<and> pl_part p' = Suc (pl_msg p) \<and> fr_writable (pl_reader p')"
  using assms
  by (auto simp: begins_part_def message_part_event_def apply_event_def begin_part_def on_reader_def add_value_update)

lemma event_end:
  assumes "ends_part ev" "fr_writable (pl_reader p)" "pl_msg p < length view"
    and "ev = End_name \<longrightarrow> fr_phase (pl_reader p) = Form_name"
    and "ev = End_filename \<longrightarrow> fr_phase (pl_reader p) = Form_filename"
  shows "\<exists>p'. message_part_event view ev p = Some p' \<and> (pl_ec p', pl_reader p') = apply_event ev (pl_ec p, flush view p)
     \<and> pl_msg p' = pl_msg p \<and> \<not> fr_writable (pl_reader p')"
proof -
  let ?r = "(flush view p)\<lparr>fr_writable := False\<rparr>"
  let ?ec = "if fr_phase (pl_reader p) = Form_file \<and> current_file (pl_reader p) \<noteq> None \<and> pl_part p < length view
    then False else pl_ec p"
  have e: "end_part view p = Some (p\<lparr>pl_reader := ?r, pl_part := pl_msg p, pl_end := pl_msg p, pl_ec := ?ec\<rparr>)"
    using assms(2,3) by (auto simp: end_part_def write_part_def Let_def flush_def part_text_def reader_simps)
  obtain failed r' where o: "open_file ?r = (failed, r')" by (cases "open_file ?r")
  have w: "\<not> fr_writable r'" using open_file_fields [OF o] by simp
  consider "ev = End_name" | "ev = End_filename" | "ev = End_body" using assms(1) by (auto simp: ends_part_def)
  then show ?thesis
  proof cases
    case 1
    then show ?thesis using assms(4) e by (simp add: message_part_event_def apply_event_def on_reader_def)
  next
    case 2
    then show ?thesis using assms(5) e o w by (simp add: message_part_event_def apply_event_def current_file_update)
  next
    case 3
    then show ?thesis using e by (simp add: message_part_event_def apply_event_def on_reader_def Let_def)
  qed
qed

lemma apply_event_fields:
  "apply_event ev (ec, r) = (ec', r') \<Longrightarrow>
     fr_part r' = fr_part r \<and> fr_pending r' = fr_pending r \<and> fr_multi r' = fr_multi r \<and> fr_message r' = fr_message r
     \<and> fr_phase r' = phase_after ev (fr_phase r) \<and> fr_writable r' = (begins_part ev \<or> fr_writable r \<and> \<not> ends_part ev)"
proof (cases ev)
  case End_filename
  obtain failed r1 where o: "open_file (r\<lparr>fr_writable := False\<rparr>) = (failed, r1)" by (cases "open_file (r\<lparr>fr_writable := False\<rparr>)")
  assume "apply_event ev (ec, r) = (ec', r')"
  then show ?thesis
    using End_filename o open_file_fields [OF o]
    by (auto simp: apply_event_def phase_after_def begins_part_def ends_part_def split: if_splits)
qed (auto simp: apply_event_def phase_after_def begins_part_def ends_part_def split: if_splits)

lemma advance_one_feeds:
  assumes "put_ok p" "pl_msg p < length view"
  shows "(case advance_one view p of
        None \<Rightarrow> feed_one (view ! pl_msg p) (pl_ec p, flush view p) = None
      | Some p' \<Rightarrow> feed_one (view ! pl_msg p) (pl_ec p, flush view p) = Some (pl_ec p', flush view p')
          \<and> put_ok p' \<and> pl_msg p' = Suc (pl_msg p) \<and> fr_multi (pl_reader p') = fr_multi (pl_reader p))"
proof -
  let ?r = "pl_reader p" and ?c = "view ! pl_msg p"
  have fits: "reader_fits ?r" and le: "fr_writable ?r \<Longrightarrow> pl_part p \<le> pl_msg p" using assms(1) by (auto simp: put_ok_def)
  have step: "flush view (p\<lparr>pl_msg := Suc (pl_msg p)\<rparr>) = (if fr_writable ?r then sink [?c] (flush view p) else ?r)"
    using le assms(2) by (simp add: flush_def slice_Suc sink_append)
  show ?thesis
  proof (cases "fr_message ?r")
    case False
    then show ?thesis
      using step fits le by (auto simp: advance_one_def feed_one_def put_ok_def flush_def)
  next
    case msg: True
    show ?thesis
    proof (cases "handle_message_char ?c (fr_part ?r)")
      case None
      then show ?thesis using msg by (simp add: advance_one_def feed_one_def)
    next
      case (Some x)
      obtain ev failed part where "x = (ev, failed, part)" by (cases x)
      with Some have x: "handle_message_char ?c (fr_part ?r) = Some (ev, failed, part)" by simp
      note ph = handle_message_char_phases [OF x, of "fr_phase ?r"]
      have wr: "fr_writable ?r = phase_writable (pp_phase (fr_part ?r))" "phase_fits (pp_phase (fr_part ?r)) (fr_phase ?r)"
        using fits by (simp_all add: reader_fits_def)
      let ?p = "on_reader (\<lambda>r. r\<lparr>fr_part := part\<rparr>) (p\<lparr>pl_ec := (failed \<or> pl_ec p)\<rparr>)"
      have fl: "flush view ?p = (flush view p)\<lparr>fr_part := part\<rparr>" by (simp add: flush_def on_reader_def reader_simps)
      consider "ev = Part_none" | "begins_part ev" | "ends_part ev" by (cases ev) (auto simp: begins_part_def ends_part_def)
      then show ?thesis
      proof cases
        case 1
        then have "flush view (?p\<lparr>pl_msg := Suc (pl_msg p)\<rparr>)
            = (if fr_writable ?r then sink [?c] (flush view p) else flush view p)\<lparr>fr_part := part\<rparr>"
          using step by (auto simp: flush_def on_reader_def reader_simps split: if_splits)
        then show ?thesis
          using 1 x ph wr msg le
          by (auto simp: advance_one_def feed_one_def message_part_event_def apply_event_def ends_part_def begins_part_def
              phase_after_def put_ok_def reader_fits_def on_reader_def)
      next
        case 2
        have nw: "\<not> fr_writable (pl_reader ?p)" using ph wr 2 by (simp add: on_reader_def)
        obtain p' where p': "message_part_event view ev ?p = Some p'"
          "(pl_ec p', pl_reader p') = apply_event ev (pl_ec ?p, pl_reader ?p)"
          "pl_msg p' = pl_msg ?p" "pl_part p' = Suc (pl_msg ?p)" "fr_writable (pl_reader p')"
          using event_begin [OF 2 nw] by blast
        note f = apply_event_fields [OF p'(2) [symmetric]]
        have "flush view p = ?r" using nw by (simp add: flush_def on_reader_def)
        moreover have "flush view (p'\<lparr>pl_msg := Suc (pl_msg p)\<rparr>) = pl_reader p'"
          using p'(3,4) by (simp add: flush_def on_reader_def)
        ultimately show ?thesis
          using p' f ph wr msg x nw 2
          by (auto simp: advance_one_def feed_one_def put_ok_def reader_fits_def on_reader_def)
      next
        case 3
        have w: "fr_writable (pl_reader ?p)" using ph wr 3 by (simp add: on_reader_def)
        have at: "pl_msg ?p < length view" using assms(2) by (simp add: on_reader_def)
        have n: "ev = End_name \<longrightarrow> fr_phase (pl_reader ?p) = Form_name"
          "ev = End_filename \<longrightarrow> fr_phase (pl_reader ?p) = Form_filename"
          using ph wr by (simp_all add: on_reader_def)
        obtain p' where p': "message_part_event view ev ?p = Some p'"
          "(pl_ec p', pl_reader p') = apply_event ev (pl_ec ?p, flush view ?p)"
          "pl_msg p' = pl_msg ?p" "\<not> fr_writable (pl_reader p')"
          using event_end [OF 3 w at n] by blast
        note f = apply_event_fields [OF p'(2) [symmetric]]
        have "flush view (p'\<lparr>pl_msg := Suc (pl_msg p)\<rparr>) = pl_reader p'" using p'(4) by (simp add: flush_def)
        then show ?thesis
          using p' f ph wr msg x w 3 fl
          by (auto simp: advance_one_def feed_one_def put_ok_def reader_fits_def on_reader_def)
      qed
    qed
  qed
qed

lemma advance_feeds:
  "put_ok p \<Longrightarrow> pl_msg p + n \<le> length view \<Longrightarrow>
     (case advance view n p of
        None \<Rightarrow> feed_text (take n (drop (pl_msg p) view)) (pl_ec p, flush view p) = None
      | Some p' \<Rightarrow> feed_text (take n (drop (pl_msg p) view)) (pl_ec p, flush view p) = Some (pl_ec p', flush view p')
          \<and> put_ok p' \<and> pl_msg p' = pl_msg p + n \<and> fr_multi (pl_reader p') = fr_multi (pl_reader p))"
proof (induction n arbitrary: p)
  case 0
  then show ?case by simp
next
  case (Suc n)
  have lt: "pl_msg p < length view" using Suc.prems(2) by simp
  then have slice: "take (Suc n) (drop (pl_msg p) view) = view ! pl_msg p # take n (drop (Suc (pl_msg p)) view)"
    by (metis Cons_nth_drop_Suc take_Suc_Cons)
  note one = advance_one_feeds [OF Suc.prems(1) lt]
  show ?case
  proof (cases "advance_one view p")
    case None
    then show ?thesis using one slice by simp
  next
    case (Some p1)
    then have p1: "feed_one (view ! pl_msg p) (pl_ec p, flush view p) = Some (pl_ec p1, flush view p1)" "put_ok p1"
      "pl_msg p1 = Suc (pl_msg p)" "fr_multi (pl_reader p1) = fr_multi (pl_reader p)"
      using one by auto
    have "pl_msg p1 + n \<le> length view" using p1(3) Suc.prems(2) by simp
    from Suc.IH [OF p1(2) this] show ?thesis
      using Some p1 slice by (simp split: option.splits)
  qed
qed

lemma parser_event_feeds:
  assumes "put_ok p" "ev = Message_end \<longrightarrow> pl_msg p < length view"
  shows "\<exists>p'. on_parser_event view ev p = Some p' \<and> (pl_ec p', flush view p') = apply_multi ev (pl_ec p, flush view p)
     \<and> put_ok p' \<and> pl_msg p' = pl_msg p \<and> fr_multi (pl_reader p') = fr_multi (pl_reader p)"
proof (cases ev)
  case Multi_none
  then show ?thesis using assms(1) by (simp add: on_parser_event_def apply_multi_def)
next
  case Message_begin
  then show ?thesis
    using assms(1) by (simp add: on_parser_event_def apply_multi_def on_reader_def flush_def put_ok_def reader_fits_def reader_simps)
next
  case Message_end
  let ?r = "pl_reader p"
  have fits: "fr_writable ?r = phase_writable (pp_phase (fr_part ?r))" "phase_fits (pp_phase (fr_part ?r)) (fr_phase ?r)"
    using assms(1) by (simp_all add: put_ok_def reader_fits_def)
  show ?thesis
  proof (cases "pp_phase (fr_part ?r) = Part_body")
    case False
    then show ?thesis
      using Message_end assms(1)
      by (simp add: on_parser_event_def apply_multi_def on_reader_def flush_def put_ok_def reader_fits_def reader_simps
          handle_message_end_def message_part_event_def apply_event_def)
  next
    case True
    let ?part = "(fr_part ?r)\<lparr>pp_phase := Part_start\<rparr>"
    let ?p = "on_reader (\<lambda>r. r\<lparr>fr_part := ?part\<rparr>) p"
    have fl: "flush view ?p = (flush view p)\<lparr>fr_part := ?part\<rparr>" by (simp add: flush_def on_reader_def reader_simps)
    have "fr_writable (pl_reader ?p)" "pl_msg ?p < length view"
      using True fits assms(2) Message_end by (simp_all add: on_reader_def phase_writable_def)
    then obtain p' where p': "message_part_event view End_body ?p = Some p'"
      "(pl_ec p', pl_reader p') = apply_event End_body (pl_ec ?p, flush view ?p)"
      "pl_msg p' = pl_msg ?p" "\<not> fr_writable (pl_reader p')"
      using event_end [of End_body ?p view] by (auto simp: ends_part_def)
    note f = apply_event_fields [OF p'(2) [symmetric]]
    have "flush view (on_reader (\<lambda>r. r\<lparr>fr_message := False\<rparr>) p') = (pl_reader p')\<lparr>fr_message := False\<rparr>"
      using p'(4) by (simp add: flush_def on_reader_def)
    then show ?thesis
      using Message_end True p' f fl
      by (auto simp: on_parser_event_def apply_multi_def handle_message_end_def on_reader_def put_ok_def reader_fits_def
          phase_writable_def phase_fits_def phase_after_def split: prod.splits)
  qed
qed

lemma put_loop_feeds:
  assumes "put_ok p" "multi_ok (fr_multi (pl_reader p))" "\<not> pl_ec p" "view = pre @ cs"
    and "held (fr_multi (pl_reader p)) = drop (pl_msg p) pre" "pl_msg p \<le> length pre"
    and "feed_chars cs (flush view p) = Some a"
  shows "\<exists>p'. put_loop view cs p = Some (False, p') \<and> a = flush view p' \<and> put_ok p' \<and> multi_ok (fr_multi (pl_reader p'))
     \<and> held (fr_multi (pl_reader p')) = drop (pl_msg p') view \<and> pl_msg p' \<le> length view"
  using assms
proof (induction cs arbitrary: pre p)
  case Nil
  then show ?case by simp
next
  case (Cons c cs)
  let ?m = "fr_multi (pl_reader p)"
  obtain adv ev failed m' where h: "handle_char c ?m = Some (adv, ev, failed, m')" "\<not> failed \<longrightarrow> lets_go ?m c adv m'"
    using handle_char_lets_go [OF Cons.prems(2), of c] by blast
  have nf: "\<not> failed" using Cons.prems(7) h(1) by (auto simp: feed_char_def split: option.splits)
  then have go: "adv \<le> Suc (length (held ?m))" "drop adv (held ?m @ [c]) = held m'" "multi_ok m'"
    using h(2) by (simp_all add: lets_go_def)
  let ?p = "on_reader (\<lambda>r. r\<lparr>fr_multi := m'\<rparr>) (p\<lparr>pl_ec := (failed \<or> pl_ec p)\<rparr>)"
  let ?out = "take adv (held ?m @ [c])"
  have lt: "pl_msg ?p + adv \<le> length view" "pl_msg ?p < length view"
    using go(1) Cons.prems(4-6) by (simp_all add: on_reader_def)
  have out: "?out = take adv (drop (pl_msg ?p) view)"
    using go(1) Cons.prems(4-6) by (cases "adv + pl_msg p - length pre") (auto simp: on_reader_def)
  have ok: "put_ok ?p" "\<not> pl_ec ?p" "fr_multi (pl_reader ?p) = m'"
    using Cons.prems(1,3) nf by (simp_all add: put_ok_def reader_fits_def on_reader_def)
  have fl: "flush view ?p = (flush view p)\<lparr>fr_multi := m'\<rparr>" by (simp add: flush_def on_reader_def reader_simps)
  let ?next = "if ev = Message_begin then (case advance view adv ?p of None \<Rightarrow> None | Some p \<Rightarrow> on_parser_event view ev p)
       else (case on_parser_event view ev ?p of None \<Rightarrow> None | Some p \<Rightarrow> advance view adv p)"
  let ?fed = "if ev = Message_begin then map_option (apply_multi ev) (feed_text ?out (False, flush view ?p))
       else feed_text ?out (apply_multi ev (False, flush view ?p))"
  obtain r1 where r0: "feed_char c (flush view p) = Some r1" "feed_chars cs r1 = Some a"
    using Cons.prems(7) by (auto split: option.splits)
  have "feed_char c (flush view p) = unfailed ?fed"
    using h(1) nf fl by (simp add: feed_char_def Let_def del: take_append)
  then have r1: "?fed = Some (False, r1)" "feed_chars cs r1 = Some a"
    using r0 by (auto simp: unfailed_def split: option.splits bool.splits)
  have "\<exists>p1. ?next = Some p1 \<and> ?fed = Some (pl_ec p1, flush view p1) \<and> put_ok p1 \<and> pl_msg p1 = pl_msg ?p + adv
      \<and> fr_multi (pl_reader p1) = m'"
  proof (cases "ev = Message_begin")
    case True
    note adv = advance_feeds [OF ok(1) lt(1)]
    show ?thesis
    proof (cases "advance view adv ?p")
      case None
      then show ?thesis using adv r1(1) True out ok(2) by simp
    next
      case (Some p1)
      then show ?thesis
        using adv parser_event_feeds [of p1 ev view] True out ok by (auto split: option.splits)
    qed
  next
    case False
    obtain p1 where p1: "on_parser_event view ev ?p = Some p1"
      "(pl_ec p1, flush view p1) = apply_multi ev (pl_ec ?p, flush view ?p)" "put_ok p1" "pl_msg p1 = pl_msg ?p"
      "fr_multi (pl_reader p1) = m'"
      using parser_event_feeds [OF ok(1), of ev view] lt(2) ok(3) by auto
    have "pl_msg p1 + adv \<le> length view" using p1(4) lt(1) by simp
    from advance_feeds [OF p1(3) this] show ?thesis
      using False p1 r1(1) out ok(2) by (cases "advance view adv p1") (auto simp: p1(2) [symmetric])
  qed
  then obtain p1 where p1: "?next = Some p1" "\<not> pl_ec p1" "flush view p1 = r1" "put_ok p1" "pl_msg p1 = pl_msg ?p + adv"
    "fr_multi (pl_reader p1) = m'"
    using r1(1) by auto
  have "held m' = drop (pl_msg p1) (pre @ [c])"
    using go(1,2) Cons.prems(5,6) p1(5) by (simp add: on_reader_def add.commute flip: drop_drop)
  moreover have "pl_msg p1 \<le> length (pre @ [c])" using go(1) Cons.prems(5,6) p1(5) by (simp add: on_reader_def)
  ultimately have "\<exists>p'. put_loop view cs p1 = Some (False, p') \<and> a = flush view p' \<and> put_ok p'
      \<and> multi_ok (fr_multi (pl_reader p')) \<and> held (fr_multi (pl_reader p')) = drop (pl_msg p') view
      \<and> pl_msg p' \<le> length view"
    using p1 go(3) r1(2) Cons.prems(4) by (intro Cons.IH [of p1 "pre @ [c]"]) simp_all
  then show ?case using h(1) ok(2) p1(1,2) by (simp add: Let_def)
qed

section \<open>Pieces\<close>

definition reader_ok :: "form_reader \<Rightarrow> bool" where
  "reader_ok r \<longleftrightarrow> multi_ok (fr_multi r) \<and> reader_fits r \<and> fr_pending r = held (fr_multi r)"

text \<open>After a piece: no more is held back than it brought, and it does not end inside a name.\<close>

definition piece_ends_well :: "string \<Rightarrow> form_reader \<Rightarrow> bool" where
  "piece_ends_well s r \<longleftrightarrow> length (held (fr_multi r)) \<le> length s
     \<and> \<not> (fr_writable r \<and> fr_phase r = Form_name \<and> held (fr_multi r) = [])"

lemma last_write:
  assumes "fr_writable (pl_reader p) \<Longrightarrow> \<not> (fr_phase (pl_reader p) = Form_name \<and> pl_msg p = length view)"
  shows "\<exists>q. (if fr_writable (pl_reader p) then write_part view (p\<lparr>pl_end := pl_msg p\<rparr>) else Some p) = Some q
     \<and> pl_reader q = flush view p \<and> pl_msg q = pl_msg p"
proof (cases "fr_writable (pl_reader p)")
  case True
  with assms have "\<not> (fr_phase (pl_reader p) = Form_name \<and> pl_msg p = length view)" by blast
  with True show ?thesis by (simp add: write_part_def Let_def part_text_def flush_def del: de_Morgan_conj)
qed (simp add: flush_def)

lemma form_piece_loop:
  assumes "reader_ok r" "feed_chars s r = Some a"
  shows "\<exists>p'. put_loop (fr_pending r @ s) s (put_start r) = Some (False, p') \<and> a = flush (fr_pending r @ s) p' \<and> put_ok p'
    \<and> multi_ok (fr_multi (pl_reader p')) \<and> held (fr_multi (pl_reader p')) = drop (pl_msg p') (fr_pending r @ s)
    \<and> pl_msg p' \<le> length (fr_pending r @ s)"
proof -
  let ?view = "fr_pending r @ s" and ?p = "put_start r"
  have start: "put_ok ?p" "multi_ok (fr_multi (pl_reader ?p))" "\<not> pl_ec ?p" "held (fr_multi (pl_reader ?p)) = drop (pl_msg ?p) (fr_pending r)"
    "pl_msg ?p \<le> length (fr_pending r)" "flush ?view ?p = r"
    using assms(1) by (simp_all add: put_start_def put_ok_def reader_ok_def flush_def)
  show ?thesis
    using put_loop_feeds [where cs = s and a = a, OF start(1-3) refl start(4,5)] start(6) assms(2) by simp
qed

lemma form_piece_ends:
  assumes "put_loop (fr_pending r @ s) s (put_start r) = Some (False, p')" "a = flush (fr_pending r @ s) p'"
    and "\<not> (fr_writable a \<and> fr_phase a = Form_name \<and> pl_msg p' = length (fr_pending r @ s))"
  shows "form_piece s r = Some (False, pending_to (keep_pending (fr_pending r @ s) (length s) (pl_msg p') (fr_pending r)) a)"
proof -
  let ?view = "fr_pending r @ s"
  have "fr_writable (pl_reader p') \<Longrightarrow> \<not> (fr_phase (pl_reader p') = Form_name \<and> pl_msg p' = length ?view)"
    using assms(2,3) by auto
  from last_write [OF this] obtain q where
    q: "(if fr_writable (pl_reader p') then write_part ?view (p'\<lparr>pl_end := pl_msg p'\<rparr>) else Some p') = Some q"
      "pl_reader q = a" "pl_msg q = pl_msg p'"
    unfolding assms(2) by blast
  have "form_piece s r = Some (False, (pl_reader q)\<lparr>fr_pending := keep_pending ?view (length s) (pl_msg q) (fr_pending r)\<rparr>)"
    unfolding form_piece_def Let_def assms(1) using q(1) by simp
  then show ?thesis unfolding q .
qed

lemma form_piece_feeds:
  assumes "reader_ok r" "feed_chars s r = Some a" "piece_ends_well s a"
  shows "form_piece s r = Some (False, pending_to (held (fr_multi a)) a) \<and> reader_ok (pending_to (held (fr_multi a)) a)"
proof -
  let ?view = "fr_pending r @ s"
  obtain p' where p': "put_loop ?view s (put_start r) = Some (False, p')" "a = flush ?view p'" "put_ok p'"
    "multi_ok (fr_multi (pl_reader p'))" "held (fr_multi (pl_reader p')) = drop (pl_msg p') ?view" "pl_msg p' \<le> length ?view"
    using form_piece_loop [OF assms(1,2)] by blast
  have le: "length (fr_pending r) \<le> pl_msg p'"
    using assms(3) p'(2,5,6) by (auto simp: piece_ends_well_def)
  then have keep: "keep_pending ?view (length s) (pl_msg p') (fr_pending r) = held (fr_multi a)"
    using p'(2,5,6) by (simp add: keep_pending_def Let_def)
  have "\<not> (fr_writable a \<and> fr_phase a = Form_name \<and> pl_msg p' = length ?view)"
    using assms(3) p'(2,5,6) by (auto simp: piece_ends_well_def)
  from form_piece_ends [OF p'(1,2) this]
  have "form_piece s r = Some (False, pending_to (held (fr_multi a)) a)" unfolding keep .
  moreover have "reader_ok (pending_to (held (fr_multi a)) a)"
    using p' by (simp add: reader_ok_def put_ok_def reader_fits_def)
  ultimately show ?thesis by blast
qed

fun pieces_end_well :: "string list \<Rightarrow> form_reader \<Rightarrow> bool" where
  "pieces_end_well [] r = True"
| "pieces_end_well (s # ss) r =
     (case feed_chars s r of None \<Rightarrow> True | Some a \<Rightarrow> piece_ends_well s a \<and> pieces_end_well ss a)"

lemma piece_ends_well_pending [simp]: "piece_ends_well s (pending_to x a) = piece_ends_well s a"
  by (simp add: piece_ends_well_def)

lemma pieces_end_well_pending [simp]: "pieces_end_well ss (pending_to x r) = pieces_end_well ss r"
  by (induction ss arbitrary: r) (auto simp: feed_chars_pending split: option.splits)

lemma form_pieces_feed:
  "reader_ok r \<Longrightarrow> feed_chars (concat ss) r = Some a \<Longrightarrow> pieces_end_well ss r \<Longrightarrow>
     form_pieces ss r = Some (form_finish a, pending_to (held (fr_multi a)) a)"
proof (induction ss arbitrary: r a)
  case Nil
  then show ?case by (auto simp: reader_ok_def)
next
  case (Cons s ss)
  obtain a1 where a1: "feed_chars s r = Some a1" "feed_chars (concat ss) a1 = Some a"
    using Cons.prems(2) by (auto simp: feed_chars_append split: option.splits)
  have ends: "piece_ends_well s a1" "pieces_end_well ss a1" using Cons.prems(3) a1(1) by simp_all
  let ?a1 = "pending_to (held (fr_multi a1)) a1"
  have "feed_chars (concat ss) ?a1 = Some (pending_to (held (fr_multi a1)) a)"
    using a1(2) by (simp add: feed_chars_pending)
  then have "form_pieces ss ?a1 = Some (form_finish (pending_to (held (fr_multi a1)) a), pending_to (held (fr_multi a)) a)"
    using Cons.IH [of ?a1 "pending_to (held (fr_multi a1)) a"] form_piece_feeds [OF Cons.prems(1) a1(1) ends(1)] ends(2)
    by simp
  then show ?case using form_piece_feeds [OF Cons.prems(1) a1(1) ends(1)] by (simp add: form_finish_def)
qed

lemma form_init_ok:
  assumes "form_init (form_reader_new ct b d) = (False, r)"
  shows "reader_ok r"
proof -
  have "r = (form_reader_new ct b d)\<lparr>fr_multi := multi_init (boundary_of ct) multi_new\<rparr>"
    using assms by (auto simp: form_init_def form_reader_new_def split: if_splits)
  moreover have "held (multi_init (boundary_of ct) multi_new) = []" by (simp add: held_def multi_init_def multi_new_def)
  ultimately show ?thesis
    using multi_init_ok by (simp add: reader_ok_def reader_fits_def form_reader_new_def part_new_def phase_writable_def phase_fits_def)
qed

text \<open>
  C19. The way in which a form is cut into pieces does not matter: two ways to cut a body that can be read
  lead to the same values, files and disk, if the pieces end well.
\<close>

theorem form_cut_anywhere:
  assumes "form_init (form_reader_new ct b d) = (False, r)" and "feed_chars (concat ss) r = Some a"
    and "concat ts = concat ss" and "pieces_end_well ss r" and "pieces_end_well ts r"
  shows "form_pieces ss r = Some (form_finish a, pending_to (held (fr_multi a)) a) \<and> form_pieces ts r = form_pieces ss r"
  using form_pieces_feed [OF form_init_ok [OF assms(1)]] assms(2-5) by simp

text \<open>
  A piece that can be read leaves the two automata and the reader in phases that fit each other; the
  one case in which it has no result is a piece that ends inside a name: \<^verbatim>\<open>write_part\<close> then
  dereferences the end of the buffers.
\<close>

theorem form_piece_typed:
  assumes "reader_ok r" and "feed_chars s r = Some a"
  shows "(form_piece s r = None \<longleftrightarrow> fr_writable a \<and> fr_phase a = Form_name \<and> held (fr_multi a) = [])
    \<and> (\<forall>failed r2. form_piece s r = Some (failed, r2) \<longrightarrow> \<not> failed \<and> reader_fits r2 \<and> multi_ok (fr_multi r2))"
proof -
  let ?view = "fr_pending r @ s"
  obtain p' where p': "put_loop ?view s (put_start r) = Some (False, p')" "a = flush ?view p'" "put_ok p'"
    "multi_ok (fr_multi (pl_reader p'))" "held (fr_multi (pl_reader p')) = drop (pl_msg p') ?view" "pl_msg p' \<le> length ?view"
    using form_piece_loop [OF assms] by blast
  have whole: "held (fr_multi a) = [] \<longleftrightarrow> pl_msg p' = length ?view" using p'(2,5,6) by (simp, arith)
  show ?thesis
  proof (cases "fr_writable a \<and> fr_phase a = Form_name \<and> held (fr_multi a) = []")
    case True
    then have "fr_writable (pl_reader p')" "fr_phase (pl_reader p') = Form_name" using p'(2) by simp_all
    moreover have "pl_msg p' = length ?view" using True whole by simp
    ultimately have "form_piece s r = None"
      unfolding form_piece_def Let_def p'(1) by (simp add: write_part_def)
    then show ?thesis using True by simp
  next
    case False
    then have "\<not> (fr_writable a \<and> fr_phase a = Form_name \<and> pl_msg p' = length ?view)" using whole by simp
    from form_piece_ends [OF p'(1,2) this]
    have "form_piece s r = Some (False, pending_to (keep_pending ?view (length s) (pl_msg p') (fr_pending r)) a)" .
    moreover have "reader_fits a" "multi_ok (fr_multi a)"
      using p'(2-4) by (simp_all add: put_ok_def reader_fits_def)
    ultimately show ?thesis using False by (auto simp: reader_fits_def)
  qed
qed

text \<open>
  If more is held back after a piece than the piece brought, the buffer that is kept is wrong: it has
  the beginning of the characters that are held back twice, instead of all of them.
\<close>

theorem held_back_corrupted:
  assumes "reader_ok r" and "feed_chars s r = Some a" and "length s < length (held (fr_multi a))"
  shows "form_piece s r = Some (False, pending_to
     (take (length (held (fr_multi a)) - length s) (held (fr_multi a)) @ take (length s) (held (fr_multi a))) a)"
proof -
  let ?view = "fr_pending r @ s" and ?h = "held (fr_multi a)"
  obtain p' where p': "put_loop ?view s (put_start r) = Some (False, p')" "a = flush ?view p'" "put_ok p'"
    "multi_ok (fr_multi (pl_reader p'))" "held (fr_multi (pl_reader p')) = drop (pl_msg p') ?view" "pl_msg p' \<le> length ?view"
    using form_piece_loop [OF assms(1,2)] by blast
  have h: "?h = drop (pl_msg p') ?view" using p'(2,5) by simp
  have "?h \<noteq> []" using assms(3) by auto
  then have "pl_msg p' \<noteq> length ?view" using h by auto
  with form_piece_ends [OF p'(1,2)]
  have piece: "form_piece s r = Some (False, pending_to (keep_pending ?view (length s) (pl_msg p') (fr_pending r)) a)" by simp
  have "length ?h = length (fr_pending r) + length s - pl_msg p'" unfolding h by simp
  then have le: "pl_msg p' < length (fr_pending r)" using assms(3) by linarith
  have "take (length ?h - length s) ?h = drop (pl_msg p') (fr_pending r)" unfolding h using le by simp
  moreover have "keep_pending ?view (length s) (pl_msg p') (fr_pending r) = drop (pl_msg p') (fr_pending r) @ take (length s) ?h"
    unfolding h using le by (simp add: keep_pending_def Let_def)
  ultimately show ?thesis using piece by simp
qed

end
