(* ===== verification/Form_Upload.thy ===== *)
theory Form_Upload
  imports Form_Feed
begin

text \<open>
  A form that was written as a browser writes it is read back: the fields with their values, the files
  with their names, and the files are on the disk as they were sent. First the reading of one message,
  then of a whole form; at the end the files.
\<close>

section \<open>Reading without an error\<close>

fun feed_clean :: "string \<Rightarrow> form_reader \<Rightarrow> form_reader option" where
  "feed_clean [] r = Some r"
| "feed_clean (c # cs) r = (case feed_one c (False, r) of Some (False, r) \<Rightarrow> feed_clean cs r | _ \<Rightarrow> None)"

lemma feed_clean_append:
  "feed_clean (s @ t) r = (case feed_clean s r of None \<Rightarrow> None | Some r \<Rightarrow> feed_clean t r)"
  by (induction s arbitrary: r) (auto split: option.splits prod.splits bool.splits)

lemma feed_clean_text: "feed_clean t r = Some r' \<Longrightarrow> feed_text t (False, r) = Some (False, r')"
  by (induction t arbitrary: r) (auto split: option.splits prod.splits bool.splits)

text \<open>Nobody but \<open>feed_char\<close> looks at the first automaton.\<close>

abbreviation multi_to :: "multi_parser \<Rightarrow> form_reader \<Rightarrow> form_reader" where
  "multi_to m r \<equiv> r\<lparr>fr_multi := m\<rparr>"

lemma multi_outer:
  "multi_to s r\<lparr>fr_part := a\<rparr> = multi_to s (r\<lparr>fr_part := a\<rparr>)"
  "multi_to s r\<lparr>fr_message := c\<rparr> = multi_to s (r\<lparr>fr_message := c\<rparr>)"
  "multi_to s r\<lparr>fr_writable := d\<rparr> = multi_to s (r\<lparr>fr_writable := d\<rparr>)"
  "multi_to s r\<lparr>fr_phase := e\<rparr> = multi_to s (r\<lparr>fr_phase := e\<rparr>)"
  for r :: form_reader
  by simp_all

lemma open_file_multi: "open_file (multi_to m r) = map_prod id (multi_to m) (open_file r)"
  by (simp add: open_file_def on_body_def Let_def split: option.split)

lemma close_file_multi: "close_file (multi_to m r) = multi_to m (close_file r)"
  by (simp add: close_file_def reader_simps)

lemma apply_event_multi: "apply_event ev (ec, multi_to m r) = map_prod id (multi_to m) (apply_event ev (ec, r))"
proof (cases ev)
  case End_filename
  then show ?thesis
    by (cases "open_file (r\<lparr>fr_writable := False\<rparr>)")
      (simp add: apply_event_def multi_outer open_file_multi current_file_update)
qed (simp_all add: apply_event_def add_value_update close_file_multi multi_outer)

lemma feed_one_multi: "feed_one c (ec, multi_to m r) = map_option (map_prod id (multi_to m)) (feed_one c (ec, r))"
proof (cases "fr_message r")
  case True
  then show ?thesis
    by (cases "handle_message_char c (fr_part r)")
      (auto simp: feed_one_def sink_update multi_outer apply_event_multi)
qed (simp add: feed_one_def sink_update)

lemma feed_clean_multi: "feed_clean t (multi_to m r) = map_option (multi_to m) (feed_clean t r)"
  by (induction t arbitrary: r) (auto simp: feed_one_multi split: option.split bool.split)

lemma feed_one_keeps:
  "feed_one c (ec, r) = Some (ec', r') \<Longrightarrow> fr_multi r' = fr_multi r \<and> fr_message r' = fr_message r"
  by (auto simp: feed_one_def dest!: apply_event_fields split: option.splits if_splits)

lemma feed_clean_keeps: "feed_clean t r = Some r' \<Longrightarrow> fr_multi r' = fr_multi r \<and> fr_message r' = fr_message r"
  by (induction t arbitrary: r) (auto split: option.splits bool.splits dest!: feed_one_keeps)

text \<open>Between the messages nothing is written.\<close>

lemma feed_text_quiet: "\<not> fr_message r \<Longrightarrow> \<not> fr_writable r \<Longrightarrow> feed_text t (ec, r) = Some (ec, r)"
  by (induction t) (simp_all add: feed_one_def)

section \<open>Delimiters\<close>

text \<open>The first automaton has read \<open>doc\<close> since it began to look for the delimiter.\<close>

definition multi_at :: "string \<Rightarrow> string \<Rightarrow> multi_parser \<Rightarrow> bool" where
  "multi_at d doc p \<longleftrightarrow> multi_ok p \<and> tr_delim p = Some d \<and> tracks d doc (mp_kmp p)"

definition same_delims :: "multi_parser \<Rightarrow> multi_parser \<Rightarrow> bool" where
  "same_delims p p' \<longleftrightarrow> mp_preamble p' = mp_preamble p \<and> mp_encapsulation p' = mp_encapsulation p"

lemma start_text_at:
  assumes "multi_ok p" "phase \<in> {Preamble, First_message, Encapsulation}"
  shows "\<exists>p'. tr_init (p\<lparr>mp_phase := phase\<rparr>) = Some p' \<and> mp_phase p' = phase \<and> same_delims p p' \<and> held p' = []
     \<and> multi_at (if phase = Preamble then mp_preamble p else mp_encapsulation p) [] p'"
proof -
  let ?d = "if phase = Preamble then mp_preamble p else mp_encapsulation p"
  have d: "tr_delim (p\<lparr>mp_phase := phase\<rparr>) = Some ?d" "2 \<le> length ?d"
    using assms by (auto simp: tr_delim_def multi_ok_def)
  obtain k where k: "tr_init (p\<lparr>mp_phase := phase\<rparr>) = Some (p\<lparr>mp_phase := phase, mp_last := 0, mp_kmp := k\<rparr>)"
    "tracks ?d [] k"
    using tr_init_ok [OF d] assms(1) by (auto simp: multi_ok_def)
  obtain p' where p': "tr_init (p\<lparr>mp_phase := phase\<rparr>) = Some p'" "held p' = []" "multi_ok p'" "mp_phase p' = phase"
    "mp_preamble p' = mp_preamble p" "mp_encapsulation p' = mp_encapsulation p"
    using start_text [OF assms] by blast
  have "tr_delim p' = Some ?d" using k(1) p'(1) d(1) by (auto simp del: if_split_asm)
  then show ?thesis
    using p' k by (intro exI [of _ p']) (auto simp: multi_at_def same_delims_def)
qed

text \<open>One character of a text phase.\<close>

lemma message_char_at:
  assumes "multi_at d doc p" "mp_phase p \<in> {First_message, Encapsulation}" "\<not> suffix d (doc @ [c])"
  shows "\<exists>adv out p'. handle_char c p = Some (adv, Multi_none, False, p') \<and> mp_phase p' = mp_phase p \<and> same_delims p p'
     \<and> multi_at d (doc @ [c]) p' \<and> out = take adv (held p @ [c]) \<and> held p @ [c] = out @ held p'"
proof -
  have p: "multi_ok p" "tr_delim p = Some d" "tracks d doc (mp_kmp p)" using assms(1) by (simp_all add: multi_at_def)
  from text_step_at [OF p, of c] assms(3) obtain adv k n where
    r: "tr_check c p = Some (adv, False, p\<lparr>mp_kmp := k, mp_last := n\<rparr>)"
      "lets_go p c adv (p\<lparr>mp_kmp := k, mp_last := n\<rparr>)" "tracks d (doc @ [c]) k"
    by auto
  let ?q = "p\<lparr>mp_kmp := k, mp_last := n\<rparr>"
  have "handle_char c p = Some (adv, Multi_none, False, ?q)"
    using assms(2) r(1) by (auto simp: handle_char_def message_char_def)
  moreover have "multi_at d (doc @ [c]) ?q" using r(2,3) p(2) by (simp add: multi_at_def lets_go_def)
  moreover have "held p @ [c] = take adv (held p @ [c]) @ held ?q"
    using r(2) by (metis append_take_drop_id lets_go_def)
  ultimately show ?thesis
    by (intro exI [of _ adv] exI [of _ "take adv (held p @ [c])"] exI [of _ ?q]) (simp add: same_delims_def del: take_append)
qed

lemma message_char_end:
  assumes "multi_at (mp_encapsulation p) doc p" "mp_phase p \<in> {First_message, Encapsulation}"
    and "suffix (mp_encapsulation p) (doc @ [c])"
  shows "\<exists>p'. handle_char c p = Some (length (mp_encapsulation p), Message_end, False, p')
     \<and> mp_phase p' = Maybe_end_or_encapsulation \<and> same_delims p p' \<and> multi_ok p' \<and> held p @ [c] = mp_encapsulation p"
proof -
  have p: "multi_ok p" "tr_delim p = Some (mp_encapsulation p)" "tracks (mp_encapsulation p) doc (mp_kmp p)"
    using assms(1) by (simp_all add: multi_at_def)
  have "held p @ [c] = mp_encapsulation p" using text_step_at [OF p, of c] assms(3) by auto
  then show ?thesis
    using message_char_ok [OF p(1) assms(2), of c] assms(2)
    by (auto simp: handle_char_def lets_go_def same_delims_def)
qed

text \<open>A text without the delimiter: what is let go is read as part of the message.\<close>

lemma feed_message_text:
  assumes "multi_at d doc (fr_multi r)" "mp_phase (fr_multi r) \<in> {First_message, Encapsulation}"
    and "\<not> sublist d (doc @ t)"
  shows "\<exists>m u. multi_at d (doc @ t) m \<and> mp_phase m = mp_phase (fr_multi r) \<and> same_delims (fr_multi r) m
     \<and> held (fr_multi r) @ t = u @ held m
     \<and> (\<forall>r'. feed_clean u r = Some r' \<longrightarrow> feed_chars t r = Some (multi_to m r'))"
  using assms
proof (induction t arbitrary: doc r)
  case Nil
  then show ?case
    by (intro exI [of _ "fr_multi r"] exI [of _ "[]"]) (auto simp: same_delims_def)
next
  case (Cons c t)
  let ?m = "fr_multi r"
  have "\<not> suffix d (doc @ [c])"
    using Cons.prems(3) by (metis append.assoc append_Cons append_Nil suffix_imp_sublist sublist_append_rightI sublist_order.order.trans)
  from message_char_at [OF Cons.prems(1,2) this] obtain adv out m1 where
    m1: "handle_char c ?m = Some (adv, Multi_none, False, m1)" "mp_phase m1 = mp_phase ?m" "same_delims ?m m1"
      "multi_at d (doc @ [c]) m1" "take adv (held ?m @ [c]) = out" "held ?m @ [c] = out @ held m1"
    by blast
  have next_r: "\<exists>m u. multi_at d (doc @ c # t) m \<and> mp_phase m = mp_phase m1 \<and> same_delims m1 m
     \<and> held m1 @ t = u @ held m
     \<and> (\<forall>r'. feed_clean u (multi_to m1 r1) = Some r' \<longrightarrow> feed_chars t (multi_to m1 r1) = Some (multi_to m r'))" for r1
    using Cons.IH [of "doc @ [c]" "multi_to m1 r1"] m1(2,4) Cons.prems(2,3) by simp
  have char: "feed_char c r = Some (multi_to m1 r1)" if "feed_clean out r = Some r1" for r1
    using feed_clean_text [of out "multi_to m1 r" "multi_to m1 r1"] that m1(1,5)
    by (simp add: feed_char_def Let_def unfailed_def apply_multi_def feed_clean_multi del: take_append)
  have all: "held ?m @ c # t = (out @ u) @ held m" if "held m1 @ t = u @ held m" for u m
    using m1(6) that by (metis append.assoc append_Cons append_Nil)
  show ?case
  proof (cases "feed_clean out r")
    case None
    obtain m u where "multi_at d (doc @ c # t) m" "mp_phase m = mp_phase m1" "same_delims m1 m" "held m1 @ t = u @ held m"
      using next_r by blast
    then show ?thesis
      using None m1(2,3) all [of u m]
      by (intro exI [of _ m] exI [of _ "out @ u"]) (auto simp: feed_clean_append same_delims_def)
  next
    case (Some r1)
    obtain m u where m: "multi_at d (doc @ c # t) m" "mp_phase m = mp_phase m1" "same_delims m1 m" "held m1 @ t = u @ held m"
      "\<forall>r'. feed_clean u (multi_to m1 r1) = Some r' \<longrightarrow> feed_chars t (multi_to m1 r1) = Some (multi_to m r')"
      using next_r by blast
    have "feed_chars (c # t) r = Some (multi_to m r')" if "feed_clean (out @ u) r = Some r'" for r'
      using that Some char [OF Some] m(5) by (auto simp: feed_clean_append feed_clean_multi)
    then show ?thesis
      using m m1(2,3) all [OF m(4)] by (intro exI [of _ m] exI [of _ "out @ u"]) (auto simp: same_delims_def)
  qed
qed

lemma multi_at_held: "multi_at d [] p \<Longrightarrow> held p = []"
proof -
  assume p: "multi_at d [] p"
  then have "ends d [] (ks_i (mp_kmp p))" by (simp add: multi_at_def tracks_def longest_def)
  then have "ks_i (mp_kmp p) = 0" using ends_length by fastforce
  moreover have "mp_last p = ks_i (mp_kmp p)" using p by (auto simp: multi_at_def multi_ok_def)
  ultimately show ?thesis using p held_text [of p d] by (simp add: multi_at_def)
qed

lemma feed_message:
  assumes "multi_at enc [] (fr_multi r)" "mp_phase (fr_multi r) \<in> {First_message, Encapsulation}"
    and "enc = mp_encapsulation (fr_multi r)" "\<not> sublist enc (t @ butlast enc)"
    and "fr_message r" "feed_clean t r = Some r'" "pp_phase (fr_part r') = Part_body"
    and "apply_event End_body (False, r'\<lparr>fr_part := (fr_part r')\<lparr>pp_phase := Part_start\<rparr>\<rparr>) = (False, r2)"
  shows "\<exists>m. feed_chars (t @ enc) r = Some (multi_to m (r2\<lparr>fr_message := False\<rparr>)) \<and> multi_ok m
     \<and> mp_phase m = Maybe_end_or_encapsulation \<and> same_delims (fr_multi r) m"
proof -
  have "2 \<le> length enc" using assms(1,3) by (simp add: multi_at_def multi_ok_def)
  then have enc: "butlast enc @ [last enc] = enc" by (intro append_butlast_last_id) auto
  have h: "held (fr_multi r) = []" using multi_at_held [OF assms(1)] .
  from feed_message_text [OF assms(1,2), of "t @ butlast enc"] assms(4) obtain m u where
    m: "multi_at enc (t @ butlast enc) m" "mp_phase m = mp_phase (fr_multi r)" "same_delims (fr_multi r) m"
      "t @ butlast enc = u @ held m"
      "\<forall>r'. feed_clean u r = Some r' \<longrightarrow> feed_chars (t @ butlast enc) r = Some (multi_to m r')"
    using h by auto
  have d: "mp_encapsulation m = enc" using m(3) assms(3) by (simp add: same_delims_def)
  have "suffix enc ((t @ butlast enc) @ [last enc])" using enc by (simp add: suffix_def)
  then obtain m2 where m2: "handle_char (last enc) m = Some (length enc, Message_end, False, m2)"
    "mp_phase m2 = Maybe_end_or_encapsulation" "same_delims m m2" "multi_ok m2" "held m @ [last enc] = enc"
    using message_char_end [of m "t @ butlast enc" "last enc"] m(1,2) assms(2) d by auto
  have "held m = butlast enc" using m2(5) by (metis butlast_snoc)
  then have "feed_chars (t @ butlast enc) r = Some (multi_to m r')" using m(4,5) assms(6) by simp
  moreover have "feed_char (last enc) (multi_to m r') = Some (multi_to m2 (r2\<lparr>fr_message := False\<rparr>))"
  proof -
    have "\<not> fr_writable r2" using apply_event_fields [OF assms(8)] by (simp add: begins_part_def ends_part_def)
    moreover have "apply_multi Message_end (False, multi_to m2 r') = (False, multi_to m2 (r2\<lparr>fr_message := False\<rparr>))"
      using assms(7,8) apply_event_multi [of End_body False m2]
      by (simp add: apply_multi_def handle_message_end_def multi_outer)
    ultimately show ?thesis
      using m2(1,5) by (simp add: feed_char_def Let_def unfailed_def feed_text_quiet)
  qed
  ultimately have "feed_chars ((t @ butlast enc) @ [last enc]) r = Some (multi_to m2 (r2\<lparr>fr_message := False\<rparr>))"
    by (simp only: feed_chars_append) simp
  moreover have "(t @ butlast enc) @ [last enc] = t @ enc" using enc by simp
  ultimately show ?thesis using m2 m(3) by (auto simp: same_delims_def)
qed

lemma preamble_char_at:
  assumes "multi_at d doc p" "mp_phase p = Preamble"
  shows "\<exists>adv p'. handle_char c p = Some (adv, if suffix d (doc @ [c]) then Message_begin else Multi_none, False, p')
     \<and> same_delims p p' \<and> (\<not> suffix d (doc @ [c]) \<longrightarrow> multi_at d (doc @ [c]) p' \<and> mp_phase p' = Preamble)
     \<and> (suffix d (doc @ [c]) \<longrightarrow> multi_at (mp_encapsulation p) [] p' \<and> mp_phase p' = First_message)"
proof -
  have p: "multi_ok p" "tr_delim p = Some d" "tracks d doc (mp_kmp p)" using assms(1) by (simp_all add: multi_at_def)
  from text_step_at [OF p, of c] obtain adv k n where
    s: "tr_check c p = Some (adv, held p @ [c] = d, p\<lparr>mp_kmp := k, mp_last := n\<rparr>)" "searcher_ok k"
      "held p @ [c] \<noteq> d \<longrightarrow> lets_go p c adv (p\<lparr>mp_kmp := k, mp_last := n\<rparr>) \<and> tracks d (doc @ [c]) k"
      "(held p @ [c] = d) = suffix d (doc @ [c])"
    by blast
  note r = s(1-3) [unfolded s(4)]
  have ok: "multi_ok (p\<lparr>mp_kmp := k, mp_last := n, mp_phase := Multi_start\<rparr>)"
    using p(1) r(2) by (simp add: multi_ok_def tr_delim_def)
  from start_text_at [OF this, of First_message] obtain p' where p':
    "tr_init (p\<lparr>mp_kmp := k, mp_last := n, mp_phase := First_message\<rparr>) = Some p'" "mp_phase p' = First_message"
    "same_delims p p'" "multi_at (mp_encapsulation p) [] p'"
    by (auto simp: same_delims_def)
  show ?thesis
    using r p' assms(2) p(2)
    by (cases "suffix d (doc @ [c])")
      (simp_all add: handle_char_def preamble_char_def multi_at_def lets_go_def same_delims_def)
qed

text \<open>What comes before the first message is skipped.\<close>

lemma feed_preamble_text:
  "multi_at d doc (fr_multi r) \<Longrightarrow> mp_phase (fr_multi r) = Preamble \<Longrightarrow> \<not> fr_message r \<Longrightarrow> \<not> fr_writable r \<Longrightarrow>
     \<not> sublist d (doc @ t) \<Longrightarrow>
     \<exists>m. feed_chars t r = Some (multi_to m r) \<and> multi_at d (doc @ t) m \<and> mp_phase m = Preamble \<and> same_delims (fr_multi r) m"
proof (induction t arbitrary: doc r)
  case Nil
  then show ?case by (intro exI [of _ "fr_multi r"]) (simp add: same_delims_def)
next
  case (Cons c t)
  have "\<not> suffix d (doc @ [c])"
    using Cons.prems(5) by (metis append.assoc append_Cons append_Nil suffix_imp_sublist sublist_append_rightI sublist_order.order.trans)
  with preamble_char_at [OF Cons.prems(1,2), of c] obtain adv m1 where
    m1: "handle_char c (fr_multi r) = Some (adv, Multi_none, False, m1)" "same_delims (fr_multi r) m1"
      "multi_at d (doc @ [c]) m1" "mp_phase m1 = Preamble"
    by auto
  have "feed_char c r = Some (multi_to m1 r)"
    using m1(1) Cons.prems(3,4) by (simp add: feed_char_def Let_def unfailed_def apply_multi_def feed_text_quiet)
  moreover obtain m where "feed_chars t (multi_to m1 r) = Some (multi_to m r)" "multi_at d (doc @ c # t) m" "mp_phase m = Preamble"
    "same_delims m1 m"
    using Cons.IH [of "doc @ [c]" "multi_to m1 r"] m1 Cons.prems(3-5) by auto
  ultimately show ?case using m1(2) by (auto simp: same_delims_def)
qed

lemma feed_preamble:
  assumes "multi_ok (fr_multi r)" "mp_phase (fr_multi r) = Multi_start" "\<not> fr_message r" "\<not> fr_writable r"
    and "d = mp_preamble (fr_multi r)" "\<not> sublist d (t @ butlast d)"
  shows "\<exists>m. feed_chars (t @ d) r = Some (multi_to m (r\<lparr>fr_message := True\<rparr>)) \<and> mp_phase m = First_message
     \<and> multi_at (mp_encapsulation (fr_multi r)) [] m \<and> same_delims (fr_multi r) m"
proof -
  have "2 \<le> length d" using assms(1,5) by (simp add: multi_ok_def)
  then have d: "butlast d @ [last d] = d" by (intro append_butlast_last_id) auto
  obtain p1 where p1: "tr_init ((fr_multi r)\<lparr>mp_phase := Preamble\<rparr>) = Some p1" "mp_phase p1 = Preamble"
    "same_delims (fr_multi r) p1" "held p1 = []" "multi_at d [] p1"
    using start_text_at [OF assms(1), of Preamble] assms(5) by auto
  have "held (fr_multi r) = []" using assms(2) by (simp add: held_def)
  then have "feed_char c r = feed_char c (multi_to p1 r)" for c
    using p1(1,2,4) assms(2) by (auto simp: feed_char_def handle_char_def Let_def split: option.split)
  then have start: "feed_chars s r = feed_chars s (multi_to p1 r)" if "s \<noteq> []" for s using that by (cases s) simp_all
  obtain m where m: "feed_chars (t @ butlast d) (multi_to p1 r) = Some (multi_to m r)" "multi_at d (t @ butlast d) m"
    "mp_phase m = Preamble" "same_delims p1 m"
    using feed_preamble_text [of d "[]" "multi_to p1 r" "t @ butlast d"] p1 assms(3,4,6) by auto
  have "suffix d ((t @ butlast d) @ [last d])" using d by (simp add: suffix_def)
  with preamble_char_at [OF m(2,3), of "last d"] obtain adv m2 where
    m2: "handle_char (last d) m = Some (adv, Message_begin, False, m2)" "same_delims m m2" "mp_phase m2 = First_message"
      "multi_at (mp_encapsulation m) [] m2"
    by auto
  have "feed_char (last d) (multi_to m r) = Some (multi_to m2 (r\<lparr>fr_message := True\<rparr>))"
    using m2(1) assms(3,4) by (simp add: feed_char_def Let_def unfailed_def apply_multi_def feed_text_quiet multi_outer)
  then have "feed_chars ((t @ butlast d) @ [last d]) (multi_to p1 r) = Some (multi_to m2 (r\<lparr>fr_message := True\<rparr>))"
    using m(1) by (simp only: feed_chars_append [of "t @ butlast d"]) simp
  then have "feed_chars ((t @ butlast d) @ [last d]) r = Some (multi_to m2 (r\<lparr>fr_message := True\<rparr>))"
    by (subst start) simp_all
  moreover have "(t @ butlast d) @ [last d] = t @ d" using d by simp
  ultimately show ?thesis using m2 m(4) p1(3) by (auto simp: same_delims_def)
qed

text \<open>After a message: another one, or the end.\<close>

lemma feed_next_message:
  assumes "multi_ok (fr_multi r)" "mp_phase (fr_multi r) = Maybe_end_or_encapsulation" "\<not> fr_message r" "\<not> fr_writable r"
  shows "\<exists>m. feed_chars crlf r = Some (multi_to m (r\<lparr>fr_message := True\<rparr>)) \<and> mp_phase m = Encapsulation
     \<and> multi_at (mp_encapsulation (fr_multi r)) [] m \<and> same_delims (fr_multi r) m"
proof -
  let ?m = "(fr_multi r)\<lparr>mp_phase := Maybe_encapsulation\<rparr>"
  have "multi_ok ?m" using assms(1) by (simp add: multi_ok_def tr_delim_def)
  from start_text_at [OF this, of Encapsulation] obtain p1 where p1: "tr_init ((fr_multi r)\<lparr>mp_phase := Encapsulation\<rparr>) = Some p1"
    "mp_phase p1 = Encapsulation" "same_delims (fr_multi r) p1" "multi_at (mp_encapsulation (fr_multi r)) [] p1"
    by (auto simp: same_delims_def)
  have "feed_char (CHR 0x0D) r = Some (multi_to ?m r)"
    using assms(2-4) by (simp add: feed_char_def handle_char_def held_def Let_def unfailed_def apply_multi_def)
  moreover have "feed_char (CHR 0x0A) (multi_to ?m r) = Some (multi_to p1 (r\<lparr>fr_message := True\<rparr>))"
    using p1(1) assms(3,4)
    by (simp add: feed_char_def handle_char_def held_def Let_def unfailed_def apply_multi_def feed_text_quiet multi_outer)
  ultimately show ?thesis using p1 by (auto simp: crlf_def)
qed

lemma feed_epilogue:
  assumes "mp_phase (fr_multi r) = Epilogue" "\<not> fr_message r" "\<not> fr_writable r"
  shows "feed_chars t r = Some r"
  using assms by (induction t) (simp_all add: feed_char_def handle_char_def Let_def unfailed_def apply_multi_def feed_text_quiet)

lemma feed_end:
  assumes "mp_phase (fr_multi r) = Maybe_end_or_encapsulation" "\<not> fr_message r" "\<not> fr_writable r"
  shows "feed_chars (ddash @ t) r = Some (multi_to ((fr_multi r)\<lparr>mp_phase := Epilogue\<rparr>) r)"
proof -
  let ?m = "(fr_multi r)\<lparr>mp_phase := Maybe_end\<rparr>"
  have "feed_char (CHR ''-'') r = Some (multi_to ?m r)"
    using assms by (simp add: feed_char_def handle_char_def held_def Let_def unfailed_def apply_multi_def)
  moreover have "feed_char (CHR ''-'') (multi_to ?m r) = Some (multi_to ((fr_multi r)\<lparr>mp_phase := Epilogue\<rparr>) r)"
    using assms by (simp add: feed_char_def handle_char_def held_def Let_def unfailed_def apply_multi_def feed_text_quiet)
  ultimately show ?thesis using assms(2,3) by (simp add: ddash_def feed_epilogue)
qed

end
