(* ===== verification/Form_Roundtrip.thy ===== *)
theory Form_Roundtrip
  imports Form_Upload
begin

text \<open>
  Forms as they are sent, and what is read back: the messages of a form, the form, and the files on the
  disk.
\<close>

section \<open>Forms\<close>

datatype form_item = Field string string | Upload string string string string

definition quote :: string where "quote = [CHR 0x22]"

definition disposition_text :: string where
  "disposition_text = ''Content-Disposition: form-data; name='' @ quote"

definition filename_text :: string where "filename_text = '' filename='' @ quote"

definition content_type_text :: string where "content_type_text = crlf @ ''Content-Type: ''"

fun item_text :: "form_item \<Rightarrow> string" where
  "item_text (Field name content) = disposition_text @ name @ quote @ crlf @ crlf @ content"
| "item_text (Upload name filename ctype content) =
     disposition_text @ name @ quote @ '';'' @ filename_text @ filename @ quote @ content_type_text @ ctype
     @ crlf @ crlf @ content"

fun item_ok :: "form_item \<Rightarrow> bool" where
  "item_ok (Field name content) \<longleftrightarrow> CHR 0x22 \<notin> set name"
| "item_ok (Upload name filename ctype content) \<longleftrightarrow>
     CHR 0x22 \<notin> set name \<and> CHR 0x22 \<notin> set filename \<and> CHR 0x0D \<notin> set ctype"

text \<open>What an item does to a reader between two messages.\<close>

definition with_value :: "form_value \<Rightarrow> form_reader \<Rightarrow> form_reader" where
  "with_value v = on_body (on_values (\<lambda>vs. vs @ [v]))"

fun store_item :: "form_item \<Rightarrow> form_reader \<Rightarrow> form_reader option" where
  "store_item (Field name content) r =
     Some (with_value \<lparr>fv_name = name, fv_is_file = False, fv_written = True, fv_content = content\<rparr> r)"
| "store_item (Upload name filename ctype content) r =
     (case open_file (with_value \<lparr>fv_name = name, fv_is_file = True, fv_written = True, fv_content = filename\<rparr> r) of
        (True, _) \<Rightarrow> None
      | (False, r) \<Rightarrow> Some ((close_file (sink content (r\<lparr>fr_phase := Form_file\<rparr>)))\<lparr>fr_phase := Form_name\<rparr>))"

section \<open>Reading a message\<close>

lemma part_same: "fr_part r = x \<Longrightarrow> r\<lparr>fr_part := x\<rparr> = r" for r :: form_reader
  by auto

lemma feed_expect:
  assumes "tr_text ph = Some s" "\<And>c p. pp_phase p = ph \<Longrightarrow> handle_message_char c p = part_expect c nxt ev p"
    and "\<not> ends_part ev" "ev \<noteq> End_filename" "ev \<noteq> End_body"
  shows "fr_message r \<Longrightarrow> \<not> fr_writable r \<Longrightarrow> fr_part r = \<lparr>pp_phase = ph, pp_at = k\<rparr> \<Longrightarrow> k < length s \<Longrightarrow>
     feed_clean (drop k s) r = Some (snd (apply_event ev (False, r\<lparr>fr_part := \<lparr>pp_phase = nxt, pp_at = length s\<rparr>\<rparr>)))"
proof (induction "length s - k" arbitrary: k r)
  case 0
  then show ?case by simp
next
  case (Suc n)
  have cons: "drop k s = s ! k # drop (Suc k) s" using Suc.prems(4) by (simp add: Cons_nth_drop_Suc)
  have noec: "fst (apply_event ev (False, r)) = False" for r
    using assms(3-5) by (cases ev) (auto simp: apply_event_def)
  have char: "handle_message_char (s ! k) (fr_part r) =
      (if Suc k = length s then Some (ev, False, \<lparr>pp_phase = nxt, pp_at = length s\<rparr>)
       else Some (Part_none, False, \<lparr>pp_phase = ph, pp_at = Suc k\<rparr>))"
    using assms(1,2) Suc.prems(3) by (simp add: part_expect_def tr_next_def)
  show ?case
  proof (cases "Suc k = length s")
    case True
    let ?q = "apply_event ev (False, r\<lparr>fr_part := \<lparr>pp_phase = nxt, pp_at = length s\<rparr>\<rparr>)"
    obtain r' where r': "?q = (False, r')"
      using noec [of "r\<lparr>fr_part := \<lparr>pp_phase = nxt, pp_at = length s\<rparr>\<rparr>"] by (cases ?q) simp
    moreover have "feed_one (s ! k) (False, r) = Some ?q" using True char Suc.prems(1,2) by (simp add: feed_one_def)
    ultimately show ?thesis using True cons by simp
  next
    case False
    let ?r = "r\<lparr>fr_part := \<lparr>pp_phase = ph, pp_at = Suc k\<rparr>\<rparr>"
    have "feed_one (s ! k) (False, r) = Some (False, ?r)"
      using False char Suc.prems(1,2) by (simp add: feed_one_def apply_event_def)
    moreover have "feed_clean (drop (Suc k) s) ?r
        = Some (snd (apply_event ev (False, ?r\<lparr>fr_part := \<lparr>pp_phase = nxt, pp_at = length s\<rparr>\<rparr>)))"
      by (rule Suc.hyps(1)) (use Suc.hyps(2) Suc.prems False in auto)
    ultimately show ?thesis using cons by simp
  qed
qed

lemma feed_part:
  assumes "\<forall>c \<in> set t. handle_message_char c (fr_part r) = Some (Part_none, False, fr_part r)" "fr_message r"
  shows "feed_clean t r = Some (if fr_writable r then sink t r else r)"
  using assms
proof (induction t arbitrary: r)
  case Nil
  then show ?case by simp
next
  case (Cons c t)
  let ?r = "if fr_writable r then sink [c] r else r"
  have "feed_one c (False, r) = Some (False, ?r)"
    using Cons.prems by (simp add: feed_one_def apply_event_def ends_part_def part_same)
  moreover have "feed_clean t ?r = Some (if fr_writable ?r then sink t ?r else ?r)"
    by (rule Cons.IH) (use Cons.prems in simp_all)
  ultimately show ?case using sink_append [of "[c]" t r] by simp
qed

text \<open>A reader between two messages.\<close>

definition ready :: "form_reader \<Rightarrow> bool" where
  "ready r \<longleftrightarrow> fr_message r \<and> \<not> fr_writable r \<and> pp_phase (fr_part r) = Part_start \<and> fr_phase r = Form_name \<and> fr_name r = []"

lemma disposition_not_empty: "disposition_text \<noteq> []"
  by (simp add: disposition_text_def)

lemma feed_disposition:
  assumes "ready r" "CHR 0x22 \<notin> set name"
  shows "feed_clean (disposition_text @ name @ quote) r =
     Some (r\<lparr>fr_part := \<lparr>pp_phase = Maybe_filename, pp_at = length disposition_text\<rparr>, fr_name := name,
             fr_phase := Form_content\<rparr>)"
proof -
  have r: "fr_message r" "\<not> fr_writable r" "pp_phase (fr_part r) = Part_start" "fr_phase r = Form_name" "fr_name r = []"
    using assms(1) by (simp_all add: ready_def)
  let ?p = "\<lparr>pp_phase = Content_disposition, pp_at = 0\<rparr>"
  let ?r1 = "r\<lparr>fr_part := \<lparr>pp_phase = Part_name, pp_at = length disposition_text\<rparr>, fr_writable := True\<rparr>"
  have "handle_message_char c (fr_part r) = handle_message_char c ?p" for c
    using r(3) by (cases "fr_part r") (simp add: handle_message_char_def tr_reset_def tr_text_def)
  then have "feed_one c (False, r) = feed_one c (False, r\<lparr>fr_part := ?p\<rparr>)" for c
    using r(1,2) by (simp add: feed_one_def split: option.split)
  then have "feed_clean t r = feed_clean t (r\<lparr>fr_part := ?p\<rparr>)" if "t \<noteq> []" for t using that by (cases t) simp_all
  moreover have "feed_clean (drop 0 disposition_text) (r\<lparr>fr_part := ?p\<rparr>)
      = Some (snd (apply_event Begin_name (False, r\<lparr>fr_part := ?p\<rparr>\<lparr>fr_part := \<lparr>pp_phase = Part_name, pp_at = length disposition_text\<rparr>\<rparr>)))"
    by (rule feed_expect [of Content_disposition])
      (use r in \<open>auto simp: tr_text_def disposition_text_def quote_def handle_message_char_def ends_part_def\<close>)
  ultimately have d: "feed_clean disposition_text r = Some ?r1"
    using disposition_not_empty by (simp add: apply_event_def)
  have n: "feed_clean name ?r1 = Some (?r1\<lparr>fr_name := name\<rparr>)"
  proof -
    have "\<forall>c \<in> set name. c \<noteq> CHR 0x22" using assms(2) by auto
    then show ?thesis using feed_part [of name ?r1] r by (simp add: handle_message_char_def sink_def)
  qed
  have q: "feed_clean quote (?r1\<lparr>fr_name := name\<rparr>) = Some (r\<lparr>fr_part := \<lparr>pp_phase = Maybe_filename, pp_at = length disposition_text\<rparr>,
      fr_name := name, fr_phase := Form_content\<rparr>)"
    using r by (simp add: quote_def feed_one_def handle_message_char_def apply_event_def ends_part_def)
  show ?thesis using d n q by (simp add: feed_clean_append)
qed

lemma feed_blank_line:
  assumes "fr_message r" "\<not> fr_writable r" "pp_phase (fr_part r) \<in> {Maybe_filename, Content_type_body}"
  shows "feed_clean (crlf @ crlf) r =
     Some ((if fr_phase r = Form_content then add_value False r else r)
       \<lparr>fr_part := \<lparr>pp_phase = Part_body, pp_at = 4\<rparr>, fr_writable := True\<rparr>)"
proof -
  let ?r = "r\<lparr>fr_part := \<lparr>pp_phase = Pre_body, pp_at = 1\<rparr>\<rparr>"
  have "feed_one (CHR 0x0D) (False, r) = Some (False, ?r)"
    using assms by (cases "fr_part r")
      (auto simp: feed_one_def handle_message_char_def part_pre_body_def tr_reset_def tr_next_def tr_text_def apply_event_def)
  moreover have "feed_clean (drop 1 (crlf @ crlf)) ?r = Some (snd (apply_event Begin_body
      (False, ?r\<lparr>fr_part := \<lparr>pp_phase = Part_body, pp_at = length (crlf @ crlf)\<rparr>\<rparr>)))"
    by (rule feed_expect [of Pre_body])
      (use assms in \<open>auto simp: tr_text_def crlf_def handle_message_char_def ends_part_def\<close>)
  moreover have "crlf @ crlf = CHR 0x0D # drop 1 (crlf @ crlf)" by (simp add: crlf_def)
  ultimately have "feed_clean (crlf @ crlf) r = Some (snd (apply_event Begin_body
      (False, ?r\<lparr>fr_part := \<lparr>pp_phase = Part_body, pp_at = length (crlf @ crlf)\<rparr>\<rparr>)))"
    by (metis (no_types, lifting) bool.case(2) case_prod_conv feed_clean.simps(2) option.case(2))
  then show ?thesis by (simp add: apply_event_def crlf_def add_value_update)
qed

lemma feed_body:
  assumes "fr_message r" "fr_writable r" "pp_phase (fr_part r) = Part_body"
  shows "feed_clean t r = Some (sink t r)"
  using feed_part [of t r] assms by (simp add: handle_message_char_def)

lemma feed_filename:
  assumes "fr_message r" "\<not> fr_writable r" "pp_phase (fr_part r) = Maybe_filename" "CHR 0x22 \<notin> set filename"
    and "open_file (with_value \<lparr>fv_name = fr_name r, fv_is_file = True, fv_written = True, fv_content = filename\<rparr> r) = (False, r1)"
  shows "feed_clean ('';'' @ filename_text @ filename @ quote) r =
     Some (r1\<lparr>fr_part := \<lparr>pp_phase = Content_type, pp_at = 0\<rparr>, fr_name := [], fr_phase := Form_file\<rparr>)"
proof -
  let ?r1 = "r\<lparr>fr_part := \<lparr>pp_phase = Filename, pp_at = 0\<rparr>\<rparr>"
  have "feed_one (CHR '';'') (False, r) = Some (False, ?r1)"
    using assms(1-3) by (cases "fr_part r")
      (simp add: feed_one_def handle_message_char_def part_goto_def tr_reset_def tr_text_def apply_event_def)
  then have c: "feed_clean '';'' r = Some ?r1" by simp
  let ?r2 = "(add_value True r)\<lparr>fr_part := \<lparr>pp_phase = Filename_body, pp_at = length filename_text\<rparr>,
    fr_phase := Form_filename, fr_writable := True\<rparr>"
  have "feed_clean (drop 0 filename_text) ?r1 = Some (snd (apply_event Begin_filename
      (False, ?r1\<lparr>fr_part := \<lparr>pp_phase = Filename_body, pp_at = length filename_text\<rparr>\<rparr>)))"
    by (rule feed_expect [of Filename])
      (use assms(1-3) in \<open>auto simp: tr_text_def filename_text_def quote_def handle_message_char_def ends_part_def\<close>)
  then have f: "feed_clean filename_text ?r1 = Some ?r2" by (simp add: apply_event_def add_value_update)
  have n: "feed_clean filename ?r2 = Some (sink filename ?r2)"
  proof -
    have "\<forall>c \<in> set filename. c \<noteq> CHR 0x22" using assms(4) by auto
    then show ?thesis using feed_part [of filename ?r2] assms(1) by (simp add: handle_message_char_def)
  qed
  let ?v = "\<lparr>fv_name = fr_name r, fv_is_file = True, fv_written = True, fv_content = filename\<rparr>"
  let ?w = "(with_value ?v r)\<lparr>fr_name := [], fr_part := \<lparr>pp_phase = Content_type, pp_at = 0\<rparr>, fr_phase := Form_filename\<rparr>"
  have s: "sink filename ?r2 = (with_value ?v r)\<lparr>fr_name := [], fr_part := \<lparr>pp_phase = Filename_body, pp_at = length filename_text\<rparr>,
      fr_phase := Form_filename, fr_writable := True\<rparr>"
    by (simp add: sink_def add_value_def on_body_def on_values_def with_value_def)
  have o: "open_file ?w = (False, r1\<lparr>fr_name := [], fr_part := \<lparr>pp_phase = Content_type, pp_at = 0\<rparr>, fr_phase := Form_filename\<rparr>)"
    using assms(5) by (auto simp: open_file_def on_body_def Let_def with_value_def split: option.splits if_splits)
  have q: "feed_clean quote (sink filename ?r2) =
      Some (r1\<lparr>fr_part := \<lparr>pp_phase = Content_type, pp_at = 0\<rparr>, fr_name := [], fr_phase := Form_file\<rparr>)"
  proof -
    let ?x = "(with_value ?v r)\<lparr>fr_name := [], fr_part := \<lparr>pp_phase = Content_type, pp_at = 0\<rparr>, fr_phase := Form_filename,
      fr_writable := False\<rparr>"
    have "?x = ?w" by (rule form_reader.equality) (simp_all add: assms(2) with_value_def)
    then have e: "apply_event End_filename (False, ?x\<lparr>fr_writable := True\<rparr>)
        = (False, r1\<lparr>fr_part := \<lparr>pp_phase = Content_type, pp_at = 0\<rparr>, fr_name := [], fr_phase := Form_file\<rparr>)"
      using o by (simp add: apply_event_def)
    have "(sink filename ?r2)\<lparr>fr_part := \<lparr>pp_phase = Content_type, pp_at = 0\<rparr>\<rparr> = ?x\<lparr>fr_writable := True\<rparr>"
      by (rule form_reader.equality) (simp_all add: s)
    then have "feed_one (CHR 0x22) (False, sink filename ?r2) = Some (apply_event End_filename (False, ?x\<lparr>fr_writable := True\<rparr>))"
      using assms(1)
      by (simp add: feed_one_def handle_message_char_def part_goto_def tr_reset_def tr_text_def ends_part_def)
    then show ?thesis using e by (simp add: quote_def)
  qed
  show ?thesis using c f n q by (simp only: feed_clean_append option.case)
qed

lemma feed_content_type:
  assumes "fr_message r" "\<not> fr_writable r" "fr_part r = \<lparr>pp_phase = Content_type, pp_at = 0\<rparr>" "CHR 0x0D \<notin> set ctype"
  shows "feed_clean (content_type_text @ ctype) r =
     Some (r\<lparr>fr_part := \<lparr>pp_phase = Content_type_body, pp_at = length content_type_text\<rparr>\<rparr>)"
proof -
  let ?r = "r\<lparr>fr_part := \<lparr>pp_phase = Content_type_body, pp_at = length content_type_text\<rparr>\<rparr>"
  have "feed_clean (drop 0 content_type_text) r = Some (snd (apply_event Part_none (False, ?r)))"
    by (rule feed_expect [of Content_type])
      (use assms in \<open>auto simp: tr_text_def content_type_text_def crlf_def handle_message_char_def ends_part_def\<close>)
  moreover have "feed_clean ctype ?r = Some ?r"
  proof -
    have "\<forall>c \<in> set ctype. c \<noteq> CHR 0x0D" using assms(4) by auto
    then show ?thesis using feed_part [of ctype ?r] assms(1,2) by (simp add: handle_message_char_def)
  qed
  ultimately show ?thesis by (simp add: feed_clean_append apply_event_def)
qed

text \<open>A whole message, up to the delimiter.\<close>

lemma feed_item:
  assumes "ready r" "item_ok i" "store_item i r = Some r2"
  shows "\<exists>r1. feed_clean (item_text i) r = Some r1 \<and> pp_phase (fr_part r1) = Part_body
     \<and> apply_event End_body (False, r1\<lparr>fr_part := (fr_part r1)\<lparr>pp_phase := Part_start\<rparr>\<rparr>)
       = (False, r2\<lparr>fr_part := \<lparr>pp_phase = Part_start, pp_at = 4\<rparr>\<rparr>)"
proof (cases i)
  case (Field name content)
  have r: "fr_message r" "\<not> fr_writable r" "fr_phase r = Form_name" "fr_name r = []"
    using assms(1) by (simp_all add: ready_def)
  let ?a = "r\<lparr>fr_part := \<lparr>pp_phase = Maybe_filename, pp_at = length disposition_text\<rparr>, fr_name := name, fr_phase := Form_content\<rparr>"
  let ?b = "(add_value False ?a)\<lparr>fr_part := \<lparr>pp_phase = Part_body, pp_at = 4\<rparr>, fr_writable := True\<rparr>"
  have a: "feed_clean (disposition_text @ name @ quote) r = Some ?a"
    using feed_disposition [OF assms(1)] assms(2) Field by simp
  have b: "feed_clean (crlf @ crlf) ?a = Some ?b" using feed_blank_line [of ?a] r by simp
  have c: "feed_clean content ?b = Some (sink content ?b)" using feed_body [of ?b] r by simp
  have "item_text i = (disposition_text @ name @ quote) @ (crlf @ crlf) @ content" using Field by simp
  then have t: "feed_clean (item_text i) r = Some (sink content ?b)"
    using a b c by (simp only: feed_clean_append option.case)
  have "r2 = with_value \<lparr>fv_name = name, fv_is_file = False, fv_written = True, fv_content = content\<rparr> r"
    using assms(3) Field by simp
  then have "apply_event End_body (False, (sink content ?b)\<lparr>fr_part := (fr_part (sink content ?b))\<lparr>pp_phase := Part_start\<rparr>\<rparr>)
       = (False, r2\<lparr>fr_part := \<lparr>pp_phase = Part_start, pp_at = 4\<rparr>\<rparr>)"
    using r by (auto simp: apply_event_def sink_def add_value_def with_value_def on_body_def on_values_def
        intro!: form_reader.equality)
  then show ?thesis using t by (intro exI [of _ "sink content ?b"]) simp
next
  case (Upload name filename ctype content)
  have r: "fr_message r" "\<not> fr_writable r" "fr_phase r = Form_name" "fr_name r = []"
    using assms(1) by (simp_all add: ready_def)
  let ?v = "\<lparr>fv_name = name, fv_is_file = True, fv_written = True, fv_content = filename\<rparr>"
  obtain ro where ro: "open_file (with_value ?v r) = (False, ro)"
    "r2 = (close_file (sink content (ro\<lparr>fr_phase := Form_file\<rparr>)))\<lparr>fr_phase := Form_name\<rparr>"
    using assms(3) Upload by (auto split: prod.splits bool.splits)
  let ?a = "r\<lparr>fr_part := \<lparr>pp_phase = Maybe_filename, pp_at = length disposition_text\<rparr>, fr_name := name, fr_phase := Form_content\<rparr>"
  have a: "feed_clean (disposition_text @ name @ quote) r = Some ?a"
    using feed_disposition [OF assms(1)] assms(2) Upload by simp
  let ?a1 = "ro\<lparr>fr_part := \<lparr>pp_phase = Maybe_filename, pp_at = length disposition_text\<rparr>, fr_name := name, fr_phase := Form_content\<rparr>"
  have "open_file (with_value ?v ?a) = (False, ?a1)"
    using ro(1) by (auto simp: open_file_def on_body_def Let_def with_value_def split: option.splits if_splits)
  then have b: "feed_clean ('';'' @ filename_text @ filename @ quote) ?a =
      Some (?a1\<lparr>fr_part := \<lparr>pp_phase = Content_type, pp_at = 0\<rparr>, fr_name := [], fr_phase := Form_file\<rparr>)"
    using feed_filename [of ?a filename ?a1] assms(2) Upload r by simp
  let ?b = "ro\<lparr>fr_part := \<lparr>pp_phase = Content_type, pp_at = 0\<rparr>, fr_name := [], fr_phase := Form_file\<rparr>"
  note f = open_file_fields [OF ro(1)]
  have fo: "fr_message ro" "\<not> fr_writable ro" using f r by (simp_all add: with_value_def)
  let ?c = "ro\<lparr>fr_part := \<lparr>pp_phase = Content_type_body, pp_at = length content_type_text\<rparr>, fr_name := [], fr_phase := Form_file\<rparr>"
  have c: "feed_clean (content_type_text @ ctype) ?b = Some ?c"
    using feed_content_type [of ?b ctype] assms(2) Upload fo by simp
  let ?d = "ro\<lparr>fr_part := \<lparr>pp_phase = Part_body, pp_at = 4\<rparr>, fr_name := [], fr_phase := Form_file, fr_writable := True\<rparr>"
  have d: "feed_clean (crlf @ crlf) ?c = Some ?d" using feed_blank_line [of ?c] fo by simp
  have e: "feed_clean content ?d = Some (sink content ?d)" using feed_body [of ?d] fo by simp
  have "item_text i = (disposition_text @ name @ quote) @ ('';'' @ filename_text @ filename @ quote)
      @ (content_type_text @ ctype) @ (crlf @ crlf) @ content" using Upload by simp
  then have t: "feed_clean (item_text i) r = Some (sink content ?d)"
    using a b c d e by (simp only: feed_clean_append option.case) simp
  have "fr_name ro = []" using ro(1) r by (auto simp: open_file_def Let_def with_value_def split: option.splits if_splits)
  then have "apply_event End_body (False, (sink content ?d)\<lparr>fr_part := (fr_part (sink content ?d))\<lparr>pp_phase := Part_start\<rparr>\<rparr>)
       = (False, r2\<lparr>fr_part := \<lparr>pp_phase = Part_start, pp_at = 4\<rparr>\<rparr>)"
    unfolding ro(2) using fo
    by (auto simp: apply_event_def sink_def close_file_def on_body_def current_file_def split: option.splits list.splits
        intro!: form_reader.equality)
  then show ?thesis using t by (intro exI [of _ "sink content ?d"]) simp
qed

section \<open>Reading a form\<close>

text \<open>The messages after the first delimiter, with the delimiters after them.\<close>

fun items_text :: "string \<Rightarrow> form_item list \<Rightarrow> string" where
  "items_text d [] = []"
| "items_text d [i] = item_text i @ d @ ddash"
| "items_text d (i # is) = item_text i @ d @ crlf @ items_text d is"

definition form_text :: "string \<Rightarrow> string \<Rightarrow> form_item list \<Rightarrow> string \<Rightarrow> string" where
  "form_text preamble boundary is epilogue =
     preamble @ (ddash @ boundary @ crlf) @ items_text (crlf @ ddash @ boundary) is @ epilogue"

text \<open>A delimiter is not found before its place.\<close>

definition free_of :: "string \<Rightarrow> string \<Rightarrow> bool" where
  "free_of d t \<longleftrightarrow> \<not> sublist d (t @ butlast d)"

fun store_items :: "form_item list \<Rightarrow> form_reader \<Rightarrow> form_reader option" where
  "store_items [] r = Some r"
| "store_items (i # is) r = (case store_item i r of None \<Rightarrow> None | Some r \<Rightarrow> store_items is r)"

lemma store_item_keeps:
  "store_item i r = Some r2 \<Longrightarrow> fr_part r2 = fr_part r \<and> fr_multi r2 = fr_multi r \<and> fr_message r2 = fr_message r
     \<and> fr_writable r2 = fr_writable r \<and> (fr_phase r = Form_name \<longrightarrow> fr_phase r2 = Form_name)"
  by (cases i) (auto simp: with_value_def split: prod.splits bool.splits dest!: open_file_fields)

lemma open_file_message: "open_file (r\<lparr>fr_message := b\<rparr>) = map_prod id (\<lambda>r. r\<lparr>fr_message := b\<rparr>) (open_file r)"
  by (simp add: open_file_def on_body_def Let_def split: option.split)

lemma open_file_name: "open_file r = (failed, r') \<Longrightarrow> fr_name r' = fr_name r"
  by (auto simp: open_file_def Let_def split: option.splits if_splits)

lemma sink_file_name: "fr_phase r = Form_file \<Longrightarrow> fr_name (sink s r) = fr_name r"
  by (simp add: sink_def split: option.split)

lemma store_item_name: "store_item i r = Some r2 \<Longrightarrow> fr_name r2 = fr_name r"
  by (cases i)
    (auto simp: with_value_def sink_file_name close_file_def split: prod.splits bool.splits dest!: open_file_name)

text \<open>The automata do not matter to what is stored.\<close>

definition between :: "multi_parser \<Rightarrow> part_parser \<Rightarrow> bool \<Rightarrow> form_reader \<Rightarrow> form_reader" where
  "between m p b r = r\<lparr>fr_multi := m, fr_part := p, fr_message := b\<rparr>"

lemma store_item_between: "store_item i (between m p b r) = map_option (between m p b) (store_item i r)"
proof (cases i)
  case (Field name content)
  then show ?thesis by (simp add: between_def with_value_def on_body_def)
next
  case (Upload name filename ctype content)
  let ?r = "with_value \<lparr>fv_name = name, fv_is_file = True, fv_written = True, fv_content = filename\<rparr> r"
  have w: "with_value v (between m p b r) = between m p b (with_value v r)" for v
    by (simp add: between_def with_value_def on_body_def)
  have o: "open_file (between m p b ?r) = map_prod id (between m p b) (open_file ?r)"
    by (simp add: between_def [abs_def] open_file_message open_file_update open_file_multi prod.map_comp comp_def id_def)
  have s: "sink content (between m p b r\<lparr>fr_phase := Form_file\<rparr>) = between m p b (sink content (r\<lparr>fr_phase := Form_file\<rparr>))" for r
    by (simp add: between_def sink_def current_file_def split: list.split option.split prod.split)
  have c: "(close_file (between m p b r))\<lparr>fr_phase := Form_name\<rparr> = between m p b ((close_file r)\<lparr>fr_phase := Form_name\<rparr>)" for r
    by (simp add: between_def close_file_def on_body_def)
  show ?thesis
    using Upload by (cases "open_file ?r") (auto simp: w o s c split: bool.splits)
qed

lemma store_items_between: "store_items is (between m p b r) = map_option (between m p b) (store_items is r)"
  by (induction "is" arbitrary: r) (auto simp: store_item_between split: option.split)

lemma feed_items:
  assumes "is \<noteq> []" "multi_at d [] (fr_multi r)" "mp_phase (fr_multi r) \<in> {First_message, Encapsulation}"
    and "d = mp_encapsulation (fr_multi r)" "ready r" "\<forall>i \<in> set is. item_ok i \<and> free_of d (item_text i)"
    and "store_items is r = Some r2"
  shows "\<exists>m. feed_chars (items_text d is @ epilogue) r =
       Some (between m \<lparr>pp_phase = Part_start, pp_at = 4\<rparr> False r2) \<and> held m = []"
  using assms
proof (induction d "is" arbitrary: r r2 rule: items_text.induct)
  case (1 d)
  then show ?case by simp
next
  case (2 d i)
  have st: "store_item i r = Some r2" using "2.prems"(7) by (simp split: option.splits)
  obtain r1 where r1: "feed_clean (item_text i) r = Some r1" "pp_phase (fr_part r1) = Part_body"
    "apply_event End_body (False, r1\<lparr>fr_part := (fr_part r1)\<lparr>pp_phase := Part_start\<rparr>\<rparr>)
       = (False, r2\<lparr>fr_part := \<lparr>pp_phase = Part_start, pp_at = 4\<rparr>\<rparr>)"
    using feed_item [OF "2.prems"(5) _ st] "2.prems"(6) by auto
  have "fr_message r" "\<not> sublist d (item_text i @ butlast d)"
    using "2.prems"(5,6) by (simp_all add: ready_def free_of_def)
  then obtain m where m: "feed_chars (item_text i @ d) r =
       Some (multi_to m (r2\<lparr>fr_part := \<lparr>pp_phase = Part_start, pp_at = 4\<rparr>, fr_message := False\<rparr>))" "multi_ok m"
    "mp_phase m = Maybe_end_or_encapsulation" "same_delims (fr_multi r) m"
    using feed_message [OF "2.prems"(2-4) _ _ r1] by auto
  let ?r = "multi_to m (r2\<lparr>fr_part := \<lparr>pp_phase = Part_start, pp_at = 4\<rparr>, fr_message := False\<rparr>)"
  have "\<not> fr_writable r2" using store_item_keeps [OF st] "2.prems"(5) by (simp add: ready_def)
  then have "feed_chars (ddash @ epilogue) ?r = Some (multi_to (m\<lparr>mp_phase := Epilogue\<rparr>) ?r)"
    using feed_end [of ?r epilogue] m(3) by simp
  moreover have "items_text d [i] @ epilogue = (item_text i @ d) @ ddash @ epilogue" by simp
  ultimately show ?case
    using m(1) by (intro exI [of _ "m\<lparr>mp_phase := Epilogue\<rparr>"])
      (simp only: feed_chars_append option.case, simp add: between_def held_def)
next
  case (3 d i j "is")
  obtain r3 where st: "store_item i r = Some r3" "store_items (j # is) r3 = Some r2"
    using "3.prems"(7) by (simp split: option.splits)
  obtain r1 where r1: "feed_clean (item_text i) r = Some r1" "pp_phase (fr_part r1) = Part_body"
    "apply_event End_body (False, r1\<lparr>fr_part := (fr_part r1)\<lparr>pp_phase := Part_start\<rparr>\<rparr>)
       = (False, r3\<lparr>fr_part := \<lparr>pp_phase = Part_start, pp_at = 4\<rparr>\<rparr>)"
    using feed_item [OF "3.prems"(5) _ st(1)] "3.prems"(6) by auto
  have "fr_message r" "\<not> sublist d (item_text i @ butlast d)"
    using "3.prems"(5,6) by (simp_all add: ready_def free_of_def)
  then obtain m where m: "feed_chars (item_text i @ d) r =
       Some (multi_to m (r3\<lparr>fr_part := \<lparr>pp_phase = Part_start, pp_at = 4\<rparr>, fr_message := False\<rparr>))" "multi_ok m"
    "mp_phase m = Maybe_end_or_encapsulation" "same_delims (fr_multi r) m"
    using feed_message [OF "3.prems"(2-4) _ _ r1] by auto
  let ?r = "multi_to m (r3\<lparr>fr_part := \<lparr>pp_phase = Part_start, pp_at = 4\<rparr>, fr_message := False\<rparr>)"
  have w: "\<not> fr_writable r3" "fr_phase r3 = Form_name" "fr_name r3 = []" "fr_message r3"
    using store_item_keeps [OF st(1)] store_item_name [OF st(1)] "3.prems"(5) by (simp_all add: ready_def)
  have d: "mp_encapsulation m = d" using m(4) "3.prems"(4) by (simp add: same_delims_def)
  obtain m2 where m2: "feed_chars crlf ?r = Some (multi_to m2 (?r\<lparr>fr_message := True\<rparr>))" "mp_phase m2 = Encapsulation"
    "multi_at d [] m2" "same_delims m m2"
    using feed_next_message [of ?r] m(2,3) w(1) d by auto
  let ?r2 = "between m2 \<lparr>pp_phase = Part_start, pp_at = 4\<rparr> True r3"
  have r2: "multi_to m2 (?r\<lparr>fr_message := True\<rparr>) = ?r2" by (simp add: between_def)
  have "store_items (j # is) ?r2 = Some (between m2 \<lparr>pp_phase = Part_start, pp_at = 4\<rparr> True r2)"
    using st(2) by (simp only: store_items_between option.map)
  moreover have "ready ?r2" using w by (simp add: ready_def between_def)
  moreover have "multi_at d [] (fr_multi ?r2)" "mp_phase (fr_multi ?r2) \<in> {First_message, Encapsulation}"
    "d = mp_encapsulation (fr_multi ?r2)"
    using m2(2-4) d by (simp_all add: between_def same_delims_def)
  moreover have "\<forall>i \<in> set (j # is). item_ok i \<and> free_of d (item_text i)" using "3.prems"(6) by simp
  ultimately have "\<exists>m3. feed_chars (items_text d (j # is) @ epilogue) ?r2
      = Some (between m3 \<lparr>pp_phase = Part_start, pp_at = 4\<rparr> False (between m2 \<lparr>pp_phase = Part_start, pp_at = 4\<rparr> True r2))
      \<and> held m3 = []"
    by (intro "3.IH") simp_all
  then obtain m3 where "feed_chars (items_text d (j # is) @ epilogue) ?r2
      = Some (between m3 \<lparr>pp_phase = Part_start, pp_at = 4\<rparr> False (between m2 \<lparr>pp_phase = Part_start, pp_at = 4\<rparr> True r2))"
    "held m3 = []"
    by blast
  moreover have "items_text d (i # j # is) @ epilogue = (item_text i @ d) @ crlf @ items_text d (j # is) @ epilogue" by simp
  ultimately have "feed_chars (items_text d (i # j # is) @ epilogue) r
      = Some (between m3 \<lparr>pp_phase = Part_start, pp_at = 4\<rparr> False r2)"
    using m(1) m2(1) r2 by (simp only: feed_chars_append option.case) (simp add: between_def)
  then show ?case using \<open>held m3 = []\<close> by blast
qed

lemma feed_form:
  assumes "form_init (form_reader_new ct b d) = (False, r)" "is \<noteq> []"
    and "free_of (ddash @ boundary_of ct @ crlf) preamble"
    and "\<forall>i \<in> set is. item_ok i \<and> free_of (crlf @ ddash @ boundary_of ct) (item_text i)"
    and "store_items is r = Some r2"
  shows "\<exists>m. feed_chars (form_text preamble (boundary_of ct) is epilogue) r =
       Some (between m \<lparr>pp_phase = Part_start, pp_at = 4\<rparr> False r2) \<and> held m = []"
proof -
  let ?m = "multi_init (boundary_of ct) multi_new"
  have r: "r = (form_reader_new ct b d)\<lparr>fr_multi := ?m\<rparr>"
    using assms(1) by (auto simp: form_init_def form_reader_new_def split: if_splits)
  have delims: "mp_preamble ?m = ddash @ boundary_of ct @ crlf" "mp_encapsulation ?m = crlf @ ddash @ boundary_of ct"
    "mp_phase ?m = Multi_start"
    by (simp_all add: multi_init_def multi_new_def)
  have f: "fr_multi r = ?m" "\<not> fr_message r" "\<not> fr_writable r" "fr_phase r = Form_name" "fr_name r = []" "fr_part r = part_new"
    by (simp_all add: r form_reader_new_def)
  obtain m where m: "feed_chars (preamble @ (ddash @ boundary_of ct @ crlf)) r = Some (multi_to m (r\<lparr>fr_message := True\<rparr>))"
    "mp_phase m = First_message" "multi_at (crlf @ ddash @ boundary_of ct) [] m" "same_delims ?m m"
    using feed_preamble [of r "ddash @ boundary_of ct @ crlf" preamble] multi_init_ok assms(3) f delims
    by (auto simp: free_of_def)
  let ?r = "multi_to m (r\<lparr>fr_message := True\<rparr>)"
  have eq: "?r = between m part_new True r" using f(6) by (auto simp: between_def part_same)
  have "ready ?r" using f by (simp add: ready_def part_new_def)
  moreover have "store_items is ?r = Some (between m part_new True r2)"
    using assms(5) unfolding eq by (simp only: store_items_between option.map)
  moreover have "multi_at (crlf @ ddash @ boundary_of ct) [] (fr_multi ?r)"
    "mp_phase (fr_multi ?r) \<in> {First_message, Encapsulation}" "crlf @ ddash @ boundary_of ct = mp_encapsulation (fr_multi ?r)"
    using m(2-4) delims by (simp_all add: same_delims_def)
  ultimately have "\<exists>m2. feed_chars (items_text (crlf @ ddash @ boundary_of ct) is @ epilogue) ?r
      = Some (between m2 \<lparr>pp_phase = Part_start, pp_at = 4\<rparr> False (between m part_new True r2)) \<and> held m2 = []"
    using feed_items [OF assms(2)] assms(4) by blast
  then obtain m2 where "feed_chars (items_text (crlf @ ddash @ boundary_of ct) is @ epilogue) ?r
      = Some (between m2 \<lparr>pp_phase = Part_start, pp_at = 4\<rparr> False (between m part_new True r2))" "held m2 = []"
    by blast
  moreover have "form_text preamble (boundary_of ct) is epilogue
      = (preamble @ (ddash @ boundary_of ct @ crlf)) @ items_text (crlf @ ddash @ boundary_of ct) is @ epilogue"
    by (simp add: form_text_def)
  ultimately have "feed_chars (form_text preamble (boundary_of ct) is epilogue) r
      = Some (between m2 \<lparr>pp_phase = Part_start, pp_at = 4\<rparr> False r2)"
    using m(1) by (simp only: feed_chars_append option.case) (simp add: between_def)
  then show ?thesis using \<open>held m2 = []\<close> by blast
qed

end
