(* ===== verification/Form_Files.thy ===== *)
theory Form_Files
  imports Form_Roundtrip Fs_Cache_Correct
begin

text \<open>
  What an uploaded form leaves on the disk: the values it names and its files, with the contents that
  were sent, in the directory of the upload; and what is lost when a body is cut unluckily.
\<close>

section \<open>Names and contents of a form\<close>

fun item_value :: "form_item \<Rightarrow> form_value" where
  "item_value (Field name content) =
     \<lparr>fv_name = name, fv_is_file = False, fv_written = True, fv_content = content\<rparr>"
| "item_value (Upload name filename ctype content) =
     \<lparr>fv_name = name, fv_is_file = True, fv_written = True, fv_content = filename\<rparr>"

fun uploads :: "form_item list \<Rightarrow> (string \<times> string) list" where
  "uploads [] = []"
| "uploads (Field name content # is) = uploads is"
| "uploads (Upload name filename ctype content # is) = (filename, content) # uploads is"

section \<open>One file\<close>

lemma put_keeps_files:
  assumes "fs_wf d" "is_dir (obj_at d rs)" "obj_at d (rs @ [n]) = None" "obj_at d ns = Some (Regular c p)"
  shows "obj_at (put_at v (rs @ [n]) d) ns = Some (Regular c p)"
proof -
  have "take (length (rs @ [n])) ns \<noteq> rs @ [n]"
  proof
    assume "take (length (rs @ [n])) ns = rs @ [n]"
    then obtain ms where "ns = (rs @ [n]) @ ms" by (metis append_take_drop_id)
    with assms(3,4) show False by (simp add: obj_at_append [of d "rs @ [n]"] del: append_assoc)
  qed
  moreover have "take (length ns) (rs @ [n]) \<noteq> ns"
  proof
    assume t: "take (length ns) (rs @ [n]) = ns"
    then have "length ns \<noteq> Suc (length rs)" using assms(3,4) by auto
    then have "length ns \<le> length rs" using t by (metis append_take_drop_id le_SucE length_append_singleton nat_le_linear take_all)
    then have "rs = ns @ drop (length ns) rs" using t by (metis append_eq_conv_conj append_take_drop_id take_append diff_is_0_eq take_0 append_Nil2)
    then have "is_dir (obj_at (Regular c p) (drop (length ns) rs))"
      using assms(2,4) obj_at_append [of d ns "drop (length ns) rs"] by simp
    then show False by (cases "drop (length ns) rs") auto
  qed
  ultimately show ?thesis using obj_at_put_apart [OF assms(1)] assms(4) by simp
qed

lemma put_keeps_dir:
  assumes "fs_wf d" "is_dir (obj_at d rs)"
  shows "is_dir (obj_at (put_at (Some x) (rs @ [n]) d) rs)"
  using assms
proof (induction rs arbitrary: d)
  case Nil
  then show ?case by (cases d) auto
next
  case (Cons r rs)
  then obtain p es where d: "d = Directory p es" by (cases d) auto
  with Cons.prems obtain y where y: "map_of es r = Some y" "is_dir (obj_at y rs)" by (auto split: option.splits)
  with d Cons.prems have "fs_wf y" by (auto dest: map_of_SomeD)
  with Cons.IH y d Cons.prems show ?case by (auto simp: map_of_entry_set)
qed

lemma put_at_new_again:
  "is_dir (obj_at d rs) \<Longrightarrow> put_at (Some x) (rs @ [n]) (put_at (Some y) (rs @ [n]) d) = put_at (Some x) (rs @ [n]) d"
proof (induction rs arbitrary: d)
  case Nil
  then show ?case by (cases d) auto
next
  case (Cons m rs)
  then obtain p es where "d = Directory p es" by (cases d) auto
  with Cons show ?case by (auto split: option.splits)
qed

text \<open>A stream that is opened for a new file, and written.\<close>

lemma write_new_file:
  assumes "\<forall>k \<in> set (rs @ [n]). plain_name k" "fs_wf d" "is_dir (obj_at d rs)" "obj_at d (rs @ [n]) = None"
  shows "os_open_write (join_names (rs @ [n])) d = Some (put_at (Some (Regular [] 420)) (rs @ [n]) d)"
    and "os_append (join_names (rs @ [n])) content (put_at (Some (Regular [] 420)) (rs @ [n]) d)
      = put_at (Some (Regular content 420)) (rs @ [n]) d"
proof -
  let ?d = "put_at (Some (Regular [] 420)) (rs @ [n]) d"
  have "os_target d (join_names (rs @ [n])) = Some (rs @ [n])"
    by (rule os_target_plain [OF assms(1)]) (simp_all add: assms(3))
  then show "os_open_write (join_names (rs @ [n])) d = Some ?d" using assms(4) by (simp add: os_open_write_def)
  have "os_target ?d (join_names (rs @ [n])) = Some (rs @ [n])"
    by (rule os_target_plain [OF assms(1)]) (simp_all add: put_keeps_dir [OF assms(2,3)])
  then show "os_append (join_names (rs @ [n])) content ?d = put_at (Some (Regular content 420)) (rs @ [n]) d"
    using obj_at_put_same [OF assms(2,3)] assms(3) by (simp add: os_append_def put_at_new_again)
qed

text \<open>A reader whose files go to the directory \<open>rs\<close>.\<close>

definition uploading :: "string list \<Rightarrow> form_reader \<Rightarrow> bool" where
  "uploading rs r \<longleftrightarrow> fb_mode (fr_body r) = Mode_add \<and> fb_dir (fr_body r) = join_names rs \<and> rs \<noteq> []
     \<and> (\<forall>k \<in> set rs. plain_name k) \<and> fs_wf (fr_disk r) \<and> is_dir (obj_at (fr_disk r) rs)"

lemma path_div_join:
  assumes "rs \<noteq> []" "\<forall>k \<in> set rs. plain_name k" "plain_name n"
  shows "path_div (join_names rs) n = join_names (rs @ [n])"
  using path_div_child [of "join_names rs" n] last_join [OF assms(2,1), of "[]"] assms(1,3) by (cases rs) auto

lemma store_upload:
  assumes "uploading rs r" "plain_name filename" "obj_at (fr_disk r) (rs @ [filename]) = None"
  shows "\<exists>r2. store_item (Upload name filename ctype content) r = Some r2 \<and> uploading rs r2
    \<and> fb_values (fr_body r2) = fb_values (fr_body r) @ [item_value (Upload name filename ctype content)]
    \<and> fr_disk r2 = put_at (Some (Regular content 420)) (rs @ [filename]) (fr_disk r) \<and> fr_phase r2 = Form_name"
proof -
  have rs: "fb_mode (fr_body r) = Mode_add" "fb_dir (fr_body r) = join_names rs" "rs \<noteq> []" "\<forall>k \<in> set rs. plain_name k"
    "fs_wf (fr_disk r)" "is_dir (obj_at (fr_disk r) rs)"
    using assms(1) by (simp_all add: uploading_def)
  let ?at = "rs @ [filename]" and ?w = "with_value (item_value (Upload name filename ctype content)) r"
  have path: "path_div (join_names rs) filename = join_names ?at" by (rule path_div_join [OF rs(3,4) assms(2)])
  have plain: "\<forall>k \<in> set ?at. plain_name k" using rs(4) assms(2) by simp
  have ty: "os_type (fr_disk r) (join_names ?at) = Ft_not_found"
    using os_stat_plain [OF plain, of "fr_disk r"] assms(3) by (simp add: os_type_def)
  let ?d = "put_at (Some (Regular [] 420)) ?at (fr_disk r)"
  have "os_target (fr_disk r) (join_names ?at) = Some ?at" by (rule os_target_plain [OF plain]) (simp_all add: rs(6))
  then have wr: "os_open_write (join_names ?at) (fr_disk r) = Some ?d" using assms(3) by (simp add: os_open_write_def)
  have target: "os_target ?d (join_names ?at) = Some ?at"
    by (rule os_target_plain [OF plain]) (simp_all add: put_keeps_dir [OF rs(5,6)])
  let ?o = "on_body (\<lambda>b. b\<lparr>fb_files := fb_files b @ [(filename, Some ?at)]\<rparr>) (?w\<lparr>fr_disk := ?d\<rparr>)"
  have o: "open_file ?w = (False, ?o)"
    using rs(1,2) path ty wr target by (simp add: open_file_def Let_def with_value_def on_body_def on_values_def)
  have at: "obj_at ?d ?at = Some (Regular [] 420)" by (rule obj_at_put_same [OF rs(5,6)])
  then have app: "file_append ?at content ?d = put_at (Some (Regular content 420)) ?at (fr_disk r)"
    using rs(6) by (simp add: file_append_def put_at_new_again)
  let ?s = "(close_file (sink content (?o\<lparr>fr_phase := Form_file\<rparr>)))\<lparr>fr_phase := Form_name\<rparr>"
  have cur: "current_file (?o\<lparr>fr_phase := Form_file\<rparr>) = Some ?at" by (simp add: current_file_def on_body_def)
  have disk: "fr_disk ?s = put_at (Some (Regular content 420)) ?at (fr_disk r)"
    using app by (simp add: sink_def current_file_def on_body_def close_file_def)
  have "store_item (Upload name filename ctype content) r = Some ?s" using o by simp
  moreover have "uploading rs ?s"
  proof -
    have "fs_wf (fr_disk ?s)" unfolding disk by (rule put_at_wf [OF rs(5)]) auto
    moreover have "is_dir (obj_at (fr_disk ?s) rs)" unfolding disk by (rule put_keeps_dir [OF rs(5,6)])
    ultimately show ?thesis
      using rs by (simp add: uploading_def sink_def close_file_def on_body_def with_value_def on_values_def current_file_def)
  qed
  moreover have "fb_values (fr_body ?s) = fb_values (fr_body r) @ [item_value (Upload name filename ctype content)]"
    by (simp add: sink_def close_file_def on_body_def with_value_def on_values_def current_file_def)
  ultimately show ?thesis using disk by (intro exI [of _ ?s]) simp
qed

section \<open>All files of a form\<close>

lemma store_field:
  assumes "uploading rs r"
  shows "\<exists>r2. store_item (Field name content) r = Some r2 \<and> uploading rs r2
    \<and> fb_values (fr_body r2) = fb_values (fr_body r) @ [item_value (Field name content)]
    \<and> fr_disk r2 = fr_disk r \<and> fr_phase r2 = fr_phase r"
  using assms by (simp add: with_value_def on_body_def on_values_def uploading_def)

definition new_files :: "string list \<Rightarrow> form_item list \<Rightarrow> fs_obj \<Rightarrow> bool" where
  "new_files rs is d \<longleftrightarrow> distinct (map fst (uploads is))
     \<and> (\<forall>f \<in> set (uploads is). plain_name (fst f) \<and> obj_at d (rs @ [fst f]) = None)"

lemma store_all:
  assumes "uploading rs r" "new_files rs is (fr_disk r)" "fr_phase r = Form_name"
  shows "\<exists>r2. store_items is r = Some r2 \<and> uploading rs r2 \<and> fr_phase r2 = Form_name
    \<and> fb_values (fr_body r2) = fb_values (fr_body r) @ map item_value is
    \<and> (\<forall>f \<in> set (uploads is). obj_at (fr_disk r2) (rs @ [fst f]) = Some (Regular (snd f) 420))
    \<and> (\<forall>ns c p. obj_at (fr_disk r) ns = Some (Regular c p) \<longrightarrow> obj_at (fr_disk r2) ns = Some (Regular c p))"
  using assms
proof (induction "is" arbitrary: r)
  case Nil
  then show ?case by simp
next
  case (Cons i "is")
  show ?case
  proof (cases i)
    case (Field name content)
    obtain r1 where r1: "store_item i r = Some r1" "uploading rs r1"
      "fb_values (fr_body r1) = fb_values (fr_body r) @ [item_value i]" "fr_disk r1 = fr_disk r" "fr_phase r1 = fr_phase r"
      using store_field [OF Cons.prems(1), of name content] Field by blast
    have "new_files rs is (fr_disk r1)" using Cons.prems(2) Field r1(4) by (simp add: new_files_def)
    from Cons.IH [OF r1(2) this] Cons.prems(3) r1 Field show ?thesis by auto
  next
    case (Upload name filename ctype content)
    have f: "plain_name filename" "obj_at (fr_disk r) (rs @ [filename]) = None" "filename \<notin> fst ` set (uploads is)"
      "distinct (map fst (uploads is))" "\<forall>f \<in> set (uploads is). plain_name (fst f) \<and> obj_at (fr_disk r) (rs @ [fst f]) = None"
      using Cons.prems(2) Upload by (auto simp: new_files_def)
    obtain r1 where r1: "store_item i r = Some r1" "uploading rs r1"
      "fb_values (fr_body r1) = fb_values (fr_body r) @ [item_value i]"
      "fr_disk r1 = put_at (Some (Regular content 420)) (rs @ [filename]) (fr_disk r)" "fr_phase r1 = Form_name"
      using store_upload [OF Cons.prems(1) f(1,2)] Upload by blast
    have up: "fs_wf (fr_disk r)" "is_dir (obj_at (fr_disk r) rs)" using Cons.prems(1) by (simp_all add: uploading_def)
    have here: "obj_at (fr_disk r1) (rs @ [filename]) = Some (Regular content 420)"
      unfolding r1(4) by (rule obj_at_put_same [OF up])
    have other: "obj_at (fr_disk r1) (rs @ [n]) = obj_at (fr_disk r) (rs @ [n])" if "n \<noteq> filename" for n
      unfolding r1(4) using that by (intro obj_at_put_apart [OF up(1)]) auto
    have "obj_at (fr_disk r1) (rs @ [fst g]) = None" if "g \<in> set (uploads is)" for g
      using that f(3,5) other [of "fst g"] by force
    then have "new_files rs is (fr_disk r1)" using f(4,5) by (simp add: new_files_def)
    from Cons.IH [OF r1(2) this r1(5)] obtain r2 where r2: "store_items is r1 = Some r2" "uploading rs r2" "fr_phase r2 = Form_name"
      "fb_values (fr_body r2) = fb_values (fr_body r1) @ map item_value is"
      "\<forall>f \<in> set (uploads is). obj_at (fr_disk r2) (rs @ [fst f]) = Some (Regular (snd f) 420)"
      "\<forall>ns c p. obj_at (fr_disk r1) ns = Some (Regular c p) \<longrightarrow> obj_at (fr_disk r2) ns = Some (Regular c p)"
      by blast
    have "\<forall>ns c p. obj_at (fr_disk r) ns = Some (Regular c p) \<longrightarrow> obj_at (fr_disk r2) ns = Some (Regular c p)"
      using r2(6) put_keeps_files [OF up f(2)] r1(4) by auto
    with r1 r2 here Upload show ?thesis by auto
  qed
qed

text \<open>
  A form that is uploaded is stored, however its body is cut into pieces: its fields and the names of
  its files are the values that are read, every new file has the content that was sent, and the files that
  were there before are kept.
\<close>

lemma upload_stored:
  assumes "form_init (form_reader_new ct b d) = (False, r)" and "uploading rs r" and "new_files rs is d" and "is \<noteq> []"
    and "free_of (ddash @ boundary_of ct @ crlf) preamble"
    and "\<forall>i \<in> set is. item_ok i \<and> free_of (crlf @ ddash @ boundary_of ct) (item_text i)"
    and "concat ss = form_text preamble (boundary_of ct) is epilogue" and "pieces_end_well ss r"
  shows "\<exists>r2. form_pieces ss r = Some (False, r2)
    \<and> fb_values (fr_body r2) = fb_values b @ map item_value is
    \<and> (\<forall>f \<in> set (uploads is). os_read (fr_disk r2) (path_div (fb_dir b) (fst f)) = Some (snd f))
    \<and> (\<forall>ns c p. obj_at d ns = Some (Regular c p) \<longrightarrow> obj_at (fr_disk r2) ns = Some (Regular c p))"
proof -
  have r: "fr_disk r = d" "fr_body r = b" "fr_phase r = Form_name"
    using assms(1) by (auto simp: form_init_def form_reader_new_def split: if_splits)
  from assms(3) r(1) have new: "new_files rs is (fr_disk r)" by simp
  from store_all [OF assms(2) new r(3), unfolded r] obtain r2 where r2: "store_items is r = Some r2" "fr_phase r2 = Form_name"
    "fb_values (fr_body r2) = fb_values b @ map item_value is"
    "\<forall>f \<in> set (uploads is). obj_at (fr_disk r2) (rs @ [fst f]) = Some (Regular (snd f) 420)"
    "\<forall>ns c p. obj_at d ns = Some (Regular c p) \<longrightarrow> obj_at (fr_disk r2) ns = Some (Regular c p)"
    by blast
  obtain m where m: "feed_chars (concat ss) r = Some (between m \<lparr>pp_phase = Part_start, pp_at = 4\<rparr> False r2)"
    using feed_form [OF assms(1,4-6) r2(1)] assms(7) by auto
  let ?a = "between m \<lparr>pp_phase = Part_start, pp_at = 4\<rparr> False r2"
  have "form_pieces ss r = Some (False, pending_to (held m) ?a)"
    using form_pieces_feed [OF form_init_ok [OF assms(1)] m assms(8)] r2(2) by (simp add: form_finish_def between_def)
  moreover have "os_read (fr_disk r2) (path_div (fb_dir b) (fst f)) = Some (snd f)" if "f \<in> set (uploads is)" for f
  proof -
    have rs: "rs \<noteq> []" "\<forall>k \<in> set rs. plain_name k" "fb_dir b = join_names rs" "plain_name (fst f)"
      using assms(2,3) that r(2) by (auto simp: uploading_def new_files_def)
    then have "path_div (fb_dir b) (fst f) = join_names (rs @ [fst f])" using path_div_join by simp
    then show ?thesis
      using os_stat_plain [of "rs @ [fst f]"] rs r2(4) that by (simp add: os_read_def)
  qed
  ultimately show ?thesis using r2(3,5) by (auto simp: between_def intro!: exI [of _ "pending_to (held m) ?a"])
qed

text \<open>A field and a file, in two pieces.\<close>

definition demo_items :: "form_item list" where
  "demo_items = [Field ''n'' ''v'', Upload ''f'' ''a.txt'' ''t/p'' ''hi'']"

definition demo_form_disk :: fs_obj where
  "demo_form_disk = Directory 493 [(''up'', Directory 493 [(''old'', Regular ''x'' 420)])]"

definition demo_form_body :: form_body where "demo_form_body = set_form_mode Mode_add (snd (set_dir demo_form_disk ''/up'' form_body_new))"

definition demo_reader :: form_reader where
  "demo_reader = snd (form_init (form_reader_new ''multipart/form-data; boundary=b'' demo_form_body demo_form_disk))"

definition demo_form :: string where "demo_form = form_text [] ''b'' demo_items []"

definition demo_pieces :: "string list" where "demo_pieces = [take 70 demo_form, drop 70 demo_form]"

lemma demo_reader_init:
  "form_init (form_reader_new ''multipart/form-data; boundary=b'' demo_form_body demo_form_disk) = (False, demo_reader)"
  by code_simp

lemma upload_stored_example:
  "\<exists>r2. form_pieces demo_pieces demo_reader = Some (False, r2)
    \<and> fb_values (fr_body r2) = fb_values demo_form_body @ map item_value demo_items
    \<and> (\<forall>f \<in> set (uploads demo_items). os_read (fr_disk r2) (path_div (fb_dir demo_form_body) (fst f)) = Some (snd f))
    \<and> (\<forall>ns c p. obj_at demo_form_disk ns = Some (Regular c p) \<longrightarrow> obj_at (fr_disk r2) ns = Some (Regular c p))"
proof (rule upload_stored [where ct = "''multipart/form-data; boundary=b''" and rs = "[''up'']" and preamble = "[]" and epilogue = "[]"])
  show "form_init (form_reader_new ''multipart/form-data; boundary=b'' demo_form_body demo_form_disk) = (False, demo_reader)"
    by (rule demo_reader_init)
  show "uploading [''up''] demo_reader" by code_simp
  show "new_files [''up''] demo_items demo_form_disk" by code_simp
  show "demo_items \<noteq> []" by code_simp
  show "free_of (ddash @ boundary_of ''multipart/form-data; boundary=b'' @ crlf) []" by code_simp
  show "\<forall>i \<in> set demo_items. item_ok i \<and> free_of (crlf @ ddash @ boundary_of ''multipart/form-data; boundary=b'') (item_text i)"
    by code_simp
  show "concat demo_pieces = form_text [] (boundary_of ''multipart/form-data; boundary=b'') demo_items []" by code_simp
  show "pieces_end_well demo_pieces demo_reader" by code_simp
qed

text \<open>The reader after the beginning of the first delimiter.\<close>

definition demo_begun :: form_reader where
  "demo_begun = pending_to ''--'' (the (feed_chars ''--'' demo_reader))"

lemma demo_begun_ok: "reader_ok demo_begun"
proof -
  have a: "feed_chars ''--'' demo_reader = Some (the (feed_chars ''--'' demo_reader))" by code_simp
  have "piece_ends_well ''--'' (the (feed_chars ''--'' demo_reader))" by code_simp
  moreover have "held (fr_multi (the (feed_chars ''--'' demo_reader))) = ''--''" by code_simp
  ultimately show ?thesis
    using form_piece_feeds [OF form_init_ok [OF demo_reader_init] a] by (simp add: demo_begun_def)
qed

theorem form_cut_anywhere_witness:
  "form_pieces [take 70 demo_form, drop 70 demo_form] demo_reader = form_pieces [demo_form] demo_reader
   \<and> form_pieces [demo_form] demo_reader \<noteq> None"
proof -
  have a: "feed_chars (concat [demo_form]) demo_reader = Some (the (feed_chars demo_form demo_reader))" by code_simp
  have c: "concat [take 70 demo_form, drop 70 demo_form] = concat [demo_form]" by simp
  have w: "pieces_end_well [demo_form] demo_reader" "pieces_end_well [take 70 demo_form, drop 70 demo_form] demo_reader"
    by code_simp+
  show ?thesis using form_cut_anywhere [OF demo_reader_init a c w] by (simp del: form_pieces.simps)
qed

text \<open>A piece that ends inside the name of the first field.\<close>

theorem form_piece_typed_witness: "form_piece (take 44 demo_form) demo_reader = None"
proof -
  have a: "feed_chars (take 44 demo_form) demo_reader = Some (the (feed_chars (take 44 demo_form) demo_reader))" by code_simp
  have "fr_writable (the (feed_chars (take 44 demo_form) demo_reader))"
    "fr_phase (the (feed_chars (take 44 demo_form) demo_reader)) = Form_name"
    "held (fr_multi (the (feed_chars (take 44 demo_form) demo_reader))) = []"
    by code_simp+
  with form_piece_typed [OF form_init_ok [OF demo_reader_init] a] show ?thesis by simp
qed

text \<open>The buffer is wrong, and so is a value whose text begins like a delimiter.\<close>

definition dashed_form :: string where "dashed_form = form_text [] ''b'' [Field ''n'' (''x'' @ crlf @ ''-y'')] []"

definition values_read :: "string list \<Rightarrow> string list" where
  "values_read ss = (case form_pieces ss demo_reader of None \<Rightarrow> [] | Some (_, r) \<Rightarrow> map fv_content (get_values (fr_body r)))"

theorem held_back_corrupted_witness:
  "form_piece ''b'' demo_begun = Some (False, pending_to ''---'' (the (feed_chars ''b'' demo_begun)))
   \<and> values_read [dashed_form] = [''x'' @ crlf @ ''-y'']
   \<and> values_read [take 52 dashed_form, ''-'', drop 53 dashed_form] \<noteq> [''x'' @ crlf @ ''-y'']"
proof -
  have a: "feed_chars ''b'' demo_begun = Some (the (feed_chars ''b'' demo_begun))" by code_simp
  have "held (fr_multi (the (feed_chars ''b'' demo_begun))) = ''--b''" by code_simp
  with held_back_corrupted [OF demo_begun_ok a] have "form_piece ''b'' demo_begun = Some (False, pending_to ''---'' (the (feed_chars ''b'' demo_begun)))"
    by simp
  moreover have "values_read [dashed_form] = [''x'' @ crlf @ ''-y'']" by code_simp
  moreover have "values_read [take 52 dashed_form, ''-'', drop 53 dashed_form] \<noteq> [''x'' @ crlf @ ''-y'']" by code_simp
  ultimately show ?thesis by blast
qed

end
