(* ===== verification/Http_Uploads.thy ===== *)
theory Http_Uploads
  imports Http_Answers Http_Files Form_Files
begin

text \<open>
  Forms that are uploaded: \<^verbatim>\<open>src/http/multipart_form_handler.cpp\<close>, and the callbacks for the bodies of requests. A callback
  carries what its closure holds: the request (its header is in the parser that reads the body), and what was
  prepared for the body.

  The lemmas: an upload is stored and answered; an upload into a directory that does not exist stores nothing, and is
  answered with success.
\<close>

section \<open>Callbacks and bodies\<close>

datatype hook_event =
    Hook_ping | Hook_push | Hook_tag_push | Hook_issue | Hook_note | Hook_merge_request | Hook_wiki_page | Hook_pipeline
  | Hook_build | Hook_unknown

record hook_call =
  hk_request :: http_request
  hk_context :: request_context
  hk_project :: string
  hk_job :: string
  hk_query :: string
  hk_raw_event :: string
  hk_event :: hook_event

datatype body_callback =
    Form_callback http_request request_context form_body
  | Github_callback hook_call string
  | Hook_callback hook_call

datatype body_value = Form_read form_body | Text_read string

section \<open>Requests with a form\<close>

definition prepare_form :: "fs_obj \<Rightarrow> string \<Rightarrow> form_mode \<Rightarrow> form_body" where
  "prepare_form d path mode =
     (let (failed, b) = set_dir d path form_body_new
      in set_form_mode (if failed then Mode_ignore else mode) b)"

text \<open>\<^verbatim>\<open>upload\<close> and \<^verbatim>\<open>replace\<close> differ in the mode and in the verb that a refused method is told.\<close>

definition form_request :: "http_env \<Rightarrow> form_mode \<Rightarrow> string \<Rightarrow> string \<Rightarrow> string \<Rightarrow> string \<Rightarrow> body_callback handler" where
  "form_request env mode allowed files_root project dir req ctx = (\<lambda>(w, s).
     if rq_method req = verb_post
     then (if \<not> start_with (field_value req ''Content-Type'') ''multipart/form-data'' then fails_with 400 ctx (w, s)
           else case ctx_client_info ctx of
                  None \<Rightarrow> fails_with 403 ctx (w, s)
                | Some client \<Rightarrow>
                    (case web_db (check_project_right (he_engine env) (ci_email client) project) w of
                       (Inl e, w) \<Rightarrow> fails_with 500 ctx (w, s)
                     | (Inr rights, w) \<Rightarrow>
                         (case rights of
                            None \<Rightarrow> fails_with 403 ctx (w, s)
                          | Some r \<Rightarrow>
                              (if \<not> pr_write r then fails_with 403 ctx (w, s)
                               else case async_read_body Form_parser
                                           (Form_callback req ctx
                                              (prepare_form (hw_disk w) (path_div (path_div files_root project) dir) mode)) s of
                                      Inl e \<Rightarrow> Inl e
                                    | Inr s \<Rightarrow> Inr (Result_done, ctx, (w, s))))))
     else wrong_method allowed ctx (w, s))"

definition form_upload :: "http_env \<Rightarrow> string \<Rightarrow> string \<Rightarrow> string \<Rightarrow> body_callback handler" where
  "form_upload env = form_request env Mode_add verb_get"

definition form_replace :: "http_env \<Rightarrow> string \<Rightarrow> string \<Rightarrow> string \<Rightarrow> body_callback handler" where
  "form_replace env = form_request env Mode_replace verb_post"

section \<open>Bodies with a form\<close>

text \<open>
  The reader of the form runs while the body arrives: files are written before the callback is called, and stay when it
  fails.
\<close>

definition read_form :: "http_request \<Rightarrow> form_body \<Rightarrow> string list \<Rightarrow> http_world \<Rightarrow> http_error + completion \<times> body_value \<times> http_world" where
  "read_form req b pieces w =
     (case form_init (form_reader_new (field_value req ''Content-Type'') b (hw_disk w)) of
        (True, r) \<Rightarrow> Inr (Failed, Form_read b, w)
      | (False, r) \<Rightarrow>
          (case form_pieces pieces r of
             None \<Rightarrow> Inl Body_undefined
           | Some (failed, r) \<Rightarrow>
               Inr (if failed then Failed else Done, Form_read (fr_body r), set_disk (fr_disk r) w)))"

definition form_status :: "form_body \<Rightarrow> nat" where
  "form_status b =
     foldl (\<lambda>status v.
         if fv_is_file v \<and> \<not> fv_written v
         then (case fb_mode b of Mode_replace \<Rightarrow> 404 | Mode_add \<Rightarrow> 409 | _ \<Rightarrow> status)
         else status)
       200 (get_values b)"

definition handle_form :: "http_env \<Rightarrow> http_request \<Rightarrow> form_body \<Rightarrow> body_callback http_state \<Rightarrow> body_callback http_state" where
  "handle_form env req b = (\<lambda>(w, s). (w, queue_send (empty_response env req (form_status b)) s))"

lemma form_status_cases:
  "form_status b = (if \<exists>v \<in> set (fb_values b). fv_is_file v \<and> \<not> fv_written v
     then (case fb_mode b of Mode_replace \<Rightarrow> 404 | Mode_add \<Rightarrow> 409 | _ \<Rightarrow> 200) else 200)"
proof -
  let ?f = "\<lambda>status v. if fv_is_file v \<and> \<not> fv_written v
      then (case fb_mode b of Mode_replace \<Rightarrow> 404 | Mode_add \<Rightarrow> 409 | _ \<Rightarrow> status) else status"
  have "foldl ?f n vs = (if \<exists>v \<in> set vs. fv_is_file v \<and> \<not> fv_written v
      then (case fb_mode b of Mode_replace \<Rightarrow> 404 | Mode_add \<Rightarrow> 409 | _ \<Rightarrow> n) else n)" for n :: nat and vs :: "form_value list"
    by (induction vs arbitrary: n) (auto split: form_mode.split)
  then show ?thesis by (simp add: form_status_def get_values_def)
qed

section \<open>An upload\<close>

lemma form_request_permitted:
  assumes "rq_method req = verb_post" "start_with (field_value req ''Content-Type'') ''multipart/form-data''"
    and "checked_right env ctx project w = Some r" "pr_write r" "header_due s"
  shows "\<exists>w' s'. form_request env mode allowed root project dir req ctx (w, s) = Inr (Result_done, ctx, (w', s'))
    \<and> hw_disk w' = hw_disk w
    \<and> hc_read s' = Some (Read_body Form_parser (Some (Form_callback req ctx
          (prepare_form (hw_disk w) (path_div (path_div root project) dir) mode))))"
proof -
  obtain client where c: "ctx_client_info ctx = Some client"
    using assms(3) by (auto simp: checked_right_def split: option.splits)
  let ?q = "web_db (check_project_right (he_engine env) (ci_email client) project) w"
  have "fst ?q = Inr (Some r)"
    using assms(3) c by (auto simp: checked_right_def web_db_fst split: sum.splits)
  then obtain w' where w': "?q = (Inr (Some r), w')" by (cases ?q) simp
  have d: "hw_disk w' = hw_disk w"
    using web_db_disk [of "check_project_right (he_engine env) (ci_email client) project" w] w' by simp
  show ?thesis
    using assms(1,2,4) c w' d async_read_due [OF assms(5)] by (simp add: form_request_def)
qed

lemma prepare_form_dir:
  assumes "\<forall>k \<in> set ks. plain_name k" "ks \<noteq> []" "is_dir (obj_at d ks)"
  shows "prepare_form d (join_names ks) mode = form_body_new\<lparr>fb_dir := join_names ks, fb_mode := mode\<rparr>"
proof -
  have "os_type d (join_names ks) = Ft_directory"
    using os_stat_plain [OF assms(1,2), of d] assms(3) by (cases "obj_at d ks" rule: is_dir.cases) (simp_all add: os_type_def)
  then show ?thesis by (simp add: prepare_form_def set_dir_def set_form_mode_def)
qed

lemma path_div_names:
  assumes "rs \<noteq> []" "ds \<noteq> []" "\<forall>k \<in> set (rs @ project # ds). plain_name k"
  shows "path_div (path_div (join_names rs) project) (tl (join_names ds)) = join_names (rs @ project # ds)"
proof -
  obtain f fs where ds: "ds = f # fs" using assms(2) by (cases ds) auto
  have f: "plain_name f" using assms(3) ds by simp
  then have "root_path (f @ p) = []" for p
    by (cases f) (auto simp: plain_name_def root_path_def validate_path_fragment_def)
  moreover have "path_div (join_names rs) project = join_names (rs @ [project])"
    using path_div_join [OF assms(1), of project] assms(3) by simp
  moreover have "join_names (rs @ [project]) \<noteq> []" "last (join_names (rs @ [project])) \<noteq> slash"
    using last_join [of "rs @ [project]" "[]"] assms(3) by simp_all
  ultimately show ?thesis using ds by (simp add: path_div_def)
qed

lemma set_disk_disk [simp]: "hw_disk (set_disk d w) = d"
  by (simp add: set_disk_def hw_disk_def)


section \<open>An upload that is not stored\<close>

text \<open>A reader that ignores files: no file is open, and the disk stays as it is.\<close>

definition ignoring :: "fs_obj \<Rightarrow> form_reader \<Rightarrow> bool" where
  "ignoring d r \<longleftrightarrow> fb_mode (fr_body r) = Mode_ignore \<and> (\<forall>f \<in> set (fb_files (fr_body r)). snd f = None) \<and> fr_disk r = d"

lemma ignoring_update [simp]:
  "ignoring d (r\<lparr>fr_phase := a\<rparr>) = ignoring d r" "ignoring d (r\<lparr>fr_writable := b\<rparr>) = ignoring d r"
  "ignoring d (r\<lparr>fr_part := c\<rparr>) = ignoring d r" "ignoring d (r\<lparr>fr_multi := e\<rparr>) = ignoring d r"
  "ignoring d (r\<lparr>fr_message := f\<rparr>) = ignoring d r" "ignoring d (r\<lparr>fr_pending := g\<rparr>) = ignoring d r"
  "ignoring d (r\<lparr>fr_name := h\<rparr>) = ignoring d r" "ignoring d (on_body (on_values k) r) = ignoring d r"
  by (simp_all add: ignoring_def on_body_def on_values_def)

lemma ignoring_closed: "ignoring d r \<Longrightarrow> current_file r = None"
  by (cases "rev (fb_files (fr_body r))")
    (auto simp: ignoring_def current_file_def dest!: arg_cong [where f = set] split: list.split)

lemma ignoring_sink: "ignoring d r \<Longrightarrow> ignoring d (sink s r)"
  using ignoring_closed [of d r] by (simp add: sink_def split: form_phase.split)

lemma set_map_last: "set (map_last f xs) \<subseteq> set xs \<union> f ` set xs"
  by (induction f xs rule: map_last.induct) auto

lemma map_last_None: "\<forall>f \<in> set fs. snd f = None \<Longrightarrow> \<forall>f \<in> set (map_last (\<lambda>(n, x). (n, None)) fs). snd f = None"
  using set_map_last [of "\<lambda>(n, x). (n, None)" fs] by fastforce

lemma ignoring_close: "ignoring d r \<Longrightarrow> ignoring d (close_file r)"
  using map_last_None [of "fb_files (fr_body r)"] by (simp add: ignoring_def close_file_def on_body_def)

lemma ignoring_open: "ignoring d r \<Longrightarrow> ignoring d (snd (open_file r))"
  by (simp add: ignoring_def open_file_def on_body_def on_values_def Let_def)

lemma ignoring_add: "ignoring d (add_value b r) = ignoring d r"
  by (simp add: add_value_def)

lemma ignoring_write: "write_part view p = Some q \<Longrightarrow> ignoring d (pl_reader p) \<Longrightarrow> ignoring d (pl_reader q)"
  by (auto simp: write_part_def Let_def ignoring_sink split: if_splits)

lemma ignoring_end: "end_part view p = Some q \<Longrightarrow> ignoring d (pl_reader p) \<Longrightarrow> ignoring d (pl_reader q)"
  unfolding end_part_def by (erule ignoring_write) simp

lemma ignoring_part_event:
  "message_part_event view ev p = Some q \<Longrightarrow> ignoring d (pl_reader p) \<Longrightarrow> ignoring d (pl_reader q)"
proof (cases ev)
  case End_filename
  moreover assume e: "message_part_event view ev p = Some q" "ignoring d (pl_reader p)"
  ultimately obtain p2 where p2: "end_part view p = Some p2" "pl_reader q = (snd (open_file (pl_reader p2)))\<lparr>fr_phase := Form_file\<rparr>"
    by (auto simp: message_part_event_def Let_def split: option.splits prod.splits)
  then show ?thesis using ignoring_open ignoring_end [OF p2(1) e(2)] by simp
qed (auto simp: message_part_event_def begin_part_def on_reader_def Let_def ignoring_add ignoring_close
    split: option.splits if_splits dest: ignoring_end)

lemma ignoring_parser_event:
  "on_parser_event view ev p = Some q \<Longrightarrow> ignoring d (pl_reader p) \<Longrightarrow> ignoring d (pl_reader q)"
  by (cases ev)
    (auto simp: on_parser_event_def on_reader_def Let_def split: prod.splits dest!: ignoring_part_event)

lemma ignoring_advance:
  "advance view n p = Some q \<Longrightarrow> ignoring d (pl_reader p) \<Longrightarrow> ignoring d (pl_reader q)"
proof (induction n arbitrary: p)
  case (Suc n)
  then obtain p1 where p1: "advance_one view p = Some p1" "advance view n p1 = Some q" by (auto split: option.splits)
  have "ignoring d (pl_reader p1)"
    using p1(1) Suc.prems(2)
    by (auto simp: advance_one_def on_reader_def split: if_splits option.splits dest!: ignoring_part_event)
  with Suc.IH p1(2) show ?case by blast
qed simp

lemma ignoring_put:
  "put_loop view cs p = Some (b, q) \<Longrightarrow> ignoring d (pl_reader p) \<Longrightarrow> ignoring d (pl_reader q)"
proof (induction cs arbitrary: p)
  case (Cons c cs)
  then obtain adv ev failed multi where h: "handle_char c (fr_multi (pl_reader p)) = Some (adv, ev, failed, multi)"
    by (auto split: option.splits)
  let ?p = "on_reader (\<lambda>r. r\<lparr>fr_multi := multi\<rparr>) (p\<lparr>pl_ec := (failed \<or> pl_ec p)\<rparr>)"
  have p: "ignoring d (pl_reader ?p)" using Cons.prems(2) by (simp add: on_reader_def)
  show ?case
  proof (cases "pl_ec ?p")
    case True
    then show ?thesis using Cons.prems(1) h p by (simp add: Let_def)
  next
    case False
    let ?x = "if ev = Message_begin then (case advance view adv ?p of None \<Rightarrow> None | Some p \<Rightarrow> on_parser_event view ev p)
      else (case on_parser_event view ev ?p of None \<Rightarrow> None | Some p \<Rightarrow> advance view adv p)"
    obtain p2 where p2: "?x = Some p2" "(if pl_ec p2 then Some (True, p2) else put_loop view cs p2) = Some (b, q)"
      using Cons.prems(1) h False by (auto simp: Let_def split: option.splits)
    have "ignoring d (pl_reader p2)"
      using p2(1) p ignoring_advance ignoring_parser_event by (auto split: if_splits option.splits)
    then show ?thesis using p2(2) Cons.IH by (auto split: if_splits)
  qed
qed simp

lemma ignoring_piece: "form_piece s r = Some (b, r2) \<Longrightarrow> ignoring d r \<Longrightarrow> ignoring d r2"
proof -
  assume piece: "form_piece s r = Some (b, r2)" and r: "ignoring d r"
  obtain e p where p: "put_loop (fr_pending r @ s) s (put_start r) = Some (e, p)"
    using piece by (auto simp: form_piece_def Let_def split: option.splits)
  have i: "ignoring d (pl_reader p)" by (rule ignoring_put [OF p]) (simp add: put_start_def r)
  show ?thesis
    using piece p i by (auto simp: form_piece_def Let_def split: bool.splits option.splits if_splits dest: ignoring_write)
qed

lemma ignoring_pieces: "form_pieces ss r = Some (b, r2) \<Longrightarrow> ignoring d r \<Longrightarrow> ignoring d r2"
proof (induction ss arbitrary: r)
  case (Cons s ss)
  then obtain e r1 where r1: "form_piece s r = Some (e, r1)" by (auto split: option.splits)
  with Cons show ?case using ignoring_piece [OF r1] by (auto split: bool.splits)
qed simp

text \<open>
  An upload into a directory that does not exist is lost without a word: whatever the form, the disk stays as it is, and
  a form that can be read is answered with 200.
\<close>

theorem upload_into_nothing:
  assumes "os_type (hw_disk w) path \<noteq> Ft_directory"
    and "read_form req (prepare_form (hw_disk w) path mode) ss w = Inr (ec, Form_read b, w')"
  shows "hw_disk w' = hw_disk w \<and> handle_form env req b (w', s) = (w', queue_send (empty_response env req 200) s)"
proof -
  let ?b = "prepare_form (hw_disk w) path mode"
  have b: "fb_mode ?b = Mode_ignore" "fb_files ?b = []" "fb_values ?b = []"
    using assms(1) by (simp_all add: prepare_form_def set_dir_def set_form_mode_def form_body_new_def)
  obtain failed r where r: "form_init (form_reader_new (field_value req ''Content-Type'') ?b (hw_disk w)) = (failed, r)"
    by (cases "form_init (form_reader_new (field_value req ''Content-Type'') ?b (hw_disk w))")
  then have "fr_body r = ?b" "fr_disk r = hw_disk w" by (auto simp: form_init_def form_reader_new_def split: if_splits)
  then have i: "ignoring (hw_disk w) r" using b by (simp add: ignoring_def)
  have "hw_disk w' = hw_disk w \<and> fb_mode b = Mode_ignore"
  proof (cases failed)
    case True
    then show ?thesis using assms(2) r b by (auto simp: read_form_def)
  next
    case False
    then obtain e r2 where r2: "form_pieces ss r = Some (e, r2)" "b = fr_body r2" "w' = set_disk (fr_disk r2) w"
      using assms(2) r by (auto simp: read_form_def split: option.splits)
    show ?thesis using ignoring_pieces [OF r2(1) i] r2(2,3) by (simp add: ignoring_def)
  qed
  then show ?thesis by (simp add: handle_form_def form_status_cases)
qed

section \<open>Examples\<close>

definition upload_request :: http_request where
  "upload_request = \<lparr>rq_method = ''POST'', rq_target = ''/upload/mine/up'', rq_version = 11, rq_keep_alive = True,
     rq_fields = [(''content-type'', ''multipart/form-data; boundary=b'')]\<rparr>"

definition upload_disk :: fs_obj where
  "upload_disk = Directory 493 [(''cis'', Directory 493 [(''mine'', Directory 493 [(''up'', Directory 493 [(''old'', Regular ''x'' 420)])])])]"

definition upload_world :: http_world where
  "upload_world =
     \<lparr>hw_cis = \<lparr>cs_db = web_db_example\<lparr>db_rights := [\<lparr>pur_id = 1, pur_project_id = 1, pur_user_id = 1, pur_read = False,
        pur_write = True, pur_execute = False\<rparr>]\<rparr>, cs_fs = fs_cache_new upload_disk 0 ''/cis'' 4 60\<rparr>, hw_tasks = [],
      hw_session_id = 0, hw_accepted = []\<rparr>"

definition upload_reader :: form_reader where
  "upload_reader = snd (form_init (form_reader_new (field_value upload_request ''Content-Type'')
     (form_body_new\<lparr>fb_dir := join_names ([''cis''] @ ''mine'' # [''up'']), fb_mode := Mode_add\<rparr>) (hw_disk upload_world)))"

definition header_read :: "(http_response, body_callback) http_conn" where
  "header_read = (http_started 0)\<lparr>hc_read := None\<rparr>"


theorem upload_into_nothing_witness:
  "\<exists>b w'. read_form upload_request (prepare_form (hw_disk upload_world) ''/cis/gone'' Mode_add) demo_pieces upload_world
        = Inr (Done, Form_read b, w')
     \<and> map fv_content (fb_values b) = [''v'', ''a.txt''] \<and> hw_disk w' = hw_disk upload_world
     \<and> handle_form web_env_example upload_request b (w', header_read)
        = (w', queue_send (empty_response web_env_example upload_request 200) header_read)"
proof -
  let ?r = "read_form upload_request (prepare_form (hw_disk upload_world) ''/cis/gone'' Mode_add) demo_pieces upload_world"
  have "case ?r of Inr (Done, Form_read b, w') \<Rightarrow> map fv_content (fb_values b) = [''v'', ''a.txt''] | _ \<Rightarrow> False" by code_simp
  moreover obtain ec v w' where "?r = Inr (ec, v, w')" using calculation by (cases ?r) auto
  ultimately obtain b where r: "?r = Inr (Done, Form_read b, w')" "map fv_content (fb_values b) = [''v'', ''a.txt'']"
    by (cases ec; cases v) auto
  have "os_type (hw_disk upload_world) ''/cis/gone'' \<noteq> Ft_directory" by code_simp
  from upload_into_nothing [OF this r(1), of web_env_example header_read] r show ?thesis
    by (intro exI [of _ b] exI [of _ w'] conjI) (erule conjE | assumption)+
qed

end
