(* ===== verification/Webhooks.thy ===== *)
theory Webhooks
  imports Http_Uploads Cis_Reads
begin

text \<open>
  Web hooks: \<^verbatim>\<open>src/http/webhooks_handler.cpp\<close>. A service posts an event to the address of an account and a job, the body
  is saved to a file, and the job is run for the account with parameters that are taken from the event.

  The lemmas: a hook is accepted only for an account with a key and the right to write the project, and the plain and
  GitLab hooks only with that key; a hook of GitHub with a wrong signature is refused, and runs the job all the same.
\<close>

section \<open>Events\<close>

definition github_mapping :: "(string \<times> hook_event) list" where
  "github_mapping =
     [(''ping'', Hook_ping), (''push'', Hook_push), (''issues'', Hook_issue), (''pull_request'', Hook_merge_request),
      (''gollum'', Hook_wiki_page)]"

definition gitlab_mapping :: "(string \<times> hook_event) list" where
  "gitlab_mapping =
     [(''Push Hook'', Hook_push), (''Tag Push Hook'', Hook_tag_push), (''Issue Hook'', Hook_issue), (''Note Hook'', Hook_note),
      (''Merge Request Hook'', Hook_merge_request), (''Wiki Page Hook'', Hook_wiki_page), (''Pipeline Hook'', Hook_pipeline),
      (''Job Hook'', Hook_build)]"

definition plain_mapping :: "(string \<times> hook_event) list" where
  "plain_mapping =
     [(''ping'', Hook_ping), (''push'', Hook_push), (''tag_push'', Hook_tag_push), (''issue'', Hook_issue), (''note'', Hook_note),
      (''merge_request'', Hook_merge_request), (''wiki_page'', Hook_wiki_page), (''pipeline'', Hook_pipeline), (''build'', Hook_build)]"

definition event_in :: "(string \<times> hook_event) list \<Rightarrow> string \<Rightarrow> hook_event" where
  "event_in mapping name = (case map_of mapping name of None \<Rightarrow> Hook_unknown | Some ev \<Rightarrow> ev)"

fun ev_to_string :: "hook_event \<Rightarrow> string" where
  "ev_to_string Hook_ping = ''ping''"
| "ev_to_string Hook_push = ''push''"
| "ev_to_string Hook_tag_push = ''tag_push''"
| "ev_to_string Hook_issue = ''issue''"
| "ev_to_string Hook_note = ''note''"
| "ev_to_string Hook_merge_request = ''merge_request''"
| "ev_to_string Hook_wiki_page = ''wiki_page''"
| "ev_to_string Hook_pipeline = ''pipeline''"
| "ev_to_string Hook_build = ''build''"
| "ev_to_string Hook_unknown = ''unknown''"

section \<open>Headers\<close>

datatype hook_api = Api_github | Api_gitlab | Api_plain

definition hook_forbidden :: "request_context \<Rightarrow> 'k http_state \<Rightarrow> 'k handler_end" where
  "hook_forbidden ctx = fails_with 403 (ctx\<lparr>ctx_error := ''Forbidden.''\<rparr>)"

definition hook_key :: "request_context \<Rightarrow> string" where
  "hook_key ctx = (case ctx_client_info ctx of None \<Rightarrow> [] | Some c \<Rightarrow> ci_api_access_key c)"

definition make_call ::
    "(string \<times> hook_event) list \<Rightarrow> http_request \<Rightarrow> request_context \<Rightarrow> string \<Rightarrow> string \<Rightarrow> string \<Rightarrow> string \<Rightarrow> hook_call" where
  "make_call mapping req ctx project job query event =
     \<lparr>hk_request = req, hk_context = ctx, hk_project = project, hk_job = job, hk_query = query, hk_raw_event = event,
      hk_event = event_in mapping event\<rparr>"

definition read_hook_body :: "body_callback \<Rightarrow> request_context \<Rightarrow> body_callback http_state \<Rightarrow> body_callback handler_end" where
  "read_hook_body k ctx = (\<lambda>(w, s).
     case async_read_body String_parser k s of Inl e \<Rightarrow> Inl e | Inr s \<Rightarrow> Inr (Result_done, ctx, (w, s)))"

definition handle_github_headers :: "string \<Rightarrow> string \<Rightarrow> string \<Rightarrow> body_callback handler" where
  "handle_github_headers project job query req ctx s =
     (case (find_field req ''X-Hub-Signature'', find_field req ''X-GitHub-Event'') of
        (Some signature, Some event) \<Rightarrow>
          (if length signature < 5 then hook_forbidden ctx s
           else read_hook_body (Github_callback (make_call github_mapping req ctx project job query event) (drop 5 signature)) ctx s)
      | _ \<Rightarrow> hook_forbidden ctx s)"

definition handle_gitlab_headers :: "string \<Rightarrow> string \<Rightarrow> string \<Rightarrow> body_callback handler" where
  "handle_gitlab_headers project job query req ctx s =
     (case (find_field req ''X-Gitlab-Token'', find_field req ''X-Gitlab-Event'') of
        (Some token, Some event) \<Rightarrow>
          (if token \<noteq> hook_key ctx then hook_forbidden ctx s
           else read_hook_body (Hook_callback (make_call gitlab_mapping req ctx project job query event)) ctx s)
      | _ \<Rightarrow> hook_forbidden ctx s)"

definition handle_plain_headers :: "string \<Rightarrow> string \<Rightarrow> string \<Rightarrow> body_callback handler" where
  "handle_plain_headers project job query req ctx s =
     (case (find_field req ''X-Plain-Token'', find_field req ''X-Plain-Event'') of
        (Some token, Some event) \<Rightarrow>
          (if token \<noteq> hook_key ctx then hook_forbidden ctx s
           else read_hook_body (Hook_callback (make_call plain_mapping req ctx project job query event)) ctx s)
      | _ \<Rightarrow> hook_forbidden ctx s)"

definition webhooks_handler ::
    "http_env \<Rightarrow> hook_api \<Rightarrow> string \<Rightarrow> string \<Rightarrow> string \<Rightarrow> string \<Rightarrow> body_callback handler" where
  "webhooks_handler env api email project job escaped_query req ctx = (\<lambda>(w, s).
     if rq_method req \<noteq> verb_post then wrong_method verb_post ctx (w, s)
     else case web_db (get_user_info (he_engine env) email) w of
            (Inl e, w) \<Rightarrow> fails_with 500 ctx (w, s)
          | (Inr None, w) \<Rightarrow> fails_with 404 ctx (w, s)
          | (Inr (Some user), w) \<Rightarrow>
              (case ui_api_access_key user of
                 None \<Rightarrow> fails_with 403 ctx (w, s)
               | Some key \<Rightarrow>
                   (let active_token = (case ctx_client_info ctx of None \<Rightarrow> [] | Some c \<Rightarrow> ci_active_token c);
                        ctx = ctx\<lparr>ctx_client_info := Some \<lparr>ci_email = email, ci_active_token = active_token,
                                                            ci_api_access_key = key\<rparr>\<rparr>
                    in case web_db (check_project_right (he_engine env) email project) w of
                         (Inl e, w) \<Rightarrow> fails_with 500 ctx (w, s)
                       | (Inr rights, w) \<Rightarrow>
                           (if (case rights of None \<Rightarrow> True | Some r \<Rightarrow> \<not> pr_write r) then hook_forbidden ctx (w, s)
                            else (let query = unescape_uri escaped_query
                                  in case api of
                                       Api_github \<Rightarrow> handle_github_headers project job query req ctx (w, s)
                                     | Api_gitlab \<Rightarrow> handle_gitlab_headers project job query req ctx (w, s)
                                     | Api_plain \<Rightarrow> handle_plain_headers project job query req ctx (w, s))))))"

section \<open>Bodies\<close>

definition hex_digit_char :: "nat \<Rightarrow> char" where
  "hex_digit_char n = (if n < 10 then char_of (48 + n) else char_of (87 + n))"

definition hex_byte :: "u8 \<Rightarrow> string" where
  "hex_byte b = [hex_digit_char (unat b div 16), hex_digit_char (unat b mod 16)]"

fun hex_number :: "nat \<Rightarrow> string" where
  "hex_number n = (if n < 16 then [] else hex_number (n div 16)) @ [hex_digit_char (n mod 16)]"

declare hex_number.simps [simp del]

text \<open>Names are drawn until there is no such file.\<close>

partial_function (option) draw_name :: "http_env \<Rightarrow> fs_obj \<Rightarrow> nat \<Rightarrow> string option" where
  "draw_name env d i =
     (let path = path_div (path_div (he_directory env) ''webhooks_temp'') (hex_number (unat (he_random env i)))
      in if os_type d path \<noteq> Ft_not_found then draw_name env d (Suc i) else Some path)"

declare draw_name.simps [code]

text \<open>A file that cannot be opened is not written, and its path is used all the same.\<close>

definition save_body :: "http_env \<Rightarrow> string \<Rightarrow> http_world \<Rightarrow> (string \<times> http_world) option" where
  "save_body env body w =
     map_option (\<lambda>path.
         (path, case os_open_write path (hw_disk w) of
                  None \<Rightarrow> w
                | Some d \<Rightarrow> set_disk (os_append path body d) w))
       (draw_name env (hw_disk w) 0)"

definition web_job_info :: "http_env \<Rightarrow> string \<Rightarrow> string \<Rightarrow> http_world \<Rightarrow> (job_info option \<times> http_world) option" where
  "web_job_info env project job w =
     map_option (\<lambda>(j, c). (j, w\<lparr>hw_cis := c\<rparr>)) (get_job_info (he_read_params env) (he_clock env) project job (hw_cis w))"

text \<open>The value of a parameter; one that is not known becomes a parameter without a name.\<close>

definition hook_param :: "hook_call \<Rightarrow> (string \<times> string) list \<Rightarrow> string \<Rightarrow> string \<Rightarrow> string \<times> string" where
  "hook_param call query_params file name =
     (case map_of query_params name of
        Some v \<Rightarrow> (name, v)
      | None \<Rightarrow>
          (if name = ''webhook_query_string'' then (name, hk_query call)
           else if name = ''webhook_request_body'' then (name, file)
           else if name = ''webhook_event_type'' then (name, ev_to_string (hk_event call))
           else if name = ''webhook_raw_event_type'' then (name, hk_raw_event call)
           else ([], [])))"

definition prepare_params ::
    "http_env \<Rightarrow> hook_call \<Rightarrow> string \<Rightarrow> http_world \<Rightarrow> ((string \<times> string) list \<times> http_world) option" where
  "prepare_params env call file w =
     (case web_job_info env (hk_project call) (hk_job call) w of
        None \<Rightarrow> None
      | Some (None, w) \<Rightarrow> Some ([], w)
      | Some (Some info, w) \<Rightarrow>
          map_option (\<lambda>query_params. (map (\<lambda>p. hook_param call query_params file (fst p)) (job_params info), w))
            (parse_request_query (hk_query call)))"

text \<open>
  \<^verbatim>\<open>run_job\<close> looks the job up before the chain of tasks is started; without a job the file is removed and nothing else
  is done.
\<close>

definition start_hook_job :: "http_env \<Rightarrow> hook_call \<Rightarrow> string \<Rightarrow> http_world \<Rightarrow> http_world option" where
  "start_hook_job env call body w =
     (case save_body env body w of
        None \<Rightarrow> None
      | Some (file, w) \<Rightarrow>
          (case prepare_params env call file w of
             None \<Rightarrow> None
           | Some (params, w) \<Rightarrow>
               (case web_job_info env (hk_project call) (hk_job call) w of
                  None \<Rightarrow> None
                | Some (info, w) \<Rightarrow>
                    (let email = (case ctx_client_info (hk_context call) of None \<Rightarrow> [] | Some c \<Rightarrow> ci_email c)
                     in Some (w\<lparr>hw_tasks := hw_tasks w @
                          [\<lparr>wt_project = hk_project call, wt_job = hk_job call, wt_force = True, wt_params = params,
                            wt_email = email, wt_found = (info \<noteq> None), wt_file = file\<rparr>]\<rparr>)))))"

definition finish_task :: "webhook_task \<Rightarrow> http_world \<Rightarrow> http_world" where
  "finish_task t w = set_disk (os_remove_all (wt_file t) (hw_disk w)) w"

definition hook_finish :: "http_env \<Rightarrow> hook_call \<Rightarrow> string \<Rightarrow> body_callback http_state \<Rightarrow> http_error + body_callback http_state" where
  "hook_finish env call body = (\<lambda>(w, s).
     case (if hk_event call \<noteq> Hook_ping then start_hook_job env call body w else Some w) of
       None \<Rightarrow> Inl Handler_hangs
     | Some w \<Rightarrow> Inr (w, queue_send (empty_response env (hk_request call) 200) s))"

definition hook_refused :: "http_env \<Rightarrow> http_request \<Rightarrow> http_response" where
  "hook_refused env req = (empty_response env req 403)\<lparr>rs_body := Text_body ''Forbidden.''\<rparr>"

definition handle_github_signature ::
    "http_env \<Rightarrow> hook_call \<Rightarrow> string \<Rightarrow> string \<Rightarrow> body_callback http_state \<Rightarrow> http_error + body_callback http_state" where
  "handle_github_signature env call signature body = (\<lambda>(w, s).
     let hex_hmac = concat (map hex_byte (he_hmac env (hook_key (hk_context call)) body));
         s = (if hex_hmac \<noteq> signature then queue_send (hook_refused env (hk_request call)) s else s)
     in hook_finish env call body (w, s))"

section \<open>The bodies of requests\<close>

definition web_take_body :: "body_callback \<Rightarrow> string list \<Rightarrow> http_world \<Rightarrow> http_error + completion \<times> body_value \<times> http_world" where
  "web_take_body k pieces w =
     (case k of
        Form_callback req ctx b \<Rightarrow> read_form req b pieces w
      | _ \<Rightarrow> Inr (Done, Text_read (concat pieces), w))"

definition web_body_read ::
    "http_env \<Rightarrow> body_callback \<Rightarrow> body_value \<Rightarrow> body_callback http_state \<Rightarrow> http_error + body_callback http_state" where
  "web_body_read env k v s =
     (case (k, v) of
        (Form_callback req ctx _, Form_read b) \<Rightarrow> Inr (handle_form env req b s)
      | (Github_callback call signature, Text_read body) \<Rightarrow> handle_github_signature env call signature body s
      | (Hook_callback call, Text_read body) \<Rightarrow> hook_finish env call body s
      | _ \<Rightarrow> Inl Bad_parser_cast)"


section \<open>Who may send a hook\<close>

text \<open>The key of an account, and whether the account may write a project.\<close>

definition account_key :: "http_env \<Rightarrow> string \<Rightarrow> http_world \<Rightarrow> string option" where
  "account_key env email w =
     (case fst (get_user_info (he_engine env) email (cs_db (hw_cis w))) of
        Inr (Some user) \<Rightarrow> ui_api_access_key user | _ \<Rightarrow> None)"

definition account_writes :: "http_env \<Rightarrow> string \<Rightarrow> string \<Rightarrow> http_world \<Rightarrow> bool" where
  "account_writes env email project w =
     (case fst (check_project_right (he_engine env) email project (cs_db (hw_cis w))) of
        Inr (Some r) \<Rightarrow> pr_write r | _ \<Rightarrow> False)"

lemma web_db_query: "snd (f (cs_db (hw_cis w))) = cs_db (hw_cis w) \<Longrightarrow> web_db f w = (fst (f (cs_db (hw_cis w))), w)"
  by (cases "f (cs_db (hw_cis w))") (simp add: web_db_def)

lemma hook_queries [simp]:
  "web_db (get_user_info eng email) w = (fst (get_user_info eng email (cs_db (hw_cis w))), w)"
  "web_db (check_project_right eng email project) w = (fst (check_project_right eng email project (cs_db (hw_cis w))), w)"
  by (simp_all add: web_db_query)

definition hook_headers :: "hook_api \<Rightarrow> string \<Rightarrow> string \<Rightarrow> string \<Rightarrow> body_callback handler" where
  "hook_headers api project job query =
     (case api of
        Api_github \<Rightarrow> handle_github_headers project job query
      | Api_gitlab \<Rightarrow> handle_gitlab_headers project job query
      | Api_plain \<Rightarrow> handle_plain_headers project job query)"

definition hook_context :: "string \<Rightarrow> string \<Rightarrow> request_context \<Rightarrow> request_context" where
  "hook_context email key ctx = ctx\<lparr>ctx_client_info := Some \<lparr>ci_email = email,
     ci_active_token = (case ctx_client_info ctx of None \<Rightarrow> [] | Some c \<Rightarrow> ci_active_token c), ci_api_access_key = key\<rparr>\<rparr>"

lemma hook_key_context [simp]: "hook_key (hook_context email key ctx) = key"
  by (simp add: hook_key_def hook_context_def)

lemma hook_permitted:
  assumes "rq_method req = verb_post" "account_key env email w = Some key" "account_writes env email project w"
  shows "webhooks_handler env api email project job q req ctx (w, s)
    = hook_headers api project job (unescape_uri q) req (hook_context email key ctx) (w, s)"
  using assms
  by (auto simp: webhooks_handler_def account_key_def account_writes_def hook_headers_def hook_context_def Let_def
      split: sum.splits option.splits hook_api.split)

lemma hook_refused_otherwise:
  assumes "webhooks_handler env api email project job q req ctx (w, s) = Inr (Result_done, ctx', s')"
  shows "rq_method req = verb_post \<and> account_writes env email project w \<and> (\<exists>key. account_key env email w = Some key)"
  using assms
  by (auto simp: webhooks_handler_def account_key_def account_writes_def wrong_method_def fails_with_def hook_forbidden_def Let_def
      split: sum.splits option.splits if_splits)

text \<open>What the callback of a hook that was accepted carries.\<close>

definition hook_accepted :: "hook_api \<Rightarrow> hook_call \<Rightarrow> http_request \<Rightarrow> body_callback \<Rightarrow> bool" where
  "hook_accepted api call req k \<longleftrightarrow>
     (case api of
        Api_github \<Rightarrow> (\<exists>sg. find_field req ''X-Hub-Signature'' = Some sg \<and> k = Github_callback call (drop 5 sg))
      | Api_gitlab \<Rightarrow> find_field req ''X-Gitlab-Token'' = Some (hook_key (hk_context call)) \<and> k = Hook_callback call
      | Api_plain \<Rightarrow> find_field req ''X-Plain-Token'' = Some (hook_key (hk_context call)) \<and> k = Hook_callback call)"

lemma hook_headers_done:
  assumes "hook_headers api project job query req ctx (w, s) = Inr (Result_done, ctx', (w', s'))" "header_due s"
  shows "w' = w \<and> hc_items s' = hc_items s \<and> (\<exists>call k. hc_read s' = Some (Read_body String_parser (Some k)) \<and> hook_accepted api call req k
    \<and> hk_context call = ctx \<and> hk_project call = project \<and> hk_job call = job)"
  using assms
  by (cases api)
     (auto simp: hook_headers_def handle_github_headers_def handle_gitlab_headers_def handle_plain_headers_def hook_forbidden_def
       fails_with_def read_hook_body_def async_read_due hook_accepted_def make_call_def split: option.splits if_splits)

text \<open>
  C26. A hook is only accepted for an account that has a key and may write the project; a hook of GitLab or of the plain kind only
  with that key. What is accepted runs, as that account, the job that the address names, and nothing is changed before its
  body is read.
\<close>

theorem webhook_guarded:
  assumes "webhooks_handler env api email project job q req ctx (w, s) = Inr (Result_done, ctx', (w', s'))" and "header_due s"
  shows "rq_method req = verb_post \<and> account_writes env email project w \<and> w' = w \<and> hc_items s' = hc_items s
    \<and> (\<exists>key call k. account_key env email w = Some key \<and> hc_read s' = Some (Read_body String_parser (Some k))
        \<and> hook_accepted api call req k \<and> hook_key (hk_context call) = key
        \<and> map_option ci_email (ctx_client_info (hk_context call)) = Some email \<and> hk_project call = project \<and> hk_job call = job)"
proof -
  obtain key where g: "rq_method req = verb_post" "account_writes env email project w" "account_key env email w = Some key"
    using hook_refused_otherwise [OF assms(1)] by blast
  note read = hook_headers_done [OF assms(1) [unfolded hook_permitted [OF g(1,3,2)]] assms(2)]
  then obtain call k where k: "hc_read s' = Some (Read_body String_parser (Some k))" "hook_accepted api call req k"
    "hk_context call = hook_context email key ctx" "hk_project call = project" "hk_job call = job" by blast
  moreover have "map_option ci_email (ctx_client_info (hk_context call)) = Some email"
    using k(3) by (simp add: hook_context_def)
  ultimately show ?thesis using g read by auto
qed


section \<open>The job of a hook\<close>

lemma hex_digit_plain: "n < 16 \<Longrightarrow> hex_digit_char n \<in> set ''0123456789abcdef''"
proof -
  have "\<forall>n \<in> set [0..<16]. hex_digit_char n \<in> set ''0123456789abcdef''" by code_simp
  then show "n < 16 \<Longrightarrow> hex_digit_char n \<in> set ''0123456789abcdef''" by (auto simp del: upt_rec_numeral)
qed

lemma hex_number_digits: "set (hex_number n) \<subseteq> set ''0123456789abcdef''"
proof (induction n rule: hex_number.induct)
  case (1 n)
  then show ?case by (subst hex_number.simps) (simp add: hex_digit_plain [simplified])
qed

lemma hex_number_plain: "plain_name (hex_number n)"
proof -
  have "hex_number n \<noteq> []" by (subst hex_number.simps) simp
  moreover have "slash \<notin> set (hex_number n)" "CHR ''.'' \<notin> set (hex_number n)" using hex_number_digits [of n] by auto
  ultimately show ?thesis by (auto simp: plain_name_def validate_path_fragment_def)
qed

lemma draw_name_new:
  assumes "draw_name env d i = Some path"
  shows "os_type d path = Ft_not_found \<and> (\<exists>n. path = path_div (path_div (he_directory env) ''webhooks_temp'') (hex_number n))"
  by (rule draw_name.raw_induct [where P = "\<lambda>env d i path. os_type d path = Ft_not_found
      \<and> (\<exists>n. path = path_div (path_div (he_directory env) ''webhooks_temp'') (hex_number n))", OF _ assms])
     (auto simp: Let_def split: if_splits)

lemma entry_set_undo: "map_of es n = None \<Longrightarrow> entry_set n None (entry_set n (Some x) es) = es"
  by (induction es) (auto split: if_splits)

lemma put_at_undo:
  "is_dir (obj_at d rs) \<Longrightarrow> obj_at d (rs @ [n]) = None \<Longrightarrow> put_at None (rs @ [n]) (put_at (Some y) (rs @ [n]) d) = d"
proof (induction rs arbitrary: d)
  case Nil
  then show ?case by (cases d) (auto simp: entry_set_undo split: option.splits)
next
  case (Cons m rs)
  then obtain p es where "d = Directory p es" by (cases d) auto
  with Cons show ?case by (auto simp: entry_set_found split: option.splits)
qed

text \<open>The directory of the bodies is there.\<close>

definition hook_directory :: "http_env \<Rightarrow> string list \<Rightarrow> http_world \<Rightarrow> bool" where
  "hook_directory env rs w \<longleftrightarrow> he_directory env = join_names rs \<and> rs \<noteq> [] \<and> (\<forall>k \<in> set rs. plain_name k)
     \<and> fs_wf (hw_disk w) \<and> is_dir (obj_at (hw_disk w) (rs @ [''webhooks_temp'']))"

lemma save_body_new:
  assumes "hook_directory env rs w" "save_body env body w = Some (path, w')"
  shows "\<exists>n. plain_name n \<and> path = join_names ((rs @ [''webhooks_temp'']) @ [n])
    \<and> obj_at (hw_disk w) ((rs @ [''webhooks_temp'']) @ [n]) = None
    \<and> w' = set_disk (put_at (Some (Regular body 420)) ((rs @ [''webhooks_temp'']) @ [n]) (hw_disk w)) w"
proof -
  let ?rs = "rs @ [''webhooks_temp'']"
  have rs: "rs \<noteq> []" "\<forall>k \<in> set rs. plain_name k" "he_directory env = join_names rs"
    and d: "fs_wf (hw_disk w)" "is_dir (obj_at (hw_disk w) ?rs)"
    using assms(1) by (simp_all add: hook_directory_def)
  have temp: "plain_name ''webhooks_temp''" by code_simp
  obtain n where n: "path = path_div (path_div (he_directory env) ''webhooks_temp'') (hex_number n)" "os_type (hw_disk w) path = Ft_not_found"
    using assms(2) draw_name_new [of env "hw_disk w" 0 path] by (auto simp: save_body_def)
  have plain: "\<forall>k \<in> set (?rs @ [hex_number n]). plain_name k" using rs(2) temp hex_number_plain by simp
  have path: "path = join_names (?rs @ [hex_number n])"
    unfolding n(1) rs(3) path_div_join [OF rs(1,2) temp] using path_div_join [of ?rs "hex_number n"] plain by simp
  have new: "obj_at (hw_disk w) (?rs @ [hex_number n]) = None"
    using n(2) os_stat_plain [OF plain, of "hw_disk w"] unfolding path
    by (auto simp: os_type_def split: option.splits fs_obj.splits)
  show ?thesis
    using assms(2) write_new_file(1) [OF plain d new] write_new_file(2) [OF plain d new, of body] hex_number_plain path new
    by (auto simp: save_body_def intro!: exI [of _ "hex_number n"])
qed

lemma web_job_info_quiet: "web_job_info env project job w = Some (j, w') \<Longrightarrow> hw_disk w' = hw_disk w \<and> hw_tasks w' = hw_tasks w"
  using disk.quiet_get_job_info [of "he_read_params env" "he_clock env" project job "hw_cis w" j "hw_cis w'" "hw_disk w"]
  by (auto simp: web_job_info_def hw_disk_def disk.quiet_def)

lemma prepare_params_quiet: "prepare_params env call file w = Some (ps, w') \<Longrightarrow> hw_disk w' = hw_disk w \<and> hw_tasks w' = hw_tasks w"
  by (auto simp: prepare_params_def split: option.splits dest!: web_job_info_quiet)

lemma set_disk_tasks [simp]: "hw_tasks (set_disk d w) = hw_tasks w"
  by (simp add: set_disk_def)

text \<open>What a job that a hook started was told.\<close>

definition hook_task :: "hook_call \<Rightarrow> webhook_task \<Rightarrow> bool" where
  "hook_task call t \<longleftrightarrow> wt_project t = hk_project call \<and> wt_job t = hk_job call \<and> wt_force t
     \<and> wt_email t = (case ctx_client_info (hk_context call) of None \<Rightarrow> [] | Some c \<Rightarrow> ci_email c)"

lemma start_hook_job_new:
  assumes "start_hook_job env call body w = Some w'"
  shows "\<exists>t w1. hw_tasks w' = hw_tasks w @ [t] \<and> hook_task call t \<and> save_body env body w = Some (wt_file t, w1) \<and> hw_disk w' = hw_disk w1"
proof -
  obtain f w1 where 1: "save_body env body w = Some (f, w1)"
    using assms by (auto simp: start_hook_job_def split: option.splits)
  then obtain params w2 where 2: "prepare_params env call f w1 = Some (params, w2)"
    using assms by (auto simp: start_hook_job_def split: option.splits)
  then obtain info w3 where 3: "web_job_info env (hk_project call) (hk_job call) w2 = Some (info, w3)"
    using assms 1 by (auto simp: start_hook_job_def split: option.splits)
  have "hw_tasks w1 = hw_tasks w" using 1 by (auto simp: save_body_def split: option.splits)
  then show ?thesis
    using assms 1 2 3 prepare_params_quiet [OF 2] web_job_info_quiet [OF 3]
    by (auto simp: start_hook_job_def hook_task_def hw_disk_def Let_def)
qed


text \<open>
  C28. A hook of GitHub with a wrong signature runs the job: whatever the header says (if it is long enough), and whatever key
  the account has, the job is started as for a signature that is right; the client is refused and told that all went well, in two
  responses to one request.
\<close>

theorem forged_webhook_runs_job:
  assumes "rq_method req = verb_post" and "account_key env email w = Some key" and "account_writes env email project w" and "header_due s"
    and "find_field req ''X-Hub-Signature'' = Some signature" and "length signature \<ge> 5"
    and "find_field req ''X-GitHub-Event'' = Some event" and "event_in github_mapping event \<noteq> Hook_ping"
    and "concat (map hex_byte (he_hmac env key body)) \<noteq> drop 5 signature"
  shows "\<exists>s1 call. webhooks_handler env Api_github email project job q req ctx (w, s) = Inr (Result_done, hook_context email key ctx, (w, s1))
    \<and> hc_read s1 = Some (Read_body String_parser (Some (Github_callback call (drop 5 signature))))
    \<and> hk_project call = project \<and> hk_job call = job
    \<and> (\<forall>w2 w3 s2. start_hook_job env call body w2 = Some w3 \<longrightarrow>
         web_body_read env (Github_callback call (drop 5 signature)) (Text_read body) (w2, s2)
           = Inr (w3, queue_send (empty_response env req 200) (queue_send (hook_refused env req) s2))
         \<and> (\<exists>t. hw_tasks w3 = hw_tasks w2 @ [t] \<and> hook_task call t \<and> wt_email t = email))"
proof -
  let ?call = "make_call github_mapping req (hook_context email key ctx) project job (unescape_uri q) event"
  let ?s = "s\<lparr>hc_parser := String_parser, hc_read := Some (Read_body String_parser (Some (Github_callback ?call (drop 5 signature)))), hc_done := True\<rparr>"
  have 1: "webhooks_handler env Api_github email project job q req ctx (w, s) = Inr (Result_done, hook_context email key ctx, (w, ?s))"
    unfolding hook_permitted [OF assms(1-3)]
    using assms(4-7) by (simp add: hook_headers_def handle_github_headers_def read_hook_body_def async_read_due)
  have call: "hk_project ?call = project" "hk_job ?call = job" "hk_event ?call \<noteq> Hook_ping" "hk_request ?call = req" "hook_key (hk_context ?call) = key"
    using assms(8) by (simp_all add: make_call_def)
  have "web_body_read env (Github_callback ?call (drop 5 signature)) (Text_read body) (w2, s2)
      = Inr (w3, queue_send (empty_response env req 200) (queue_send (hook_refused env req) s2))
      \<and> (\<exists>t. hw_tasks w3 = hw_tasks w2 @ [t] \<and> hook_task ?call t \<and> wt_email t = email)"
    if job: "start_hook_job env ?call body w2 = Some w3" for w2 w3 s2
  proof -
    obtain t where "hw_tasks w3 = hw_tasks w2 @ [t]" "hook_task ?call t" using start_hook_job_new [OF job] by blast
    then show ?thesis
      using job call assms(9)
      by (auto simp: web_body_read_def handle_github_signature_def hook_finish_def Let_def hook_task_def make_call_def hook_context_def)
  qed
  then show ?thesis using 1 call(1,2) by (intro exI [of _ ?s] exI [of _ ?call]) simp
qed


section \<open>Examples\<close>

definition hook_disk :: fs_obj where
  "hook_disk = Directory 493
     [(''cis'', Directory 493 [(''mine'', Directory 493 [])]),
      (''run'', Directory 493 [(''webhooks_temp'', Directory 493 [(''0'', Regular ''old'' 420)])])]"

definition hook_world :: http_world where
  "hook_world =
     \<lparr>hw_cis = \<lparr>cs_db = web_db_example
        \<lparr>db_rights := [\<lparr>pur_id = 1, pur_project_id = 1, pur_user_id = 1, pur_read = False, pur_write = True, pur_execute = False\<rparr>],
         db_api_keys := [\<lparr>api_access_key_id = 1, api_access_key_user_id = 1, api_access_key_value = ''K''\<rparr>]\<rparr>,
        cs_fs = fs_cache_new hook_disk 0 ''/cis'' 4 60\<rparr>, hw_tasks = [],
      hw_session_id = 0, hw_accepted = []\<rparr>"

definition hook_request :: "(string \<times> string) list \<Rightarrow> http_request" where
  "hook_request fs = \<lparr>rq_method = ''POST'', rq_target = [], rq_version = 11, rq_keep_alive = True, rq_fields = fs\<rparr>"

lemma hook_header_due: "header_due header_read"
  by (simp add: header_due_def header_read_def http_started_def http_conn_new_def)

theorem webhook_guarded_witness:
  "\<exists>call k s'. webhooks_handler web_env_example Api_plain ''b@x'' ''mine'' ''job'' []
       (hook_request [(''X-Plain-Token'', ''K''), (''X-Plain-Event'', ''push'')]) empty_context (hook_world, header_read)
       = Inr (Result_done, hook_context ''b@x'' ''K'' empty_context, (hook_world, s'))
     \<and> hc_read s' = Some (Read_body String_parser (Some k)) \<and> k = Hook_callback call \<and> hook_key (hk_context call) = ''K''"
proof -
  let ?req = "hook_request [(''X-Plain-Token'', ''K''), (''X-Plain-Event'', ''push'')]"
  have p: "rq_method ?req = verb_post" "account_key web_env_example ''b@x'' hook_world = Some ''K''"
    "account_writes web_env_example ''b@x'' ''mine'' hook_world" by code_simp+
  have f: "find_field ?req ''X-Plain-Token'' = Some ''K''" "find_field ?req ''X-Plain-Event'' = Some ''push''" by code_simp+
  obtain s' where h: "webhooks_handler web_env_example Api_plain ''b@x'' ''mine'' ''job'' [] ?req empty_context (hook_world, header_read)
      = Inr (Result_done, hook_context ''b@x'' ''K'' empty_context, (hook_world, s'))"
    unfolding hook_permitted [OF p]
    using f by (simp add: hook_headers_def handle_plain_headers_def read_hook_body_def async_read_due [OF hook_header_due])
  show ?thesis using webhook_guarded [OF h hook_header_due] h p(2) by (auto simp: hook_accepted_def)
qed

lemma hook_directory_example: "hook_directory web_env_example [''run''] hook_world"
  by (simp add: hook_directory_def) code_simp

definition push_call :: hook_call where
  "push_call = make_call github_mapping (hook_request []) (hook_context ''b@x'' ''K'' empty_context) ''mine'' ''job'' [] ''push''"

definition push_handled :: http_world where
  "push_handled = (case start_hook_job web_env_example push_call ''{}'' hook_world of None \<Rightarrow> hook_world | Some w \<Rightarrow> w)"

lemma push_started: "start_hook_job web_env_example push_call ''{}'' hook_world = Some push_handled"
  by code_simp


theorem forged_webhook_runs_job_witness:
  "\<exists>s1 call. webhooks_handler web_env_example Api_github ''b@x'' ''mine'' ''job'' []
       (hook_request [(''X-Hub-Signature'', ''sha1=00''), (''X-GitHub-Event'', ''push'')]) empty_context (hook_world, header_read)
       = Inr (Result_done, hook_context ''b@x'' ''K'' empty_context, (hook_world, s1))
     \<and> (\<exists>w3 s3 t. web_body_read web_env_example (Github_callback call ''00'') (Text_read ''{}'') (hook_world, header_read) = Inr (w3, s3)
          \<and> map rs_status (hc_items s3) = [403, 200] \<and> hw_tasks w3 = [t] \<and> wt_email t = ''b@x'')"
proof -
  let ?req = "hook_request [(''X-Hub-Signature'', ''sha1=00''), (''X-GitHub-Event'', ''push'')]"
  have p: "rq_method ?req = verb_post" "account_key web_env_example ''b@x'' hook_world = Some ''K''"
    "account_writes web_env_example ''b@x'' ''mine'' hook_world" by code_simp+
  have f: "find_field ?req ''X-Hub-Signature'' = Some ''sha1=00''" "5 \<le> length ''sha1=00''"
    "find_field ?req ''X-GitHub-Event'' = Some ''push''" "event_in github_mapping ''push'' \<noteq> Hook_ping"
    "concat (map hex_byte (he_hmac web_env_example ''K'' ''{}'')) \<noteq> drop 5 ''sha1=00''" by code_simp+
  have d: "drop 5 ''sha1=00'' = ''00''" by simp
  obtain s1 call where c: "webhooks_handler web_env_example Api_github ''b@x'' ''mine'' ''job'' [] ?req empty_context (hook_world, header_read)
      = Inr (Result_done, hook_context ''b@x'' ''K'' empty_context, (hook_world, s1))"
    "hc_read s1 = Some (Read_body String_parser (Some (Github_callback call ''00'')))"
    "\<And>w2 w3 s2. start_hook_job web_env_example call ''{}'' w2 = Some w3 \<Longrightarrow>
         web_body_read web_env_example (Github_callback call ''00'') (Text_read ''{}'') (w2, s2)
           = Inr (w3, queue_send (empty_response web_env_example ?req 200) (queue_send (hook_refused web_env_example ?req) s2))
         \<and> (\<exists>t. hw_tasks w3 = hw_tasks w2 @ [t] \<and> hook_task call t \<and> wt_email t = ''b@x'')"
    using forged_webhook_runs_job [OF p hook_header_due f, of "''job''" "[]" empty_context, unfolded d] by blast
  have "call = push_call\<lparr>hk_request := ?req\<rparr>"
  proof -
    have u: "unescape_uri [] = []" by code_simp
    have "hc_read s1 = Some (Read_body String_parser (Some (Github_callback (push_call\<lparr>hk_request := ?req\<rparr>) ''00'')))"
      using c(1) f unfolding hook_permitted [OF p]
      by (auto simp: hook_headers_def handle_github_headers_def read_hook_body_def async_read_due [OF hook_header_due] push_call_def make_call_def u)
    then show ?thesis using c(2) by simp
  qed
  moreover have "start_hook_job web_env_example (push_call\<lparr>hk_request := ?req\<rparr>) ''{}'' hook_world \<noteq> None" by code_simp
  ultimately obtain w3 where "start_hook_job web_env_example call ''{}'' hook_world = Some w3" by auto
  from c(3) [OF this, of header_read] c(1) show ?thesis
    by (intro exI [of _ s1] exI [of _ call])
       (auto simp: hook_world_def empty_response_def hook_refused_def header_read_def http_started_def http_conn_new_def)
qed

end
