(* ===== verification/Http_Router.thy ===== *)
theory Http_Router
  imports Webhooks
begin

text \<open>
  Which handler a request gets: the addresses of routes (\<^verbatim>\<open>include/http/url/url_parse.h\<close>), the router
  (\<^verbatim>\<open>include/http/router.h\<close>), the routes of the server and the chain of handlers that it is built of
  (\<^verbatim>\<open>src/application.cpp\<close>, \<^verbatim>\<open>src/http/handlers_chain.cpp\<close>).

  The lemmas: what the expressions of the routes match, written without expressions; the router is the parser that
  this gives.
\<close>

section \<open>Addresses\<close>

text \<open>
  The parts of an address: a text, and the tokens \<^verbatim>\<open>string\<close>, \<^verbatim>\<open>bound_string\<close>, \<^verbatim>\<open>query_string\<close>, \<^verbatim>\<open>integer\<close> and
  \<^verbatim>\<open>ignore\<close>. A token with a value is a group of the expression.
\<close>

datatype url_token = Url_text string | Url_string | Url_bound_string | Url_query_string | Url_integer | Url_ignore

abbreviation literal :: "char \<Rightarrow> regex" where "literal c \<equiv> Class (\<lambda>x. x = c)"

definition bound_char :: "char \<Rightarrow> bool" where
  "bound_char c \<longleftrightarrow> c \<noteq> CHR ''?'' \<and> c \<noteq> slash"

text \<open>One parameter of a query: a name up to an equals sign, and a value up to an ampersand.\<close>

definition query_item :: "char \<Rightarrow> regex" where
  "query_item start = sequence [literal start, plus (Class (\<lambda>c. c \<noteq> CHR ''='')), literal CHR ''='',
     plus (Class (\<lambda>c. c \<noteq> CHR ''&''))]"

definition query_regex :: regex where
  "query_regex = Sequence (query_item CHR ''?'') (star (query_item CHR ''&''))"

fun token_regex :: "nat \<Rightarrow> url_token \<Rightarrow> regex" where
  "token_regex i (Url_text t) = text_regex t"
| "token_regex i Url_string = Group i (plus (Class any_char))"
| "token_regex i Url_bound_string = Group i (plus (Class bound_char))"
| "token_regex i Url_query_string = Repeat 0 (Some 1) True (Group i query_regex)"
| "token_regex i Url_integer = Group i (plus (Class is_digit))"
| "token_regex i Url_ignore = star (Class any_char)"

definition has_value :: "url_token \<Rightarrow> bool" where
  "has_value t \<longleftrightarrow> t \<in> {Url_string, Url_bound_string, Url_query_string, Url_integer}"

text \<open>An address: its parts, and how many values they have.\<close>

record url_chain =
  uc_parts :: "regex list"
  uc_args :: nat

definition url_append :: "url_chain \<Rightarrow> url_token \<Rightarrow> url_chain" where
  "url_append u t =
     (let i = (if has_value t then Suc (uc_args u) else uc_args u)
      in \<lparr>uc_parts = uc_parts u @ [token_regex i t], uc_args = i\<rparr>)"

definition url_slash :: "url_chain \<Rightarrow> url_token \<Rightarrow> url_chain" where
  "url_slash u t = url_append (url_append u (Url_text [slash])) t"

definition url_make :: url_chain where
  "url_make = \<lparr>uc_parts = [], uc_args = 0\<rparr>"

definition url_root :: url_chain where
  "url_root = \<lparr>uc_parts = [text_regex [slash]], uc_args = 0\<rparr>"

section \<open>The router\<close>

text \<open>A route: the expression, the number of its arguments, and what is called with them.\<close>

record 'h route =
  rt_regex :: regex
  rt_args :: nat
  rt_fn :: "string list \<Rightarrow> 'h"

definition add_route :: "url_chain \<Rightarrow> (string list \<Rightarrow> 'h) \<Rightarrow> 'h route list \<Rightarrow> 'h route list" where
  "add_route url fn routes =
     routes @ [\<lparr>rt_regex = sequence (At_begin # uc_parts url @ [At_end]), rt_args = uc_args url, rt_fn = fn\<rparr>]"

text \<open>The function of the first route that matches; \<open>None\<close> is the result \<^verbatim>\<open>error\<close>.\<close>

fun route_call :: "http_env \<Rightarrow> 'h route list \<Rightarrow> string \<Rightarrow> 'h option" where
  "route_call env [] target = None"
| "route_call env (r # routes) target =
     (case regex_match (rt_regex r) target of
        None \<Rightarrow> route_call env routes target
      | Some what \<Rightarrow> map_option (rt_fn r) (he_maybe_tuple env (rt_args r) (captured what)))"

definition router_call :: "http_env \<Rightarrow> 'h route list \<Rightarrow> http_request \<Rightarrow> 'h option" where
  "router_call env routes req = route_call env routes (unescape_uri (rq_target req))"

section \<open>The routes of the server\<close>

text \<open>The directories of an instance, and where the request comes from.\<close>

record http_config =
  hg_doc_root :: string
  hg_cis_root :: string
  hg_remote :: "string \<times> 16 word"

definition cis_projects :: "http_config \<Rightarrow> string" where
  "cis_projects cfg = path_div (hg_cis_root cfg) projects_dir"

definition static_files :: "http_config \<Rightarrow> file_handler" where
  "static_files cfg = \<lparr>fh_doc_root = hg_doc_root cfg, fh_download = False\<rparr>"

definition hook_url :: "string \<Rightarrow> url_chain" where
  "hook_url service =
     (let webhooks_url = url_slash (url_slash (url_slash url_make (Url_text ''users'')) Url_bound_string) (Url_text ''webhooks'')
      in url_append (url_slash (url_slash (url_slash webhooks_url (Url_text service)) Url_bound_string) Url_bound_string)
           Url_query_string)"

definition form_url :: "string \<Rightarrow> url_chain" where
  "form_url name = url_slash (url_slash url_make (Url_text name)) Url_bound_string"

definition make_http_router :: "http_env \<Rightarrow> http_config \<Rightarrow> body_callback handler route list" where
  "make_http_router env cfg =
     (let root = cis_projects cfg;
          hook = (\<lambda>api args. webhooks_handler env api (args ! 0) (args ! 1) (args ! 2) (args ! 3));
          routes = [];
          routes = add_route (url_slash (form_url ''upload'') Url_string) (\<lambda>args. form_upload env root (args ! 0) (args ! 1)) routes;
          routes = add_route (form_url ''upload'') (\<lambda>args. form_upload env root (args ! 0) []) routes;
          routes = add_route (url_slash (form_url ''replace'') Url_string) (\<lambda>args. form_replace env root (args ! 0) (args ! 1)) routes;
          routes = add_route (form_url ''replace'') (\<lambda>args. form_replace env root (args ! 0) []) routes;
          routes = add_route (url_slash (form_url ''download'') Url_string)
                     (\<lambda>args. download_handler env root (args ! 0) (args ! 1)) routes;
          routes = add_route (hook_url ''github'') (hook Api_github) routes;
          routes = add_route (hook_url ''gitlab'') (hook Api_gitlab) routes;
          routes = add_route (hook_url ''plain'') (hook Api_plain) routes;
          routes = add_route url_root (\<lambda>args req ctx s. single_file env (static_files cfg) ''/index.html'' req ctx s) routes
      in add_route (url_slash url_make Url_ignore) (\<lambda>args. file_handler_call env (static_files cfg)) routes)"

text \<open>
  The router of upgrades has one route: the session gets the next number, and takes the socket.
\<close>

definition accept_ws :: "'k handler" where
  "accept_ws req ctx = (\<lambda>(w, s).
     let ctx = ctx\<lparr>ctx_session_id := hw_session_id w\<rparr>
     in Inr (Result_done, ctx,
          (w\<lparr>hw_session_id := hw_session_id w + 1, hw_accepted := hw_accepted w @ [(ctx, req)]\<rparr>, s\<lparr>hc_open := False\<rparr>)))"

definition make_ws_router :: "'k handler route list" where
  "make_ws_router = add_route (url_slash url_make (Url_text ''ws'')) (\<lambda>args. accept_ws) []"

text \<open>A router as a handler.\<close>

definition router_handler :: "http_env \<Rightarrow> 'k handler route list \<Rightarrow> 'k handler" where
  "router_handler env routes req ctx s =
     (case router_call env routes req of None \<Rightarrow> Inr (Result_error, ctx, s) | Some h \<Rightarrow> h req ctx s)"

section \<open>The chain of handlers\<close>

record 'k handlers_chain =
  ch_handlers :: "'k handler list"
  ch_ws_handlers :: "'k handler list"
  ch_error_handler ::
    "(http_request \<Rightarrow> request_context \<Rightarrow> (http_response, 'k) http_conn \<Rightarrow> (http_response, 'k) http_conn) option"

definition append_handler :: "'k handler \<Rightarrow> 'k handlers_chain \<Rightarrow> 'k handlers_chain" where
  "append_handler h chain = chain\<lparr>ch_handlers := ch_handlers chain @ [h]\<rparr>"

definition append_ws_handler :: "'k handler \<Rightarrow> 'k handlers_chain \<Rightarrow> 'k handlers_chain" where
  "append_ws_handler h chain = chain\<lparr>ch_ws_handlers := ch_ws_handlers chain @ [h]\<rparr>"

definition set_error_handler ::
    "(http_request \<Rightarrow> request_context \<Rightarrow> (http_response, 'k) http_conn \<Rightarrow> (http_response, 'k) http_conn)
      \<Rightarrow> 'k handlers_chain \<Rightarrow> 'k handlers_chain" where
  "set_error_handler h chain = chain\<lparr>ch_error_handler := Some h\<rparr>"

definition call_error_handler ::
    "'k handlers_chain \<Rightarrow> http_request \<Rightarrow> request_context \<Rightarrow> (http_response, 'k) http_conn \<Rightarrow> (http_response, 'k) http_conn" where
  "call_error_handler chain req ctx s = (case ch_error_handler chain of None \<Rightarrow> s | Some h \<Rightarrow> h req ctx s)"

text \<open>After the last handler the error is sent, but the reader is not done.\<close>

fun chain_header :: "'k handlers_chain \<Rightarrow> 'k handler list \<Rightarrow> http_request \<Rightarrow> request_context \<Rightarrow> 'k http_state \<Rightarrow> http_error + 'k http_state" where
  "chain_header chain [] req ctx (w, s) = Inr (w, call_error_handler chain req ctx s)"
| "chain_header chain (h # hs) req ctx st =
     (case h req ctx st of
        Inl e \<Rightarrow> Inl e
      | Inr (Result_next, ctx, st) \<Rightarrow> chain_header chain hs req ctx st
      | Inr (Result_done, ctx, (w, s)) \<Rightarrow> map_sum id (Pair w) (reader_done s)
      | Inr (Result_error, ctx, (w, s)) \<Rightarrow> map_sum id (Pair w) (reader_done (call_error_handler chain req ctx s)))"

definition handle_header :: "'k handlers_chain \<Rightarrow> http_config \<Rightarrow> http_request \<Rightarrow> 'k http_state \<Rightarrow> http_error + 'k http_state" where
  "handle_header chain cfg req st =
     chain_header chain (ch_handlers chain) req (empty_context\<lparr>ctx_remote_addr := hg_remote cfg\<rparr>) st"

fun chain_upgrade :: "'k handlers_chain \<Rightarrow> 'k handler list \<Rightarrow> http_request \<Rightarrow> request_context \<Rightarrow> 'k http_state \<Rightarrow> http_error + 'k http_state" where
  "chain_upgrade chain [] req ctx (w, s) = Inr (w, call_error_handler chain req ctx s)"
| "chain_upgrade chain (h # hs) req ctx st =
     (case h req ctx st of
        Inl e \<Rightarrow> Inl e
      | Inr (Result_next, ctx, st) \<Rightarrow> chain_upgrade chain hs req ctx st
      | Inr (Result_done, ctx, st) \<Rightarrow> Inr st
      | Inr (Result_error, ctx, (w, s)) \<Rightarrow> Inr (w, call_error_handler chain req ctx s))"

definition handle_upgrade :: "'k handlers_chain \<Rightarrow> http_config \<Rightarrow> http_request \<Rightarrow> 'k http_state \<Rightarrow> http_error + 'k http_state" where
  "handle_upgrade chain cfg req st =
     chain_upgrade chain (ch_ws_handlers chain) req (empty_context\<lparr>ctx_remote_addr := hg_remote cfg\<rparr>) st"

definition init_public_app :: "http_env \<Rightarrow> http_config \<Rightarrow> body_callback handlers_chain" where
  "init_public_app env cfg =
     (let chain = \<lparr>ch_handlers = [], ch_ws_handlers = [], ch_error_handler = None\<rparr>;
          chain = set_error_handler (error_handler env) chain;
          chain = append_handler cookie_parser_parse chain;
          chain = append_handler (handle_authenticate env) chain;
          chain = append_handler (router_handler env (make_http_router env cfg)) chain
      in append_ws_handler (router_handler env make_ws_router) chain)"


section \<open>What the expressions match\<close>

text \<open>The captures of the first way that leaves nothing.\<close>

definition full :: "nat \<Rightarrow> regex \<Rightarrow> string \<times> captures \<Rightarrow> captures option" where
  "full n r x = map_option snd (find (\<lambda>(rest, c). rest = []) (ways n r x))"

lemma regex_match_full: "regex_match r s = full (length s) r (s, [])"
  by (simp add: regex_match_def full_def)

definition after :: "string \<Rightarrow> string \<Rightarrow> string option" where
  "after w s = (if take (length w) s = w then Some (drop (length w) s) else None)"

lemma after_append [simp]: "after w (w @ s) = Some s"
  by (simp add: after_def)

lemma full_text: "full n (Sequence (text_regex w) r) (s, c) = (case after w s of None \<Rightarrow> None | Some t \<Rightarrow> full n r (t, c))"
  by (simp add: full_def ways_text after_def)

lemma full_begin: "full n (Sequence At_begin r) (s, c) = (if length s = n then full n r (s, c) else None)"
  by (simp add: full_def)

lemma full_end: "full n (Sequence At_end Empty) (s, c) = (if s = [] then Some c else None)"
  by (simp add: full_def)

lemma find_append_option: "find P (xs @ ys) = (case find P xs of None \<Rightarrow> find P ys | Some x \<Rightarrow> Some x)"
  by (induction xs) auto

lemma full_first:
  assumes "ways n r (s, c) = x # xs" "\<forall>y \<in> set xs. full n r' y = None"
  shows "full n (Sequence r r') (s, c) = full n r' x"
proof -
  have "find (\<lambda>(rest, c). rest = []) (ways n r' y) = None" if "y \<in> set xs" for y
    using assms(2) that by (simp add: full_def)
  then have "find (\<lambda>(rest, c). rest = []) (concat (map (ways n r') xs)) = None"
    by (auto simp: find_None_iff)
  then show ?thesis using assms(1) by (auto simp: full_def find_append_option split: option.split)
qed

text \<open>An expression that cannot go on with a character of a class: before it, the class is repeated as far as possible.\<close>

definition refuses :: "(char \<Rightarrow> bool) \<Rightarrow> nat \<Rightarrow> regex \<Rightarrow> bool" where
  "refuses P n r \<longleftrightarrow> (\<forall>s c. s \<noteq> [] \<longrightarrow> P (hd s) \<longrightarrow> full n r (s, c) = None)"

lemma refuses_text: "w \<noteq> [] \<Longrightarrow> \<not> P (hd w) \<Longrightarrow> refuses P n (Sequence (text_regex w) r)"
  unfolding refuses_def full_text
proof (intro allI impI)
  fix s c
  assume w: "w \<noteq> []" "\<not> P (hd w)" and s: "s \<noteq> []" "P (hd s)"
  then have "after w s = None" by (cases w; cases s) (auto simp: after_def)
  then show "(case after w s of None \<Rightarrow> None | Some t \<Rightarrow> full n r (t, c)) = None" by simp
qed

lemma refuses_end: "refuses P n (Sequence At_end Empty)"
  by (simp add: refuses_def full_end)

lemma full_segment:
  assumes "refuses P n r"
  shows "full n (Sequence (Group i (plus (Class P))) r) (s, c)
    = (if takeWhile P s = [] then None else full n r (dropWhile P s, (i, takeWhile P s) # c))"
proof (cases "takeWhile P s = []")
  case True
  then have "ways n (Group i (plus (Class P))) (s, c) = []"
    by (simp only: ways.simps(6) ways_plus_class) simp
  then show ?thesis using True by (simp add: full_def del: ways.simps(5,6))
next
  case False
  let ?t = "takeWhile P s"
  let ?x = "\<lambda>j. (drop j s, (i, take j s) # c)"
  have le: "length ?t \<le> length s" by (rule length_takeWhile_le)
  have len: "length s - length (drop j s) = j" if "j \<le> length ?t" for j using that le by simp
  have w: "ways n (Group i (plus (Class P))) (s, c) = map ?x (rev [1..<Suc (length ?t)])"
    using le by (simp only: ways.simps(6) ways_plus_class map_map) (auto simp del: upt_Suc)
  have up: "rev [1..<Suc (length ?t)] = length ?t # rev [1..<length ?t]" using False by (cases ?t) simp_all
  have w2: "ways n (Group i (plus (Class P))) (s, c) = ?x (length ?t) # map ?x (rev [1..<length ?t])"
    unfolding w up by simp
  have "full n r (?x j) = None" if "j < length ?t" for j
  proof -
    have "drop j s \<noteq> []" using that le by simp
    moreover have "P (hd (drop j s))"
      using that le nth_mem [OF that] set_takeWhileD [of "?t ! j" P s] by (simp add: hd_drop_conv_nth takeWhile_nth)
    ultimately show ?thesis using assms by (simp add: refuses_def)
  qed
  then have "full n (Sequence (Group i (plus (Class P))) r) (s, c) = full n r (?x (length ?t))"
    by (intro full_first [OF w2]) auto
  moreover have "?x (length ?t) = (dropWhile P s, (i, ?t) # c)" by (simp add: dropWhile_eq_drop takeWhile_eq_take [symmetric])
  ultimately show ?thesis using False by simp
qed

lemma full_star:
  "full n (Sequence (star (Class P)) (Sequence At_end Empty)) (s, c) = (if \<forall>x \<in> set s. P x then Some c else None)"
proof -
  let ?t = "takeWhile P s"
  have le: "length ?t \<le> length s" by (rule length_takeWhile_le)
  have up: "rev [0..<Suc (length ?t)] = length ?t # rev [0..<length ?t]" by simp
  have w: "ways n (star (Class P)) (s, c) = (drop (length ?t) s, c) # map (\<lambda>i. (drop i s, c)) (rev [0..<length ?t])"
    unfolding ways_star_class up by simp
  have "full n (Sequence (star (Class P)) (Sequence At_end Empty)) (s, c) = full n (Sequence At_end Empty) (drop (length ?t) s, c)"
    by (rule full_first [OF w]) (use le in \<open>auto simp: full_end\<close>)
  moreover have "drop (length ?t) s = [] \<longleftrightarrow> (\<forall>x \<in> set s. P x)"
    by (simp add: dropWhile_eq_drop [symmetric])
  ultimately show ?thesis by (simp add: full_end)
qed


section \<open>Queries\<close>

text \<open>A query, written as a parser: items that begin with a question mark and then with ampersands.\<close>

function query_ok :: "char \<Rightarrow> string \<Rightarrow> bool" where
  "query_ok a s =
     (case s of
        [] \<Rightarrow> False
      | x # t \<Rightarrow>
          (let u = dropWhile (\<lambda>c. c \<noteq> CHR ''='') t; r = dropWhile (\<lambda>c. c \<noteq> CHR ''&'') (tl u)
           in x = a \<and> takeWhile (\<lambda>c. c \<noteq> CHR ''='') t \<noteq> [] \<and> u \<noteq> []
              \<and> takeWhile (\<lambda>c. c \<noteq> CHR ''&'') (tl u) \<noteq> [] \<and> (r = [] \<or> query_ok CHR ''&'' r)))"
  by pat_completeness auto
termination
proof (relation "measure (\<lambda>(a, s). length s)")
  show "((CHR ''&'', r), a, s) \<in> measure (\<lambda>(a, s). length s)"
    if "s = x # t" "u = dropWhile (\<lambda>c. c \<noteq> CHR ''='') t" "r = dropWhile (\<lambda>c. c \<noteq> CHR ''&'') (tl u)"
    for a s x t u r
    using that length_dropWhile_le [of "\<lambda>c. c \<noteq> CHR ''='' " t] length_dropWhile_le [of "\<lambda>c. c \<noteq> CHR ''&'' " "tl u"] by simp
qed simp

declare query_ok.simps [simp del]

lemma ways_sequence: "x \<in> set (ways n (Sequence r r') y) \<longleftrightarrow> (\<exists>t d. (t, d) \<in> set (ways n r y) \<and> x \<in> set (ways n r' (t, d)))"
  by (cases y) force

lemma ways_plus_set:
  "(s', c') \<in> set (ways n (plus (Class P)) (s, c)) \<longleftrightarrow> c' = c \<and> (\<exists>k. s = k @ s' \<and> k \<noteq> [] \<and> (\<forall>x \<in> set k. P x))"
proof -
  have "(\<exists>i \<ge> 1. i \<le> length (takeWhile P s) \<and> s' = drop i s) \<longleftrightarrow> (\<exists>k. s = k @ s' \<and> k \<noteq> [] \<and> (\<forall>x \<in> set k. P x))"
  proof
    assume "\<exists>i \<ge> 1. i \<le> length (takeWhile P s) \<and> s' = drop i s"
    then obtain i where i: "i \<ge> 1" "i \<le> length (takeWhile P s)" "s' = drop i s" by blast
    then have "take i s = take i (takeWhile P s)" by (metis takeWhile_eq_take min.absorb1 take_take)
    then have "\<forall>x \<in> set (take i s). P x" by (metis in_set_takeD set_takeWhileD)
    then show "\<exists>k. s = k @ s' \<and> k \<noteq> [] \<and> (\<forall>x \<in> set k. P x)"
      using i length_takeWhile_le [of P s] by (intro exI [of _ "take i s"]) auto
  next
    assume "\<exists>k. s = k @ s' \<and> k \<noteq> [] \<and> (\<forall>x \<in> set k. P x)"
    then obtain k where k: "s = k @ s'" "k \<noteq> []" "\<forall>x \<in> set k. P x" by blast
    then show "\<exists>i \<ge> 1. i \<le> length (takeWhile P s) \<and> s' = drop i s"
      by (intro exI [of _ "length k"]) (auto simp: Suc_le_eq)
  qed
  then show ?thesis unfolding ways_plus_class by (auto simp: less_Suc_eq_le simp del: upt_Suc)
qed

text \<open>One item, and what is left of the text.\<close>

definition query_item_rest :: "char \<Rightarrow> string \<Rightarrow> string \<Rightarrow> bool" where
  "query_item_rest a s s' \<longleftrightarrow> (\<exists>k v. s = a # k @ CHR ''='' # v @ s' \<and> k \<noteq> [] \<and> CHR ''='' \<notin> set k \<and> v \<noteq> [] \<and> CHR ''&'' \<notin> set v)"

lemma ways_query_item: "(s', c') \<in> set (ways n (query_item a) (s, c)) \<longleftrightarrow> c' = c \<and> query_item_rest a s s'"
proof -
  have lit: "(u, e) \<in> set (ways n (literal x) (t, d)) \<longleftrightarrow> t = x # u \<and> e = d" for u e x t d
    by (auto split: list.split)
  have empty: "(u, e) \<in> set (ways n Empty (t, d)) \<longleftrightarrow> t = u \<and> e = d" for u e t d by auto
  have plus: "(t, d) \<in> set (ways n (plus (Class (\<lambda>c. c \<noteq> x))) (s, c)) \<longleftrightarrow> d = c \<and> (\<exists>k. s = k @ t \<and> k \<noteq> [] \<and> x \<notin> set k)"
    for t d x s c by (auto simp: ways_plus_set simp del: ways.simps(5) One_nat_def)
  show ?thesis
    unfolding query_item_def sequence.simps ways_sequence lit empty plus query_item_rest_def
    by (simp only: ex_simps simp_thms conj_assoc) (intro iffI; elim exE conjE; simp; blast)
qed


lemma query_item_shorter: "query_item_rest a s s' \<Longrightarrow> length s' < length s"
  by (auto simp: query_item_rest_def)

lemma takeWhile_stop: "x \<notin> set k \<Longrightarrow> r = [] \<or> hd r = x \<Longrightarrow> takeWhile (\<lambda>c. c \<noteq> x) (k @ r) = k \<and> dropWhile (\<lambda>c. c \<noteq> x) (k @ r) = r"
  by (induction k) (cases r; auto)+

lemma query_ok_item: "query_ok a s \<longleftrightarrow> (\<exists>r. query_item_rest a s r \<and> (r = [] \<or> query_ok CHR ''&'' r))"
proof
  assume q: "query_ok a s"
  then obtain x t where s: "s = x # t" by (subst (asm) query_ok.simps) (auto split: list.splits)
  let ?k = "takeWhile (\<lambda>c. c \<noteq> CHR ''='') t" and ?u = "dropWhile (\<lambda>c. c \<noteq> CHR ''='') t"
  let ?v = "takeWhile (\<lambda>c. c \<noteq> CHR ''&'') (tl ?u)" and ?r = "dropWhile (\<lambda>c. c \<noteq> CHR ''&'') (tl ?u)"
  have h: "x = a" "?k \<noteq> []" "?u \<noteq> []" "?v \<noteq> []" "?r = [] \<or> query_ok CHR ''&'' ?r"
    using q unfolding s query_ok.simps [of a "x # t"] by (simp_all add: Let_def)
  have "hd ?u = CHR ''=''" using hd_dropWhile [OF h(3)] by simp
  then have "?u = CHR ''='' # ?v @ ?r" using h(3) by (cases ?u) simp_all
  then have t: "t = ?k @ CHR ''='' # ?v @ ?r" by (metis takeWhile_dropWhile_id)
  have "CHR ''='' \<notin> set ?k" "CHR ''&'' \<notin> set ?v" by (auto dest: set_takeWhileD)
  with h have "x # t = a # ?k @ CHR ''='' # ?v @ ?r \<and> ?k \<noteq> [] \<and> CHR ''='' \<notin> set ?k \<and> ?v \<noteq> [] \<and> CHR ''&'' \<notin> set ?v"
    by (intro conjI) (rule arg_cong2 [where f = Cons, OF h(1) t])
  then have "query_item_rest a s ?r" unfolding query_item_rest_def s by blast
  with h(5) show "\<exists>r. query_item_rest a s r \<and> (r = [] \<or> query_ok CHR ''&'' r)" by blast
next
  assume "\<exists>r. query_item_rest a s r \<and> (r = [] \<or> query_ok CHR ''&'' r)"
  then obtain r k v where r: "s = a # k @ CHR ''='' # v @ r" "k \<noteq> []" "CHR ''='' \<notin> set k" "v \<noteq> []" "CHR ''&'' \<notin> set v"
    "r = [] \<or> query_ok CHR ''&'' r" by (auto simp: query_item_rest_def)
  have "r = [] \<or> hd r = CHR ''&''" using r(6) by (subst (asm) query_ok.simps) (auto split: list.splits simp: Let_def)
  then show "query_ok a s"
    using r takeWhile_stop [OF r(3), of "CHR ''='' # v @ r"] takeWhile_stop [OF r(5), of r]
    by (subst query_ok.simps) (simp add: Let_def del: dropWhile_eq_Nil_conv)
qed

lemma ways_query_items:
  "length s \<le> k \<Longrightarrow>
     ([], c') \<in> set (iterate_match 0 k True (ways n (query_item CHR ''&'')) (s, c)) \<longleftrightarrow> c' = c \<and> (s = [] \<or> query_ok CHR ''&'' s)"
proof (induction k arbitrary: s)
  case 0
  then show ?case by auto
next
  case (Suc k)
  have "([], c') \<in> set (iterate_match 0 (Suc k) True (ways n (query_item CHR ''&'')) (s, c))
      \<longleftrightarrow> s = [] \<and> c' = c \<or> (\<exists>r d. (r, d) \<in> set (ways n (query_item CHR ''&'') (s, c)) \<and> r \<noteq> s
            \<and> ([], c') \<in> set (iterate_match 0 k True (ways n (query_item CHR ''&'')) (r, d)))"
    by (auto split: if_splits)
  also have "\<dots> \<longleftrightarrow> s = [] \<and> c' = c \<or> (\<exists>r. query_item_rest CHR ''&'' s r
            \<and> ([], c') \<in> set (iterate_match 0 k True (ways n (query_item CHR ''&'')) (r, c)))"
    unfolding ways_query_item using query_item_shorter [of _ s s] by blast
  also have "\<dots> \<longleftrightarrow> s = [] \<and> c' = c \<or> (\<exists>r. query_item_rest CHR ''&'' s r \<and> c' = c \<and> (r = [] \<or> query_ok CHR ''&'' r))"
  proof -
    have "([], c') \<in> set (iterate_match 0 k True (ways n (query_item CHR ''&'')) (r, c)) \<longleftrightarrow> c' = c \<and> (r = [] \<or> query_ok CHR ''&'' r)"
      if "query_item_rest CHR ''&'' s r" for r
      by (rule Suc.IH) (use query_item_shorter [OF that] Suc.prems in simp)
    then show ?thesis by blast
  qed
  also have "\<dots> \<longleftrightarrow> c' = c \<and> (s = [] \<or> query_ok CHR ''&'' s)" by (subst query_ok_item [of _ s]) blast
  finally show ?case .
qed

lemma ways_query: "([], c') \<in> set (ways n query_regex (s, c)) \<longleftrightarrow> c' = c \<and> query_ok CHR ''?'' s"
proof -
  have "([], c') \<in> set (ways n query_regex (s, c)) \<longleftrightarrow>
      (\<exists>r. query_item_rest CHR ''?'' s r \<and> ([], c') \<in> set (ways n (star (query_item CHR ''&'')) (r, c)))"
    unfolding query_regex_def ways_sequence ways_query_item by blast
  also have "\<dots> \<longleftrightarrow> (\<exists>r. query_item_rest CHR ''?'' s r \<and> c' = c \<and> (r = [] \<or> query_ok CHR ''&'' r))"
    by (simp add: ways_query_items)
  also have "\<dots> \<longleftrightarrow> c' = c \<and> query_ok CHR ''?'' s" by (subst query_ok_item [of _ s]) blast
  finally show ?thesis .
qed

lemma full_last: "full n (Sequence r (Sequence At_end Empty)) x = full n r x"
proof -
  have "find (\<lambda>(rest, c). rest = []) (concat (map (ways n (Sequence At_end Empty)) xs)) = find (\<lambda>(rest, c). rest = []) xs" for xs
    by (induction xs) auto
  then show ?thesis by (cases x) (simp add: full_def del: ways.simps(2,9))
qed

lemma find_unique: "x \<in> set xs \<Longrightarrow> P x \<Longrightarrow> \<forall>y \<in> set xs. P y \<longrightarrow> y = x \<Longrightarrow> find P xs = Some x"
  by (metis find_None_iff find_Some_iff nth_mem not_None_eq)

lemma full_query:
  "full n (Sequence (Repeat 0 (Some 1) True (Group i query_regex)) (Sequence At_end Empty)) (s, c)
     = (if s = [] then Some c else if query_ok CHR ''?'' s then Some ((i, s) # c) else None)"
proof -
  let ?xs = "ways n (Repeat 0 (Some 1) True (Group i query_regex)) (s, c)"
  have ways: "?xs = concat (map (\<lambda>(s', c'). if s' = s then [] else [(s', c')]) (ways n (Group i query_regex) (s, c))) @ [(s, c)]"
    by (simp del: ways.simps(6) cong: if_cong)
  have group: "([], e) \<in> set (ways n (Group i query_regex) (s, c)) \<longleftrightarrow> e = (i, s) # c \<and> query_ok CHR ''?'' s" for e
  proof -
    have "([], e) \<in> set (ways n (Group i query_regex) (s, c)) \<longleftrightarrow> (\<exists>d. ([], d) \<in> set (ways n query_regex (s, c)) \<and> e = (i, s) # d)"
      by (force simp: image_iff)
    then show ?thesis by (auto simp: ways_query)
  qed
  have xs: "([], e) \<in> set ?xs \<longleftrightarrow> (if s = [] then e = c else e = (i, s) # c \<and> query_ok CHR ''?'' s)" for e
  proof -
    have "([], e) \<in> set ?xs \<longleftrightarrow> s \<noteq> [] \<and> ([], e) \<in> set (ways n (Group i query_regex) (s, c)) \<or> s = [] \<and> e = c"
      unfolding ways by (cases "s = []") (force simp del: ways.simps split: if_splits)+
    moreover have "\<not> query_ok CHR ''?'' []" by (simp add: query_ok.simps)
    ultimately show ?thesis using group [of e] by auto
  qed
  have "find (\<lambda>(rest, c). rest = []) ?xs = (if s = [] then Some ([], c) else if query_ok CHR ''?'' s then Some ([], (i, s) # c) else None)"
  proof (cases "s = [] \<or> query_ok CHR ''?'' s")
    case True
    let ?e = "if s = [] then c else (i, s) # c"
    have "find (\<lambda>(rest, c). rest = []) ?xs = Some ([], ?e)"
      by (rule find_unique) (use xs True in \<open>auto simp del: ways.simps split: if_splits\<close>)
    with True show ?thesis by auto
  next
    case False
    then show ?thesis using xs by (auto simp: find_None_iff simp del: ways.simps)
  qed
  then show ?thesis unfolding full_last by (simp add: full_def del: ways.simps)
qed

lemma refuses_query: "refuses bound_char n (Sequence (Repeat 0 (Some 1) True (Group i query_regex)) (Sequence At_end Empty))"
  unfolding refuses_def full_query by (subst query_ok.simps) (auto simp: bound_char_def Let_def split: list.split)


section \<open>The routes without expressions\<close>

datatype destination =
    To_upload string string
  | To_replace string string
  | To_download string string
  | To_hook hook_api string string string string
  | To_index
  | To_file

definition destination_handler :: "http_env \<Rightarrow> http_config \<Rightarrow> destination \<Rightarrow> body_callback handler" where
  "destination_handler env cfg dest =
     (case dest of
        To_upload project dir \<Rightarrow> form_upload env (cis_projects cfg) project dir
      | To_replace project dir \<Rightarrow> form_replace env (cis_projects cfg) project dir
      | To_download project path \<Rightarrow> download_handler env (cis_projects cfg) project path
      | To_hook api email project job query \<Rightarrow> webhooks_handler env api email project job query
      | To_index \<Rightarrow> single_file env (static_files cfg) ''/index.html''
      | To_file \<Rightarrow> file_handler_call env (static_files cfg))"

text \<open>A segment up to a slash or a question mark, which is not empty.\<close>

definition segment :: "string \<Rightarrow> (string \<times> string) option" where
  "segment s = (if takeWhile bound_char s = [] then None else Some (takeWhile bound_char s, dropWhile bound_char s))"

definition one_line :: "string \<Rightarrow> bool" where
  "one_line s \<longleftrightarrow> s \<noteq> [] \<and> (\<forall>c \<in> set s. any_char c)"

definition named :: "string \<Rightarrow> string \<Rightarrow> (string \<times> string) option" where
  "named name s = Option.bind (after [slash] s) (\<lambda>s. Option.bind (after name s) (\<lambda>s. Option.bind (after [slash] s) segment))"

definition form_with_dir :: "string \<Rightarrow> string \<Rightarrow> (string \<times> string) option" where
  "form_with_dir name s =
     Option.bind (named name s) (\<lambda>(p, s). Option.bind (after [slash] s) (\<lambda>d. if one_line d then Some (p, d) else None))"

definition form_alone :: "string \<Rightarrow> string \<Rightarrow> string option" where
  "form_alone name s = Option.bind (named name s) (\<lambda>(p, s). if s = [] then Some p else None)"

definition hook_target :: "string \<Rightarrow> string \<Rightarrow> (string \<times> string \<times> string \<times> string) option" where
  "hook_target service s =
     Option.bind (named ''users'' s) (\<lambda>(e, s).
     Option.bind (after [slash] s) (\<lambda>s. Option.bind (after ''webhooks'' s) (\<lambda>s.
     Option.bind (after [slash] s) (\<lambda>s. Option.bind (after service s) (\<lambda>s.
     Option.bind (after [slash] s) (\<lambda>s. Option.bind (segment s) (\<lambda>(p, s).
     Option.bind (after [slash] s) (\<lambda>s. Option.bind (segment s) (\<lambda>(j, q).
       if q = [] \<or> query_ok CHR ''?'' q then Some (e, p, j, q) else None)))))))))"

fun first_some :: "'a option list \<Rightarrow> 'a option" where
  "first_some [] = None"
| "first_some (x # xs) = (case x of None \<Rightarrow> first_some xs | Some y \<Rightarrow> Some y)"

definition destination_of :: "string \<Rightarrow> destination option" where
  "destination_of s = first_some
     [map_option (\<lambda>(p, d). To_upload p d) (form_with_dir ''upload'' s),
      map_option (\<lambda>p. To_upload p []) (form_alone ''upload'' s),
      map_option (\<lambda>(p, d). To_replace p d) (form_with_dir ''replace'' s),
      map_option (\<lambda>p. To_replace p []) (form_alone ''replace'' s),
      map_option (\<lambda>(p, f). To_download p f) (form_with_dir ''download'' s),
      map_option (\<lambda>(e, p, j, q). To_hook Api_github e p j q) (hook_target ''github'' s),
      map_option (\<lambda>(e, p, j, q). To_hook Api_gitlab e p j q) (hook_target ''gitlab'' s),
      map_option (\<lambda>(e, p, j, q). To_hook Api_plain e p j q) (hook_target ''plain'' s),
      (if s = [slash] then Some To_index else None),
      (case after [slash] s of Some t \<Rightarrow> if \<forall>c \<in> set t. any_char c then Some To_file else None | None \<Rightarrow> None)]"

definition chain_regex :: "url_chain \<Rightarrow> regex" where
  "chain_regex url = sequence (At_begin # uc_parts url @ [At_end])"

lemmas url_defs = chain_regex_def form_url_def hook_url_def url_slash_def url_append_def url_make_def url_root_def has_value_def

lemma full_Group:
  "refuses bound_char n r \<Longrightarrow> full n (Sequence (Group i (plus (Class bound_char))) r) (s, c)
     = (case segment s of None \<Rightarrow> None | Some (t, u) \<Rightarrow> full n r (u, (i, t) # c))"
  by (simp add: full_segment segment_def del: One_nat_def)

lemma full_line:
  "full n (Sequence (Group i (plus (Class any_char))) (Sequence At_end Empty)) (s, c) = (if one_line s then Some ((i, s) # c) else None)"
proof -
  have "takeWhile any_char s \<noteq> [] \<and> dropWhile any_char s = [] \<longleftrightarrow> one_line s"
    by (cases s) (auto simp: one_line_def)
  moreover have "one_line s \<Longrightarrow> takeWhile any_char s = s" by (simp add: one_line_def takeWhile_eq_all_conv)
  ultimately show ?thesis by (auto simp: full_segment [OF refuses_end] full_end simp del: One_nat_def)
qed

lemma slash_refused: "refuses bound_char n (Sequence (text_regex [slash]) r)"
  by (rule refuses_text) (simp_all add: bound_char_def)

lemma match_form_dir:
  "regex_match (chain_regex (url_slash (form_url name) Url_string)) s = map_option (\<lambda>(p, d). [(2, d), (1, p)]) (form_with_dir name s)"
  by (simp add: url_defs regex_match_full full_begin full_text full_Group slash_refused full_line form_with_dir_def named_def
      del: text_regex.simps One_nat_def split: option.splits)


lemma match_form_alone:
  "regex_match (chain_regex (form_url name)) s = map_option (\<lambda>p. [(1, p)]) (form_alone name s)"
  by (simp add: url_defs regex_match_full full_begin full_text full_Group refuses_end full_end form_alone_def named_def
      del: text_regex.simps One_nat_def split: option.splits)

lemma match_hook:
  "regex_match (chain_regex (hook_url service)) s = map_option (\<lambda>(e, p, j, q). (if q = [] then [] else [(4, q)]) @ [(3, j), (2, p), (1, e)]) (hook_target service s)"
  by (simp add: url_defs Let_def regex_match_full full_begin full_text full_Group slash_refused refuses_query full_query hook_target_def named_def
      del: text_regex.simps One_nat_def split: option.splits)

lemma match_root: "regex_match (chain_regex url_root) s = (if s = [slash] then Some [] else None)"
  by (auto simp: url_defs regex_match_full full_begin full_text full_end after_def
      simp del: text_regex.simps One_nat_def split: option.splits)

lemma match_rest:
  "regex_match (chain_regex (url_slash url_make Url_ignore)) s
     = (case after [slash] s of Some t \<Rightarrow> if \<forall>c \<in> set t. any_char c then Some [] else None | None \<Rightarrow> None)"
  by (simp add: url_defs regex_match_full full_begin full_text full_star
      del: text_regex.simps One_nat_def split: option.splits)

lemmas route_matches = match_form_dir match_form_alone match_hook match_root match_rest

lemma add_route_chain: "add_route url fn routes = routes @ [\<lparr>rt_regex = chain_regex url, rt_args = uc_args url, rt_fn = fn\<rparr>]"
  by (simp add: add_route_def chain_regex_def)

text \<open>How the arguments of a route are read from a match: group by group.\<close>

definition reads_groups :: "http_env \<Rightarrow> bool" where
  "reads_groups env \<longleftrightarrow> (\<forall>n groups. he_maybe_tuple env n groups = Some (map groups [1..<Suc n]))"

lemma url_args:
  "uc_args (url_slash (form_url name) Url_string) = 2" "uc_args (form_url name) = 1" "uc_args (hook_url service) = 4"
  "uc_args url_root = 0" "uc_args (url_slash url_make Url_ignore) = 0"
  by (simp_all add: url_defs Let_def)

lemma groups_read:
  assumes "reads_groups env"
  shows "he_maybe_tuple env 0 g = Some []" "he_maybe_tuple env (Suc 0) g = Some [g 1]" "he_maybe_tuple env 2 g = Some [g 1, g 2]"
    "he_maybe_tuple env 4 g = Some [g 1, g 2, g 3, g 4]"
  using assms by (simp_all add: reads_groups_def upt_rec eval_nat_numeral)

lemma route_form_dir:
  "reads_groups env \<Longrightarrow> route_call env (\<lparr>rt_regex = chain_regex (url_slash (form_url name) Url_string), rt_args = 2, rt_fn = fn\<rparr> # rs) s
     = (case form_with_dir name s of None \<Rightarrow> route_call env rs s | Some (p, d) \<Rightarrow> Some (fn [p, d]))"
  by (simp add: route_matches groups_read captured_def split: option.split)

lemma route_form_alone:
  "reads_groups env \<Longrightarrow> route_call env (\<lparr>rt_regex = chain_regex (form_url name), rt_args = Suc 0, rt_fn = fn\<rparr> # rs) s
     = (case form_alone name s of None \<Rightarrow> route_call env rs s | Some p \<Rightarrow> Some (fn [p]))"
  by (simp add: route_matches groups_read captured_def split: option.split)

lemma route_hook:
  "reads_groups env \<Longrightarrow> route_call env (\<lparr>rt_regex = chain_regex (hook_url service), rt_args = 4, rt_fn = fn\<rparr> # rs) s
     = (case hook_target service s of None \<Rightarrow> route_call env rs s | Some (e, p, j, q) \<Rightarrow> Some (fn [e, p, j, q]))"
  by (simp add: route_matches groups_read captured_def split: option.split)

lemma route_plain:
  "reads_groups env \<Longrightarrow> route_call env (\<lparr>rt_regex = r, rt_args = 0, rt_fn = fn\<rparr> # rs) s
     = (case regex_match r s of None \<Rightarrow> route_call env rs s | Some _ \<Rightarrow> Some (fn []))"
  by (simp add: groups_read split: option.split)

lemma first_some_map:
  "map_option f (first_some (map_option g x # xs)) = (case x of None \<Rightarrow> map_option f (first_some xs) | Some y \<Rightarrow> Some (f (g y)))"
  by (cases x) simp_all

lemma routes_parse:
  assumes "reads_groups env"
  shows "router_call env (make_http_router env cfg) req
    = map_option (destination_handler env cfg) (destination_of (unescape_uri (rq_target req)))"
proof -
  let ?s = "unescape_uri (rq_target req)" and ?f = "destination_handler env cfg"
  note routes = route_form_dir [OF assms] route_form_alone [OF assms] route_hook [OF assms] route_plain [OF assms]
  have "map_option ?f (first_some [if ?s = [slash] then Some To_index else None,
          (case after [slash] ?s of Some t \<Rightarrow> if \<forall>c \<in> set t. any_char c then Some To_file else None | None \<Rightarrow> None)])
      = (case regex_match (chain_regex url_root) ?s of
           None \<Rightarrow> (case regex_match (chain_regex (url_slash url_make Url_ignore)) ?s of None \<Rightarrow> None | Some _ \<Rightarrow> Some (?f To_file))
         | Some _ \<Rightarrow> Some (?f To_index))"
    by (simp add: match_root match_rest split: option.split)
  then show ?thesis
    unfolding destination_of_def first_some_map router_call_def make_http_router_def
    by (simp add: add_route_chain url_args routes destination_handler_def case_prod_beta Let_def del: route_call.simps(2) first_some.simps cong: option.case_cong)
qed

text \<open>
  C29. The router, with its expressions and groups, is the parser of the addresses: which handler a request gets, and with which
  arguments, is what the first rule says that reads the whole of the unescaped target; if none does, the request is an error.
\<close>

theorem router_is_parser:
  assumes "reads_groups env"
  shows "router_call env (make_http_router env cfg) req
    = map_option (destination_handler env cfg) (destination_of (unescape_uri (rq_target req)))"
  by (rule routes_parse [OF assms])

definition web_config_example :: http_config where
  "web_config_example = \<lparr>hg_doc_root = ''/docs'', hg_cis_root = ''/'', hg_remote = (''::1'', 4000)\<rparr>"

lemma reads_groups_example: "reads_groups web_env_example"
  by (simp add: reads_groups_def web_env_example_def)

theorem router_is_parser_witness:
  "map (\<lambda>t. destination_of (unescape_uri t))
       [''/upload/mine/a/b'', ''/download/my+job/x%2Fy'', ''/users/b@x/webhooks/plain/mine/job?a=1&b=2'', ''/upload/'', ''no''] =
     [Some (To_upload ''mine'' ''a/b''), Some (To_download ''my job'' ''x/y''), Some (To_hook Api_plain ''b@x'' ''mine'' ''job'' ''?a=1&b=2''),
      Some To_file, None]
   \<and> router_call web_env_example (make_http_router web_env_example web_config_example) (get_request ''/download/my+job/x%2Fy'')
     = Some (download_handler web_env_example (cis_projects web_config_example) ''my job'' ''x/y'')"
proof -
  have d: "destination_of (unescape_uri ''/download/my+job/x%2Fy'') = Some (To_download ''my job'' ''x/y'')" by code_simp
  moreover have "destination_of (unescape_uri ''/upload/mine/a/b'') = Some (To_upload ''mine'' ''a/b'')" by code_simp
  moreover have "destination_of (unescape_uri ''/users/b@x/webhooks/plain/mine/job?a=1&b=2'')
      = Some (To_hook Api_plain ''b@x'' ''mine'' ''job'' ''?a=1&b=2'')" by code_simp
  moreover have "destination_of (unescape_uri ''/upload/'') = Some To_file" "destination_of (unescape_uri ''no'') = None" by code_simp+
  moreover have "rq_target (get_request t) = t" for t by (simp add: get_request_def)
  ultimately show ?thesis
    using router_is_parser [OF reads_groups_example, of web_config_example "get_request ''/download/my+job/x%2Fy''"]
    by (simp add: destination_handler_def)
qed

end
