(* ===== verification/Http_Server.thy ===== *)
theory Http_Server
  imports Http_Router
begin

text \<open>
  The HTTP server: the connections of \<^verbatim>\<open>Http_Session\<close> with the application of \<^verbatim>\<open>Http_Router\<close>. The interface of
  \<^verbatim>\<open>Http_Answers\<close> is interpreted on the handlers of the program, and its facts are stated of the server.
\<close>

section \<open>The application\<close>

definition web_app ::
    "http_env \<Rightarrow> http_config \<Rightarrow> (http_request, string list, body_value, http_response, body_callback, http_world) http_app" where
  "web_app env cfg =
     \<lparr>on_header = handle_header (init_public_app env cfg) cfg, on_upgrade = handle_upgrade (init_public_app env cfg) cfg,
      take_body = web_take_body, on_body_read = web_body_read env, need_eof = he_need_eof env\<rparr>"

text \<open>A body that is answered once: any but that of a hook of GitHub with a wrong signature.\<close>

definition answered_once :: "http_env \<Rightarrow> body_callback \<Rightarrow> body_value \<Rightarrow> bool" where
  "answered_once env k v =
     (case (k, v) of
        (Github_callback call signature, Text_read body) \<Rightarrow>
          concat (map hex_byte (he_hmac env (hook_key (hk_context call)) body)) = signature
      | _ \<Rightarrow> True)"

section \<open>Handlers answer\<close>

text \<open>
  A handler does not hang or fail; before \<^verbatim>\<open>next\<close> and \<^verbatim>\<open>error\<close> it leaves the connection alone, and when it is done, it has
  queued one response, or reads the body.
\<close>

definition good_end :: "handle_result set \<Rightarrow> (http_response, 'k) http_conn \<Rightarrow> 'k handler_end \<Rightarrow> bool" where
  "good_end results s out \<longleftrightarrow> (\<exists>res ctx w s'. out = Inr (res, ctx, (w, s')) \<and> res \<in> results
     \<and> (if res = Result_done then (\<exists>r. s' = queue_send r s) \<or> (\<exists>kind k. async_read_body kind k s = Inr s') else s' = s))"

definition answers :: "handle_result set \<Rightarrow> 'k handler \<Rightarrow> bool" where
  "answers results h \<longleftrightarrow> (\<forall>req ctx w s. header_due s \<longrightarrow> good_end results s (h req ctx (w, s)))"

abbreviation last_results :: "handle_result set" where
  "last_results \<equiv> {Result_done, Result_error}"

lemma good_ends [simp]:
  "good_end R s (fails_with status ctx (w, s)) = (Result_error \<in> R)"
  "good_end R s (wrong_method verb ctx (w, s)) = (Result_error \<in> R)"
  "good_end R s (hook_forbidden ctx (w, s)) = (Result_error \<in> R)"
  "good_end R s (Inr (Result_error, ctx, (w, s))) = (Result_error \<in> R)"
  "good_end R s (Inr (Result_next, ctx, (w, s))) = (Result_next \<in> R)"
  by (auto simp: good_end_def fails_with_def wrong_method_def hook_forbidden_def)

lemma good_send [simp]: "good_end R s (Inr (Result_done, ctx, (w, queue_send r s))) = (Result_done \<in> R)"
  by (auto simp: good_end_def)

lemma good_read:
  "header_due s \<Longrightarrow> Result_done \<in> R \<Longrightarrow>
     good_end R s (Inr (Result_done, ctx, (w, s\<lparr>hc_parser := kind, hc_read := Some (Read_body kind (Some k)), hc_done := True\<rparr>)))"
  unfolding good_end_def
  by (intro exI [of _ Result_done] exI [of _ ctx] exI [of _ w] exI conjI) (auto simp: async_read_due)

lemma answers_cookies: "answers {Result_next} cookie_parser_parse"
proof -
  have "\<exists>m. parse_cookies c = Some m" for c using cookies_loop_returns by (simp add: parse_cookies_def)
  then show ?thesis
    unfolding answers_def cookie_parser_parse_def by (metis good_ends(5) option.simps(5) singletonI)
qed

lemma answers_authenticate: "answers {Result_next, Result_error} (handle_authenticate env)"
  by (auto simp: answers_def handle_authenticate_def split: option.split sum.split prod.split)

lemma answers_form: "answers last_results (form_request env mode allowed root project dir)"
  by (auto simp: answers_def form_request_def async_read_due good_read split: option.split sum.split prod.split)

lemma good_file: "good_end last_results s (single_file env fh path req ctx (w, s))"
  by (auto simp: single_file_def Let_def split: sum.split)

lemma answers_file: "answers last_results (single_file env fh path)" "answers last_results (file_handler_call env fh)"
  by (simp_all add: answers_def good_file file_handler_call_def)

lemma answers_download: "answers last_results (download_handler env root project path)"
  by (auto simp: answers_def download_handler_def good_file Let_def split: option.split sum.split prod.split)

lemma good_hook_headers: "header_due s \<Longrightarrow> good_end last_results s (hook_headers api project job query req ctx (w, s))"
  by (auto simp: hook_headers_def handle_github_headers_def handle_gitlab_headers_def handle_plain_headers_def read_hook_body_def
      async_read_due good_read split: option.split hook_api.split)

lemma answers_hook: "answers last_results (webhooks_handler env api email project job query)"
  unfolding answers_def
proof (intro allI impI)
  fix req ctx w s
  assume due: "header_due (s :: (http_response, body_callback) http_conn)"
  have api: "(case api of Api_github \<Rightarrow> handle_github_headers project job q req c (w, s)
      | Api_gitlab \<Rightarrow> handle_gitlab_headers project job q req c (w, s) | Api_plain \<Rightarrow> handle_plain_headers project job q req c (w, s))
      = hook_headers api project job q req c (w, s)" for q c
    by (simp add: hook_headers_def split: hook_api.split)
  show "good_end last_results s (webhooks_handler env api email project job query req ctx (w, s))"
    by (simp add: webhooks_handler_def api good_hook_headers [OF due] Let_def split: option.split sum.split)
qed

lemma answers_routes:
  assumes "\<forall>r \<in> set routes. \<forall>args. answers last_results (rt_fn r args)"
  shows "answers last_results (router_handler env routes)"
proof -
  have "route_call env routes t = Some h \<Longrightarrow> answers last_results h" for t h
    using assms by (induction routes) (auto split: option.splits)
  then show ?thesis by (auto simp: answers_def router_handler_def router_call_def split: option.split)
qed

lemma answers_server: "answers last_results (router_handler env (make_http_router env cfg))"
proof (rule answers_routes)
  show "\<forall>r \<in> set (make_http_router env cfg). \<forall>args. answers last_results (rt_fn r args)"
    by (simp add: make_http_router_def add_route_def form_upload_def form_replace_def answers_form answers_hook answers_download
        answers_file Let_def)
qed

section \<open>The chain answers\<close>

text \<open>A chain whose last handler does not say \<^verbatim>\<open>next\<close>.\<close>

lemma chain_answers:
  assumes "\<forall>h \<in> set hs. answers {Result_next, Result_error} h" "answers last_results h"
    and "ch_error_handler chain = Some (error_handler env)" "header_due s"
  shows "(\<exists>w' r. chain_header chain (hs @ [h]) req ctx (w, s) = map_sum id (Pair w') (reader_done (queue_send r s)))
    \<or> (\<exists>w' kind k. chain_header chain (hs @ [h]) req ctx (w, s) = map_sum id (Pair w') (async_read_body kind k s))"
  using assms(1)
proof (induction hs arbitrary: ctx w)
  case Nil
  have "good_end last_results s (h req ctx (w, s))" using assms(2,4) by (simp add: answers_def)
  then obtain res ctx' w' s' where r: "h req ctx (w, s) = Inr (res, ctx', (w', s'))" "res \<in> last_results"
    "if res = Result_done then (\<exists>r. s' = queue_send r s) \<or> (\<exists>kind k. async_read_body kind k s = Inr s') else s' = s"
    by (auto simp: good_end_def)
  show ?case
  proof (cases res)
    case Result_done
    then consider r where "s' = queue_send r s" | kind k where "async_read_body kind k s = Inr s'" using r(3) by auto
    then show ?thesis
    proof cases
      case 1
      then have "chain_header chain ([] @ [h]) req ctx (w, s) = map_sum id (Pair w') (reader_done (queue_send r s))"
        using r(1) Result_done by simp
      then show ?thesis by blast
    next
      case (2 kind k)
      then have "reader_done s' = async_read_body kind k s"
        using async_read_due [OF assms(4), of kind k] by (auto simp: reader_done_def)
      then have "chain_header chain ([] @ [h]) req ctx (w, s) = map_sum id (Pair w') (async_read_body kind k s)"
        using r(1) Result_done by simp
      then show ?thesis by blast
    qed
  next
    case Result_error
    then have "chain_header chain ([] @ [h]) req ctx (w, s) = map_sum id (Pair w') (reader_done (queue_send (error_response env req ctx') s))"
      using r assms(3) by (simp add: call_error_handler_def error_handler_def)
    then show ?thesis by blast
  qed (use r in simp)
next
  case (Cons g hs)
  have "good_end {Result_next, Result_error} s (g req ctx (w, s))" using Cons.prems assms(4) by (simp add: answers_def)
  then obtain res ctx' w' where r: "g req ctx (w, s) = Inr (res, ctx', (w', s))" "res = Result_next \<or> res = Result_error"
    by (auto simp: good_end_def)
  from r(2) show ?case
  proof
    assume "res = Result_next"
    then show ?thesis using r(1) Cons by simp
  next
    assume "res = Result_error"
    then have "chain_header chain ((g # hs) @ [h]) req ctx (w, s) = map_sum id (Pair w') (reader_done (queue_send (error_response env req ctx') s))"
      using r(1) assms(3) by (simp add: call_error_handler_def error_handler_def)
    then show ?thesis by blast
  qed
qed

lemma public_app_handlers:
  "ch_handlers (init_public_app env cfg)
     = [cookie_parser_parse, handle_authenticate env] @ [router_handler env (make_http_router env cfg)]"
  "ch_ws_handlers (init_public_app env cfg) = [router_handler env make_ws_router]"
  "ch_error_handler (init_public_app env cfg) = Some (error_handler env)"
  by (simp_all add: init_public_app_def append_handler_def append_ws_handler_def set_error_handler_def Let_def)

lemma server_answers:
  assumes "header_due s"
  shows "(\<exists>w' r. on_header (web_app env cfg) q (w, s) = map_sum id (Pair w') (reader_done (queue_send r s)))
    \<or> (\<exists>w' kind k. on_header (web_app env cfg) q (w, s) = map_sum id (Pair w') (async_read_body kind k s))"
proof -
  have "answers {Result_next, Result_error} cookie_parser_parse"
    using answers_cookies by (fastforce simp: answers_def good_end_def)
  then show ?thesis
    unfolding web_app_def http_app.simps handle_header_def public_app_handlers(1)
    by (intro chain_answers) (use assms answers_authenticate answers_server public_app_handlers(3) in auto)
qed

text \<open>The callbacks answer.\<close>

lemma finish_answers:
  "hook_finish env call body (w, s) = Inl Handler_hangs
     \<or> (\<exists>w'. hook_finish env call body (w, s) = Inr (w', queue_send (empty_response env (hk_request call) 200) s))"
  by (auto simp: hook_finish_def split: option.split)

lemma body_answers:
  assumes "web_take_body k b w0 = Inr (Done, v, w)"
  shows "web_body_read env k v (w, s) = Inl Handler_hangs
    \<or> (\<exists>w' rs. web_body_read env k v (w, s) = Inr (w', send_all rs s) \<and> (answered_once env k v \<longrightarrow> length rs = 1))"
proof (cases k)
  case (Form_callback req ctx b0)
  then obtain b2 where "v = Form_read b2"
    using assms by (auto simp: web_take_body_def read_form_def split: prod.splits bool.splits option.splits if_splits)
  then show ?thesis
    using Form_callback by (intro disjI2 exI [of _ w] exI [of _ "[empty_response env req (form_status b2)]"])
      (simp add: web_body_read_def handle_form_def)
next
  case (Github_callback call sg)
  then obtain body where v: "v = Text_read body" using assms by (auto simp: web_take_body_def)
  let ?first = "if concat (map hex_byte (he_hmac env (hook_key (hk_context call)) body)) \<noteq> sg then [hook_refused env (hk_request call)] else []"
  have "web_body_read env k v (w, s) = hook_finish env call body (w, send_all ?first s)"
    using Github_callback v by (simp add: web_body_read_def handle_github_signature_def Let_def send_all_def)
  then have "web_body_read env k v (w, s) = Inl Handler_hangs
      \<or> (\<exists>w'. web_body_read env k v (w, s) = Inr (w', send_all (?first @ [empty_response env (hk_request call) 200]) s))"
    using finish_answers [of env call body w "send_all ?first s"] by (simp add: send_all_def)
  moreover have "answered_once env k v \<longrightarrow> length (?first @ [empty_response env (hk_request call) 200]) = 1"
    using Github_callback v by (simp add: answered_once_def)
  ultimately show ?thesis by blast
next
  case (Hook_callback call)
  then obtain body where "v = Text_read body" using assms by (auto simp: web_take_body_def)
  then have "web_body_read env k v (w, s) = Inl Handler_hangs
      \<or> (\<exists>w'. web_body_read env k v (w, s) = Inr (w', send_all [empty_response env (hk_request call) 200] s))"
    using Hook_callback finish_answers [of env call body w s] by (simp add: web_body_read_def)
  moreover have "length [empty_response env (hk_request call) 200] = 1" by simp
  ultimately show ?thesis by blast
qed

interpretation web: http_application "web_app env cfg" "answered_once env" for env cfg
proof
  show "(\<exists>w' r. on_header (web_app env cfg) q (w, s) = map_sum id (Pair w') (reader_done (queue_send r s)))
      \<or> (\<exists>w' kind k. on_header (web_app env cfg) q (w, s) = map_sum id (Pair w') (async_read_body kind k s))"
    if "header_due s" for s q w by (rule server_answers [OF that])
  show "on_body_read (web_app env cfg) k v (w, s) = Inl Handler_hangs
      \<or> (\<exists>w' rs. on_body_read (web_app env cfg) k v (w, s) = Inr (w', send_all rs s) \<and> (answered_once env k v \<longrightarrow> length rs = 1))"
    if "take_body (web_app env cfg) k b w0 = Inr (Done, v, w)" for k b w0 v w s
    using body_answers that by (simp add: web_app_def)
qed


section \<open>The server answers\<close>



text \<open>
  C31. The parser of a connection is never asked for another type of body than it was made for, although its type is only
  known when the program runs.
\<close>

theorem http_parser_typed:
  assumes "http_history (web_app env cfg) es (w, http_started t) = Some r"
    and "goes_well (web_app env cfg) (answered_once env) es (w, http_started t)"
  shows "r \<noteq> Inl Bad_parser_cast \<and> (\<forall>w' s. r = Inr (w', s) \<longrightarrow> parser_fits s)"
  by (rule web.parser_type_safe [OF assms])

text \<open>
  A connection that is not being closed is reading, or its queue is full and the write that is outstanding reads on.
\<close>

theorem http_not_stuck:
  assumes "http_history (web_app env cfg) es (w, http_started t) = Some (Inr (w', s))"
    and "goes_well (web_app env cfg) (answered_once env) es (w, http_started t)" and "\<not> hc_shut s"
  shows "hc_read s \<noteq> None \<or> hc_writes s = 1 \<and> http_is_full s"
  by (rule web.not_stuck [OF assms])


section \<open>Who gets where\<close>

text \<open>The account that the cookies of a request name, and the state after it was looked up: a token that expired is removed.\<close>

definition request_token :: "http_request \<Rightarrow> string option" where
  "request_token req = (case parse_cookies (field_value req ''Cookie'') of None \<Rightarrow> None | Some m \<Rightarrow> map_of m ''auth_token'')"

definition request_client :: "http_env \<Rightarrow> http_request \<Rightarrow> http_world \<Rightarrow> string option" where
  "request_client env req w =
     (case request_token req of
        None \<Rightarrow> None
      | Some token \<Rightarrow>
          (case fst (authenticate_token (he_engine env) (he_now env) token (cs_db (hw_cis w))) of Inl e \<Rightarrow> None | Inr email \<Rightarrow> email))"

definition logged_in :: "http_env \<Rightarrow> http_request \<Rightarrow> http_world \<Rightarrow> http_world" where
  "logged_in env req w =
     (case request_token req of
        None \<Rightarrow> w | Some token \<Rightarrow> snd (web_db (authenticate_token (he_engine env) (he_now env) token) w))"

lemma logged_in_frame [simp]: "hw_disk (logged_in env req w) = hw_disk w" "hw_tasks (logged_in env req w) = hw_tasks w"
  by (auto simp: logged_in_def web_db_def hw_disk_def split: option.split prod.split)

lemma header_routed:
  assumes "on_header (web_app env cfg) req (w, s) = Inr (w', s')"
  shows "(request_client env req w = None
         \<and> (\<exists>ctx. Inr (w', s') = map_sum id (Pair (logged_in env req w)) (reader_done (error_handler env req ctx s))))
    \<or> (\<exists>ctx. map_option ci_email (ctx_client_info ctx) = request_client env req w
         \<and> chain_header (init_public_app env cfg) [router_handler env (make_http_router env cfg)] req ctx (logged_in env req w, s) = Inr (w', s'))"
proof -
  have "\<exists>m. parse_cookies c = Some m" for c using cookies_loop_returns by (simp add: parse_cookies_def)
  then obtain m where m: "parse_cookies (field_value req ''Cookie'') = Some m" by blast
  let ?ctx = "empty_context\<lparr>ctx_remote_addr := hg_remote cfg, ctx_cookies := m\<rparr>"
  have app: "chain_header (init_public_app env cfg) [handle_authenticate env, router_handler env (make_http_router env cfg)] req ?ctx (w, s) = Inr (w', s')"
    using assms m by (simp add: web_app_def handle_header_def public_app_handlers cookie_parser_parse_def)
  show ?thesis
  proof (cases "map_of m ''auth_token''")
    case None
    then have t: "request_token req = None" using m by (simp add: request_token_def)
    have "map_option ci_email (ctx_client_info ?ctx) = request_client env req w" by (simp add: request_client_def t empty_context_def)
    moreover have "chain_header (init_public_app env cfg) [router_handler env (make_http_router env cfg)] req ?ctx (logged_in env req w, s) = Inr (w', s')"
      using app None by (simp add: handle_authenticate_def logged_in_def t)
    ultimately show ?thesis by blast
  next
    case (Some token)
    then have t: "request_token req = Some token" using m by (simp add: request_token_def)
    obtain r w1 where w1: "web_db (authenticate_token (he_engine env) (he_now env) token) w = (r, w1)" by fastforce
    then have l: "logged_in env req w = w1" "r = fst (authenticate_token (he_engine env) (he_now env) token (cs_db (hw_cis w)))"
      using web_db_fst [of "authenticate_token (he_engine env) (he_now env) token" w] by (simp_all add: logged_in_def t)
    show ?thesis
    proof (cases r)
      case (Inl e)
      have "Inr (w', s') = map_sum id (Pair (logged_in env req w))
          (reader_done (error_handler env req (?ctx\<lparr>ctx_res_status := 500\<rparr>) s))"
        using app Some w1 l(1) Inl by (simp add: handle_authenticate_def fails_with_def call_error_handler_def public_app_handlers)
      moreover have "request_client env req w = None" using Inl l(2) by (simp add: request_client_def t)
      ultimately show ?thesis by blast
    next
      case (Inr email)
      let ?c = "?ctx\<lparr>ctx_client_info := map_option (\<lambda>email. \<lparr>ci_email = email, ci_active_token = [], ci_api_access_key = []\<rparr>) email\<rparr>"
      have "?ctx = ?c" if "email = None" using that by (simp add: empty_context_def)
      then have "chain_header (init_public_app env cfg) [router_handler env (make_http_router env cfg)] req ?c (w1, s) = Inr (w', s')"
        using app Some w1 Inr by (cases email) (simp_all add: handle_authenticate_def)
      moreover have "map_option ci_email (ctx_client_info ?c) = request_client env req w"
        using Inr l(2) by (cases email) (simp_all add: request_client_def t)
      ultimately show ?thesis unfolding l(1) by blast
    qed
  qed
qed

text \<open>What a handler of a route does: the disk and the jobs stay as they are, and a callback for a body is one that \<open>G\<close> allows.\<close>

definition careful ::
    "(http_request \<Rightarrow> request_context \<Rightarrow> http_world \<Rightarrow> body_callback \<Rightarrow> bool) \<Rightarrow> body_callback handler \<Rightarrow> bool" where
  "careful G h \<longleftrightarrow> (\<forall>req ctx w s res ctx' w' s'. header_due s \<longrightarrow> h req ctx (w, s) = Inr (res, ctx', (w', s')) \<longrightarrow>
     hw_disk w' = hw_disk w \<and> hw_tasks w' = hw_tasks w \<and> cs_db (hw_cis w') = cs_db (hw_cis w)
     \<and> (\<forall>kind k. hc_read s' = Some (Read_body kind (Some k)) \<longrightarrow> res = Result_done \<and> G req ctx w k))"

text \<open>Who may have a body read: a form, a client that may write the project; a hook, an account with a key that may write it.\<close>

definition may_send_body :: "http_env \<Rightarrow> http_config \<Rightarrow> http_request \<Rightarrow> request_context \<Rightarrow> http_world \<Rightarrow> body_callback \<Rightarrow> bool" where
  "may_send_body env cfg req ctx w k \<longleftrightarrow> rq_method req = verb_post
     \<and> (case k of
          Form_callback req' ctx' b \<Rightarrow> req' = req \<and> (\<exists>project dir mode r. checked_right env ctx project w = Some r \<and> pr_write r
            \<and> b = prepare_form (hw_disk w) (path_div (path_div (cis_projects cfg) project) dir) mode)
        | Github_callback call sg \<Rightarrow> (\<exists>email. account_writes env email (hk_project call) w
            \<and> account_key env email w = Some (hook_key (hk_context call)))
        | Hook_callback call \<Rightarrow> (\<exists>email. account_writes env email (hk_project call) w
            \<and> account_key env email w = Some (hook_key (hk_context call)) \<and> hook_key (hk_context call) \<in> snd ` set (rq_fields req)))"

lemma due_no_read: "header_due s \<Longrightarrow> hc_read s = None"
  by (simp add: header_due_def)

lemma careful_file: "careful G (single_file env fh path)"
  by (auto simp: careful_def single_file_def fails_with_def wrong_method_def due_no_read Let_def split: sum.splits if_splits)

lemma careful_static: "careful G (file_handler_call env fh)"
  by (auto simp: careful_def file_handler_call_def single_file_def fails_with_def wrong_method_def due_no_read Let_def split: sum.splits if_splits)

lemma careful_download: "careful G (download_handler env root project path)"
  by (auto simp: careful_def download_handler_def single_file_def fails_with_def wrong_method_def due_no_read Let_def
      split: sum.splits if_splits option.splits)

lemma careful_form: "careful (may_send_body env cfg) (form_request env mode allowed (cis_projects cfg) project dir)"
  unfolding careful_def
proof (intro allI impI)
  fix req ctx w s res ctx' w' s'
  assume due: "header_due (s :: (http_response, body_callback) http_conn)"
    and h: "form_request env mode allowed (cis_projects cfg) project dir req ctx (w, s) = Inr (res, ctx', (w', s'))"
  show "hw_disk w' = hw_disk w \<and> hw_tasks w' = hw_tasks w \<and> cs_db (hw_cis w') = cs_db (hw_cis w)
      \<and> (\<forall>kind k. hc_read s' = Some (Read_body kind (Some k)) \<longrightarrow> res = Result_done \<and> may_send_body env cfg req ctx w k)"
    using due h
    by (auto simp: form_request_def fails_with_def wrong_method_def due_no_read async_read_due may_send_body_def checked_right_def
        split: sum.splits if_splits option.splits) (rule exI [of _ project], auto)
qed

lemma field_is_there: "find_field req name = Some v \<Longrightarrow> v \<in> snd ` set (rq_fields req)"
  by (force simp: find_field_def find_Some_iff set_conv_nth)

lemma careful_hook: "careful (may_send_body env cfg) (webhooks_handler env api email project job query)"
  unfolding careful_def
proof (intro allI impI)
  fix req ctx w s res ctx' w' s'
  assume due: "header_due (s :: (http_response, body_callback) http_conn)"
    and h: "webhooks_handler env api email project job query req ctx (w, s) = Inr (res, ctx', (w', s'))"
  have refused: "w' = w \<and> s' = s" if "res \<noteq> Result_done"
    using h that due
    by (auto simp: webhooks_handler_def wrong_method_def fails_with_def hook_forbidden_def handle_github_headers_def
        handle_gitlab_headers_def handle_plain_headers_def read_hook_body_def async_read_due Let_def
        split: option.splits sum.splits hook_api.splits if_splits)
  show "hw_disk w' = hw_disk w \<and> hw_tasks w' = hw_tasks w \<and> cs_db (hw_cis w') = cs_db (hw_cis w)
      \<and> (\<forall>kind k. hc_read s' = Some (Read_body kind (Some k)) \<longrightarrow> res = Result_done \<and> may_send_body env cfg req ctx w k)"
  proof (cases "res = Result_done")
    case False
    then show ?thesis using refused due_no_read [OF due] by simp
  next
    case True
    obtain key where g: "rq_method req = verb_post" "account_writes env email project w" "account_key env email w = Some key"
      using hook_refused_otherwise [of env api email project job query req ctx w s ctx' "(w', s')"] h True by blast
    note read = hook_headers_done [OF h [unfolded True hook_permitted [OF g(1,3,2)]] due]
    then obtain call k where k: "hc_read s' = Some (Read_body String_parser (Some k))" "hook_accepted api call req k"
      "hk_context call = hook_context email key ctx" "hk_project call = project" by blast
    then have "may_send_body env cfg req ctx w k"
      using g by (cases api) (auto simp: may_send_body_def hook_accepted_def dest: field_is_there)
    then show ?thesis using read k(1) True by simp
  qed
qed


lemma careful_routes:
  assumes "\<forall>r \<in> set routes. \<forall>args. careful G (rt_fn r args)"
  shows "careful G (router_handler env routes)"
proof -
  have "route_call env routes t = Some h \<Longrightarrow> careful G h" for t h
    using assms by (induction routes) (auto split: option.splits)
  then have h: "router_call env routes req = Some h \<Longrightarrow> careful G h" for req h by (simp add: router_call_def)
  show ?thesis
    unfolding careful_def
  proof (intro allI impI)
    fix req ctx w s res ctx' w' s'
    assume due: "header_due (s :: (http_response, body_callback) http_conn)"
      and r: "router_handler env routes req ctx (w, s) = Inr (res, ctx', (w', s'))"
    show "hw_disk w' = hw_disk w \<and> hw_tasks w' = hw_tasks w \<and> cs_db (hw_cis w') = cs_db (hw_cis w)
        \<and> (\<forall>kind k. hc_read s' = Some (Read_body kind (Some k)) \<longrightarrow> res = Result_done \<and> G req ctx w k)"
    proof (cases "router_call env routes req")
      case None
      then show ?thesis using r due_no_read [OF due] by (auto simp: router_handler_def)
    next
      case (Some g)
      then have "g req ctx (w, s) = Inr (res, ctx', (w', s'))" using r by (simp add: router_handler_def)
      then show ?thesis using h [OF Some] due by (auto simp: careful_def)
    qed
  qed
qed

lemma careful_server: "careful (may_send_body env cfg) (router_handler env (make_http_router env cfg))"
  by (rule careful_routes)
     (simp add: make_http_router_def add_route_def form_upload_def form_replace_def careful_form careful_hook careful_download
       careful_file careful_static Let_def)

lemma reader_done_read: "reader_done s = Inr s' \<Longrightarrow> hc_read s' = Some (Read_body Sink_parser None) \<or> s' = s"
  by (auto simp: reader_done_def split: if_splits sum.splits)



section \<open>A download\<close>

lemma path_div_projects:
  assumes "hg_cis_root cfg = join_names rs" "rs \<noteq> []" "\<forall>k \<in> set rs. plain_name k"
  shows "cis_projects cfg = join_names (rs @ [projects_dir])"
  unfolding cis_projects_def assms(1) by (rule path_div_join [OF assms(2,3)]) code_simp

lemma header_done:
  assumes "header_due s"
  shows "\<exists>w' s'. on_header (web_app env cfg) req (w, s) = Inr (w', s')"
  using server_answers [OF assms, of env cfg req w] reader_done_due [OF send_fresh [OF assms]] async_read_due [OF assms] by auto

text \<open>
  C25. A download, from the header to the response: a request whose cookie holds the token of an account that may read the project
  queues the file that the address names, and the body of the request is thrown away.
\<close>

theorem http_download:
  assumes "reads_groups env" and "rq_method req = verb_get"
    and "destination_of (unescape_uri (rq_target req)) = Some (To_download project (tl (join_names fs)))"
    and "request_client env req w = Some email"
    and "fst (check_project_right (he_engine env) email project (cs_db (hw_cis (logged_in env req w)))) = Inr (Some r)" and "pr_read r"
    and "hg_cis_root cfg = join_names rs" and "rs \<noteq> []" and "fs \<noteq> []" and "\<forall>k \<in> set (rs @ project # fs). plain_name k"
    and "obj_at (hw_disk w) (rs @ projects_dir # project # fs) = Some x" and "header_due s"
  shows "\<exists>w' s' resp. on_header (web_app env cfg) req (w, s) = Inr (w', s') \<and> hw_disk w' = hw_disk w
    \<and> hc_items s' = hc_items s @ [resp] \<and> rs_status resp = 200 \<and> rs_body resp = File_body x
    \<and> hc_read s' = Some (Read_body Sink_parser None)"
proof -
  let ?chain = "init_public_app env cfg" and ?w = "logged_in env req w" and ?path = "tl (join_names fs)"
  let ?h = "router_handler env (make_http_router env cfg)"
  obtain w' s' where app: "on_header (web_app env cfg) req (w, s) = Inr (w', s')" using header_done [OF assms(12)] by blast
  obtain ctx where ctx: "map_option ci_email (ctx_client_info ctx) = request_client env req w"
    "chain_header ?chain [?h] req ctx (?w, s) = Inr (w', s')"
    using header_routed [OF app] assms(4) by auto
  have right: "checked_right env ctx project ?w = Some r"
    using ctx(1) assms(4,5) by (cases "ctx_client_info ctx") (simp_all add: checked_right_def)
  have root: "cis_projects cfg = join_names (rs @ [projects_dir])"
    by (rule path_div_projects [OF assms(7,8)]) (use assms(10) in simp)
  have "plain_name projects_dir" by code_simp
  then have "\<exists>w1 resp. download_handler env (cis_projects cfg) project ?path req ctx (?w, s) = Inr (Result_done, ctx, (w1, queue_send resp s))
      \<and> rs_status resp = 200 \<and> rs_body resp = File_body x \<and> hw_disk w1 = hw_disk ?w"
    unfolding root by (intro download_found [OF assms(2) right assms(6)]) (use assms(9-11) in simp_all)
  then obtain w1 resp where d: "download_handler env (cis_projects cfg) project ?path req ctx (?w, s) = Inr (Result_done, ctx, (w1, queue_send resp s))"
    "rs_status resp = 200" "rs_body resp = File_body x" "hw_disk w1 = hw_disk ?w" by blast
  have "?h req ctx (?w, s) = Inr (Result_done, ctx, (w1, queue_send resp s))"
    using d(1) routes_parse [OF assms(1), of cfg req] assms(3) by (simp add: router_handler_def destination_handler_def)
  then have "map_sum id (Pair w1) (reader_done (queue_send resp s)) = Inr (w', s')" using ctx(2) by simp
  then have "w' = w1"
    "s' = (queue_send resp s)\<lparr>hc_parser := Sink_parser, hc_read := Some (Read_body Sink_parser None), hc_done := True\<rparr>"
    using reader_done_due [OF send_fresh [OF assms(12)], of resp] by simp_all
  then show ?thesis using app d(2-4) by (intro exI [of _ w'] exI [of _ s'] exI [of _ resp]) simp
qed

section \<open>Pipelined requests\<close>

text \<open>
  Requests that are not posts are answered when their header is read, with a length and with the wish of the client to keep the
  connection.
\<close>

definition framed :: "http_request \<Rightarrow> http_response \<Rightarrow> bool" where
  "framed req resp \<longleftrightarrow> rs_length resp \<noteq> None \<and> rs_keep_alive resp = rq_keep_alive req"

definition quick :: "'k handler \<Rightarrow> bool" where
  "quick h \<longleftrightarrow> (\<forall>req ctx w s res ctx' w' s'. rq_method req \<noteq> verb_post \<longrightarrow> h req ctx (w, s) = Inr (res, ctx', (w', s')) \<longrightarrow>
     res = Result_done \<longrightarrow> (\<exists>r. s' = queue_send r s \<and> framed req r))"

lemma framed_responses: "framed req (file_response env fh req d path x)" "framed req (error_response env req ctx)"
  by (simp_all add: framed_def file_response_def error_response_def not_found_def forbidden_def method_not_allowed_def
      server_error_def text_response_def)

lemma quick_handlers:
  "quick (single_file env fh path)" "quick (file_handler_call env fh)" "quick (form_request env mode allowed root project dir)"
  "quick (webhooks_handler env api email project job query)" "quick (download_handler env root project path)"
  using framed_responses(1)
  by (auto simp: quick_def single_file_def file_handler_call_def form_request_def webhooks_handler_def download_handler_def
      fails_with_def wrong_method_def Let_def split: sum.splits if_splits option.splits)

lemma quick_routes:
  assumes "\<forall>r \<in> set routes. \<forall>args. quick (rt_fn r args)"
  shows "quick (router_handler env routes)"
proof -
  have "route_call env routes t = Some h \<Longrightarrow> quick h" for t h
    using assms by (induction routes) (auto split: option.splits)
  then show ?thesis unfolding quick_def router_handler_def router_call_def by (fastforce split: option.splits)
qed

lemma quick_server: "quick (router_handler env (make_http_router env cfg))"
  by (rule quick_routes)
     (simp add: make_http_router_def add_route_def form_upload_def form_replace_def quick_handlers Let_def)

lemma quick_header:
  assumes "rq_method req \<noteq> verb_post" "header_due s"
  shows "\<exists>w' r. on_header (web_app env cfg) req (w, s) = map_sum id (Pair w') (reader_done (queue_send r s)) \<and> framed req r"
proof -
  obtain w' s' where app: "on_header (web_app env cfg) req (w, s) = Inr (w', s')" using header_done [OF assms(2)] by blast
  let ?chain = "init_public_app env cfg" and ?w = "logged_in env req w"
  let ?h = "router_handler env (make_http_router env cfg)"
  from header_routed [OF app] show ?thesis
  proof (elim disjE exE conjE)
    fix ctx assume "Inr (w', s') = map_sum id (Pair ?w) (reader_done (error_handler env req ctx s))"
    then show ?thesis using app framed_responses(2) unfolding error_handler_def by metis
  next
    fix ctx assume chain: "chain_header ?chain [?h] req ctx (?w, s) = Inr (w', s')"
    have "good_end last_results s (?h req ctx (?w, s))" using answers_server assms(2) by (simp add: answers_def)
    then obtain res ctx' w1 s1 where h: "?h req ctx (?w, s) = Inr (res, ctx', (w1, s1))" "res \<in> last_results"
      "res \<noteq> Result_done \<Longrightarrow> s1 = s" by (auto simp: good_end_def split: if_splits)
    show ?thesis
    proof (cases "res = Result_done")
      case True
      then obtain r where "s1 = queue_send r s" "framed req r"
        using quick_server [of env cfg] h(1) assms(1) unfolding quick_def by blast
      moreover have "Inr (w', s') = map_sum id (Pair w1) (reader_done s1)" using chain h(1) True by simp
      ultimately show ?thesis using app by metis
    next
      case False
      then have "Inr (w', s') = map_sum id (Pair w1) (reader_done (queue_send (error_response env req ctx') s))"
        using chain h by (auto simp: call_error_handler_def public_app_handlers error_handler_def)
      then show ?thesis using app framed_responses(2) by metis
    qed
  qed
qed

text \<open>
  C32. Eight requests that a client sends at once, without waiting for the responses, destroy a parser that is in use: the eighth is
  being read when the first response was written, and the completion of the write starts to read another header. The
  requests need no login and no right address; only that the connection is kept.
\<close>

theorem http_pipelining_undefined:
  assumes "\<forall>r. rs_length r \<noteq> None \<longrightarrow> rs_keep_alive r \<longrightarrow> \<not> he_need_eof env r"
    and "\<forall>q \<in> set (qs @ [q]). rq_method q \<noteq> verb_post \<and> rq_keep_alive q" and "Suc (length qs) = 8"
  shows "http_history (web_app env cfg) (pipelined t qs b @ [(t, Got_header Done False q), (t, Wrote Done)]) (w, http_started t0)
    = Some (Inl Parser_in_use)"
proof (rule pipelining_destroys_parser)
  show "\<forall>q \<in> set (qs @ [q]). answers_at_once (web_app env cfg) q"
  proof
    fix q' assume q: "q' \<in> set (qs @ [q])"
    show "answers_at_once (web_app env cfg) q'"
      unfolding answers_at_once_def
    proof (intro allI impI)
      fix w s assume due: "header_due (s :: (http_response, body_callback) http_conn)"
      obtain w' r where r: "on_header (web_app env cfg) q' (w, s) = map_sum id (Pair w') (reader_done (queue_send r s))" "framed q' r"
        using quick_header [OF _ due, of q' env cfg w] assms(2) q by blast
      then have "\<not> need_eof (web_app env cfg) r"
        using assms(1,2) q by (auto simp: web_app_def framed_def)
      then show "\<exists>w' r. on_header (web_app env cfg) q' (w, s) = map_sum id (Pair w') (reader_done (queue_send r s))
          \<and> \<not> need_eof (web_app env cfg) r" using r(1) by blast
    qed
  qed
qed (simp add: http_limit_def assms(3))

section \<open>Upgrades\<close>

lemma match_ws: "regex_match (chain_regex (url_slash url_make (Url_text ''ws''))) s = (if s = ''/ws'' then Some [] else None)"
proof -
  have "regex_match (chain_regex (url_slash url_make (Url_text ''ws''))) s
      = (case after [slash] s of None \<Rightarrow> None | Some t \<Rightarrow> (case after ''ws'' t of None \<Rightarrow> None | Some u \<Rightarrow> if u = [] then Some [] else None))"
    by (simp add: url_defs regex_match_full full_begin full_text full_end del: text_regex.simps One_nat_def cong: option.case_cong)
  then show ?thesis by (cases s) (auto simp: after_def split: if_splits)
qed

lemma url_args_ws: "uc_args (url_slash url_make (Url_text t)) = 0"
  by (simp add: url_defs Let_def)

lemma upgrade_routed:
  assumes "reads_groups env"
  shows "on_upgrade (web_app env cfg) req (w, s)
    = (let ctx = empty_context\<lparr>ctx_remote_addr := hg_remote cfg\<rparr>
       in if unescape_uri (rq_target req) = ''/ws''
          then Inr (w\<lparr>hw_session_id := hw_session_id w + 1,
                     hw_accepted := hw_accepted w @ [(ctx\<lparr>ctx_session_id := hw_session_id w\<rparr>, req)]\<rparr>, s\<lparr>hc_open := False\<rparr>)
          else Inr (w, queue_send (server_error env req []) s))"
  using assms url_args_ws
  by (simp add: web_app_def handle_upgrade_def public_app_handlers router_handler_def router_call_def make_ws_router_def
      add_route_chain route_plain [OF assms] match_ws accept_ws_def Let_def call_error_handler_def error_handler_def error_response_def
      empty_context_def del: route_call.simps(2))


text \<open>A connection that reads nothing, and will not be closed: the timer was told that the socket was given away.\<close>

definition abandoned :: "http_response list \<Rightarrow> http_response \<Rightarrow> (http_response, 'k) http_conn \<Rightarrow> bool" where
  "abandoned sent r s \<longleftrightarrow> hc_read s = None \<and> hc_expiry s = Upgraded \<and> hc_open s \<and> \<not> hc_shut s
     \<and> (hc_items s = [r] \<and> hc_writes s \<le> 1 \<and> hc_sent s = sent \<or> hc_items s = [] \<and> hc_writes s = 0 \<and> hc_sent s = sent @ [r])"

lemma abandoned_deliver:
  assumes "abandoned sent r s" "\<not> need_eof app r" "http_deliver app now e (w, s) = Some x"
  shows "\<exists>s'. x = Inr (w, s') \<and> abandoned sent r s'"
proof (cases e)
  case (Wrote ec)
  then have w: "hc_writes s \<noteq> 0" using assms(3) by (auto split: if_splits)
  then have i: "hc_items s = [r]" "hc_writes s = 1" "hc_sent s = sent" using assms(1) by (auto simp: abandoned_def)
  then have x: "x = map_sum id (Pair w) (http_on_write ec now False (s\<lparr>hc_writes := 0\<rparr>))"
    using assms(2,3) Wrote by simp
  show ?thesis
  proof (cases "ec = Done")
    case True
    then show ?thesis
      using x i assms(1)
      by (simp add: abandoned_def http_on_write_def http_queue_on_write_def http_is_full_def http_limit_def Let_def)
  next
    case False
    then have "http_on_write ec now False (s\<lparr>hc_writes := 0\<rparr>) = Inr (s\<lparr>hc_writes := 0\<rparr>)" by (cases ec) (simp_all add: http_on_write_def)
    then show ?thesis using x i assms(1) by (simp add: abandoned_def)
  qed
next
  case (Timer ec)
  then show ?thesis using assms(1,3) by (auto simp: abandoned_def http_on_timer_def split: if_splits)
qed (use assms(1,3) in \<open>simp_all add: abandoned_def\<close>)

lemma abandoned_history:
  "abandoned sent r s \<Longrightarrow> \<not> need_eof app r \<Longrightarrow> http_history app es (w, s) = Some x \<Longrightarrow> \<exists>s'. x = Inr (w, s') \<and> abandoned sent r s'"
proof (induction es arbitrary: s)
  case Nil
  then show ?case by auto
next
  case (Cons ev es)
  obtain now e where ev: "ev = (now, e)" by (cases ev)
  obtain y where y: "http_deliver app now e (w, s) = Some y"
    using Cons.prems(3) ev by (cases "http_deliver app now e (w, s)") (simp_all del: http_deliver.simps)
  obtain s1 where s1: "y = Inr (w, s1)" "abandoned sent r s1" using abandoned_deliver [OF Cons.prems(1,2) y] by blast
  have "http_history app es (w, s1) = Some x" using Cons.prems(3) ev y s1(1) by (simp del: http_deliver.simps)
  from Cons.IH [OF s1(2) Cons.prems(2) this] show ?case .
qed

text \<open>
  A request for an upgrade whose address is not \<^verbatim>\<open>/ws\<close> is answered with 500, and the connection is abandoned: whatever
  happens on it, nothing is read any more, and the timer never closes it.
\<close>

theorem refused_upgrade_abandoned:
  assumes "reads_groups env" and "unescape_uri (rq_target req) \<noteq> ''/ws''" and "rq_keep_alive req"
    and "\<forall>r. rs_length r \<noteq> None \<longrightarrow> rs_keep_alive r \<longrightarrow> \<not> he_need_eof env r"
    and "hc_read s = Some Read_header" and "hc_parser s = Header_parser" and "hc_items s = []" and "hc_writes s = 0"
    and "hc_open s" and "\<not> hc_shut s"
  shows "\<exists>s1 r. http_deliver (web_app env cfg) now (Got_header Done True req) (w, s) = Some (Inr (w, s1)) \<and> rs_status r = 500
    \<and> (\<forall>es x. http_history (web_app env cfg) es (w, s1) = Some x \<longrightarrow>
         (\<exists>s2. x = Inr (w, s2) \<and> hc_sent s2 @ hc_items s2 = hc_sent s @ [r] \<and> hc_read s2 = None \<and> hc_open s2 \<and> \<not> hc_shut s2))"
proof -
  let ?r = "server_error env req []"
  let ?s1 = "queue_send ?r (s\<lparr>hc_read := None, hc_expiry := Upgraded\<rparr>)"
  have 1: "http_deliver (web_app env cfg) now (Got_header Done True req) (w, s) = Some (Inr (w, ?s1))"
    using assms(2,5,6) upgrade_routed [OF assms(1), of cfg req w "s\<lparr>hc_read := None, hc_expiry := Upgraded\<rparr>"]
    by (simp add: http_on_read_header_def get_parser_def)
  have r: "\<not> need_eof (web_app env cfg) ?r" "rs_status ?r = 500"
    using assms(3,4) by (auto simp: web_app_def server_error_def text_response_def)
  have a: "abandoned (hc_sent s) ?r ?s1"
    using assms(7-10) by (simp add: abandoned_def queue_send_def http_start_write_def Let_def)
  have "\<exists>s2. x = Inr (w, s2) \<and> hc_sent s2 @ hc_items s2 = hc_sent s @ [?r] \<and> hc_read s2 = None \<and> hc_open s2 \<and> \<not> hc_shut s2"
    if "http_history (web_app env cfg) es (w, ?s1) = Some x" for es x
    using abandoned_history [OF a r(1) that] by (auto simp: abandoned_def)
  then show ?thesis using 1 r(2) by (intro exI [of _ ?s1] exI [of _ ?r]) (simp del: http_deliver.simps)
qed


section \<open>Examples\<close>

text \<open>A request for a page, its response, and what the client sends next.\<close>

definition one_request :: "(int \<times> (http_request, string list) http_event) list" where
  "one_request = [(0, Got_header Done False (get_request ''/index.html'')), (1, Got_body Done []), (1, Wrote Done)]"

lemma one_request_well:
  "goes_well (web_app web_env_example web_config_example) (answered_once web_env_example) one_request (web_world_example, http_started 0)"
  by code_simp

lemma one_request_run:
  "\<exists>w s. http_history (web_app web_env_example web_config_example) one_request (web_world_example, http_started 0) = Some (Inr (w, s))
     \<and> map rs_status (hc_sent s) = [200] \<and> \<not> hc_shut s"
proof -
  have "case http_history (web_app web_env_example web_config_example) one_request (web_world_example, http_started 0) of
      Some (Inr (w, s)) \<Rightarrow> map rs_status (hc_sent s) = [200] \<and> \<not> hc_shut s | _ \<Rightarrow> False" by code_simp
  then show ?thesis by (auto split: option.splits sum.splits)
qed



theorem http_parser_typed_witness:
  "\<exists>w s. http_history (web_app web_env_example web_config_example) one_request (web_world_example, http_started 0) = Some (Inr (w, s))
     \<and> parser_fits s"
  using one_request_run http_parser_typed [OF _ one_request_well] by blast

theorem http_not_stuck_witness:
  "\<exists>w s. http_history (web_app web_env_example web_config_example) one_request (web_world_example, http_started 0) = Some (Inr (w, s))
     \<and> (hc_read s \<noteq> None \<or> hc_writes s = 1 \<and> http_is_full s)"
  using one_request_run http_not_stuck [OF _ one_request_well] by blast

definition server_config :: http_config where
  "server_config = \<lparr>hg_doc_root = ''/docs'', hg_cis_root = ''/cis'', hg_remote = (''::1'', 4000)\<rparr>"

definition server_world :: http_world where
  "server_world = web_world_example\<lparr>hw_cis :=
     \<lparr>cs_db = web_db_example\<lparr>db_rights := [\<lparr>pur_id = 1, pur_project_id = 1, pur_user_id = 1, pur_read = True, pur_write = True, pur_execute = False\<rparr>]\<rparr>,
      cs_fs = fs_cache_new (Directory 493 [(''cis'', Directory 493 [(''jobs'', Directory 493
        [(''mine'', Directory 493 [(''a.txt'', Regular ''text'' 420)])])])]) 0 ''/cis/jobs'' 4 60\<rparr>\<rparr>"

definition with_token :: "http_request \<Rightarrow> http_request" where
  "with_token req = req\<lparr>rq_fields := [(''Cookie'', ''lang=en; auth_token=abc''), (''Content-Type'', ''multipart/form-data; boundary=b'')]\<rparr>"


theorem http_download_witness:
  "\<exists>w' s' resp. on_header (web_app web_env_example server_config) (with_token (get_request ''/download/mine/a.txt''))
       (server_world, header_read) = Inr (w', s')
     \<and> hc_items s' = [resp] \<and> rs_status resp = 200 \<and> rs_body resp = File_body (Regular ''text'' 420)"
proof -
  let ?req = "with_token (get_request ''/download/mine/a.txt'')"
  have 1: "rq_method ?req = verb_get"
    "destination_of (unescape_uri (rq_target ?req)) = Some (To_download ''mine'' (tl (join_names [''a.txt''])))"
    "request_client web_env_example ?req server_world = Some ''b@x''"
    "fst (check_project_right (he_engine web_env_example) ''b@x'' ''mine'' (cs_db (hw_cis (logged_in web_env_example ?req server_world))))
      = Inr (Some \<lparr>pr_read = True, pr_write = True, pr_execute = False\<rparr>)"
    "pr_read \<lparr>pr_read = True, pr_write = True, pr_execute = False\<rparr>"
    "hg_cis_root server_config = join_names [''cis'']" "[''cis''] \<noteq> []" "[''a.txt''] \<noteq> []"
    "\<forall>k \<in> set ([''cis''] @ ''mine'' # [''a.txt'']). plain_name k"
    "obj_at (hw_disk server_world) ([''cis''] @ projects_dir # ''mine'' # [''a.txt'']) = Some (Regular ''text'' 420)"
    by code_simp+
  have "hc_items header_read = []" by (simp add: header_read_def http_started_def http_conn_new_def)
  then show ?thesis using http_download [OF reads_groups_example 1 hook_header_due] by simp blast
qed

lemma need_eof_example: "\<forall>r. rs_length r \<noteq> None \<longrightarrow> rs_keep_alive r \<longrightarrow> \<not> he_need_eof web_env_example r"
  by (simp add: web_env_example_def)

theorem http_pipelining_undefined_witness:
  "http_history (web_app web_env_example web_config_example)
     (pipelined 0 (replicate 7 (get_request ''/'')) [] @ [(0, Got_header Done False (get_request ''/'')), (0, Wrote Done)])
     (web_world_example, http_started 0) = Some (Inl Parser_in_use)"
proof (rule http_pipelining_undefined [OF need_eof_example])
  show "\<forall>q \<in> set (replicate 7 (get_request ''/'') @ [get_request ''/'']). rq_method q \<noteq> verb_post \<and> rq_keep_alive q"
    by (simp add: get_request_def verb_post_def)
qed simp

theorem refused_upgrade_abandoned_witness:
  "\<exists>s1. http_deliver (web_app web_env_example web_config_example) 0 (Got_header Done True (get_request ''/chat'')) (web_world_example, http_started 0)
       = Some (Inr (web_world_example, s1))
     \<and> (\<forall>es x. http_history (web_app web_env_example web_config_example) es (web_world_example, s1) = Some x \<longrightarrow>
          (\<exists>s2. x = Inr (web_world_example, s2) \<and> hc_read s2 = None \<and> hc_open s2))"
proof -
  have t: "unescape_uri (rq_target (get_request ''/chat'')) \<noteq> ''/ws''" "rq_keep_alive (get_request ''/chat'')" by code_simp+
  have s: "hc_read (http_started 0) = Some Read_header" "hc_parser (http_started 0) = Header_parser" "hc_items (http_started 0) = []"
    "hc_writes (http_started 0) = 0" "hc_open (http_started 0)" "\<not> hc_shut (http_started 0)"
    by (simp_all add: http_started_def http_conn_new_def)
  show ?thesis
    using refused_upgrade_abandoned [OF reads_groups_example t need_eof_example s, of web_config_example 0 web_world_example]
    by (simp del: http_deliver.simps) meson
qed

end
