(* ===== verification/Task_Chain.thy ===== *)
theory Task_Chain
  imports Cis_Job
begin

text \<open>
  Chains of tasks (\<^verbatim>\<open>include/bound_task_chain.h\<close>, \<^verbatim>\<open>src/bound_task_chain.cpp\<close>), in which the handlers run jobs and cron
  programs: every function of a chain is posted to its executor, and its result, or what its continuation is called with, is
  passed to the next one.

  The lemmas: a chain whose functions continue at most once is a sequential program with waits; the chains of the handlers send
  what \<^verbatim>\<open>Cis_Handlers\<close> says they do.
\<close>

section \<open>Chains\<close>

text \<open>
  What a function may throw: a \<^verbatim>\<open>std::error_code\<close>, which the chain catches, or something else. A function gets its arguments as
  one value, and is plain or asynchronous. A plain one returns the arguments of the next. An asynchronous one is told whether its
  continuation can be called; it calls it with the values it results in, and may keep it.
\<close>

datatype thrown = Thrown_code sys_error | Thrown_other

datatype ('v, 's) stage_fn =
    Plain "'v \<Rightarrow> 's \<Rightarrow> (thrown + 'v) \<times> 's"
  | Async "bool \<Rightarrow> 'v \<Rightarrow> 's \<Rightarrow> 'v list \<times> thrown option \<times> 's"

record ('e, 'v, 's) chain_stage =
  sg_executor :: 'e
  sg_fn :: "('v, 's) stage_fn"

type_synonym 's error_fn = "sys_error \<Rightarrow> 's \<Rightarrow> thrown option \<times> 's"

text \<open>The function that was added last is the first of the tuple.\<close>

record ('e, 'v, 's) task_chain =
  tc_executor :: 'e
  tc_fns :: "('e, 'v, 's) chain_stage list"
  tc_error_handler :: "'s error_fn"

definition throw_code :: "'s error_fn" where
  "throw_code ec s = (Some (Thrown_code ec), s)"

definition make_async_chain :: "'e \<Rightarrow> ('e, 'v, 's) task_chain" where
  "make_async_chain ex = \<lparr>tc_executor = ex, tc_fns = [], tc_error_handler = throw_code\<rparr>"

text \<open>A new chain is made, with the handler of errors that throws.\<close>

definition then_impl :: "('e, 'v, 's) chain_stage \<Rightarrow> ('e, 'v, 's) task_chain \<Rightarrow> ('e, 'v, 's) task_chain" where
  "then_impl f c = \<lparr>tc_executor = tc_executor c, tc_fns = f # tc_fns c, tc_error_handler = throw_code\<rparr>"

text \<open>A function that is bound to an executor keeps it; the others get that of the chain.\<close>

definition chain_then :: "'e option \<Rightarrow> ('v, 's) stage_fn \<Rightarrow> ('e, 'v, 's) task_chain \<Rightarrow> ('e, 'v, 's) task_chain" where
  "chain_then bound f c =
     then_impl \<lparr>sg_executor = (case bound of None \<Rightarrow> tc_executor c | Some e \<Rightarrow> e), sg_fn = f\<rparr> c"

definition chain_on_error :: "'s error_fn \<Rightarrow> ('e, 'v, 's) task_chain \<Rightarrow> ('e, 'v, 's) task_chain" where
  "chain_on_error h c = c\<lparr>tc_error_handler := h\<rparr>"

section \<open>Running\<close>

text \<open>
  A chain that runs: the calls that are posted, the stages whose continuation was handed out, and the calls made so far.
\<close>

record ('e, 'v, 's) chain_run =
  cr_fns :: "('e, 'v, 's) chain_stage list"
  cr_error_handler :: "'s error_fn"
  cr_posted :: "('e \<times> nat \<times> 'v) list"
  cr_held :: "nat list"
  cr_calls :: "(nat \<times> 'v) list"

definition chain_call :: "nat \<Rightarrow> 'v \<Rightarrow> ('e, 'v, 's) chain_run \<Rightarrow> ('e, 'v, 's) chain_run" where
  "chain_call N args r =
     r\<lparr>cr_posted := cr_posted r @ [(sg_executor (cr_fns r ! N), N, args)], cr_calls := cr_calls r @ [(N, args)]\<rparr>"

text \<open>An empty chain cannot be run: the program would not compile.\<close>

definition run_chain :: "('e, 'v, 's) task_chain \<Rightarrow> 'v \<Rightarrow> ('e, 'v, 's) chain_run option" where
  "run_chain c args =
     (if tc_fns c = [] then None
      else Some (chain_call (length (tc_fns c) - 1) args
             \<lparr>cr_fns = tc_fns c, cr_error_handler = tc_error_handler c, cr_posted = [], cr_held = [], cr_calls = []\<rparr>))"

definition catch_code ::
    "thrown option \<Rightarrow> ('e, 'v, 's) chain_run \<Rightarrow> 's \<Rightarrow> thrown + ('e, 'v, 's) chain_run \<times> 's" where
  "catch_code t r s =
     (case t of
        None \<Rightarrow> Inr (r, s)
      | Some Thrown_other \<Rightarrow> Inl Thrown_other
      | Some (Thrown_code ec) \<Rightarrow>
          (case cr_error_handler r ec s of (None, s) \<Rightarrow> Inr (r, s) | (Some t, s) \<Rightarrow> Inl t))"

text \<open>The function that is posted. What leaves it ends the program.\<close>

definition stage_body ::
    "nat \<Rightarrow> 'v \<Rightarrow> ('e, 'v, 's) chain_run \<Rightarrow> 's \<Rightarrow> thrown + ('e, 'v, 's) chain_run \<times> 's" where
  "stage_body N args r s =
     (case sg_fn (cr_fns r ! N) of
        Async f \<Rightarrow>
          (case f (N > 0) args s of (vs, t, s) \<Rightarrow>
             catch_code t
               (if N > 0 then fold (chain_call (N - 1)) vs (r\<lparr>cr_held := cr_held r @ [N]\<rparr>) else r) s)
      | Plain f \<Rightarrow>
          (case f args s of
             (Inl t, s) \<Rightarrow> catch_code (Some t) r s
           | (Inr v, s) \<Rightarrow> Inr (if N > 0 then chain_call (N - 1) v r else r, s)))"

text \<open>
  What happens: an executor runs its next call; a continuation is called; or something else changes the state.
\<close>

datatype ('e, 'v, 's) chain_event =
    Run_posted 'e
  | Continue nat 'v
  | Elsewhere "'s \<Rightarrow> 's"

fun chain_deliver ::
    "('e, 'v, 's) chain_event \<Rightarrow> ('e, 'v, 's) chain_run \<times> 's \<Rightarrow> (thrown + ('e, 'v, 's) chain_run \<times> 's) option" where
  "chain_deliver (Run_posted e) (r, s) =
     (case List.extract (\<lambda>p. fst p = e) (cr_posted r) of
        None \<Rightarrow> None
      | Some (before, (_, N, args), rest) \<Rightarrow> Some (stage_body N args (r\<lparr>cr_posted := before @ rest\<rparr>) s))"
| "chain_deliver (Continue N v) (r, s) =
     (if N \<in> set (cr_held r) then Some (Inr (chain_call (N - 1) v r, s)) else None)"
| "chain_deliver (Elsewhere f) (r, s) = Some (Inr (r, f s))"

fun chain_history ::
    "('e, 'v, 's) chain_event list \<Rightarrow> ('e, 'v, 's) chain_run \<times> 's \<Rightarrow> (thrown + ('e, 'v, 's) chain_run \<times> 's) option" where
  "chain_history [] st = Some (Inr st)"
| "chain_history (ev # es) st =
     (case chain_deliver ev st of
        None \<Rightarrow> None
      | Some (Inl t) \<Rightarrow> Some (Inl t)
      | Some (Inr st) \<Rightarrow> chain_history es st)"

section \<open>Sequential programs\<close>

text \<open>
  The specification: a program counter. The program is about to run a function, waits for the answer of one, or is over.
\<close>

datatype 'v chain_phase = At_stage nat 'v | Waiting nat | Over

datatype ('v, 's) seq_event = Go | Answer 'v | Other "'s \<Rightarrow> 's"

definition seq_next :: "nat \<Rightarrow> 'v \<Rightarrow> 'v chain_phase" where
  "seq_next N v = (if N > 0 then At_stage (N - 1) v else Over)"

definition seq_thrown :: "'s error_fn \<Rightarrow> thrown option \<Rightarrow> 'v chain_phase \<Rightarrow> 's \<Rightarrow> thrown + 'v chain_phase \<times> 's" where
  "seq_thrown h t p s =
     (case t of
        None \<Rightarrow> Inr (p, s)
      | Some Thrown_other \<Rightarrow> Inl Thrown_other
      | Some (Thrown_code ec) \<Rightarrow> (case h ec s of (None, s) \<Rightarrow> Inr (p, s) | (Some t, s) \<Rightarrow> Inl t))"

definition seq_stage :: "('v, 's) stage_fn list \<Rightarrow> 's error_fn \<Rightarrow> nat \<Rightarrow> 'v \<Rightarrow> 's \<Rightarrow> thrown + 'v chain_phase \<times> 's" where
  "seq_stage fns h N v s =
     (case fns ! N of
        Plain f \<Rightarrow>
          (case f v s of (Inl t, s) \<Rightarrow> seq_thrown h (Some t) Over s | (Inr v', s) \<Rightarrow> Inr (seq_next N v', s))
      | Async f \<Rightarrow>
          (case f (N > 0) v s of
             ([], t, s) \<Rightarrow> seq_thrown h t (if N > 0 then Waiting N else Over) s
           | (v' # vs, t, s) \<Rightarrow> seq_thrown h t (seq_next N v') s))"

fun seq_deliver ::
    "('v, 's) stage_fn list \<Rightarrow> 's error_fn \<Rightarrow> ('v, 's) seq_event \<Rightarrow> 'v chain_phase \<times> 's
      \<Rightarrow> (thrown + 'v chain_phase \<times> 's) option" where
  "seq_deliver fns h Go (At_stage N v, s) = Some (seq_stage fns h N v s)"
| "seq_deliver fns h (Answer v) (Waiting N, s) = Some (Inr (At_stage (N - 1) v, s))"
| "seq_deliver fns h (Other f) (p, s) = Some (Inr (p, f s))"
| "seq_deliver fns h _ _ = None"

fun seq_history ::
    "('v, 's) stage_fn list \<Rightarrow> 's error_fn \<Rightarrow> ('v, 's) seq_event list \<Rightarrow> 'v chain_phase \<times> 's
      \<Rightarrow> (thrown + 'v chain_phase \<times> 's) option" where
  "seq_history fns h [] st = Some (Inr st)"
| "seq_history fns h (ev # es) st =
     (case seq_deliver fns h ev st of
        None \<Rightarrow> None
      | Some (Inl t) \<Rightarrow> Some (Inl t)
      | Some (Inr st) \<Rightarrow> seq_history fns h es st)"

section \<open>A chain is sequential\<close>

text \<open>Where a chain is: at the call that is posted, or waiting for the stage that was called last.\<close>

definition phase_of :: "('e, 'v, 's) chain_run \<Rightarrow> 'v chain_phase" where
  "phase_of r =
     (case cr_posted r of
        (_, N, v) # _ \<Rightarrow> At_stage N v
      | [] \<Rightarrow> (let k = fst (last (cr_calls r)) in if k \<in> set (cr_held r) then Waiting k else Over))"

definition seq_event_of :: "('e, 'v, 's) chain_event \<Rightarrow> ('v, 's) seq_event" where
  "seq_event_of ev = (case ev of Run_posted e \<Rightarrow> Go | Continue N v \<Rightarrow> Answer v | Elsewhere f \<Rightarrow> Other f)"

definition continues_once :: "('v, 's) stage_fn \<Rightarrow> bool" where
  "continues_once f \<longleftrightarrow> (case f of Plain _ \<Rightarrow> True | Async g \<Rightarrow> \<forall>cb v s. length (fst (g cb v s)) \<le> 1)"

text \<open>No continuation is called again.\<close>

fun orderly :: "('e, 'v, 's) chain_event list \<Rightarrow> ('e, 'v, 's) chain_run \<times> 's \<Rightarrow> bool" where
  "orderly [] st \<longleftrightarrow> True"
| "orderly (ev # es) st \<longleftrightarrow>
     (case ev of Continue N v \<Rightarrow> N - 1 \<notin> fst ` set (cr_calls (fst st)) | _ \<Rightarrow> True)
     \<and> (case chain_deliver ev st of Some (Inr st') \<Rightarrow> orderly es st' | _ \<Rightarrow> True)"

definition called_down_to :: "nat \<Rightarrow> ('e, 'v, 's) chain_run \<Rightarrow> bool" where
  "called_down_to k r \<longleftrightarrow> k < length (cr_fns r) \<and> map fst (cr_calls r) = rev [k..<length (cr_fns r)]
     \<and> set (cr_held r) \<subseteq> {k..<length (cr_fns r)} \<and> 0 \<notin> set (cr_held r)"

definition in_order :: "('e, 'v, 's) chain_run \<Rightarrow> bool" where
  "in_order r \<longleftrightarrow> (\<exists>k. called_down_to k r
     \<and> (cr_posted r = [] \<or> k \<notin> set (cr_held r) \<and> (\<exists>e v. cr_posted r = [(e, k, v)])))"

lemma chain_call_simps [simp]:
  "cr_fns (chain_call N v r) = cr_fns r" "cr_held (chain_call N v r) = cr_held r"
  "cr_error_handler (chain_call N v r) = cr_error_handler r"
  "cr_posted (chain_call N v r) = cr_posted r @ [(sg_executor (cr_fns r ! N), N, v)]"
  "cr_calls (chain_call N v r) = cr_calls r @ [(N, v)]"
  by (simp_all add: chain_call_def)

lemma called_last: "called_down_to k r \<Longrightarrow> cr_calls r \<noteq> [] \<and> fst (last (cr_calls r)) = k"
proof -
  assume a: "called_down_to k r"
  then have m: "map fst (cr_calls r) = rev [k..<length (cr_fns r)]" "k < length (cr_fns r)" by (simp_all add: called_down_to_def)
  then have ne: "cr_calls r \<noteq> []" by auto
  then have "fst (last (cr_calls r)) = last (map fst (cr_calls r))" by (simp add: last_map)
  also have "\<dots> = k" unfolding m(1) using m(2) by (simp add: upt_rec [of k] last_rev)
  finally show ?thesis using ne by simp
qed

lemma called_next: "called_down_to k r \<Longrightarrow> k > 0 \<Longrightarrow> called_down_to (k - 1) (chain_call (k - 1) v r)"
  using upt_rec [of "k - 1" "length (cr_fns r)"] by (cases k) (auto simp: called_down_to_def)

lemma called_posted [simp]: "called_down_to k (r\<lparr>cr_posted := ps\<rparr>) = called_down_to k r"
  by (simp add: called_down_to_def)

lemma called_held: "called_down_to k r \<Longrightarrow> k > 0 \<Longrightarrow> called_down_to k (r\<lparr>cr_held := cr_held r @ [k]\<rparr>)"
  by (auto simp: called_down_to_def)

lemma phase_waiting: "called_down_to k r \<Longrightarrow> cr_posted r = [] \<Longrightarrow> phase_of r = (if k \<in> set (cr_held r) then Waiting k else Over)"
  using called_last [of k r] by (simp add: phase_of_def Let_def)

lemma in_order_next:
  assumes "called_down_to k r" "cr_posted r = []" "k > 0"
  shows "in_order (chain_call (k - 1) v r)" and "phase_of (chain_call (k - 1) v r) = At_stage (k - 1) v"
proof -
  have "k - 1 \<notin> {k..<length (cr_fns r)}" using assms(3) by (cases k) auto
  then have "k - 1 \<notin> set (cr_held r)" using assms(1) unfolding called_down_to_def by blast
  then show "in_order (chain_call (k - 1) v r)"
    using called_next [OF assms(1,3), of v] assms(2) by (auto simp: in_order_def)
  show "phase_of (chain_call (k - 1) v r) = At_stage (k - 1) v" using assms(2) by (simp add: phase_of_def)
qed

lemma in_order_idle: "called_down_to k r \<Longrightarrow> cr_posted r = [] \<Longrightarrow> in_order r"
  by (auto simp: in_order_def)

lemma catch_code_seq:
  "in_order r \<Longrightarrow> catch_code t r s = x \<Longrightarrow>
     seq_thrown (cr_error_handler r) t (phase_of r) s = map_sum id (map_prod phase_of id) x
     \<and> (\<forall>r' s'. x = Inr (r', s') \<longrightarrow> r' = r)"
  by (auto simp: catch_code_def seq_thrown_def split: option.splits thrown.splits prod.splits)

lemma extract_one: "List.extract P [x] = (if P x then Some ([], x, []) else None)"
  by (simp add: extract_Cons_code extract_Nil_code)

lemma run_seq:
  assumes "called_down_to k r" "cr_posted r = []" "k \<notin> set (cr_held r)"
    and "\<forall>st \<in> set (cr_fns r). continues_once (sg_fn st)"
  shows "seq_stage (map sg_fn (cr_fns r)) (cr_error_handler r) k v s = map_sum id (map_prod phase_of id) (stage_body k v r s)
    \<and> (\<forall>r' s'. stage_body k v r s = Inr (r', s') \<longrightarrow>
         in_order r' \<and> cr_fns r' = cr_fns r \<and> cr_error_handler r' = cr_error_handler r)"
proof -
  have k: "k < length (cr_fns r)" using assms(1) by (simp add: called_down_to_def)
  note idle = in_order_idle [OF assms(1,2)]
  have over: "phase_of r = Over" using phase_waiting [OF assms(1,2)] assms(3) by simp
  have once: "continues_once (sg_fn (cr_fns r ! k))" using assms(4) k by simp
  show ?thesis
  proof (cases "sg_fn (cr_fns r ! k)")
    case (Plain f)
    obtain out s1 where f: "f v s = (out, s1)" by (cases "f v s")
    show ?thesis
    proof (cases out)
      case (Inl t)
      then show ?thesis
        using Plain f k over idle catch_code_seq [OF idle, of "Some t" s1] by (auto simp: seq_stage_def stage_body_def)
    next
      case (Inr v')
      then show ?thesis
        using Plain f k over idle in_order_next [OF assms(1,2), of v'] by (auto simp: seq_stage_def stage_body_def seq_next_def)
    qed
  next
    case (Async f)
    obtain vs t s1 where f: "f (k > 0) v s = (vs, t, s1)" by (cases "f (k > 0) v s")
    have "length (fst (f (k > 0) v s)) \<le> 1" using once Async by (simp add: continues_once_def)
    then have "length vs \<le> 1" using f by simp
    then consider (none) "vs = []" | (one) v' where "vs = [v']" by (cases vs) auto
    then show ?thesis
    proof cases
      case none
      show ?thesis
      proof (cases "k > 0")
        case True
        let ?r = "r\<lparr>cr_held := cr_held r @ [k]\<rparr>"
        have c: "called_down_to k ?r" "cr_posted ?r = []" using called_held [OF assms(1) True] assms(2) by simp_all
        have p: "phase_of ?r = Waiting k" using phase_waiting [OF c] by simp
        show ?thesis
          using Async f k none True p in_order_idle [OF c] catch_code_seq [OF in_order_idle [OF c], of t s1]
          by (auto simp: seq_stage_def stage_body_def)
      next
        case False
        then show ?thesis
          using Async f k none over idle catch_code_seq [OF idle, of t s1] by (auto simp: seq_stage_def stage_body_def)
      qed
    next
      case one
      show ?thesis
      proof (cases "k > 0")
        case True
        let ?r = "r\<lparr>cr_held := cr_held r @ [k]\<rparr>"
        have c: "called_down_to k ?r" "cr_posted ?r = []" using called_held [OF assms(1) True] assms(2) by simp_all
        note n = in_order_next [OF c True, of v']
        show ?thesis
          using Async f k one True n catch_code_seq [OF n(1), of t s1]
          by (auto simp: seq_stage_def stage_body_def seq_next_def)
      next
        case False
        then show ?thesis
          using Async f k one over idle catch_code_seq [OF idle, of t s1]
          by (auto simp: seq_stage_def stage_body_def seq_next_def)
      qed
    qed
  qed
qed

lemma deliver_seq:
  assumes "in_order r" and "\<forall>st \<in> set (cr_fns r). continues_once (sg_fn st)"
    and "\<forall>N v. ev = Continue N v \<longrightarrow> N - 1 \<notin> fst ` set (cr_calls r)" and "chain_deliver ev (r, s) = Some x"
  shows "seq_deliver (map sg_fn (cr_fns r)) (cr_error_handler r) (seq_event_of ev) (phase_of r, s)
      = Some (map_sum id (map_prod phase_of id) x)
    \<and> (\<forall>r' s'. x = Inr (r', s') \<longrightarrow> in_order r' \<and> cr_fns r' = cr_fns r \<and> cr_error_handler r' = cr_error_handler r)"
proof -
  obtain k where k: "called_down_to k r" and p: "cr_posted r = [] \<or> k \<notin> set (cr_held r) \<and> (\<exists>e v. cr_posted r = [(e, k, v)])"
    using assms(1) by (auto simp: in_order_def)
  show ?thesis
  proof (cases ev)
    case (Run_posted e)
    then obtain v where v: "cr_posted r = [(e, k, v)]" "k \<notin> set (cr_held r)"
      using assms(4) p by (auto simp: extract_Nil_code extract_one split: if_splits)
    then have x: "x = stage_body k v (r\<lparr>cr_posted := []\<rparr>) s"
      using assms(4) Run_posted by (simp add: extract_one split: if_splits)
    have ph: "phase_of r = At_stage k v" using v(1) by (simp add: phase_of_def)
    have c: "called_down_to k (r\<lparr>cr_posted := []\<rparr>)" "cr_posted (r\<lparr>cr_posted := []\<rparr>) = []" "k \<notin> set (cr_held (r\<lparr>cr_posted := []\<rparr>))"
      "\<forall>st \<in> set (cr_fns (r\<lparr>cr_posted := []\<rparr>)). continues_once (sg_fn st)"
      using k v(2) assms(2) by simp_all
    note d = run_seq [OF c, of v s, folded x]
    have f: "cr_fns (r\<lparr>cr_posted := []\<rparr>) = cr_fns r" "cr_error_handler (r\<lparr>cr_posted := []\<rparr>) = cr_error_handler r" by simp_all
    have "seq_deliver (map sg_fn (cr_fns r)) (cr_error_handler r) (seq_event_of ev) (phase_of r, s)
        = Some (map_sum id (map_prod phase_of id) x)"
      using conjunct1 [OF d] unfolding f by (simp add: Run_posted ph seq_event_of_def)
    then show ?thesis using conjunct2 [OF d] unfolding f by blast
  next
    case (Continue N v)
    then have N: "N \<in> set (cr_held r)" and x: "x = Inr (chain_call (N - 1) v r, s)" using assms(4) by (auto split: if_splits)
    have "N \<ge> k" "N < length (cr_fns r)" "N \<noteq> 0" using k N by (auto simp: called_down_to_def intro: gr0I)
    moreover have "map fst (cr_calls r) = rev [k..<length (cr_fns r)]" using k by (simp add: called_down_to_def)
    from arg_cong [OF this, of set] have "fst ` set (cr_calls r) = {k..<length (cr_fns r)}" by simp
    moreover have "N - 1 \<notin> fst ` set (cr_calls r)" using assms(3) Continue by simp
    ultimately have Nk: "N = k" by auto
    then have idle: "cr_posted r = []" using p N by auto
    then show ?thesis
      using in_order_next [OF k idle, of v] phase_waiting [OF k idle] N Nk \<open>N \<noteq> 0\<close> x Continue by (simp add: seq_event_of_def)
  next
    case (Elsewhere f)
    then show ?thesis using assms(1,4) by (auto simp: seq_event_of_def)
  qed
qed

lemma history_seq:
  assumes "in_order r" and "\<forall>st \<in> set (cr_fns r). continues_once (sg_fn st)"
    and "orderly es (r, s)" and "chain_history es (r, s) = Some x"
  shows "seq_history (map sg_fn (cr_fns r)) (cr_error_handler r) (map seq_event_of es) (phase_of r, s)
      = Some (map_sum id (map_prod phase_of id) x)
    \<and> (\<forall>r' s'. x = Inr (r', s') \<longrightarrow> in_order r' \<and> cr_fns r' = cr_fns r)"
  using assms
proof (induction es arbitrary: r s)
  case Nil
  then show ?case by auto
next
  case (Cons ev es)
  obtain y where y: "chain_deliver ev (r, s) = Some y" using Cons.prems(4) by (cases "chain_deliver ev (r, s)") simp_all
  have o: "\<forall>N v. ev = Continue N v \<longrightarrow> N - 1 \<notin> fst ` set (cr_calls r)"
    using Cons.prems(3) by (cases ev) simp_all
  note d = deliver_seq [OF Cons.prems(1,2) o y]
  show ?case
  proof (cases y)
    case (Inl t)
    then have "x = Inl t" using y Cons.prems(4) by simp
    then show ?thesis using conjunct1 [OF d] Inl by simp
  next
    case (Inr st)
    obtain r1 s1 where st: "st = (r1, s1)" by (cases st)
    have i: "in_order r1" "cr_fns r1 = cr_fns r" "cr_error_handler r1 = cr_error_handler r" using d Inr st by auto
    have h: "orderly es (r1, s1)" "chain_history es (r1, s1) = Some x" using Cons.prems(3,4) y Inr st by simp_all
    have "\<forall>st \<in> set (cr_fns r1). continues_once (sg_fn st)" using Cons.prems(2) i(2) by simp
    note ih = Cons.IH [OF i(1) this h, unfolded i(2,3)]
    have "seq_history (map sg_fn (cr_fns r)) (cr_error_handler r) (map seq_event_of (ev # es)) (phase_of r, s)
        = Some (map_sum id (map_prod phase_of id) x)"
      using conjunct1 [OF d] conjunct1 [OF ih] by (simp add: Inr st id_def)
    then show ?thesis using conjunct2 [OF ih] by blast
  qed
qed

lemma run_chain_starts:
  assumes "run_chain c args = Some r"
  shows "in_order r" "cr_fns r = tc_fns c" "cr_error_handler r = tc_error_handler c"
    "phase_of r = At_stage (length (tc_fns c) - 1) args"
proof -
  let ?r = "\<lparr>cr_fns = tc_fns c, cr_error_handler = tc_error_handler c, cr_posted = [], cr_held = [], cr_calls = []\<rparr>"
  have c: "tc_fns c \<noteq> []" "r = chain_call (length (tc_fns c) - 1) args ?r"
    using assms by (auto simp: run_chain_def split: if_splits)
  then have "[length (tc_fns c) - 1..<length (tc_fns c)] = [length (tc_fns c) - 1]" by (simp add: upt_rec)
  then have "called_down_to (length (tc_fns c) - 1) r" using c by (auto simp: called_down_to_def)
  then show "in_order r" using c by (auto simp: in_order_def)
  show "cr_fns r = tc_fns c" "cr_error_handler r = tc_error_handler c"
    "phase_of r = At_stage (length (tc_fns c) - 1) args" using c by (simp_all add: phase_of_def)
qed


text \<open>
  A handler of errors only counts if it is set last: \<^verbatim>\<open>then\<close> makes a chain with the handler that throws, so an error code that
  a function throws ends the server.
\<close>

theorem early_error_handler_lost:
  assumes "f v s = (Inl (Thrown_code ec), s')"
    and "run_chain (chain_then b (Plain g) (chain_on_error h (chain_then b' (Plain f) (make_async_chain e)))) v = Some r"
  shows "chain_history [Run_posted (case b' of None \<Rightarrow> e | Some e' \<Rightarrow> e')] (r, s) = Some (Inl (Thrown_code ec))"
  using assms
  by (cases b') (auto simp: run_chain_def chain_then_def then_impl_def chain_on_error_def make_async_chain_def chain_call_def
      extract_one stage_body_def catch_code_def throw_code_def)

section \<open>The chains of the handlers\<close>

text \<open>
  What the chains of the handlers do to the world: programs are started, and replies are sent. The arguments of a function
  are \<open>None\<close> if there are none.
\<close>

record chain_world =
  cn_started :: "string list list"
  cn_replies :: "ws_reply list"

definition reply_stage :: "('a \<Rightarrow> ws_reply list) \<Rightarrow> ('a option, chain_world) stage_fn" where
  "reply_stage f = Plain (\<lambda>v w. case v of
     None \<Rightarrow> (Inl Thrown_other, w)
   | Some x \<Rightarrow> (Inr None, w\<lparr>cn_replies := cn_replies w @ f x\<rparr>))"

text \<open>
  The task of a cron program: it continues at once if there is no such job; otherwise the program is started with its
  arguments, and the continuation is kept for its end.
\<close>

definition task_stage :: "'a task \<Rightarrow> ('a option, chain_world) stage_fn" where
  "task_stage t = Async (\<lambda>cb v w. case task_args t of
     None \<Rightarrow> (case task_result t Start_failed of None \<Rightarrow> ([], None, w) | Some x \<Rightarrow> ([Some x], None, w))
   | Some args \<Rightarrow> ([], None, w\<lparr>cn_started := cn_started w @ [args]\<rparr>))"

definition cron_chain :: "'e \<Rightarrow> 'e \<Rightarrow> 'a task \<Rightarrow> ('a \<Rightarrow> ws_reply) \<Rightarrow> ('e, 'a option, chain_world) task_chain" where
  "cron_chain ex ioc t f =
     chain_then None (reply_stage (\<lambda>x. [f x])) (chain_then (Some ioc) (task_stage t) (make_async_chain ex))"

text \<open>
  A program that is run for a reply: without arguments nothing is started, and there is a result all the same; a program that
  could not be started has none.
\<close>

locale asked_program =
  fixes task :: "'a task"
  assumes known_at_once: "task_args task = None \<Longrightarrow> \<exists>x. \<forall>e. task_result task e = Some x"
begin

definition answers_by :: "process_end \<Rightarrow> ('a option, chain_world) seq_event \<Rightarrow> bool" where
  "answers_by pe ev \<longleftrightarrow> (case ev of
     Go \<Rightarrow> True
   | Answer v \<Rightarrow> task_args task \<noteq> None \<and> v \<noteq> None \<and> v = task_result task pe
   | Other g \<Rightarrow> \<forall>w. cn_replies (g w) = cn_replies w)"

lemma last_stage:
  assumes "\<forall>ev \<in> set es. answers_by pe ev" and "p = Over \<or> p = At_stage 0 (Some x)" and "task_result task pe = Some x"
    and "cn_replies w = (if p = Over then [f x] else [])"
    and "seq_history [reply_stage (\<lambda>x. [f x]), task_stage task] throw_code es (p, w) = Some y"
  shows "\<exists>p' w'. y = Inr (p', w') \<and> (p' = Over \<or> p' = At_stage 0 (Some x)) \<and> cn_replies w' = (if p' = Over then [f x] else [])"
  using assms
proof (induction es arbitrary: p w)
  case Nil
  then show ?case by auto
next
  case (Cons ev es)
  note ih = Cons.IH [OF _ _ Cons.prems(3)]
  show ?case
  proof (cases ev)
    case Go
    then have p: "p = At_stage 0 (Some x)" using Cons.prems(2,5) by auto
    show ?thesis
      by (rule ih [of Over "w\<lparr>cn_replies := cn_replies w @ [f x]\<rparr>"])
        (use Cons.prems p Go in \<open>simp_all add: seq_stage_def reply_stage_def seq_next_def\<close>)
  next
    case (Answer v)
    then show ?thesis using Cons.prems(2,5) by auto
  next
    case (Other g)
    show ?thesis
      by (rule ih [of p "g w"]) (use Cons.prems Other in \<open>auto simp: answers_by_def\<close>)
  qed
qed

lemma program_chain:
  assumes "\<forall>ev \<in> set es. answers_by pe ev" and "cn_replies w = []" and "p = At_stage 1 None \<or> p = Waiting 1 \<and> task_args task \<noteq> None"
    and "seq_history [reply_stage (\<lambda>x. [f x]), task_stage task] throw_code es (p, w) = Some y"
  shows "\<exists>p' w'. y = Inr (p', w') \<and> cn_replies w' = (if p' = Over then task_replies True task pe f else [])"
  using assms
proof (induction es arbitrary: p w)
  case Nil
  then show ?case by auto
next
  case (Cons ev es)
  note ih = Cons.IH
  have rest: "\<forall>ev \<in> set es. answers_by pe ev" using Cons.prems(1) by simp
  note last = last_stage [OF rest]
  show ?case
  proof (cases ev)
    case Go
    then have p: "p = At_stage 1 None" using Cons.prems(3,4) by auto
    show ?thesis
    proof (cases "task_args task")
      case None
      then obtain x where x: "\<forall>e. task_result task e = Some x" using known_at_once by blast
      have "seq_history [reply_stage (\<lambda>x. [f x]), task_stage task] throw_code es (At_stage 0 (Some x), w) = Some y"
        using Cons.prems(4) p Go None x by (simp add: seq_stage_def task_stage_def seq_thrown_def seq_next_def)
      from last [OF _ _ _ this] show ?thesis using x Cons.prems(2) by (auto simp: task_replies_def)
    next
      case (Some args)
      have "seq_history [reply_stage (\<lambda>x. [f x]), task_stage task] throw_code es
          (Waiting 1, w\<lparr>cn_started := cn_started w @ [args]\<rparr>) = Some y"
        using Cons.prems(4) p Go Some by (simp add: seq_stage_def task_stage_def seq_thrown_def)
      from ih [OF rest _ _ this] show ?thesis using Cons.prems(2) Some by simp
    qed
  next
    case (Answer v)
    have "answers_by pe ev" using Cons.prems(1) by simp
    then have v: "v \<noteq> None" "v = task_result task pe" unfolding Answer answers_by_def seq_event.case by blast+
    then obtain x where x: "v = Some x" by blast
    then have x: "v = Some x" "task_result task pe = Some x" using v(2) by simp_all
    have p: "p = Waiting 1" using Answer Cons.prems(3,4) by auto
    have "seq_history [reply_stage (\<lambda>x. [f x]), task_stage task] throw_code es (At_stage 0 (Some x), w) = Some y"
      using Cons.prems(4) p Answer x by simp
    from last [OF _ x(2) _ this] show ?thesis using x(2) Cons.prems(2) by (auto simp: task_replies_def)
  next
    case (Other g)
    have "seq_history [reply_stage (\<lambda>x. [f x]), task_stage task] throw_code es (p, g w) = Some y"
      using Cons.prems(4) Other by simp
    from ih [OF rest _ Cons.prems(3) this] show ?thesis using Cons.prems(1,2) Other by (simp add: answers_by_def)
  qed
qed

lemma task_once: "continues_once (task_stage task)"
  by (simp add: continues_once_def task_stage_def split: option.split)

lemma chain_replies:
  assumes "run_chain (cron_chain ex ioc task f) None = Some r" and "orderly es (r, w)" and "cn_replies w = []"
    and "\<forall>ev \<in> set es. answers_by pe (seq_event_of ev)" and "chain_history es (r, w) = Some x"
  shows "\<exists>r' w'. x = Inr (r', w') \<and> cn_replies w' = (if phase_of r' = Over then task_replies True task pe f else [])"
proof -
  let ?c = "cron_chain ex ioc task f"
  have c: "map sg_fn (tc_fns ?c) = [reply_stage (\<lambda>x. [f x]), task_stage task]" "tc_error_handler ?c = throw_code"
      "length (tc_fns ?c) - 1 = 1"
    by (simp_all add: cron_chain_def chain_then_def then_impl_def make_async_chain_def)
  note r = run_chain_starts [OF assms(1)]
  have once: "\<forall>st \<in> set (cr_fns r). continues_once (sg_fn st)"
    using task_once unfolding r(2)
    by (simp add: cron_chain_def chain_then_def then_impl_def make_async_chain_def continues_once_def reply_stage_def)
  note s = conjunct1 [OF history_seq [OF r(1) once assms(2,5), unfolded r(2,3,4) c]]
  have "\<forall>ev \<in> set (map seq_event_of es). answers_by pe ev" using assms(4) by simp
  from program_chain [OF this assms(3) _ s] show ?thesis by (cases x) (auto simp: map_prod_def split: prod.splits)
qed

end

interpretation cron: asked_program "cron_task flag prj jb expr job" for flag prj jb expr job
  by unfold_locales (auto simp: cron_task_def split: option.splits)

interpretation cron_list: asked_program "list_cron mask out" for mask out
  by unfold_locales (simp add: list_cron_def)

text \<open>
  The replies to a request that changes the cron entries: whatever the order of events, nothing is sent before the chain is
  over, and then exactly the replies of the handler. \<^verbatim>\<open>list_cron\<close> is the same.
\<close>

theorem cron_chain_replies:
  assumes "run_chain (cron_chain ex ioc (cron_task flag prj jb expr job) f) None = Some r" and "orderly es (r, w)" and "cn_replies w = []"
    and "\<forall>ev \<in> set es. cron.answers_by flag prj jb expr job pe (seq_event_of ev)" and "chain_history es (r, w) = Some x"
  shows "\<exists>r' w'. x = Inr (r', w')
    \<and> cn_replies w' = (if phase_of r' = Over then task_replies True (cron_task flag prj jb expr job) pe f else [])"
  by (rule cron.chain_replies [OF assms])

text \<open>
  The task of a job: if there is no such job, it continues at once with a failure; otherwise the job is started, and its reports
  follow.
\<close>

definition no_such_job :: execution_info where
  "no_such_job = \<lparr>xi_success = False, xi_exit_code = Some (-1), xi_exit_message = None, xi_session_id = None\<rparr>"

definition job_stage :: "bool \<Rightarrow> string list \<Rightarrow> (execution_info option, chain_world) stage_fn" where
  "job_stage found args = Async (\<lambda>cb v w.
     if found then ([], None, w\<lparr>cn_started := cn_started w @ [args]\<rparr>) else ([Some no_such_job], None, w))"

definition job_chain :: "'e \<Rightarrow> 'e \<Rightarrow> bool \<Rightarrow> string list \<Rightarrow> ('e, execution_info option, chain_world) task_chain" where
  "job_chain ex ioc found args =
     chain_then None (reply_stage (\<lambda>info. job_event_replies (Job_finished info)))
       (chain_then (Some ioc) (job_stage found args) (make_async_chain ex))"

text \<open>What a report does: the start is told to the client at once, the end continues the chain.\<close>

definition report :: "job_event \<Rightarrow> ('e, execution_info option, chain_world) chain_event" where
  "report e = (case e of
     Job_finished info \<Rightarrow> Continue 1 (Some info)
   | _ \<Rightarrow> Elsewhere (\<lambda>w. w\<lparr>cn_replies := cn_replies w @ job_event_replies e\<rparr>))"

definition awaited :: "execution_info option chain_phase \<Rightarrow> ws_reply list" where
  "awaited p = (case p of At_stage 0 (Some info) \<Rightarrow> job_event_replies (Job_finished info) | _ \<Rightarrow> [])"

definition is_go :: "('v, 's) seq_event \<Rightarrow> bool" where
  "is_go ev \<longleftrightarrow> (case ev of Go \<Rightarrow> True | _ \<Rightarrow> False)"

fun ends_last :: "job_event list \<Rightarrow> bool" where
  "ends_last [] \<longleftrightarrow> True"
| "ends_last (e # es) \<longleftrightarrow> (case e of Job_finished _ \<Rightarrow> es = [] | _ \<Rightarrow> ends_last es)"

lemma awaited_simps [simp]:
  "awaited Over = []" "awaited (Waiting n) = []" "awaited (At_stage 1 v) = []" "awaited (At_stage (Suc 0) v) = []"
  "awaited (At_stage 0 (Some info)) = job_event_replies (Job_finished info)" "awaited (At_stage 0 None) = []"
  by (simp_all add: awaited_def)

lemma no_such_job_silent: "job_event_replies (Job_finished no_such_job) = []"
  by (simp add: job_event_replies_def no_such_job_def)

lemma job_chain_seq:
  assumes "filter (\<lambda>ev. \<not> is_go ev) es = map (\<lambda>e. seq_event_of (report e :: ('e, _, _) chain_event)) evs" and "ends_last evs"
    and "p \<in> {At_stage 1 None, Waiting 1, Over} \<or> (\<exists>info. p = At_stage 0 (Some info))" and "awaited p = [] \<or> evs = []"
    and "seq_history [reply_stage (\<lambda>info. job_event_replies (Job_finished info)), job_stage found args] throw_code es (p, w) = Some y"
  shows "\<exists>p' w'. y = Inr (p', w')
    \<and> cn_replies w' @ awaited p' = cn_replies w @ awaited p @ concat (map job_event_replies evs)"
  using assms
proof (induction es arbitrary: p w evs)
  case Nil
  then show ?case by auto
next
  case (Cons ev es)
  let ?fns = "[reply_stage (\<lambda>info. job_event_replies (Job_finished info)), job_stage found args]"
  show ?case
  proof (cases ev)
    case Go
    then have e: "filter (\<lambda>ev. \<not> is_go ev) es = map (\<lambda>e. seq_event_of (report e :: ('e, _, _) chain_event)) evs"
      using Cons.prems(1) by (simp add: is_go_def)
    note ih = Cons.IH [OF e Cons.prems(2)]
    consider "p = At_stage 1 None" | info where "p = At_stage 0 (Some info)" using Cons.prems(3,5) Go by auto
    then show ?thesis
    proof cases
      case 1
      show ?thesis
      proof (cases found)
        case True
        have "seq_history ?fns throw_code es (Waiting 1, w\<lparr>cn_started := cn_started w @ [args]\<rparr>) = Some y"
          using Cons.prems(5) Go 1 True by (simp add: seq_stage_def job_stage_def seq_thrown_def)
        from ih [OF _ _ this] show ?thesis using 1 by simp
      next
        case False
        have "seq_history ?fns throw_code es (At_stage 0 (Some no_such_job), w) = Some y"
          using Cons.prems(5) Go 1 False by (simp add: seq_stage_def job_stage_def seq_thrown_def seq_next_def)
        from ih [OF _ _ this] show ?thesis using 1 by (simp add: no_such_job_silent)
      qed
    next
      case 2
      have "seq_history ?fns throw_code es
          (Over, w\<lparr>cn_replies := cn_replies w @ job_event_replies (Job_finished info)\<rparr>) = Some y"
        using Cons.prems(5) Go 2 by (simp add: seq_stage_def reply_stage_def seq_next_def)
      from ih [OF _ _ this] show ?thesis using 2 by simp
    qed
  next
    case (Answer v)
    then obtain e evs' where evs: "evs = e # evs'" "seq_event_of (report e :: ('e, _, _) chain_event) = Answer v"
      "filter (\<lambda>ev. \<not> is_go ev) es = map (\<lambda>e. seq_event_of (report e :: ('e, _, _) chain_event)) evs'"
      using Cons.prems(1) by (cases evs) (auto simp: is_go_def)
    then obtain info where info: "e = Job_finished info" "v = Some info"
      by (auto simp: report_def seq_event_of_def split: job_event.splits)
    then have "evs' = []" using Cons.prems(2) evs(1) by simp
    have p: "p = Waiting 1" using Cons.prems(3,5) Answer by auto
    have "seq_history ?fns throw_code es (At_stage 0 (Some info), w) = Some y" using Cons.prems(5) Answer p info by simp
    from Cons.IH [OF evs(3) _ _ _ this] show ?thesis using \<open>evs' = []\<close> p evs(1) info by simp
  next
    case (Other g)
    then obtain e evs' where evs: "evs = e # evs'" "seq_event_of (report e :: ('e, _, _) chain_event) = Other g"
      "filter (\<lambda>ev. \<not> is_go ev) es = map (\<lambda>e. seq_event_of (report e :: ('e, _, _) chain_event)) evs'"
      using Cons.prems(1) by (cases evs) (auto simp: is_go_def)
    then have g: "g = (\<lambda>w. w\<lparr>cn_replies := cn_replies w @ job_event_replies e\<rparr>)" and last: "ends_last evs'"
      using Cons.prems(2) by (auto simp: report_def seq_event_of_def split: job_event.splits)
    have "seq_history ?fns throw_code es (p, g w) = Some y" using Cons.prems(5) Other by simp
    from Cons.IH [OF evs(3) last Cons.prems(3) _ this] show ?thesis using Cons.prems(4) evs(1) g by auto
  qed
qed

text \<open>
  C34. The replies to a request that runs a job: if the reports of the job arrive in order and the end comes last, then, whenever nothing
  is left to run, the client was sent exactly the replies to these reports, in this order.
\<close>

theorem job_chain_replies:
  assumes "run_chain (job_chain ex ioc found args) None = Some r" and "orderly es (r, w)" and "cn_replies w = []"
    and "filter (\<lambda>ev. \<not> is_go (seq_event_of ev)) es = map report evs" and "ends_last evs"
    and "chain_history es (r, w) = Some x"
  shows "\<exists>r' w'. x = Inr (r', w') \<and> (cr_posted r' = [] \<longrightarrow> cn_replies w' = concat (map job_event_replies evs))"
proof -
  let ?c = "job_chain ex ioc found args"
  have c: "map sg_fn (tc_fns ?c) = [reply_stage (\<lambda>info. job_event_replies (Job_finished info)), job_stage found args]"
      "tc_error_handler ?c = throw_code" "length (tc_fns ?c) - 1 = 1"
    by (simp_all add: job_chain_def chain_then_def then_impl_def make_async_chain_def)
  note r = run_chain_starts [OF assms(1)]
  have once: "\<forall>st \<in> set (cr_fns r). continues_once (sg_fn st)"
    unfolding r(2)
    by (simp add: job_chain_def chain_then_def then_impl_def make_async_chain_def continues_once_def reply_stage_def job_stage_def)
  note h = history_seq [OF r(1) once assms(2,6), unfolded r(2,3,4) c]
  have "filter (\<lambda>ev. \<not> is_go ev) (map seq_event_of es) = map seq_event_of (filter (\<lambda>ev. \<not> is_go (seq_event_of ev)) es)"
    by (induction es) simp_all
  also have "\<dots> = map (\<lambda>e. seq_event_of (report e :: ('a, _, _) chain_event)) evs" unfolding assms(4) by simp
  finally obtain p' w' where y: "map_sum id (map_prod phase_of id) x = Inr (p', w')"
      "cn_replies w' @ awaited p' = concat (map job_event_replies evs)"
    using job_chain_seq [OF _ assms(5) _ _ conjunct1 [OF h]] assms(3) by auto
  then obtain r' where x: "x = Inr (r', w')" "p' = phase_of r'" by (cases x) (auto simp: map_prod_def split: prod.splits)
  have "awaited p' = []" if "cr_posted r' = []" using that unfolding x(2) phase_of_def by (simp add: Let_def)
  then show ?thesis using x y(2) by auto
qed

section \<open>Examples\<close>

definition chain_world_new :: chain_world where
  "chain_world_new = \<lparr>cn_started = [], cn_replies = []\<rparr>"

text \<open>A job that is started, reports its session and ends with the code 0.\<close>

definition job_reports_example :: "job_event list" where
  "job_reports_example = [Session_started ''s'', Session_finished ''s'', Job_finished
     \<lparr>xi_success = True, xi_exit_code = Some 0, xi_exit_message = None, xi_session_id = Some ''s''\<rparr>]"

definition job_events_example :: "(nat, execution_info option, chain_world) chain_event list" where
  "job_events_example = Run_posted 0 # map report job_reports_example @ [Run_posted 1]"

definition job_chain_example :: "(nat, execution_info option, chain_world) chain_run" where
  "job_chain_example = the (run_chain (job_chain 1 0 True [''prj/job'']) None)"

lemma job_chain_example:
  "run_chain (job_chain 1 0 True [''prj/job'']) None = Some job_chain_example"
  "orderly job_events_example (job_chain_example, chain_world_new)"
  "\<exists>r w. chain_history job_events_example (job_chain_example, chain_world_new) = Some (Inr (r, w)) \<and> cr_posted r = []"
proof -
  show "run_chain (job_chain 1 0 True [''prj/job'']) None = Some job_chain_example"
    by (simp add: job_chain_example_def run_chain_def job_chain_def chain_then_def then_impl_def)
  show "orderly job_events_example (job_chain_example, chain_world_new)" by code_simp
  have "case chain_history job_events_example (job_chain_example, chain_world_new) of Some (Inr (r, w)) \<Rightarrow> cr_posted r = [] | _ \<Rightarrow> False"
    by code_simp
  then show "\<exists>r w. chain_history job_events_example (job_chain_example, chain_world_new) = Some (Inr (r, w)) \<and> cr_posted r = []"
    by (auto split: option.splits sum.splits)
qed

theorem job_chain_replies_witness:
  "\<exists>r w. chain_history job_events_example (job_chain_example, chain_world_new) = Some (Inr (r, w))
     \<and> cn_replies w = concat (map job_event_replies job_reports_example)"
proof -
  obtain r w where h: "chain_history job_events_example (job_chain_example, chain_world_new) = Some (Inr (r, w))" "cr_posted r = []"
    using job_chain_example(3) by blast
  have f: "filter (\<lambda>ev. \<not> is_go (seq_event_of ev)) job_events_example = map report job_reports_example"
    by (simp add: job_events_example_def job_reports_example_def is_go_def seq_event_of_def report_def)
  have "ends_last job_reports_example" "cn_replies chain_world_new = []"
    by (simp_all add: job_reports_example_def chain_world_new_def)
  from job_chain_replies [OF job_chain_example(1,2) this(2) f this(1) h(1)] show ?thesis using h by auto
qed


theorem early_error_handler_lost_witness:
  "\<exists>r. run_chain (chain_then None (Plain (\<lambda>v s. (Inr v, s)) :: (unit, unit) stage_fn)
        (chain_on_error (\<lambda>ec s. (None, s)) (chain_then None (Plain (\<lambda>v s. (Inl (Thrown_code 8), s))) (make_async_chain (0 :: nat))))) () = Some r
     \<and> chain_history [Run_posted 0] (r, ()) = Some (Inl (Thrown_code 8))"
proof -
  let ?c = "chain_then None (Plain (\<lambda>v s. (Inr v, s)) :: (unit, unit) stage_fn)
    (chain_on_error (\<lambda>ec s. (None, s)) (chain_then None (Plain (\<lambda>v s. (Inl (Thrown_code 8), s))) (make_async_chain (0 :: nat))))"
  obtain r where r: "run_chain ?c () = Some r" by (simp add: run_chain_def chain_then_def then_impl_def)
  from early_error_handler_lost [where f = "\<lambda>v s. (Inl (Thrown_code 8), s)" and s = "()" and s' = "()" and ec = 8, OF refl r]
  show ?thesis using r by simp
qed

text \<open>An entry is added for a job that is there, and the program ends well.\<close>

definition cron_add_example :: "bool task" where
  "cron_add_example = cron_task ''--add'' ''prj'' ''job'' ''* * * * *'' (Some \<lparr>job_it = cache_end, job_script = [], job_keep_successful = 0, job_keep_broken = 0, job_params = []\<rparr>)"

definition cron_replies_example :: "bool \<Rightarrow> ws_reply" where
  "cron_replies_example success = (if success then Send cis_cron_add_success else Send_error_msg ''Can't add cron.'')"

definition cron_chain_example :: "(nat, bool option, chain_world) chain_run" where
  "cron_chain_example = the (run_chain (cron_chain 1 0 cron_add_example cron_replies_example) None)"

theorem cron_chain_replies_witness:
  "\<exists>r w. chain_history [Run_posted 0, Continue 1 (Some True), Run_posted 1] (cron_chain_example, chain_world_new) = Some (Inr (r, w))
     \<and> cn_started w = [[''--add'', ''* * * * *'', ''prj/job'']] \<and> cn_replies w = [Send cis_cron_add_success]"
proof -
  let ?es = "[Run_posted 0, Continue 1 (Some True), Run_posted 1] :: (nat, bool option, chain_world) chain_event list"
  let ?job = "Some \<lparr>job_it = cache_end, job_script = [], job_keep_successful = 0, job_keep_broken = 0, job_params = []\<rparr>"
  have r: "run_chain (cron_chain 1 0 (cron_task ''--add'' ''prj'' ''job'' ''* * * * *'' ?job) cron_replies_example) None = Some cron_chain_example"
    by (simp add: cron_chain_example_def cron_add_example_def run_chain_def cron_chain_def chain_then_def then_impl_def)
  have o: "orderly ?es (cron_chain_example, chain_world_new)" by code_simp
  have "case chain_history ?es (cron_chain_example, chain_world_new) of Some (Inr (r, w)) \<Rightarrow>
      (case phase_of r of Over \<Rightarrow> True | _ \<Rightarrow> False) \<and> cn_started w = [[''--add'', ''* * * * *'', ''prj/job'']] | _ \<Rightarrow> False" by code_simp
  then obtain r' w' where h: "chain_history ?es (cron_chain_example, chain_world_new) = Some (Inr (r', w'))"
    "phase_of r' = Over" "cn_started w' = [[''--add'', ''* * * * *'', ''prj/job'']]"
    by (auto split: option.splits sum.splits chain_phase.splits)
  have t: "task_result (cron_task ''--add'' ''prj'' ''job'' ''* * * * *'' ?job) (Exited 0 False) = Some True"
    "task_args (cron_task ''--add'' ''prj'' ''job'' ''* * * * *'' ?job) \<noteq> None"
    by (simp_all add: cron_task_def child_process_run_def)
  have "\<forall>ev \<in> set ?es. cron.answers_by ''--add'' ''prj'' ''job'' ''* * * * *'' ?job (Exited 0 False) (seq_event_of ev)"
    using t by (simp add: cron.answers_by_def seq_event_of_def)
  from cron_chain_replies [OF r o _ this h(1)] show ?thesis
    using h t by (auto simp: chain_world_new_def task_replies_def cron_replies_example_def)
qed

end
