(* ===== verification/Child_Process.thy ===== *)
theory Child_Process
  imports Task_Chain "HOL-Library.Sublist"
begin

text \<open>
  Programs and their pipes (\<^verbatim>\<open>include/child_process.h\<close>, \<^verbatim>\<open>src/child_process.cpp\<close>): the writer of the input, the reader of the
  whole output, and the process, with the list of cron entries as the program that is read. The reader of lines is part of
  \<^verbatim>\<open>Cis_Job\<close>.

  The lemmas: the input arrives whole and the pipe is closed behind it; the list of entries is the one of \<^verbatim>\<open>Cis_Manager\<close> if the
  output is read before the process is waited for.
\<close>

section \<open>Writing the input\<close>

text \<open>A writer: its buffer, how much of it was written, and the pipe, with what is in it. A write is under way, or not.\<close>

record buffer_writer =
  bw_buffer :: string
  bw_total :: nat
  bw_writing :: bool
  bw_pipe :: string
  bw_closed :: bool

definition buffer_writer_new :: "string \<Rightarrow> buffer_writer" where
  "buffer_writer_new buffer = \<lparr>bw_buffer = buffer, bw_total = 0, bw_writing = False, bw_pipe = [], bw_closed = False\<rparr>"

definition write_buffer :: "buffer_writer \<Rightarrow> buffer_writer" where
  "write_buffer w = w\<lparr>bw_writing := True\<rparr>"

text \<open>The completion of \<^verbatim>\<open>async_write\<close>: an error, or so many of the bytes that were left.\<close>

definition on_written :: "bool \<Rightarrow> nat \<Rightarrow> buffer_writer \<Rightarrow> buffer_writer" where
  "on_written ec n w =
     (let w = w\<lparr>bw_writing := False, bw_pipe := bw_pipe w @ take n (drop (bw_total w) (bw_buffer w))\<rparr>
      in if ec then w
         else (let w = w\<lparr>bw_total := bw_total w + n\<rparr>
               in if bw_total w < length (bw_buffer w) then write_buffer w else w\<lparr>bw_closed := True\<rparr>))"

fun writer_history :: "(bool \<times> nat) list \<Rightarrow> buffer_writer \<Rightarrow> buffer_writer option" where
  "writer_history [] w = Some w"
| "writer_history ((ec, n) # es) w =
     (if bw_writing w \<and> n \<le> length (bw_buffer w) - bw_total w then writer_history es (on_written ec n w) else None)"

lemma on_written_inv:
  assumes "bw_pipe w = take (bw_total w) (bw_buffer w)" "bw_total w \<le> length (bw_buffer w)" "n \<le> length (bw_buffer w) - bw_total w"
  shows "bw_buffer (on_written ec n w) = bw_buffer w \<and> prefix (bw_pipe (on_written ec n w)) (bw_buffer w)
    \<and> (\<not> ec \<longrightarrow> bw_pipe (on_written ec n w) = take (bw_total (on_written ec n w)) (bw_buffer w)
         \<and> bw_total (on_written ec n w) \<le> length (bw_buffer w) \<and> bw_total (on_written ec n w) = bw_total w + n
         \<and> (if bw_total w + n < length (bw_buffer w) then bw_writing (on_written ec n w) \<and> bw_closed (on_written ec n w) = bw_closed w
            else bw_closed (on_written ec n w) \<and> \<not> bw_writing (on_written ec n w)))
    \<and> (ec \<longrightarrow> \<not> bw_writing (on_written ec n w) \<and> bw_closed (on_written ec n w) = bw_closed w)"
proof -
  have "bw_pipe w @ take n (drop (bw_total w) (bw_buffer w)) = take (bw_total w + n) (bw_buffer w)"
    unfolding assms(1) by (simp add: take_add)
  then show ?thesis using assms(2,3) by (auto simp: on_written_def write_buffer_def Let_def take_is_prefix)
qed

lemma writer_history_inv:
  assumes "writer_history es w = Some w'" and "bw_pipe w = take (bw_total w) (bw_buffer w)" and "bw_total w \<le> length (bw_buffer w)"
    and "bw_writing w" and "\<not> bw_closed w"
  shows "prefix (bw_pipe w') (bw_buffer w) \<and> (bw_closed w' \<longrightarrow> bw_pipe w' = bw_buffer w)
    \<and> (\<not> bw_writing w' \<and> \<not> bw_closed w' \<longrightarrow> (\<exists>e \<in> set es. fst e))
    \<and> ((\<forall>e \<in> set es. \<not> fst e) \<longrightarrow> bw_total w' = bw_total w + sum_list (map snd es))"
  using assms
proof (induction es arbitrary: w)
  case Nil
  then show ?case by (simp add: take_is_prefix)
next
  case (Cons e es)
  obtain ec n where e: "e = (ec, n)" by (cases e)
  then have h: "n \<le> length (bw_buffer w) - bw_total w" "writer_history es (on_written ec n w) = Some w'"
    using Cons.prems(1) by (auto split: if_splits)
  note inv = on_written_inv [OF Cons.prems(2,3) h(1), of ec]
  show ?case
  proof (cases "bw_writing (on_written ec n w)")
    case True
    then have "\<not> ec" using inv by (cases ec) simp_all
    then have "\<not> ec" "bw_total w + n < length (bw_buffer w)"
      using inv True by (cases "bw_total w + n < length (bw_buffer w)"; simp)+
    then show ?thesis using Cons.IH [OF h(2)] True inv Cons.prems(5) e by auto
  next
    case False
    then have es: "es = []" "w' = on_written ec n w" using h(2) by (cases es; force)+
    then show ?thesis using False inv Cons.prems(5) e by (cases ec) (auto split: if_splits)
  qed
qed

text \<open>
  The input of a program is written in order and whole, however the system cuts it into writes: what is in the pipe is always a
  beginning of the buffer, the pipe is closed exactly behind the whole of it, and only an error leaves it open.
\<close>

theorem input_written_whole:
  assumes "writer_history es (write_buffer (buffer_writer_new (make_interactive_args_buffer args))) = Some w"
  shows "prefix (bw_pipe w) (make_interactive_args_buffer args) \<and> (bw_closed w \<longrightarrow> bw_pipe w = make_interactive_args_buffer args)
    \<and> (\<not> bw_writing w \<and> \<not> bw_closed w \<longrightarrow> (\<exists>e \<in> set es. fst e))"
  using writer_history_inv [OF assms] by (simp add: write_buffer_def buffer_writer_new_def)

section \<open>The process\<close>

record child_process =
  cp_program :: string
  cp_environment :: "(string \<times> string) list"
  cp_start_dir :: string
  cp_args :: "string list option"
  cp_exit_code :: "int option"
  cp_finished :: bool

definition child_process_new :: "(string \<times> string) list \<Rightarrow> string \<Rightarrow> string \<Rightarrow> child_process" where
  "child_process_new env start_dir program =
     \<lparr>cp_program = program, cp_environment = env, cp_start_dir = start_dir, cp_args = None, cp_exit_code = None, cp_finished = False\<rparr>"

text \<open>Whether the program starts is up to the system; the exception for one that does not is only printed.\<close>

definition child_start :: "bool \<Rightarrow> string list \<Rightarrow> child_process \<Rightarrow> child_process" where
  "child_start starts args p = (if starts then p\<lparr>cp_args := Some args\<rparr> else p)"

text \<open>The end: the callback that is called, if there are callbacks.\<close>

definition child_on_exit :: "('a \<times> 'a) option \<Rightarrow> int \<Rightarrow> bool \<Rightarrow> child_process \<Rightarrow> 'a option \<times> child_process" where
  "child_on_exit callbacks code ec p =
     (let p = p\<lparr>cp_exit_code := Some code, cp_finished := True\<rparr>
      in case callbacks of
           None \<Rightarrow> (None, p)
         | Some (on_success, on_error) \<Rightarrow> (Some (if \<not> ec then on_success else on_error), p))"

section \<open>Reading the cron list\<close>

text \<open>
  The run of \<^verbatim>\<open>list_cron\<close>: the process, the buffer of its reader, the entries that were read, and what the continuation was called
  with.
\<close>

record list_run =
  lr_process :: child_process
  lr_buffer :: string
  lr_reading :: bool
  lr_entries :: "cron_entry list"
  lr_answer :: "(bool \<times> cron_entry list) option"

definition list_run_start :: "bool \<Rightarrow> string \<Rightarrow> child_process \<Rightarrow> list_run" where
  "list_run_start starts wanted p =
     \<lparr>lr_process = child_start starts [''--list'', wanted] p, lr_buffer = [], lr_reading = True, lr_entries = [], lr_answer = None\<rparr>"

text \<open>
  What happens: output; the end of the reading, at the end of the file (or without an error), or with another error, after which
  the reader gives up; the end of the process.
\<close>

datatype list_input = List_output string | List_end bool | List_exit int bool

fun list_step :: "list_input \<Rightarrow> list_run \<Rightarrow> list_run option" where
  "list_step (List_output b) r = (if lr_reading r then Some (r\<lparr>lr_buffer := lr_buffer r @ b\<rparr>) else None)"
| "list_step (List_end at_end) r =
     (if \<not> lr_reading r then None
      else if at_end then Some (r\<lparr>lr_reading := False, lr_entries := lr_entries r @ parse_cron_list (lr_buffer r)\<rparr>)
      else Some (r\<lparr>lr_reading := False\<rparr>))"
| "list_step (List_exit code ec) r =
     (if cp_args (lr_process r) = None \<or> cp_finished (lr_process r) then None
      else (case child_on_exit (Some ((True, lr_entries r), (False, []))) code ec (lr_process r) of
              (a, p) \<Rightarrow> Some (r\<lparr>lr_process := p, lr_answer := a\<rparr>)))"

fun list_steps :: "list_input list \<Rightarrow> list_run \<Rightarrow> list_run option" where
  "list_steps [] r = Some r"
| "list_steps (i # is) r = (case list_step i r of None \<Rightarrow> None | Some r \<Rightarrow> list_steps is r)"

definition list_output :: "list_input list \<Rightarrow> string" where
  "list_output is = concat (map (\<lambda>i. case i of List_output b \<Rightarrow> b | _ \<Rightarrow> []) is)"

lemma list_steps_append: "list_steps (is @ js) r = (case list_steps is r of None \<Rightarrow> None | Some r \<Rightarrow> list_steps js r)"
  by (induction "is" arbitrary: r) (auto split: option.split)

lemma list_read:
  assumes "list_steps is r = Some r'" and "\<forall>code ec. List_exit code ec \<notin> set is" and "List_end False \<notin> set is"
    and "lr_entries r = []" and "lr_reading r"
  shows "lr_process r' = lr_process r \<and> lr_answer r' = lr_answer r
    \<and> (if lr_reading r' then lr_buffer r' = lr_buffer r @ list_output is \<and> lr_entries r' = []
       else lr_entries r' = parse_cron_list (lr_buffer r @ list_output is))"
  using assms
proof (induction "is" arbitrary: r)
  case Nil
  then show ?case by (simp add: list_output_def)
next
  case (Cons i "is")
  show ?case
  proof (cases i)
    case (List_output b)
    then have "list_steps is (r\<lparr>lr_buffer := lr_buffer r @ b\<rparr>) = Some r'" using Cons.prems by simp
    from Cons.IH [OF this] show ?thesis using Cons.prems List_output by (simp add: list_output_def)
  next
    case (List_end at_end)
    then have at_end using Cons.prems(3) by (cases at_end) simp_all
    then have s: "list_steps is (r\<lparr>lr_reading := False, lr_entries := parse_cron_list (lr_buffer r)\<rparr>) = Some r'"
      using Cons.prems List_end by simp
    have "is = []"
    proof (cases "is")
      case (Cons j js)
      then show ?thesis using s Cons.prems(2,3) by (cases j) (auto split: if_splits)
    qed
    then show ?thesis using s List_end by (auto simp: list_output_def)
  next
    case (List_exit code ec)
    moreover have "List_exit code ec \<notin> set (i # is)" using Cons.prems(2) by blast
    ultimately show ?thesis by simp
  qed
qed

text \<open>
  C40. The list of cron entries that a client gets is that of the manager, applied to the whole output of the program, however it
  arrives, if the output was read to its end before the end of the process was seen.
\<close>

theorem cron_list_read:
  assumes "list_steps is (list_run_start starts wanted (child_process_new env dir program)) = Some r" and "\<not> lr_reading r"
    and "\<forall>code ec. List_exit code ec \<notin> set is" and "List_end False \<notin> set is" and "list_step (List_exit code ec) r = Some r'"
  shows "lr_answer r' = task_result (list_cron wanted (list_output is)) (Exited code ec)
    \<and> cp_exit_code (lr_process r') = Some code \<and> cp_args (lr_process r') = task_args (list_cron wanted (list_output is))"
  using list_read [OF assms(1,3,4)] assms(2,5)
  by (auto simp: list_run_start_def child_process_new_def child_start_def child_on_exit_def list_cron_def child_process_run_def
      Let_def split: if_splits)

text \<open>
  If the end of the process is seen first, the client is told that there are no entries, whatever the program wrote.
\<close>

theorem cron_list_lost:
  assumes "list_step (List_exit code False) (list_run_start True wanted (child_process_new env dir program)) = Some r"
    and "list_steps is r = Some r'"
  shows "lr_answer r' = Some (True, [])"
proof -
  have r: "lr_answer r = Some (True, [])" "cp_finished (lr_process r)"
    using assms(1) by (auto simp: list_run_start_def child_on_exit_def Let_def split: if_splits)
  have "lr_answer k' = lr_answer k" if "list_steps is k = Some k'" "cp_finished (lr_process k)" for k k'
    using that
  proof (induction "is" arbitrary: k)
    case (Cons i "is")
    then obtain k1 where k1: "list_step i k = Some k1" "list_steps is k1 = Some k'" by (auto split: option.splits)
    then have "lr_answer k1 = lr_answer k" "cp_finished (lr_process k1)" using Cons.prems(2) by (cases i; auto split: if_splits)+
    then show ?case using Cons.IH [OF k1(2)] by simp
  qed simp
  from this [OF assms(2) r(2)] show ?thesis using r(1) by simp
qed

section \<open>Examples\<close>

theorem input_written_whole_witness:
  "\<exists>w. writer_history [(False, 1), (False, 3)] (write_buffer (buffer_writer_new (make_interactive_args_buffer [''a'', ''b'']))) = Some w
     \<and> bw_pipe w = make_interactive_args_buffer [''a'', ''b'']"
proof -
  let ?w = "write_buffer (buffer_writer_new (make_interactive_args_buffer [''a'', ''b'']))"
  have "case writer_history [(False, 1), (False, 3)] ?w of Some w \<Rightarrow> bw_closed w | None \<Rightarrow> False" by code_simp
  then obtain w where "writer_history [(False, 1), (False, 3)] ?w = Some w" "bw_closed w" by (auto split: option.splits)
  then show ?thesis using input_written_whole by blast
qed

definition list_output_example :: "list_input list" where
  "list_output_example = [List_output ''prj/j'', List_output ''ob * *'', List_end True]"

theorem cron_list_read_witness:
  "\<exists>r r'. list_steps list_output_example (list_run_start True ''*'' (child_process_new [] ''/cis/core'' ''cis_cron'')) = Some r
     \<and> list_step (List_exit 0 False) r = Some r'
     \<and> lr_answer r' = Some (True, [\<lparr>ce_project = ''prj'', ce_job = ''job'', ce_expr = ''* *''\<rparr>])"
proof -
  let ?p = "child_process_new [] ''/cis/core'' ''cis_cron''"
  have "case list_steps list_output_example (list_run_start True ''*'' ?p) of
      Some r \<Rightarrow> \<not> lr_reading r \<and> (case list_step (List_exit 0 False) r of Some r' \<Rightarrow> True | None \<Rightarrow> False) | None \<Rightarrow> False"
    by code_simp
  then obtain r r' where r: "list_steps list_output_example (list_run_start True ''*'' ?p) = Some r" "\<not> lr_reading r"
    "list_step (List_exit 0 False) r = Some r'" by (auto split: option.splits)
  have e: "\<forall>code ec. List_exit code ec \<notin> set list_output_example" "List_end False \<notin> set list_output_example"
    by (simp_all add: list_output_example_def)
  have "task_result (list_cron ''*'' (list_output list_output_example)) (Exited 0 False)
      = Some (True, [\<lparr>ce_project = ''prj'', ce_job = ''job'', ce_expr = ''* *''\<rparr>])" by code_simp
  then show ?thesis using cron_list_read [OF r(1,2) e r(3)] r by auto
qed

theorem cron_list_lost_witness:
  "\<exists>r r'. list_step (List_exit 0 False) (list_run_start True ''*'' (child_process_new [] ''/cis/core'' ''cis_cron'')) = Some r
     \<and> list_steps list_output_example r = Some r' \<and> lr_answer r' = Some (True, [])"
proof -
  let ?s = "list_run_start True ''*'' (child_process_new [] ''/cis/core'' ''cis_cron'')"
  have "case list_step (List_exit 0 False) ?s of
      Some r \<Rightarrow> (case list_steps list_output_example r of Some r' \<Rightarrow> True | None \<Rightarrow> False) | None \<Rightarrow> False" by code_simp
  then obtain r r' where r: "list_step (List_exit 0 False) ?s = Some r" "list_steps list_output_example r = Some r'"
    by (auto split: option.splits)
  show ?thesis using cron_list_lost [OF r] r by blast
qed

end
