(* ===== verification/Listener.thy ===== *)
theory Listener
  imports Http_Router
begin

text \<open>
  The listener of the HTTP server (\<^verbatim>\<open>src/net/listener.cpp\<close>) and what \<^verbatim>\<open>handlers_chain::listen\<close> makes of it. What the
  system answers to the calls on the acceptor is an argument.

  The lemmas: the listener goes on accepting as long as the flag of the acceptor can be set, and then serves every connection;
  the flag is never set on a connection.
\<close>

section \<open>Listening\<close>

text \<open>The calls of \<^verbatim>\<open>listener::listen\<close>, in their order; the first that fails ends it.\<close>

datatype acceptor_call = Acceptor_open | Acceptor_cloexec | Acceptor_reuse | Acceptor_bind | Acceptor_listen

definition listen_calls :: "acceptor_call list" where
  "listen_calls = [Acceptor_open, Acceptor_cloexec, Acceptor_reuse, Acceptor_bind, Acceptor_listen]"

text \<open>
  The state: whether the acceptor is open, marked to be closed when a program is started, and waiting for a connection, and the
  connections that were handed to the server, each with that mark.
\<close>

record 'c listener =
  ln_open :: bool
  ln_cloexec :: bool
  ln_accepting :: bool
  ln_sessions :: "('c \<times> bool) list"

definition listener_new :: "'c listener" where
  "listener_new = \<lparr>ln_open = False, ln_cloexec = False, ln_accepting = False, ln_sessions = []\<rparr>"

fun listen_loop :: "(acceptor_call \<Rightarrow> bool) \<Rightarrow> acceptor_call list \<Rightarrow> 'c listener \<Rightarrow> acceptor_call option \<times> 'c listener" where
  "listen_loop fails [] l = (None, l)"
| "listen_loop fails (c # cs) l =
     (if fails c then (Some c, l)
      else listen_loop fails cs
        (case c of Acceptor_open \<Rightarrow> l\<lparr>ln_open := True\<rparr> | Acceptor_cloexec \<Rightarrow> l\<lparr>ln_cloexec := True\<rparr> | _ \<Rightarrow> l))"

definition listener_listen :: "(acceptor_call \<Rightarrow> bool) \<Rightarrow> 'c listener \<Rightarrow> acceptor_call option \<times> 'c listener" where
  "listener_listen fails = listen_loop fails listen_calls"

definition do_accept :: "'c listener \<Rightarrow> 'c listener" where
  "do_accept l = l\<lparr>ln_accepting := True\<rparr>"

definition listener_run :: "'c listener \<Rightarrow> 'c listener" where
  "listener_run l = (if \<not> ln_open l then l else do_accept l)"

text \<open>
  \<^verbatim>\<open>handlers_chain::listen\<close>: an error of the listener becomes \<^verbatim>\<open>cant_run_http_listener\<close>.
\<close>

definition chain_listen :: "(acceptor_call \<Rightarrow> bool) \<Rightarrow> sys_error + 'c listener" where
  "chain_listen fails =
     (case listener_listen fails listener_new of
        (Some _, l) \<Rightarrow> Inl (make_error_code Cant_run_http_listener)
      | (None, l) \<Rightarrow> Inr (listener_run l))"

section \<open>Accepting\<close>

text \<open>
  What becomes of an accept: an error; or a connection, for which the mark is set, on the acceptor, with or without an error. A
  connection is not marked.
\<close>

datatype 'c accept_end = Accept_failed | Accepted 'c bool

definition on_accept :: "'c accept_end \<Rightarrow> 'c listener \<Rightarrow> 'c listener" where
  "on_accept a l =
     (case a of
        Accept_failed \<Rightarrow> do_accept l
      | Accepted c cloexec_fails \<Rightarrow>
          (if cloexec_fails then l
           else do_accept (l\<lparr>ln_cloexec := True, ln_sessions := ln_sessions l @ [(c, False)]\<rparr>)))"

text \<open>An accept completes if one is outstanding.\<close>

fun listener_history :: "'c accept_end list \<Rightarrow> 'c listener \<Rightarrow> 'c listener option" where
  "listener_history [] l = Some l"
| "listener_history (a # as) l =
     (if ln_accepting l then listener_history as (on_accept a (l\<lparr>ln_accepting := False\<rparr>)) else None)"

section \<open>Connections are served\<close>

definition connections :: "'c accept_end list \<Rightarrow> 'c list" where
  "connections as = concat (map (\<lambda>a. case a of Accepted c _ \<Rightarrow> [c] | Accept_failed \<Rightarrow> []) as)"

lemma chain_listen_accepting:
  "chain_listen fails = Inr l \<Longrightarrow> ln_accepting l \<and> ln_open l \<and> ln_cloexec l \<and> ln_sessions l = []"
  by (auto simp: chain_listen_def listener_listen_def listen_calls_def listener_new_def listener_run_def do_accept_def
      split: if_splits)

lemma listener_goes_on:
  assumes "ln_accepting l" and "\<forall>c b. Accepted c b \<in> set as \<longrightarrow> \<not> b"
  shows "\<exists>l'. listener_history as l = Some l' \<and> ln_accepting l'
    \<and> ln_sessions l' = ln_sessions l @ map (\<lambda>c. (c, False)) (connections as)"
  using assms
proof (induction as arbitrary: l)
  case Nil
  then show ?case by (simp add: connections_def)
next
  case (Cons a as)
  let ?l = "on_accept a (l\<lparr>ln_accepting := False\<rparr>)"
  have l: "ln_accepting ?l" "ln_sessions ?l = ln_sessions l @ map (\<lambda>c. (c, False)) (connections [a])"
    using Cons.prems(2) by (auto simp: on_accept_def do_accept_def connections_def split: accept_end.splits)
  have "\<forall>c b. Accepted c b \<in> set as \<longrightarrow> \<not> b" using Cons.prems(2) by auto
  from Cons.IH [OF l(1) this] show ?case
    using l(2) Cons.prems(1) by (auto simp: connections_def)
qed


text \<open>
  An error of the mark ends the listener for good: no later connection is accepted. The mark is set on the acceptor, which has it
  already, and no connection is ever marked, so nothing keeps the programs that the server starts from inheriting them.
\<close>

theorem listener_gives_up:
  assumes "chain_listen fails = Inr l" and "listener_history (as @ [Accepted c True]) l = Some l'"
  shows "\<not> ln_accepting l' \<and> c \<notin> fst ` set (drop (length (connections as)) (ln_sessions l'))
    \<and> (\<forall>a bs. listener_history (a # bs) l' = None) \<and> (\<forall>s \<in> set (ln_sessions l'). \<not> snd s)"
proof -
  have "\<not> ln_accepting l' \<and> length (ln_sessions l') \<le> length (ln_sessions k) + length (connections as)
      \<and> (\<forall>s \<in> set (ln_sessions l'). \<not> snd s)"
    if "listener_history (as @ [Accepted c True]) k = Some l'" "\<forall>s \<in> set (ln_sessions k). \<not> snd s" for k
    using that
  proof (induction as arbitrary: k)
    case Nil
    then show ?case by (auto simp: on_accept_def connections_def split: if_splits)
  next
    case (Cons a as)
    let ?k = "on_accept a (k\<lparr>ln_accepting := False\<rparr>)"
    have "listener_history (as @ [Accepted c True]) ?k = Some l'" using Cons.prems(1) by (auto split: if_splits)
    moreover have "\<forall>s \<in> set (ln_sessions ?k). \<not> snd s" "length (ln_sessions ?k) \<le> length (ln_sessions k) + length (connections [a])"
      using Cons.prems(2) by (auto simp: on_accept_def do_accept_def connections_def split: accept_end.splits)
    ultimately show ?case using Cons.IH [of ?k] by (auto simp: connections_def)
  qed
  from this [OF assms(2)] show ?thesis using chain_listen_accepting [OF assms(1)] by auto
qed


theorem listener_gives_up_witness:
  "\<exists>l l'. chain_listen (\<lambda>_. False) = Inr l \<and> listener_history ([Accepted (7 :: nat) False] @ [Accepted 8 True]) l = Some l'
     \<and> (\<forall>a bs. listener_history (a # bs) l' = None)"
proof -
  obtain l :: "nat listener" where l: "chain_listen (\<lambda>_. False) = Inr l"
    by (simp add: chain_listen_def listener_listen_def listen_calls_def)
  obtain l' where l': "listener_history ([Accepted 7 False] @ [Accepted 8 True]) l = Some l'"
    using chain_listen_accepting [OF l] by (simp add: on_accept_def do_accept_def)
  show ?thesis using listener_gives_up [OF l l'] l l' by blast
qed

end
