(* ===== verification/Server_Start.thy ===== *)
theory Server_Start
  imports Listener
begin

text \<open>
  How the server starts (\<^verbatim>\<open>src/main.cpp\<close>, \<^verbatim>\<open>src/init.cpp\<close>, \<^verbatim>\<open>include/configuration_manager.h\<close>,
  \<^verbatim>\<open>src/application.cpp\<close>): the arguments of the program become a configuration, of which the parts of the server are made.

  The lemmas: which entries a configuration has; the server never uses an entry that is not there; what it starts with.
\<close>

section \<open>The configuration\<close>

record user_credentials =
  uc_email :: string
  uc_pass :: string

text \<open>A value of any type, and what \<^verbatim>\<open>any_cast\<close> to a type gives.\<close>

datatype config_value =
    Any_string (any_string: string)
  | Any_path string
  | Any_port "16 word"
  | Any_size u64
  | Any_bool bool
  | Any_credentials user_credentials

fun as_string :: "config_value \<Rightarrow> string option" where
  "as_string (Any_string s) = Some s"
| "as_string _ = None"

fun as_path :: "config_value \<Rightarrow> string option" where
  "as_path (Any_path s) = Some s"
| "as_path _ = None"

fun as_port :: "config_value \<Rightarrow> 16 word option" where
  "as_port (Any_port p) = Some p"
| "as_port _ = None"

fun as_size :: "config_value \<Rightarrow> u64 option" where
  "as_size (Any_size n) = Some n"
| "as_size _ = None"

fun as_bool :: "config_value \<Rightarrow> bool option" where
  "as_bool (Any_bool b) = Some b"
| "as_bool _ = None"

fun as_credentials :: "config_value \<Rightarrow> user_credentials option" where
  "as_credentials (Any_credentials c) = Some c"
| "as_credentials _ = None"

type_synonym configuration_manager = "(string \<times> config_value) list"

text \<open>An entry that is there is not replaced.\<close>

definition add_entry :: "string \<Rightarrow> config_value \<Rightarrow> configuration_manager \<Rightarrow> bool \<times> configuration_manager" where
  "add_entry name v cfg = (map_of cfg name = None, map_insert name v cfg)"

text \<open>The pointer that is returned, and the error code: it is only set if the entry has another type.\<close>

definition get_entry_ec :: "(config_value \<Rightarrow> 'a option) \<Rightarrow> string \<Rightarrow> sys_error \<Rightarrow> configuration_manager \<Rightarrow> 'a option \<times> sys_error" where
  "get_entry_ec cast name ec cfg =
     (case map_of cfg name of
        Some a \<Rightarrow>
          (case cast a of
             Some v \<Rightarrow> (Some v, ec)
           | None \<Rightarrow> (None, make_error_code Cant_cast_config_entry))
      | None \<Rightarrow> (None, ec))"

definition get_entry :: "(config_value \<Rightarrow> 'a option) \<Rightarrow> string \<Rightarrow> configuration_manager \<Rightarrow> 'a option" where
  "get_entry cast name cfg =
     (case map_of cfg name of
        Some a \<Rightarrow> (case cast a of Some v \<Rightarrow> Some v | None \<Rightarrow> None)
      | None \<Rightarrow> None)"

definition remove_entry :: "string \<Rightarrow> configuration_manager \<Rightarrow> configuration_manager" where
  "remove_entry name cfg = filter (\<lambda>e. fst e \<noteq> name) cfg"

definition has_entry :: "string \<Rightarrow> configuration_manager \<Rightarrow> bool" where
  "has_entry name cfg = (case map_of cfg name of Some _ \<Rightarrow> True | None \<Rightarrow> False)"

section \<open>The surroundings\<close>

text \<open>
  What the program is built and started with: the version; the reader of configuration files, with its conversions of
  values; the environment; what the system answers (the error of making a directory, 0 for none; whether an address is resolved;
  the calls on an acceptor); the database that is stored at a path; and the recorders of the log.
\<close>

record log_options =
  lo_file :: "(string \<times> u64 option) option"
  lo_console :: bool
  lo_level :: "nat option"

record start_env =
  se_version :: string
  se_git :: "(string \<times> bool) option"
  se_ini :: "string \<Rightarrow> (string \<Rightarrow> string option) option"
  se_port :: "string \<Rightarrow> 16 word option"
  se_size :: "string \<Rightarrow> u64 option"
  se_bool :: "string \<Rightarrow> bool option"
  se_getenv :: "string \<Rightarrow> string option"
  se_mkdir :: "string \<Rightarrow> sys_error"
  se_resolve :: "string \<Rightarrow> 16 word \<Rightarrow> bool"
  se_acceptor :: "string \<Rightarrow> 16 word \<Rightarrow> acceptor_call \<Rightarrow> bool"
  se_engine :: engine
  se_stored :: "string \<Rightarrow> database"
  se_clock :: int
  se_log_level :: "string \<Rightarrow> nat option"
  se_log_ok :: "log_options \<Rightarrow> bool"

text \<open>The process: its working directory, the files, and \<^verbatim>\<open>cis::root_dir\<close>.\<close>

record process =
  ps_directory :: string
  ps_disk :: fs_obj
  ps_root_dir :: string

definition at_directory :: "process \<Rightarrow> string \<Rightarrow> string" where
  "at_directory ps path = path_div (ps_directory ps) path"

text \<open>\<^verbatim>\<open>current_path\<close> succeeds for a directory; \<^verbatim>\<open>exists\<close> clears the error code, since the type of the file is known.\<close>

definition current_path :: "string \<Rightarrow> process \<Rightarrow> sys_error \<times> process" where
  "current_path path ps =
     (case os_type (ps_disk ps) (at_directory ps path) of
        Ft_directory \<Rightarrow> (0, ps\<lparr>ps_directory := at_directory ps path\<rparr>)
      | Ft_regular \<Rightarrow> (ENOTDIR, ps)
      | _ \<Rightarrow> (ENOENT, ps))"

definition path_exists :: "string \<Rightarrow> process \<Rightarrow> bool \<times> sys_error" where
  "path_exists path ps = (os_type (ps_disk ps) (at_directory ps path) \<noteq> Ft_not_found, 0)"

definition make_directory :: "start_env \<Rightarrow> string \<Rightarrow> process \<Rightarrow> sys_error \<times> process" where
  "make_directory env path ps =
     (if se_mkdir env path \<noteq> 0 then (se_mkdir env path, ps)
      else case os_target (ps_disk ps) (at_directory ps path) of
             None \<Rightarrow> (ENOENT, ps)
           | Some at \<Rightarrow> (0, ps\<lparr>ps_disk := put_at (Some (Directory 493 [])) at (ps_disk ps)\<rparr>))"

section \<open>The arguments\<close>

datatype action = Action_run | Action_version | Action_error

text \<open>
  The entries a configuration file has to have: a value that is missing ends the function with its error. The entries before it
  were added.
\<close>

fun add_required :: "(string \<times> config_value option \<times> error_code) list \<Rightarrow> configuration_manager
    \<Rightarrow> error_code option \<times> configuration_manager" where
  "add_required [] cfg = (None, cfg)"
| "add_required ((name, v, e) # es) cfg =
     (case v of None \<Rightarrow> (Some e, cfg) | Some v \<Rightarrow> add_required es (snd (add_entry name v cfg)))"

fun add_optional :: "(string \<times> config_value option) list \<Rightarrow> configuration_manager \<Rightarrow> configuration_manager" where
  "add_optional [] cfg = cfg"
| "add_optional ((name, v) # es) cfg =
     add_optional es (case v of None \<Rightarrow> cfg | Some v \<Rightarrow> snd (add_entry name v cfg))"

definition ini_required :: "start_env \<Rightarrow> (string \<Rightarrow> string option) \<Rightarrow> (string \<times> config_value option \<times> error_code) list" where
  "ini_required env pt =
     [(''public_address'', map_option Any_string (pt ''http.host''), Cant_parse_config_ini),
      (''public_port'', map_option Any_port (Option.bind (pt ''http.port'') (se_port env)), Cant_parse_config_ini),
      (''doc_root'', map_option Any_path (pt ''http.doc_root''), Cant_parse_config_ini),
      (''cis_root'', map_option Any_path (case pt ''cis.cis_root'' of Some r \<Rightarrow> Some r | None \<Rightarrow> se_getenv env ''cis_base_dir''),
         Incorrect_environment),
      (''cis_address'', map_option Any_string (pt ''cis.host''), Cant_parse_config_ini),
      (''cis_port'', map_option Any_port (Option.bind (pt ''cis.port'') (se_port env)), Cant_parse_config_ini),
      (''db_root'', map_option Any_path (pt ''db.db_root''), Cant_parse_config_ini)]"

definition ini_optional :: "start_env \<Rightarrow> (string \<Rightarrow> string option) \<Rightarrow> (string \<times> config_value option) list" where
  "ini_optional env pt =
     [(''log_root'', map_option Any_path (pt ''log.log_root'')),
      (''size_limit'', map_option Any_size (Option.bind (pt ''log.size_limit'') (se_size env))),
      (''console_output'', map_option Any_bool (Option.bind (pt ''log.console_output'') (se_bool env))),
      (''log_level'', map_option Any_string (pt ''log.log_level''))]"

definition default_entries :: "start_env \<Rightarrow> (string \<times> config_value option \<times> error_code) list" where
  "default_entries env =
     [(''public_address'', Some (Any_string ''127.0.0.1''), Ok),
      (''public_port'', Some (Any_port 8080), Ok),
      (''cis_address'', Some (Any_string ''127.0.0.1''), Ok),
      (''cis_port'', Some (Any_port 8081), Ok),
      (''doc_root'', Some (Any_path ''.''), Ok),
      (''cis_root'', map_option Any_path (se_getenv env ''cis_base_dir''), Incorrect_environment),
      (''db_root'', Some (Any_path ''.''), Ok)]"

text \<open>
  What \<^verbatim>\<open>parse_args\<close> does after the configuration is read. A null pointer that would be dereferenced is \<open>None\<close>. The error code of
  the directory for hooks is overwritten when the database is looked for.
\<close>

definition prepare_start ::
    "start_env \<Rightarrow> configuration_manager \<Rightarrow> process \<Rightarrow> (action \<times> sys_error \<times> configuration_manager \<times> process) option" where
  "prepare_start env cfg ps =
     (let (cis_root, ec) = get_entry_ec as_path ''cis_root'' 0 cfg
      in case cis_root of
           None \<Rightarrow> None
         | Some root \<Rightarrow>
             (let ps = ps\<lparr>ps_root_dir := root\<rparr>;
                  (there, ec) = path_exists ''webhooks_temp'' ps;
                  (ec, ps) = (if \<not> there then make_directory env ''webhooks_temp'' ps else (ec, ps));
                  (db_root, ec) = get_entry_ec as_path ''db_root'' ec cfg
              in case db_root of
                   None \<Rightarrow> None
                 | Some db \<Rightarrow>
                     (let (there, ec) = path_exists (path_div db ''db.sqlite'') ps;
                          cfg = (if \<not> there
                                 then snd (add_entry ''admin_credentials''
                                        (Any_credentials \<lparr>uc_email = ''admin@example.com'', uc_pass = ''1234''\<rparr>) cfg)
                                 else cfg)
                      in Some (Action_run, ec, cfg, ps))))"

definition parse_args ::
    "start_env \<Rightarrow> string list \<Rightarrow> configuration_manager \<Rightarrow> process
      \<Rightarrow> (action \<times> sys_error \<times> configuration_manager \<times> process) option" where
  "parse_args env args cfg ps =
     (let failed = (\<lambda>e cfg ps. Some (Action_error, e, cfg, ps));
          read_entries = (\<lambda>es opt cfg ps.
            case add_required es cfg of
              (Some e, cfg) \<Rightarrow> failed (make_error_code e) cfg ps
            | (None, cfg) \<Rightarrow> prepare_start env (add_optional opt cfg) ps)
      in case args of
           [_, arg] \<Rightarrow>
             (if arg = ''--version'' then Some (Action_version, 0, cfg, ps)
              else case se_ini env arg of
                     None \<Rightarrow> failed (make_error_code Cant_parse_config_ini) cfg ps
                   | Some pt \<Rightarrow>
                       (case pt ''global.working_dir'' of
                          None \<Rightarrow> read_entries (ini_required env pt) (ini_optional env pt) cfg ps
                        | Some dir \<Rightarrow>
                            (let (ec, ps) = current_path dir ps
                             in if ec \<noteq> 0 then failed ec cfg ps
                                else read_entries (ini_required env pt) (ini_optional env pt) cfg ps)))
         | [_] \<Rightarrow> read_entries (default_entries env) [] cfg ps
         | _ \<Rightarrow> failed (make_error_code Too_many_args) cfg ps)"

section \<open>The application\<close>

text \<open>An end of the start: an application, an error code, an exception that nobody catches, or a null pointer that is used.\<close>

datatype 'a started = Started 'a | Refused sys_error | Terminated | Null_used

fun started_bind :: "'a started \<Rightarrow> ('a \<Rightarrow> 'b started) \<Rightarrow> 'b started" where
  "started_bind (Started x) f = f x"
| "started_bind (Refused e) f = Refused e"
| "started_bind Terminated f = Terminated"
| "started_bind Null_used f = Null_used"

definition deref :: "'a option \<Rightarrow> ('a \<Rightarrow> 'b started) \<Rightarrow> 'b started" where
  "deref p f = (case p of None \<Rightarrow> Null_used | Some x \<Rightarrow> f x)"

text \<open>The options of the log; there is no log if nothing records it. A log that cannot be made ends the program.\<close>

definition log_options_of :: "start_env \<Rightarrow> configuration_manager \<Rightarrow> log_options option" where
  "log_options_of env cfg =
     (let file_options = (case get_entry as_path ''log_root'' cfg of
            None \<Rightarrow> None | Some root \<Rightarrow> Some (root, get_entry as_size ''size_limit'' cfg));
          console = (get_entry as_bool ''console_output'' cfg = Some True);
          level = Option.bind (get_entry as_string ''log_level'' cfg) (se_log_level env)
      in if file_options \<noteq> None \<or> console
         then Some \<lparr>lo_file = file_options, lo_console = console, lo_level = level\<rparr> else None)"

definition start_log :: "start_env \<Rightarrow> configuration_manager \<Rightarrow> log_options option started" where
  "start_log env cfg =
     (case log_options_of env cfg of
        None \<Rightarrow> Started None
      | Some opts \<Rightarrow> if se_log_ok env opts then Started (Some opts) else Terminated)"

text \<open>
  The constructor of \<^verbatim>\<open>cis_manager\<close>: the cache of the projects, the programs of \<^verbatim>\<open>cis.conf\<close>, and the projects of the
  database. The paths are those that the system makes of them in the working directory.
\<close>

definition cis_manager_new ::
    "start_env \<Rightarrow> configuration_manager \<Rightarrow> process \<Rightarrow> database \<Rightarrow> (executables \<times> cis_state) started" where
  "cis_manager_new env cfg ps db =
     deref (get_entry as_path ''cis_root'' cfg) (\<lambda>root.
     let fs = fs_cache_new (ps_disk ps) (se_clock env) (at_directory ps (path_div root projects_dir)) 4 5
     in deref (get_entry as_string ''public_address'' cfg) (\<lambda>_.
        deref (get_entry as_port ''public_port'' cfg) (\<lambda>_.
        deref (get_entry as_string ''cis_address'' cfg) (\<lambda>_.
        deref (get_entry as_port ''cis_port'' cfg) (\<lambda>_.
        let conf = at_directory ps (path_div (path_div root ''core'') ''cis.conf'');
            execs = load_executables (open_stream (os_read (ps_disk ps) conf)) no_executables
        in if \<not> executables_valid execs then Terminated
           else case refresh_projects (se_engine env) (se_clock env) \<lparr>cs_db = db, cs_fs = fs\<rparr> of
                  (Inl e, _) \<Rightarrow> Terminated
                | (Inr _, s) \<Rightarrow> Started (execs, s))))))"

definition resolve_endpoint :: "start_env \<Rightarrow> string \<Rightarrow> 16 word \<Rightarrow> (string \<times> 16 word) started" where
  "resolve_endpoint env address port =
     (if se_resolve env address port then Started (address, port)
      else Refused (make_error_code Cant_resolve_address))"

record application =
  ap_log :: "log_options option"
  ap_config :: configuration_manager
  ap_cis :: cis_state
  ap_executables :: executables
  ap_doc_root :: string
  ap_cis_root :: string
  ap_public :: "nat listener"
  ap_address :: "string \<times> 16 word"
  ap_cis_address :: "string \<times> 16 word"

definition application_create :: "start_env \<Rightarrow> configuration_manager \<Rightarrow> process \<Rightarrow> application started" where
  "application_create env cfg ps =
     started_bind (start_log env cfg) (\<lambda>log.
     deref (get_entry as_path ''db_root'' cfg) (\<lambda>db_root.
     case database_create (se_engine env) (se_stored env (at_directory ps (path_div db_root ''db.sqlite'')))
            (map_option (\<lambda>c. (uc_email c, uc_pass c)) (get_entry as_credentials ''admin_credentials'' cfg)) of
       Inl e \<Rightarrow> Refused e
     | Inr db \<Rightarrow>
         (let cfg = remove_entry ''admin_credentials'' cfg
          in started_bind (cis_manager_new env cfg ps db) (\<lambda>(execs, cis).
             deref (fst (get_entry_ec as_path ''doc_root'' 0 cfg)) (\<lambda>doc_root.
             deref (fst (get_entry_ec as_path ''cis_root'' 0 cfg)) (\<lambda>cis_root.
             deref (fst (get_entry_ec as_string ''public_address'' 0 cfg)) (\<lambda>address.
             deref (fst (get_entry_ec as_port ''public_port'' 0 cfg)) (\<lambda>port.
             started_bind (resolve_endpoint env address port) (\<lambda>public.
             case chain_listen (se_acceptor env address port) of
               Inl e \<Rightarrow> Refused e
             | Inr l \<Rightarrow>
                 deref (fst (get_entry_ec as_string ''cis_address'' 0 cfg)) (\<lambda>cis_address.
                 deref (fst (get_entry_ec as_port ''cis_port'' 0 cfg)) (\<lambda>cis_port.
                 started_bind (resolve_endpoint env cis_address cis_port) (\<lambda>internal.
                   Started \<lparr>ap_log = log, ap_config = cfg, ap_cis = cis, ap_executables = execs,
                     ap_doc_root = at_directory ps doc_root, ap_cis_root = at_directory ps cis_root,
                     ap_public = l, ap_address = public, ap_cis_address = internal\<rparr>))))))))))))"

text \<open>What the handlers of HTTP requests are made with, for a connection from somewhere.\<close>

definition application_web :: "application \<Rightarrow> string \<times> 16 word \<Rightarrow> http_config" where
  "application_web app remote = \<lparr>hg_doc_root = ap_doc_root app, hg_cis_root = ap_cis_root app, hg_remote = remote\<rparr>"

section \<open>The program\<close>

definition version_text :: "start_env \<Rightarrow> string" where
  "version_text env =
     se_version env @ (case se_git env of None \<Rightarrow> [] | Some (sha, dirty) \<Rightarrow> '' '' @ sha @ (if dirty then '' dirty'' else []))"

definition initial_config :: "start_env \<Rightarrow> configuration_manager" where
  "initial_config env =
     (let cfg = (case se_git env of
            None \<Rightarrow> []
          | Some (sha, dirty) \<Rightarrow> snd (add_entry ''git/dirty'' (Any_bool dirty) (snd (add_entry ''git/sha1'' (Any_string sha) []))))
      in snd (add_entry ''cis/version'' (Any_string (se_version env)) cfg))"

text \<open>
  The end of the program: its exit code, or an end of the start that is none. What runs the application may throw.
\<close>

datatype main_end = Exit_success | Exit_failure | Aborted | Null_pointer

definition server_main ::
    "start_env \<Rightarrow> (application \<Rightarrow> bool) \<Rightarrow> string list \<Rightarrow> process \<Rightarrow> string list \<times> application option \<times> main_end" where
  "server_main env crashes args ps =
     (case parse_args env args (initial_config env) ps of
        None \<Rightarrow> ([], None, Null_pointer)
      | Some (act, ec, cfg, ps) \<Rightarrow>
          (if ec \<noteq> 0 then ([error_message ec], None, Exit_failure)
           else case act of
             Action_run \<Rightarrow>
               (let out = [''Starting CIS1 WebUI...'', ''Version: '' @ version_text env]
                in case application_create env cfg ps of
                     Refused e \<Rightarrow> (out @ [''Can't create WebUI instance: '' @ error_message e], None, Exit_failure)
                   | Terminated \<Rightarrow> (out, None, Aborted)
                   | Null_used \<Rightarrow> (out, None, Null_pointer)
                   | Started app \<Rightarrow>
                       (if crashes app then (out @ [''App crashed due to unhandled exception.''], Some app, Exit_failure)
                        else (out, Some app, Exit_success)))
           | Action_version \<Rightarrow> ([version_text env], None, Exit_success)
           | Action_error \<Rightarrow> ([''Bad programm state.''], None, Exit_failure)))"

text \<open>The answer to a request for the version: \<open>None\<close> for a null pointer.\<close>

definition system_version :: "configuration_manager \<Rightarrow> string option" where
  "system_version cfg =
     (case get_entry as_string ''cis/version'' cfg of
        None \<Rightarrow> None
      | Some v \<Rightarrow>
          (if has_entry ''git/sha1'' cfg \<and> has_entry ''git/dirty'' cfg
           then (case (get_entry as_string ''git/sha1'' cfg, get_entry as_bool ''git/dirty'' cfg) of
                   (Some sha, Some dirty) \<Rightarrow> Some (v @ '' '' @ sha @ (if dirty then '' dirty'' else []))
                 | _ \<Rightarrow> None)
           else Some v))"

section \<open>The entries of a configuration\<close>

text \<open>What the parts of the server rely on: entries of these names and types.\<close>

definition configured :: "configuration_manager \<Rightarrow> bool" where
  "configured cfg \<longleftrightarrow> (\<exists>root doc db address port cis cis_port.
     map_of cfg ''cis_root'' = Some (Any_path root) \<and> map_of cfg ''doc_root'' = Some (Any_path doc)
     \<and> map_of cfg ''db_root'' = Some (Any_path db)
     \<and> map_of cfg ''public_address'' = Some (Any_string address) \<and> map_of cfg ''public_port'' = Some (Any_port port)
     \<and> map_of cfg ''cis_address'' = Some (Any_string cis) \<and> map_of cfg ''cis_port'' = Some (Any_port cis_port))"

text \<open>What the version of the server is read from.\<close>

definition versioned :: "start_env \<Rightarrow> configuration_manager \<Rightarrow> bool" where
  "versioned env cfg \<longleftrightarrow> map_of cfg ''cis/version'' = Some (Any_string (se_version env))
     \<and> map_of cfg ''git/sha1'' = map_option (Any_string \<circ> fst) (se_git env)
     \<and> map_of cfg ''git/dirty'' = map_option (Any_bool \<circ> snd) (se_git env)"

lemma map_of_add_entry [simp]:
  "ordered_keys cfg \<Longrightarrow> map_of (snd (add_entry n v cfg)) k
     = (if k = n then (case map_of cfg n of None \<Rightarrow> Some v | Some w \<Rightarrow> Some w) else map_of cfg k)"
  by (simp add: add_entry_def)

lemma ordered_add_entry [simp]: "ordered_keys cfg \<Longrightarrow> ordered_keys (snd (add_entry n v cfg))"
  by (simp add: add_entry_def)

lemma add_required_entries:
  assumes "add_required es cfg = (None, cfg')" and "ordered_keys cfg" and "distinct (map fst es)"
  shows "ordered_keys cfg' \<and> (\<forall>k. map_of cfg' k = (case map_of cfg k of Some v \<Rightarrow> Some v
    | None \<Rightarrow> (case map_of es k of None \<Rightarrow> None | Some (v, _) \<Rightarrow> v)))
    \<and> (\<forall>(k, v, e) \<in> set es. v \<noteq> None)"
  using assms
proof (induction es arbitrary: cfg)
  case Nil
  then show ?case by (auto split: option.splits)
next
  case (Cons x es)
  obtain k v e where x: "x = (k, v, e)" by (cases x)
  then obtain w where w: "v = Some w" "add_required es (snd (add_entry k w cfg)) = (None, cfg')"
    using Cons.prems(1) by (auto split: option.splits)
  have o: "ordered_keys (snd (add_entry k w cfg))" "distinct (map fst es)" using Cons.prems(2,3) by simp_all
  have "map_of es k = None" using Cons.prems(3) x by (auto simp: map_of_eq_None_iff)
  then show ?case
    using Cons.IH [OF w(2) o] Cons.prems(2) x w(1) by (auto split: option.splits)
qed

lemma add_required_fails:
  "add_required es cfg = (Some e, cfg') \<Longrightarrow> \<exists>k. (k, None, e) \<in> set es"
  by (induction es arbitrary: cfg) (auto split: option.splits)

lemma add_optional_keeps:
  "ordered_keys cfg \<Longrightarrow> ordered_keys (add_optional es cfg)
     \<and> (\<forall>k. k \<notin> fst ` set es \<or> map_of cfg k \<noteq> None \<longrightarrow> map_of (add_optional es cfg) k = map_of cfg k)"
proof (induction es arbitrary: cfg)
  case Nil
  then show ?case by simp
next
  case (Cons x es)
  obtain k v where x: "x = (k, v)" by (cases x)
  let ?cfg = "case v of None \<Rightarrow> cfg | Some w \<Rightarrow> snd (add_entry k w cfg)"
  have o: "ordered_keys ?cfg" using Cons.prems by (cases v) simp_all
  have keep: "map_of ?cfg k' = map_of cfg k'" if "k' \<noteq> k \<or> map_of cfg k' \<noteq> None" for k'
    using Cons.prems that by (cases v) (auto split: option.split)
  note ih = Cons.IH [OF o]
  have "map_of (add_optional es ?cfg) k' = map_of cfg k'" if "k' \<notin> fst ` set (x # es) \<or> map_of cfg k' \<noteq> None" for k'
  proof -
    have "k' \<noteq> k \<or> map_of cfg k' \<noteq> None" using that x by auto
    from keep [OF this] show ?thesis using conjunct2 [OF ih, rule_format, of k'] that by auto
  qed
  then show ?case using conjunct1 [OF ih] unfolding x add_optional.simps by blast
qed

lemma required_configured:
  assumes "add_required es cfg = (None, cfg')" and "es = ini_required env pt \<or> es = default_entries env"
    and "ordered_keys cfg" and "\<forall>k \<in> fst ` set es. map_of cfg k = None"
  shows "configured cfg' \<and> ordered_keys cfg' \<and> (\<forall>k. k \<notin> fst ` set es \<longrightarrow> map_of cfg' k = map_of cfg k)"
proof -
  have d: "distinct (map fst es)" using assms(2) by (elim disjE) (simp_all add: ini_required_def default_entries_def)
  note r = add_required_entries [OF assms(1,3) d]
  have m: "map_of cfg' k = (case map_of es k of None \<Rightarrow> None | Some (v, _) \<Rightarrow> v)" if "k \<in> fst ` set es" for k
  proof -
    have "map_of cfg k = None" by (rule bspec [OF assms(4) that])
    then show ?thesis using r by simp
  qed
  have all: "\<forall>(k, v, e) \<in> set es. v \<noteq> None" using r by blast
  have "configured cfg'"
    using assms(2)
  proof
    assume e: "es = ini_required env pt"
    show ?thesis
      using all m unfolding e by (auto simp: ini_required_def configured_def)
  next
    assume e: "es = default_entries env"
    show ?thesis
      using all m unfolding e by (auto simp: default_entries_def configured_def)
  qed
  moreover have "map_of cfg' k = map_of cfg k" if "k \<notin> fst ` set es" for k
    using r that by (auto simp: map_of_eq_None_iff [symmetric] split: option.split)
  ultimately show ?thesis using r by blast
qed

text \<open>The names that reading the arguments adds.\<close>

definition argument_names :: "string set" where
  "argument_names = {''public_address'', ''public_port'', ''doc_root'', ''cis_root'', ''cis_address'', ''cis_port'', ''db_root'',
     ''log_root'', ''size_limit'', ''console_output'', ''log_level'', ''admin_credentials''}"

lemma required_names: "fst ` set (ini_required env pt) \<subseteq> argument_names" "fst ` set (default_entries env) \<subseteq> argument_names"
    "fst ` set (ini_optional env pt) \<subseteq> argument_names"
  by (auto simp: ini_required_def default_entries_def ini_optional_def argument_names_def)

lemma prepare_start_ok:
  assumes "configured cfg" "ordered_keys cfg"
  shows "\<exists>ec cfg' ps'. prepare_start env cfg ps = Some (Action_run, ec, cfg', ps') \<and> configured cfg' \<and> ordered_keys cfg'
    \<and> (\<forall>k. k \<notin> argument_names \<longrightarrow> map_of cfg' k = map_of cfg k) \<and> ec = 0"
proof -
  obtain root db where e: "map_of cfg ''cis_root'' = Some (Any_path root)" "map_of cfg ''db_root'' = Some (Any_path db)"
    using assms(1) by (auto simp: configured_def)
  let ?c = "Any_credentials \<lparr>uc_email = ''admin@example.com'', uc_pass = ''1234''\<rparr>"
  have "configured (snd (add_entry ''admin_credentials'' ?c cfg))" "ordered_keys (snd (add_entry ''admin_credentials'' ?c cfg))"
    using assms by (auto simp: configured_def)
  moreover have "map_of (snd (add_entry ''admin_credentials'' ?c cfg)) k = map_of cfg k" if "k \<notin> argument_names" for k
    using that assms(2) by (auto simp: argument_names_def)
  ultimately show ?thesis
    using assms e by (simp add: prepare_start_def get_entry_ec_def path_exists_def Let_def case_prod_beta)
qed

lemma optional_configured:
  assumes "configured cfg" "ordered_keys cfg" "fst ` set es \<subseteq> argument_names"
  shows "configured (add_optional es cfg) \<and> ordered_keys (add_optional es cfg)
    \<and> (\<forall>k. k \<notin> argument_names \<longrightarrow> map_of (add_optional es cfg) k = map_of cfg k)"
proof -
  note k = add_optional_keeps [OF assms(2), of es]
  have "configured (add_optional es cfg)"
    using assms(1) k unfolding configured_def by (elim exE conjE) (intro exI conjI; simp)
  then show ?thesis using k assms(3) by blast
qed

text \<open>
  Arguments are read without a null pointer; a run has a configuration, and an error has its code.
\<close>

definition arguments_read :: "configuration_manager \<Rightarrow> (action \<times> sys_error \<times> configuration_manager \<times> process) option \<Rightarrow> bool" where
  "arguments_read cfg r \<longleftrightarrow> (\<exists>act ec cfg' ps. r = Some (act, ec, cfg', ps)
     \<and> (act = Action_error \<longrightarrow> ec \<noteq> 0)
     \<and> (act = Action_run \<longrightarrow> configured cfg' \<and> ordered_keys cfg' \<and> (\<forall>k. k \<notin> argument_names \<longrightarrow> map_of cfg' k = map_of cfg k)))"

lemma parse_args_ok:
  assumes "ordered_keys cfg" and "\<forall>k \<in> argument_names. map_of cfg k = None"
  shows "arguments_read cfg (parse_args env args cfg ps)"
proof -
  let ?read = "\<lambda>es opt cfg ps. case add_required es cfg of
      (Some e, cfg) \<Rightarrow> Some (Action_error, make_error_code e, cfg, ps)
    | (None, cfg) \<Rightarrow> prepare_start env (add_optional opt cfg) ps"
  have code: "make_error_code e \<noteq> 0" if "e = Cant_parse_config_ini \<or> e = Incorrect_environment \<or> e = Too_many_args" for e
    using that by auto
  have read: "arguments_read cfg (?read es opt cfg ps)"
    if es: "es = ini_required env pt \<or> es = default_entries env" and opt: "fst ` set opt \<subseteq> argument_names" for es opt pt ps
  proof -
    have sub: "fst ` set es \<subseteq> argument_names" using es by (elim disjE) (simp_all only: required_names)
    have none: "\<forall>k \<in> fst ` set es. map_of cfg k = None" using assms(2) subsetD [OF sub] by simp
    obtain r cfg1 where a: "add_required es cfg = (r, cfg1)" by (cases "add_required es cfg")
    show ?thesis
    proof (cases r)
      case None
      note c = required_configured [OF a [unfolded None] es assms(1) none]
      obtain ec cfg2 ps2 where "prepare_start env (add_optional opt cfg1) ps = Some (Action_run, ec, cfg2, ps2)"
          "configured cfg2" "ordered_keys cfg2" "\<forall>k. k \<notin> argument_names \<longrightarrow> map_of cfg2 k = map_of (add_optional opt cfg1) k"
        using prepare_start_ok [of "add_optional opt cfg1" env ps] optional_configured [OF _ _ opt, of cfg1] c by blast
      moreover have "map_of cfg2 k = map_of cfg k" if "k \<notin> argument_names" for k
        using that calculation(4) c optional_configured [OF _ _ opt, of cfg1] subsetD [OF sub, of k] by auto
      ultimately show ?thesis using a None by (simp add: arguments_read_def)
    next
      case (Some e)
      obtain k where "(k, None, e) \<in> set es" using add_required_fails [of es cfg e cfg1] a Some by blast
      then have "e = Cant_parse_config_ini \<or> e = Incorrect_environment" using es by (auto simp: ini_required_def default_entries_def)
      then show ?thesis using a Some by (auto simp: arguments_read_def)
    qed
  qed
  show ?thesis
  proof (cases "length args = 1 \<or> length args = 2")
    case False
    then have "parse_args env args cfg ps = Some (Action_error, make_error_code Too_many_args, cfg, ps)"
      by (auto simp: parse_args_def Let_def split: list.splits)
    then show ?thesis by (simp add: arguments_read_def)
  next
    case True
    then consider (one) p where "args = [p]" | (two) p a where "args = [p, a]"
      by (cases args; cases "tl args"; cases "tl (tl args)") auto
    then show ?thesis
    proof cases
      case one
      then show ?thesis using read [where es = "default_entries env" and opt = "[]"] by (simp add: parse_args_def Let_def)
    next
      case two
      have dir: "current_path d ps = (ec, ps') \<Longrightarrow> ec \<noteq> 0 \<or> ec = 0" for d ec ps' by blast
      show ?thesis
      proof (cases "a = ''--version''")
        case True
        then show ?thesis using two by (simp add: parse_args_def Let_def arguments_read_def)
      next
        case False
        show ?thesis
        proof (cases "se_ini env a")
          case None
          then show ?thesis using two False by (simp add: parse_args_def Let_def arguments_read_def)
        next
          case (Some pt)
          note rd = read [where es = "ini_required env pt" and pt = pt and opt = "ini_optional env pt", OF disjI1 [OF refl] required_names(3)]
          show ?thesis
          proof (cases "pt ''global.working_dir''")
            case None
            then show ?thesis using two False Some rd by (simp add: parse_args_def Let_def)
          next
            case (Some d)
            obtain ec ps' where cp: "current_path d ps = (ec, ps')" by (cases "current_path d ps")
            show ?thesis
            proof (cases "ec = 0")
              case True
              then show ?thesis using two False \<open>se_ini env a = Some pt\<close> Some cp rd by (simp add: parse_args_def Let_def)
            next
              case False
              then show ?thesis
                using two \<open>a \<noteq> ''--version''\<close> \<open>se_ini env a = Some pt\<close> Some cp by (simp add: parse_args_def Let_def arguments_read_def)
            qed
          qed
        qed
      qed
    qed
  qed
qed

lemma initial_config_ok:
  "ordered_keys (initial_config env)" "\<forall>k \<in> argument_names. map_of (initial_config env) k = None" "versioned env (initial_config env)"
  by (cases "se_git env"; auto simp: initial_config_def argument_names_def versioned_def Let_def)+

text \<open>
  The arguments of the program are read completely or refused: whatever they are, whatever the configuration file and the
  environment hold, an error comes with an error code, and a run with a configuration in which everything that the server needs
  is there, with the right type, and the version is still that of the build.
\<close>

theorem arguments_complete:
  "\<exists>act ec cfg ps'. parse_args env args (initial_config env) ps = Some (act, ec, cfg, ps')
     \<and> (act = Action_error \<longrightarrow> ec \<noteq> 0) \<and> (act = Action_run \<longrightarrow> configured cfg \<and> versioned env cfg)"
proof -
  obtain act ec cfg ps' where r: "parse_args env args (initial_config env) ps = Some (act, ec, cfg, ps')" "act = Action_error \<longrightarrow> ec \<noteq> 0"
    "act = Action_run \<longrightarrow> configured cfg \<and> (\<forall>k. k \<notin> argument_names \<longrightarrow> map_of cfg k = map_of (initial_config env) k)"
    using parse_args_ok [OF initial_config_ok(1,2), where env = env and args = args and ps = ps] unfolding arguments_read_def by blast
  have "versioned env cfg" if "\<forall>k. k \<notin> argument_names \<longrightarrow> map_of cfg k = map_of (initial_config env) k"
  proof -
    have "''cis/version'' \<notin> argument_names" "''git/sha1'' \<notin> argument_names" "''git/dirty'' \<notin> argument_names"
      by (simp_all add: argument_names_def)
    then show ?thesis using that initial_config_ok(3) [of env] by (simp add: versioned_def)
  qed
  then show ?thesis using r by blast
qed

section \<open>Starting\<close>

lemma map_of_remove_entry [simp]: "map_of (remove_entry n cfg) k = (if k = n then None else map_of cfg k)"
  by (induction cfg) (auto simp: remove_entry_def)

lemma configured_remove [simp]: "configured (remove_entry ''admin_credentials'' cfg) = configured cfg"
  by (simp add: configured_def)

lemma started_bind_Started: "started_bind x f = Started y \<longleftrightarrow> (\<exists>v. x = Started v \<and> f v = Started y)"
  by (cases x) simp_all

lemma started_bind_not_null: "x \<noteq> Null_used \<Longrightarrow> (\<And>v. f v \<noteq> Null_used) \<Longrightarrow> started_bind x f \<noteq> Null_used"
  by (cases x) simp_all

lemma get_entries:
  assumes "map_of cfg n = Some v"
  shows "get_entry cast n cfg = cast v" and "cast v = Some x \<Longrightarrow> get_entry_ec cast n ec cfg = (Some x, ec)"
  using assms by (simp_all add: get_entry_def get_entry_ec_def split: option.split)

lemma cis_manager_new_ok:
  assumes "configured cfg"
  shows "cis_manager_new env cfg ps db \<noteq> Null_used"
    and "cis_manager_new env cfg ps db = Started (execs, s) \<Longrightarrow> executables_valid execs \<and> fsc_disk (cs_fs s) = ps_disk ps
      \<and> (\<exists>s0. refresh_projects (se_engine env) (se_clock env) s0 = (Inr (), s) \<and> cs_db s0 = db)"
proof -
  obtain root address port cis cis_port where e:
    "map_of cfg ''cis_root'' = Some (Any_path root)" "map_of cfg ''public_address'' = Some (Any_string address)"
    "map_of cfg ''public_port'' = Some (Any_port port)" "map_of cfg ''cis_address'' = Some (Any_string cis)"
    "map_of cfg ''cis_port'' = Some (Any_port cis_port)"
    using assms by (auto simp: configured_def)
  let ?fs = "fs_cache_new (ps_disk ps) (se_clock env) (at_directory ps (path_div root projects_dir)) 4 5"
  let ?execs = "load_executables (open_stream (os_read (ps_disk ps)
    (at_directory ps (path_div (path_div root ''core'') ''cis.conf'')))) no_executables"
  have n: "cis_manager_new env cfg ps db = (if \<not> executables_valid ?execs then Terminated
      else case refresh_projects (se_engine env) (se_clock env) \<lparr>cs_db = db, cs_fs = ?fs\<rparr> of
             (Inl e, _) \<Rightarrow> Terminated | (Inr _, s) \<Rightarrow> Started (?execs, s))"
    unfolding cis_manager_new_def Let_def get_entries(1) [OF e(1)] get_entries(1) [OF e(2)] get_entries(1) [OF e(3)]
      get_entries(1) [OF e(4)] get_entries(1) [OF e(5)]
    by (simp add: deref_def)
  show "cis_manager_new env cfg ps db \<noteq> Null_used" unfolding n by (auto split: prod.split sum.split)
  show "executables_valid execs \<and> fsc_disk (cs_fs s) = ps_disk ps
      \<and> (\<exists>s0. refresh_projects (se_engine env) (se_clock env) s0 = (Inr (), s) \<and> cs_db s0 = db)"
    if "cis_manager_new env cfg ps db = Started (execs, s)"
  proof -
    have v: "executables_valid ?execs" "execs = ?execs"
      "refresh_projects (se_engine env) (se_clock env) \<lparr>cs_db = db, cs_fs = ?fs\<rparr> = (Inr (), s)"
      using that unfolding n by (auto split: prod.splits sum.splits if_splits)
    have "fsc_disk (cs_fs s) = fsc_disk ?fs"
      using arg_cong [OF v(3), of "\<lambda>r. fsc_disk (cs_fs (snd r))"]
      by (auto simp: refresh_projects_def project_iters_def Let_def case_prod_beta)
    then show ?thesis using v by (auto simp: fs_cache_new_def)
  qed
qed

lemma application_create_ok:
  assumes "configured cfg"
  shows "application_create env cfg ps \<noteq> Null_used"
    and "application_create env cfg ps = Started app \<Longrightarrow>
      ap_config app = remove_entry ''admin_credentials'' cfg \<and> executables_valid (ap_executables app) \<and> ln_accepting (ap_public app)
      \<and> fsc_disk (cs_fs (ap_cis app)) = ps_disk ps
      \<and> map_of cfg ''public_address'' = Some (Any_string (fst (ap_address app)))
      \<and> map_of cfg ''public_port'' = Some (Any_port (snd (ap_address app)))
      \<and> map_of cfg ''cis_address'' = Some (Any_string (fst (ap_cis_address app)))
      \<and> map_of cfg ''cis_port'' = Some (Any_port (snd (ap_cis_address app)))
      \<and> (\<exists>doc root db s0. map_of cfg ''doc_root'' = Some (Any_path doc) \<and> ap_doc_root app = at_directory ps doc
           \<and> map_of cfg ''cis_root'' = Some (Any_path root) \<and> ap_cis_root app = at_directory ps root
           \<and> database_create (se_engine env)
                (se_stored env (at_directory ps (path_div (the (get_entry as_path ''db_root'' cfg)) ''db.sqlite'')))
                (map_option (\<lambda>c. (uc_email c, uc_pass c)) (get_entry as_credentials ''admin_credentials'' cfg)) = Inr db
           \<and> refresh_projects (se_engine env) (se_clock env) s0 = (Inr (), ap_cis app) \<and> cs_db s0 = db)"
proof -
  obtain root doc db address port cis cis_port where e:
    "map_of cfg ''cis_root'' = Some (Any_path root)" "map_of cfg ''doc_root'' = Some (Any_path doc)"
    "map_of cfg ''db_root'' = Some (Any_path db)" "map_of cfg ''public_address'' = Some (Any_string address)"
    "map_of cfg ''public_port'' = Some (Any_port port)" "map_of cfg ''cis_address'' = Some (Any_string cis)"
    "map_of cfg ''cis_port'' = Some (Any_port cis_port)"
    using assms by (auto simp: configured_def)
  let ?cfg = "remove_entry ''admin_credentials'' cfg"
  let ?stored = "se_stored env (at_directory ps (path_div db ''db.sqlite''))"
  let ?cred = "map_option (\<lambda>c. (uc_email c, uc_pass c)) (get_entry as_credentials ''admin_credentials'' cfg)"
  have r: "map_of ?cfg ''cis_root'' = Some (Any_path root)" "map_of ?cfg ''doc_root'' = Some (Any_path doc)"
    "map_of ?cfg ''public_address'' = Some (Any_string address)" "map_of ?cfg ''public_port'' = Some (Any_port port)"
    "map_of ?cfg ''cis_address'' = Some (Any_string cis)" "map_of ?cfg ''cis_port'' = Some (Any_port cis_port)"
    using e by simp_all
  note c = cis_manager_new_ok [of ?cfg, unfolded configured_remove, OF assms]
  have d: "get_entry as_path ''db_root'' cfg = Some db" using get_entries(1) [OF e(3), of as_path] by simp
  have g: "fst (get_entry_ec as_path ''doc_root'' 0 ?cfg) = Some doc" "fst (get_entry_ec as_path ''cis_root'' 0 ?cfg) = Some root"
    "fst (get_entry_ec as_string ''public_address'' 0 ?cfg) = Some address" "fst (get_entry_ec as_port ''public_port'' 0 ?cfg) = Some port"
    "fst (get_entry_ec as_string ''cis_address'' 0 ?cfg) = Some cis" "fst (get_entry_ec as_port ''cis_port'' 0 ?cfg) = Some cis_port"
    using get_entries(2) [OF r(1), of as_path] get_entries(2) [OF r(2), of as_path] get_entries(2) [OF r(3), of as_string]
      get_entries(2) [OF r(4), of as_port] get_entries(2) [OF r(5), of as_string] get_entries(2) [OF r(6), of as_port] by simp_all
  define net where "net = (\<lambda>log execs cis_s. started_bind (resolve_endpoint env address port) (\<lambda>public.
      case chain_listen (se_acceptor env address port) of
        Inl e \<Rightarrow> Refused e
      | Inr l \<Rightarrow> started_bind (resolve_endpoint env cis cis_port) (\<lambda>internal.
          Started \<lparr>ap_log = log, ap_config = ?cfg, ap_cis = cis_s, ap_executables = execs, ap_doc_root = at_directory ps doc,
            ap_cis_root = at_directory ps root, ap_public = l, ap_address = public, ap_cis_address = internal\<rparr>)))"
  have net: "net log execs s \<noteq> Null_used" "net log execs s = Started app \<Longrightarrow> app = \<lparr>ap_log = log, ap_config = ?cfg, ap_cis = s,
      ap_executables = execs, ap_doc_root = at_directory ps doc, ap_cis_root = at_directory ps root, ap_public = ap_public app,
      ap_address = (address, port), ap_cis_address = (cis, cis_port)\<rparr> \<and> ln_accepting (ap_public app)" for log execs s app
    by (auto simp: net_def resolve_endpoint_def dest: chain_listen_accepting split: sum.splits if_splits)
  have a: "application_create env cfg ps = started_bind (start_log env cfg) (\<lambda>log.
      case database_create (se_engine env) ?stored ?cred of
        Inl e \<Rightarrow> Refused e
      | Inr db \<Rightarrow> started_bind (cis_manager_new env ?cfg ps db) (\<lambda>(execs, s). net log execs s))"
    unfolding application_create_def Let_def d g net_def by (simp add: deref_def cong: sum.case_cong)
  have log: "start_log env cfg \<noteq> Null_used" by (simp add: start_log_def split: option.split)
  show "application_create env cfg ps \<noteq> Null_used"
    unfolding a
  proof (rule started_bind_not_null [OF log])
    fix lg
    have "started_bind (cis_manager_new env ?cfg ps db') (\<lambda>(execs, s). net lg execs s) \<noteq> Null_used" for db'
      by (rule started_bind_not_null [OF c(1)]) (simp add: net(1) split: prod.split)
    then show "(case database_create (se_engine env) ?stored ?cred of Inl e \<Rightarrow> Refused e
      | Inr db' \<Rightarrow> started_bind (cis_manager_new env ?cfg ps db') (\<lambda>(execs, s). net lg execs s)) \<noteq> Null_used"
      by (simp split: sum.split)
  qed
  assume s: "application_create env cfg ps = Started app"
  obtain lg where lg: "(case database_create (se_engine env) ?stored ?cred of Inl e \<Rightarrow> Refused e
      | Inr db' \<Rightarrow> started_bind (cis_manager_new env ?cfg ps db') (\<lambda>(execs, s). net lg execs s)) = Started app"
    using s unfolding a started_bind_Started by blast
  then obtain db' where db': "database_create (se_engine env) ?stored ?cred = Inr db'"
    by (cases "database_create (se_engine env) ?stored ?cred") simp_all
  obtain es where es: "cis_manager_new env ?cfg ps db' = Started es" "(\<lambda>(execs, s). net lg execs s) es = Started app"
    using lg unfolding db' sum.case started_bind_Started by blast
  obtain execs s where "es = (execs, s)" by (cases es)
  with es db' have x: "database_create (se_engine env) ?stored ?cred = Inr db'"
    "cis_manager_new env ?cfg ps db' = Started (execs, s)" "net lg execs s = Started app" by simp_all
  note app = net(2) [OF x(3)]
  have f: "ap_config app = ?cfg" "ap_executables app = execs" "ap_cis app = s" "ap_doc_root app = at_directory ps doc"
    "ap_cis_root app = at_directory ps root" "ap_address app = (address, port)" "ap_cis_address app = (cis, cis_port)"
    "ln_accepting (ap_public app)"
    using app by (metis application.select_convs)+
  show "ap_config app = remove_entry ''admin_credentials'' cfg \<and> executables_valid (ap_executables app) \<and> ln_accepting (ap_public app)
      \<and> fsc_disk (cs_fs (ap_cis app)) = ps_disk ps
      \<and> map_of cfg ''public_address'' = Some (Any_string (fst (ap_address app)))
      \<and> map_of cfg ''public_port'' = Some (Any_port (snd (ap_address app)))
      \<and> map_of cfg ''cis_address'' = Some (Any_string (fst (ap_cis_address app)))
      \<and> map_of cfg ''cis_port'' = Some (Any_port (snd (ap_cis_address app)))
      \<and> (\<exists>doc root db s0. map_of cfg ''doc_root'' = Some (Any_path doc) \<and> ap_doc_root app = at_directory ps doc
           \<and> map_of cfg ''cis_root'' = Some (Any_path root) \<and> ap_cis_root app = at_directory ps root
           \<and> database_create (se_engine env)
                (se_stored env (at_directory ps (path_div (the (get_entry as_path ''db_root'' cfg)) ''db.sqlite'')))
                (map_option (\<lambda>c. (uc_email c, uc_pass c)) (get_entry as_credentials ''admin_credentials'' cfg)) = Inr db
           \<and> refresh_projects (se_engine env) (se_clock env) s0 = (Inr (), ap_cis app) \<and> cs_db s0 = db)"
    using c(2) [OF x(2)] x(1) e f d by auto
qed


lemma insert_project_users: "insert_project eng p db = Inr db' \<Longrightarrow> db_users db' = db_users db"
  by (auto simp: insert_project_def Let_def split: if_splits)

lemma mark_projects_users: "mark_projects eng ns db = Inr db' \<Longrightarrow> db_users db' = db_users db"
proof (induction ns arbitrary: db)
  case (Cons n ns)
  then obtain db1 where 1: "mark_project eng n db = Inr db1" "mark_projects eng ns db1 = Inr db'" by (auto split: sum.splits)
  have "db_users db1 = db_users db"
    using 1(1) insert_project_users by (auto simp: mark_project_def split: list.splits)
  then show ?case using Cons.IH [OF 1(2)] by simp
qed simp

lemma refresh_projects_users: "refresh_projects eng now s = (r, s') \<Longrightarrow> db_users (cs_db s') = db_users (cs_db s)"
  by (auto simp: refresh_projects_def run_tx_def commit_def set_deleted_def Let_def case_prod_beta
      dest!: mark_projects_users split: option.splits sum.splits if_splits)

text \<open>The working directory that a configuration file asks for.\<close>

definition working_directory :: "(string \<Rightarrow> string option) \<Rightarrow> process \<Rightarrow> string" where
  "working_directory pt ps = (case pt ''global.working_dir'' of None \<Rightarrow> ps_directory ps | Some dir \<Rightarrow> at_directory ps dir)"

lemma current_path_ok: "current_path dir ps = (0, ps') \<Longrightarrow> ps' = ps\<lparr>ps_directory := at_directory ps dir\<rparr>"
  by (auto simp: current_path_def split: file_type.splits)

lemma make_directory_keeps: "make_directory env path ps = (ec, ps') \<Longrightarrow> ps_directory ps' = ps_directory ps"
  by (auto simp: make_directory_def split: if_splits option.splits)

lemma prepare_start_result:
  assumes "prepare_start env cfg ps = Some (act, ec, cfg', ps')" and "ordered_keys cfg" and "map_of cfg ''db_root'' = Some (Any_path db)"
    and "map_of cfg ''admin_credentials'' = None"
  shows "ps_directory ps' = ps_directory ps \<and> (\<forall>k. k \<noteq> ''admin_credentials'' \<longrightarrow> map_of cfg' k = map_of cfg k)
    \<and> map_of cfg' ''admin_credentials'' =
        (if os_type (ps_disk ps') (at_directory ps' (path_div db ''db.sqlite'')) = Ft_not_found
         then Some (Any_credentials \<lparr>uc_email = ''admin@example.com'', uc_pass = ''1234''\<rparr>) else None)
    \<and> (ps_disk ps' = ps_disk ps \<or> make_directory env ''webhooks_temp'' (ps\<lparr>ps_root_dir := ps_root_dir ps'\<rparr>) = (0, ps'))"
proof -
  obtain root where root: "get_entry_ec as_path ''cis_root'' 0 cfg = (Some root, 0)"
    using assms(1) unfolding prepare_start_def get_entry_ec_def Let_def by (auto split: option.splits)
  let ?ps = "ps\<lparr>ps_root_dir := root\<rparr>"
  obtain e p1 where m: "(if \<not> fst (path_exists ''webhooks_temp'' ?ps) then make_directory env ''webhooks_temp'' ?ps
      else (snd (path_exists ''webhooks_temp'' ?ps), ?ps)) = (e, p1)"
    by (cases "if \<not> fst (path_exists ''webhooks_temp'' ?ps) then make_directory env ''webhooks_temp'' ?ps
      else (snd (path_exists ''webhooks_temp'' ?ps), ?ps)")
  have p1: "ps_directory p1 = ps_directory ps" "ps_root_dir p1 = root"
    "ps_disk p1 = ps_disk ps \<or> make_directory env ''webhooks_temp'' ?ps = (0, p1)"
    using m by (auto simp: make_directory_def path_exists_def split: if_splits option.splits)
  have r: "ps' = p1" "cfg' = (if os_type (ps_disk p1) (at_directory p1 (path_div db ''db.sqlite'')) = Ft_not_found
      then snd (add_entry ''admin_credentials'' (Any_credentials \<lparr>uc_email = ''admin@example.com'', uc_pass = ''1234''\<rparr>) cfg) else cfg)"
    using assms(1) root m get_entries(2) [OF assms(3), of as_path db]
    by (auto simp: prepare_start_def Let_def case_prod_beta path_exists_def)
  show ?thesis using r p1 assms(2,4) by simp
qed

lemma parse_file:
  assumes "parse_args env [p, f] cfg ps = Some (Action_run, ec, cfg', ps')" and "f \<noteq> ''--version''" and "se_ini env f = Some pt"
  obtains cfg1 ps1 where "add_required (ini_required env pt) cfg = (None, cfg1)"
    "prepare_start env (add_optional (ini_optional env pt) cfg1) ps1 = Some (Action_run, ec, cfg', ps')"
    "ps_directory ps1 = working_directory pt ps" "ps_disk ps1 = ps_disk ps"
proof -
  define ps1 where "ps1 = (case pt ''global.working_dir'' of None \<Rightarrow> ps | Some dir \<Rightarrow> snd (current_path dir ps))"
  have ps1: "ps_directory ps1 = working_directory pt ps \<and> ps_disk ps1 = ps_disk ps
      \<and> (case add_required (ini_required env pt) cfg of
           (Some e, cfg) \<Rightarrow> Some (Action_error, make_error_code e, cfg, ps1)
         | (None, cfg) \<Rightarrow> prepare_start env (add_optional (ini_optional env pt) cfg) ps1) = Some (Action_run, ec, cfg', ps')"
  proof (cases "pt ''global.working_dir''")
    case None
    then have "ps1 = ps" by (simp add: ps1_def)
    then show ?thesis unfolding \<open>ps1 = ps\<close> using assms None by (simp add: parse_args_def Let_def working_directory_def)
  next
    case (Some dir)
    obtain e ps2 where c: "current_path dir ps = (e, ps2)" by (cases "current_path dir ps")
    then have "ps1 = ps2" using Some by (simp add: ps1_def)
    have "e = 0" using assms Some c by (simp add: parse_args_def Let_def split: if_splits)
    then show ?thesis
      unfolding \<open>ps1 = ps2\<close> using assms Some c current_path_ok [of dir ps ps2] by (simp add: parse_args_def Let_def working_directory_def)
  qed
  obtain r cfg1 where a: "add_required (ini_required env pt) cfg = (r, cfg1)" by (cases "add_required (ini_required env pt) cfg")
  then have "r = None" using ps1 by (cases r) auto
  then show ?thesis using that [of cfg1 ps1] ps1 a by auto
qed

lemma created_administrator:
  "database_create eng stored (Some cr) = Inr db \<Longrightarrow>
     \<exists>u \<in> set (db_users db). user_email u = fst cr \<and> user_pass u = snd cr \<and> user_admin u"
  by (auto simp: database_create_def database_init_def run_tx_def commit_def insert_user_def
      split: option.splits sum.splits if_splits)

text \<open>
  C36. A server that starts from a configuration file does what the file says: it listens on the address and the port of the file, and
  serves the documents and the instance of the file, found from the working directory of the file; the programs of the instance are
  all known; and a server without a database gets an administrator, whose password leaves the configuration.
\<close>

theorem started_as_configured:
  assumes "server_main env crashes [p, f] ps = (out, Some app, e)" and "f \<noteq> ''--version''" and "se_ini env f = Some pt"
  shows "pt ''http.host'' = Some (fst (ap_address app)) \<and> Option.bind (pt ''http.port'') (se_port env) = Some (snd (ap_address app))
    \<and> pt ''cis.host'' = Some (fst (ap_cis_address app)) \<and> Option.bind (pt ''cis.port'') (se_port env) = Some (snd (ap_cis_address app))
    \<and> (\<exists>doc. pt ''http.doc_root'' = Some doc \<and> ap_doc_root app = path_div (working_directory pt ps) doc)
    \<and> (\<exists>root. (case pt ''cis.cis_root'' of Some r \<Rightarrow> Some r | None \<Rightarrow> se_getenv env ''cis_base_dir'') = Some root
         \<and> ap_cis_root app = path_div (working_directory pt ps) root)
    \<and> executables_valid (ap_executables app) \<and> ln_accepting (ap_public app) \<and> \<not> has_entry ''admin_credentials'' (ap_config app)
    \<and> (\<exists>db. pt ''db.db_root'' = Some db
         \<and> (os_type (fsc_disk (cs_fs (ap_cis app))) (path_div (working_directory pt ps) (path_div db ''db.sqlite'')) = Ft_not_found \<longrightarrow>
              (\<exists>u \<in> set (db_users (cs_db (ap_cis app))). user_email u = ''admin@example.com'' \<and> user_pass u = ''1234'' \<and> user_admin u)))"
proof -
  obtain ec cfg ps' where r: "parse_args env [p, f] (initial_config env) ps = Some (Action_run, ec, cfg, ps')"
    "application_create env cfg ps' = Started app"
    using assms(1) by (auto simp: server_main_def Let_def split: option.splits if_splits action.splits started.splits)
  obtain cfg1 ps1 where c: "add_required (ini_required env pt) (initial_config env) = (None, cfg1)"
    "prepare_start env (add_optional (ini_optional env pt) cfg1) ps1 = Some (Action_run, ec, cfg, ps')"
    "ps_directory ps1 = working_directory pt ps" by (rule parse_file [OF r(1) assms(2,3)])
  let ?es = "ini_required env pt" and ?cfg2 = "add_optional (ini_optional env pt) cfg1"
  have none: "\<forall>k \<in> fst ` set ?es. map_of (initial_config env) k = None"
    by (intro ballI bspec [OF initial_config_ok(2)]) (rule subsetD [OF required_names(1)])
  note r1 = required_configured [OF c(1) disjI1 [OF refl] initial_config_ok(1) none]
  note a = add_required_entries [OF c(1) initial_config_ok(1)]
  have d: "distinct (map fst ?es)" by (simp add: ini_required_def)
  note o = add_optional_keeps [of cfg1 "ini_optional env pt"]
  have o1: "ordered_keys ?cfg2" using o r1 by blast
  have m2: "map_of ?cfg2 k = map_of cfg1 k" if "k \<notin> fst ` set (ini_optional env pt) \<or> map_of cfg1 k \<noteq> None" for k
    using o r1 that by blast
  have v: "map_of cfg1 k = v \<and> v \<noteq> None" if "(k, v, e) \<in> set ?es" for k v e
  proof -
    have "map_of ?es k = Some (v, e)" using map_of_is_SomeI [OF d that] .
    moreover have "map_of (initial_config env) k = None" using none that by force
    moreover have "v \<noteq> None" using a [OF d] that by blast
    ultimately show ?thesis using a [OF d] by simp
  qed
  have v2: "map_of ?cfg2 k = v \<and> v \<noteq> None" if "(k, v, e) \<in> set ?es" for k v e
    using v [OF that] m2 [of k] by simp
  have names: "map_of cfg1 ''admin_credentials'' = None"
    using r1 initial_config_ok(2) [of env] by (simp add: ini_required_def argument_names_def)
  have adm: "map_of ?cfg2 ''admin_credentials'' = None" using m2 [of "''admin_credentials''"] names by (simp add: ini_optional_def)
  obtain db where db: "pt ''db.db_root'' = Some db" "map_of ?cfg2 ''db_root'' = Some (Any_path db)"
    using v2 [of "''db_root''" "map_option Any_path (pt ''db.db_root'')"] by (auto simp: ini_required_def)
  note p = prepare_start_result [OF c(2) o1 db(2) adm]
  have v3: "map_of cfg k = v \<and> v \<noteq> None" if "(k, v, e) \<in> set ?es" for k v e
  proof -
    have "k \<noteq> ''admin_credentials''" using that by (auto simp: ini_required_def)
    then show ?thesis using v2 [OF that] p by simp
  qed
  have conf: "configured cfg" using arguments_complete [of env "[p, f]" ps] r(1) by auto
  note app = application_create_ok(2) [OF conf r(2)]
  have dir: "ps_directory ps' = working_directory pt ps" using p c(3) by simp
  have e: "map_option Any_string (pt ''http.host'') = Some (Any_string (fst (ap_address app)))"
    "map_option Any_port (Option.bind (pt ''http.port'') (se_port env)) = Some (Any_port (snd (ap_address app)))"
    "map_option Any_string (pt ''cis.host'') = Some (Any_string (fst (ap_cis_address app)))"
    "map_option Any_port (Option.bind (pt ''cis.port'') (se_port env)) = Some (Any_port (snd (ap_cis_address app)))"
    using app v3 [of "''public_address''"] v3 [of "''public_port''"] v3 [of "''cis_address''"] v3 [of "''cis_port''"]
    by (simp_all add: ini_required_def)
  obtain doc root where dr: "map_of cfg ''doc_root'' = Some (Any_path doc)" "ap_doc_root app = at_directory ps' doc"
    "map_of cfg ''cis_root'' = Some (Any_path root)" "ap_cis_root app = at_directory ps' root" using app by blast
  have e2: "map_option Any_path (pt ''http.doc_root'') = Some (Any_path doc)"
    "map_option Any_path (case pt ''cis.cis_root'' of Some r \<Rightarrow> Some r | None \<Rightarrow> se_getenv env ''cis_base_dir'') = Some (Any_path root)"
    using dr v3 [of "''doc_root''"] v3 [of "''cis_root''"] by (simp_all add: ini_required_def)
  have admin: "\<exists>u \<in> set (db_users (cs_db (ap_cis app))). user_email u = ''admin@example.com'' \<and> user_pass u = ''1234'' \<and> user_admin u"
    if "os_type (fsc_disk (cs_fs (ap_cis app))) (path_div (working_directory pt ps) (path_div db ''db.sqlite'')) = Ft_not_found"
  proof -
    have "map_of cfg ''admin_credentials'' = Some (Any_credentials \<lparr>uc_email = ''admin@example.com'', uc_pass = ''1234''\<rparr>)"
      using p that app dir by (simp add: at_directory_def)
    then have g: "get_entry as_credentials ''admin_credentials'' cfg = Some \<lparr>uc_email = ''admin@example.com'', uc_pass = ''1234''\<rparr>"
      by (simp add: get_entry_def)
    obtain stored db' s0 where "database_create (se_engine env) stored (Some (''admin@example.com'', ''1234'')) = Inr db'"
      "refresh_projects (se_engine env) (se_clock env) s0 = (Inr (), ap_cis app)" "cs_db s0 = db'"
      using app unfolding g by auto
    then show ?thesis using created_administrator [of "se_engine env" stored] refresh_projects_users by fastforce
  qed
  have "\<not> has_entry ''admin_credentials'' (ap_config app)" using app by (simp add: has_entry_def)
  then show ?thesis using e e2 dr app admin db(1) dir unfolding at_directory_def by auto
qed

section \<open>The directory of the hooks\<close>

lemma prepare_start_directory:
  assumes "prepare_start env cfg ps = Some (act, ec, cfg', ps')"
  shows "ec = 0 \<and> ps_directory ps' = ps_directory ps
    \<and> (if os_type (ps_disk ps) (at_directory ps ''webhooks_temp'') = Ft_not_found
       then \<exists>root e. make_directory env ''webhooks_temp'' (ps\<lparr>ps_root_dir := root\<rparr>) = (e, ps') else ps_disk ps' = ps_disk ps)"
proof -
  obtain root e where root: "get_entry_ec as_path ''cis_root'' 0 cfg = (Some root, e)"
    using assms unfolding prepare_start_def Let_def by (cases "get_entry_ec as_path ''cis_root'' 0 cfg") (auto split: option.splits)
  let ?ps = "ps\<lparr>ps_root_dir := root\<rparr>"
  have dir: "at_directory ?ps n = at_directory ps n" for n by (simp add: at_directory_def)
  show ?thesis
  proof (cases "os_type (ps_disk ps) (at_directory ps ''webhooks_temp'') = Ft_not_found")
    case True
    obtain e p1 where m: "make_directory env ''webhooks_temp'' ?ps = (e, p1)" by (cases "make_directory env ''webhooks_temp'' ?ps")
    have "ec = 0" "ps' = p1"
      using assms root True m
      by (auto simp: prepare_start_def Let_def path_exists_def dir split: option.splits prod.splits)
    then show ?thesis using m True make_directory_keeps [OF m] by auto
  next
    case False
    then have "ec = 0" "ps' = ?ps"
      using assms root by (auto simp: prepare_start_def Let_def path_exists_def dir split: option.splits prod.splits)
    then show ?thesis using False by simp
  qed
qed

lemma parse_prepare:
  assumes "parse_args env args cfg ps = Some (Action_run, ec, cfg', ps')"
  obtains cfg1 ps1 where "prepare_start env cfg1 ps1 = Some (Action_run, ec, cfg', ps')" "ps_disk ps1 = ps_disk ps"
proof -
  consider (one) p where "args = [p]" | (two) p f pt where "args = [p, f]" "f \<noteq> ''--version''" "se_ini env f = Some pt"
    using assms by (auto simp: parse_args_def Let_def split: list.splits if_splits option.splits)
  then show ?thesis
  proof cases
    case one
    obtain r cfg1 where "add_required (default_entries env) cfg = (r, cfg1)" by (cases "add_required (default_entries env) cfg")
    then show ?thesis using that [of cfg1 ps] assms one by (cases r) (auto simp: parse_args_def Let_def)
  next
    case two
    then show ?thesis using parse_file [of env p f cfg ps ec cfg' ps' pt thesis] assms that by blast
  qed
qed


text \<open>
  If the directory for the bodies of hooks cannot be made, the server starts all the same, without it: the error code is
  overwritten when the database is looked for.
\<close>

theorem directory_error_forgotten:
  assumes "parse_args env [p] (initial_config env) ps = Some (Action_run, ec, cfg, ps')" and "se_mkdir env ''webhooks_temp'' \<noteq> 0"
    and "os_type (ps_disk ps) (at_directory ps ''webhooks_temp'') = Ft_not_found"
  shows "ec = 0 \<and> os_type (ps_disk ps') (at_directory ps' ''webhooks_temp'') = Ft_not_found"
proof -
  obtain r cfg1 where a: "add_required (default_entries env) (initial_config env) = (r, cfg1)"
    by (cases "add_required (default_entries env) (initial_config env)")
  then have "prepare_start env cfg1 ps = Some (Action_run, ec, cfg, ps')"
    using assms(1) by (cases r) (auto simp: parse_args_def Let_def)
  from prepare_start_directory [OF this] show ?thesis using assms(2,3) by (auto simp: make_directory_def at_directory_def)
qed

text \<open>
  C38. An instance whose \<^verbatim>\<open>cis.conf\<close> is missing or does not name all programs aborts the server: the exception of the manager
  leaves \<^verbatim>\<open>main\<close>, since only the running of the application is guarded.
\<close>

theorem missing_programs_abort:
  assumes "parse_args env args (initial_config env) ps = Some (Action_run, 0, cfg, ps')" and "start_log env cfg = Started log"
    and "get_entry as_path ''db_root'' cfg = Some db_root"
    and "database_create (se_engine env) (se_stored env (at_directory ps' (path_div db_root ''db.sqlite'')))
      (map_option (\<lambda>c. (uc_email c, uc_pass c)) (get_entry as_credentials ''admin_credentials'' cfg)) = Inr db"
    and "get_entry as_path ''cis_root'' cfg = Some root"
    and "\<not> executables_valid (load_executables
      (open_stream (os_read (ps_disk ps') (at_directory ps' (path_div (path_div root ''core'') ''cis.conf'')))) no_executables)"
  shows "snd (snd (server_main env crashes args ps)) = Aborted"
proof -
  have conf: "configured cfg" using arguments_complete [of env args ps] assms(1) by auto
  let ?cfg = "remove_entry ''admin_credentials'' cfg"
  have "configured ?cfg" using conf by simp
  moreover have "get_entry as_path ''cis_root'' ?cfg = Some root" using assms(5) by (simp add: get_entry_def)
  ultimately have "cis_manager_new env ?cfg ps' db = Terminated"
    using assms(6) by (auto simp: cis_manager_new_def deref_def get_entry_def configured_def Let_def)
  then have "application_create env cfg ps' = Terminated"
    using assms(2-4) by (simp add: application_create_def deref_def Let_def)
  then show ?thesis using assms(1) by (simp add: server_main_def Let_def)
qed

section \<open>Examples\<close>

text \<open>A machine with an instance in \<^verbatim>\<open>/cis\<close>, whose core names all programs, and a configuration file.\<close>

definition newline_separated :: "string list \<Rightarrow> string" where
  "newline_separated ls = concat (map (\<lambda>l. l @ [CHR 0x0A]) ls)"

definition start_disk_example :: fs_obj where
  "start_disk_example = Directory 493
     [(''srv'', Directory 493 []),
      (''cis'', Directory 493 [(''jobs'', Directory 493 []), (''core'', Directory 493 [(''cis.conf'', Regular (newline_separated
         [''startjob=a'', ''setparam=b'', ''getparam=c'', ''setvalue=d'', ''getvalue=e'', ''cis_cron=f'']) 420)])])]"

definition process_example :: process where
  "process_example = \<lparr>ps_directory = ''/srv'', ps_disk = start_disk_example, ps_root_dir = []\<rparr>"

definition ini_example :: "string \<Rightarrow> string option" where
  "ini_example = map_of
     [(''http.host'', ''::1''), (''http.port'', ''80''), (''http.doc_root'', ''www''), (''cis.cis_root'', ''/cis''),
      (''cis.host'', ''::1''), (''cis.port'', ''81''), (''db.db_root'', ''.'')]"

definition start_env_example :: start_env where
  "start_env_example =
     \<lparr>se_version = ''1.0'', se_git = Some (''abc'', True), se_ini = (\<lambda>f. if f = ''config.ini'' then Some ini_example else None),
      se_port = map_of [(''80'', 80), (''81'', 81)], se_size = (\<lambda>_. None), se_bool = (\<lambda>_. None), se_getenv = (\<lambda>_. Some ''/cis''),
      se_mkdir = (\<lambda>_. 0), se_resolve = (\<lambda>_ _. True), se_acceptor = (\<lambda>_ _ _. False), se_engine = reliable_engine,
      se_stored = (\<lambda>_. empty_database), se_clock = 7, se_log_level = (\<lambda>_. None), se_log_ok = (\<lambda>_. True)\<rparr>"

lemma start_example:
  "case server_main start_env_example (\<lambda>_. False) [''srv'', ''config.ini''] process_example of
     (out, Some app, e) \<Rightarrow> True | _ \<Rightarrow> False"
  by code_simp

theorem started_as_configured_witness:
  "\<exists>out app e. server_main start_env_example (\<lambda>_. False) [''srv'', ''config.ini''] process_example = (out, Some app, e)
     \<and> ap_address app = (''::1'', 80) \<and> ap_doc_root app = ''/srv/www'' \<and> ap_cis_root app = ''/cis''"
proof -
  obtain out app e where s: "server_main start_env_example (\<lambda>_. False) [''srv'', ''config.ini''] process_example = (out, Some app, e)"
    using start_example by (auto split: prod.splits option.splits)
  have f: "''config.ini'' \<noteq> ''--version''" "se_ini start_env_example ''config.ini'' = Some ini_example"
    by (simp_all add: start_env_example_def)
  have i: "ini_example ''http.host'' = Some ''::1''" "Option.bind (ini_example ''http.port'') (se_port start_env_example) = Some 80"
    "ini_example ''http.doc_root'' = Some ''www''" "ini_example ''cis.cis_root'' = Some ''/cis''"
    "path_div (working_directory ini_example process_example) ''www'' = ''/srv/www''"
    "path_div (working_directory ini_example process_example) ''/cis'' = ''/cis''" by code_simp+
  from started_as_configured [OF s f] show ?thesis using s i by (auto simp: prod_eq_iff)
qed


lemma parsed_example:
  "\<exists>cfg ps'. parse_args start_env_example [''srv'', ''config.ini''] (initial_config start_env_example) process_example
      = Some (Action_run, 0, cfg, ps') \<and> ps_directory ps' = ''/srv'' \<and> (\<exists>app. application_create start_env_example cfg ps' = Started app)"
proof -
  have "case parse_args start_env_example [''srv'', ''config.ini''] (initial_config start_env_example) process_example of
      Some (Action_run, ec, cfg, ps') \<Rightarrow> ec = 0 \<and> ps_directory ps' = ''/srv''
        \<and> (case application_create start_env_example cfg ps' of Started app \<Rightarrow> True | _ \<Rightarrow> False)
    | _ \<Rightarrow> False" by code_simp
  then show ?thesis by (auto split: option.splits prod.splits action.splits started.splits)
qed


theorem directory_error_forgotten_witness:
  "\<exists>cfg ps'. parse_args (start_env_example\<lparr>se_mkdir := \<lambda>_. 13\<rparr>) [''srv''] (initial_config (start_env_example\<lparr>se_mkdir := \<lambda>_. 13\<rparr>)) process_example
     = Some (Action_run, 0, cfg, ps') \<and> os_type (ps_disk ps') (at_directory ps' ''webhooks_temp'') = Ft_not_found"
proof -
  let ?env = "start_env_example\<lparr>se_mkdir := \<lambda>_. 13\<rparr>"
  have "case parse_args ?env [''srv''] (initial_config ?env) process_example of Some (Action_run, _) \<Rightarrow> True | _ \<Rightarrow> False" by code_simp
  then obtain ec cfg ps' where p: "parse_args ?env [''srv''] (initial_config ?env) process_example = Some (Action_run, ec, cfg, ps')"
    by (auto split: option.splits prod.splits action.splits)
  have "os_type (ps_disk process_example) (at_directory process_example ''webhooks_temp'') = Ft_not_found" by code_simp
  from directory_error_forgotten [OF p _ this] show ?thesis using p by auto
qed

theorem missing_programs_abort_witness:
  "snd (snd (server_main start_env_example (\<lambda>_. False) [''srv''] (process_example\<lparr>ps_disk := Directory 493 []\<rparr>))) = Aborted"
proof -
  let ?ps = "process_example\<lparr>ps_disk := Directory 493 []\<rparr>" and ?env = start_env_example
  have "case parse_args ?env [''srv''] (initial_config ?env) ?ps of Some (Action_run, ec, cfg, ps') \<Rightarrow>
      ec = 0 \<and> get_entry as_path ''db_root'' cfg = Some ''.'' \<and> get_entry as_path ''cis_root'' cfg = Some ''/cis''
      \<and> (case start_log ?env cfg of Started _ \<Rightarrow> True | _ \<Rightarrow> False)
      \<and> (case database_create (se_engine ?env) (se_stored ?env (at_directory ps' (path_div ''.'' ''db.sqlite'')))
           (map_option (\<lambda>c. (uc_email c, uc_pass c)) (get_entry as_credentials ''admin_credentials'' cfg)) of Inr _ \<Rightarrow> True | _ \<Rightarrow> False)
      \<and> \<not> executables_valid (load_executables
        (open_stream (os_read (ps_disk ps') (at_directory ps' (path_div (path_div ''/cis'' ''core'') ''cis.conf'')))) no_executables)
    | _ \<Rightarrow> False" by code_simp
  then obtain cfg ps' log db where p: "parse_args ?env [''srv''] (initial_config ?env) ?ps = Some (Action_run, 0, cfg, ps')"
    "get_entry as_path ''db_root'' cfg = Some ''.''" "get_entry as_path ''cis_root'' cfg = Some ''/cis''" "start_log ?env cfg = Started log"
    "database_create (se_engine ?env) (se_stored ?env (at_directory ps' (path_div ''.'' ''db.sqlite'')))
       (map_option (\<lambda>c. (uc_email c, uc_pass c)) (get_entry as_credentials ''admin_credentials'' cfg)) = Inr db"
    "\<not> executables_valid (load_executables
       (open_stream (os_read (ps_disk ps') (at_directory ps' (path_div (path_div ''/cis'' ''core'') ''cis.conf'')))) no_executables)"
    by (auto split: option.splits prod.splits action.splits started.splits sum.splits)
  show ?thesis by (rule missing_programs_abort [OF p(1,4,2,5,3,6)])
qed

end
