(* ===== verification/Spec2Isabelle.thy ===== *)
theory Spec2Isabelle
    imports Account_Sessions Cis_Sessions Cis_Job Ws_Session Log_Delivery Log_Files Http_Server Child_Process Server_Start
begin

text \<open>
  The web server of the CIS1 continuous integration system (\<^verbatim>\<open>src/\<close> and \<^verbatim>\<open>include/\<close> of the repository): a single
  process on one \<^verbatim>\<open>io_context\<close> that serves documents, uploads, downloads and web hooks over HTTP, a protocol of messages over
  web sockets, and a connection to the core that runs jobs. It keeps accounts and rights in a database, a cache of the directory of
  projects, and the logs of running sessions in memory. The theories follow these parts; each opens with what it models and proves.

  \<^bold>\<open>Conventions.\<close> A class with state is a record, and its member functions take and return it; a function that sets a
  \<^verbatim>\<open>std::error_code\<close> or throws returns a sum, with the error on the left, or an option. Callbacks that the event loop calls are events:
  a function delivers one event, and a history delivers a list of them, so that a statement about a history is one about every order
  in which reads, writes, timers and processes complete. A mutable structure that is shared (the cache of directories) is a tree with
  paths into it. Machine integers are words of their width. Strings are lists of characters, and paths are strings, as
  \<^verbatim>\<open>std::filesystem::path\<close> on POSIX. What the source takes from libraries (the SQL engine, the HTTP parser, the keyed hash, random
  numbers, clocks, the reader of configuration files) is an argument of the definitions: a field of the records \<open>engine\<close>,
  \<open>account_env\<close>, \<open>cis_env\<close>, \<open>http_env\<close> and \<open>start_env\<close>, or an event. Standard classes that the source relies on are modelled:
  regular expressions (\<open>Std_Regex\<close>), streams and number parsing (\<open>Std_Text\<close>), paths (\<open>Path_Utils\<close>) and the file system (\<open>Fs_Disk\<close>).

  \<^bold>\<open>Data and accounts.\<close> \<open>Cis_Prelude\<close> has the shared types and the maps with ordered keys. \<open>Database\<close>
  (\<^verbatim>\<open>database.cpp\<close>): rows, schema and transactions; the schema is an invariant. \<open>Auth_Manager\<close> and \<open>Rights_Manager\<close>
  (\<^verbatim>\<open>auth_manager.cpp\<close>, \<^verbatim>\<open>rights_manager.cpp\<close>): tokens, keys, rights; \<open>Base64_Codec\<close> (\<^verbatim>\<open>base64.cpp\<close>). \<open>Path_Utils\<close> checks paths.
  \<open>Ws_Requests\<close> and \<open>Ws_Replies\<close> are the messages of \<^verbatim>\<open>websocket/dto/\<close>, \<open>Request_Context\<close> the context of a client, and \<open>Account_Handlers\<close>
  the handlers of accounts in \<^verbatim>\<open>websocket/handlers/\<close>. \<open>Account_Sessions\<close> puts them together: any clients, any requests, and
  the clean-up; a client that is not an administrator changes nothing but what is its own.

  \<^bold>\<open>Projects, jobs and files.\<close> \<open>Fs_Cache\<close> (\<^verbatim>\<open>fs_cache.cpp\<close>) on \<open>Fs_Disk\<close>; \<open>Fs_Cache_Facts\<close> and \<open>Fs_Cache_Correct\<close> prove that a
  search finds what is on the disk, and show where it does not. \<open>Cis_Structs\<close> (\<^verbatim>\<open>cis_structs.cpp\<close>): projects, jobs, builds and their
  files. \<open>Cis_Manager\<close> (\<^verbatim>\<open>cis_manager.cpp\<close>): the projects of the database and of the disk, the programs of the core.
  \<open>Cis_Handlers\<close>: the handlers. \<open>Cis_Reads\<close> is the interface of everything that only reads, and \<open>Cis_Sessions\<close> proves with it that
  nothing is changed without the right for it. \<open>Cis_Job\<close> (\<^verbatim>\<open>cis_job.cpp\<close>): a job and its output. \<open>Task_Chain\<close>
  (\<^verbatim>\<open>bound_task_chain.h\<close>): the chains in which the handlers run jobs and programs refine sequential programs, and send the replies
  that \<open>Cis_Handlers\<close> says they send. \<open>Child_Process\<close> (\<^verbatim>\<open>child_process.h\<close>): the pipes.

  \<^bold>\<open>Web sockets and logs.\<close> \<open>Ws_Session\<close> (\<^verbatim>\<open>net/websocket_queue.cpp\<close>, \<^verbatim>\<open>net/queued_websocket_session.cpp\<close>,
  \<^verbatim>\<open>net/basic_websocket_session.cpp\<close>): order and loss of messages, silent peers. \<open>Log_Sessions\<close> and \<open>Log_Delivery\<close> (\<^verbatim>\<open>cis/session.cpp\<close>,
  \<^verbatim>\<open>cis/session_manager.cpp\<close>): a subscriber gets the log, whatever clients and core do. \<open>Log_Files\<close>
  (\<^verbatim>\<open>cis/offline_session.cpp\<close>): logs read from files.

  \<^bold>\<open>HTTP.\<close> \<open>Http_Session\<close> (\<^verbatim>\<open>net/http_session.cpp\<close>): the connection, its parsers and its queue, over an application that is an argument.
  \<open>Http_Answers\<close> is the interface of that application, with what a connection guarantees for it. \<open>Http_Text\<close>
  (\<^verbatim>\<open>http/request_util.cpp\<close>) and \<open>Http_Messages\<close> (\<^verbatim>\<open>http/response.cpp\<close>, \<^verbatim>\<open>http/error_handler.cpp\<close>, \<^verbatim>\<open>http/cookie_parser.cpp\<close>,
  \<^verbatim>\<open>http/common_handlers.cpp\<close>) are what the handlers share. \<open>Http_Files\<close> (\<^verbatim>\<open>http/file_handler.cpp\<close>, \<^verbatim>\<open>http/download_handler.cpp\<close>),
  \<open>Http_Uploads\<close> (\<^verbatim>\<open>http/multipart_form_handler.cpp\<close>) and \<open>Webhooks\<close> (\<^verbatim>\<open>http/webhooks_handler.cpp\<close>) are the handlers. Uploads read their
  body with \<open>Kmp_Searcher\<close>, \<open>Multipart_Parser\<close> and \<open>Form_Body\<close> (\<^verbatim>\<open>beast_ext/\<close>); \<open>Form_Feed\<close> proves that reading is a function of the
  characters and not of the pieces in which they arrive, \<open>Form_Upload\<close>, \<open>Form_Roundtrip\<close> and \<open>Form_Files\<close> that a form that was
  written is read back and stored. \<open>Http_Router\<close> (\<^verbatim>\<open>http/url/url_parse.h\<close>, \<^verbatim>\<open>http/router.h\<close>, \<^verbatim>\<open>http/handlers_chain.cpp\<close>, the routes
  in \<^verbatim>\<open>application.cpp\<close>) compares the table of expressions with a parser. \<open>Http_Server\<close> interprets the interface on all
  of this, and states for the whole server that every request is answered, that the queue is bounded, and that bodies are only read
  for those who may send them.

  \<^bold>\<open>Start.\<close> \<open>Listener\<close> (\<^verbatim>\<open>net/listener.cpp\<close>) and \<open>Server_Start\<close> (\<^verbatim>\<open>main.cpp\<close>, \<^verbatim>\<open>init.cpp\<close>, \<^verbatim>\<open>configuration_manager.h\<close>,
  \<^verbatim>\<open>application.cpp\<close>): from the arguments to an application with its manager, its directories and the directory that hooks rely on.

  \<^bold>\<open>Interfaces.\<close> \<open>account_store\<close> (what the operations on accounts keep; interpreted on the invariant of the database), \<open>cache_reads\<close>
  (what reading keeps; interpreted for an unchanged disk, and for a cache that agrees with it), \<open>http_application\<close> (how a handler of
  requests behaves; interpreted on the handlers of the server) and \<open>asked_program\<close> (a program that is run for a reply; interpreted
  on the tasks of cron).

  \<^bold>\<open>Loops.\<close> No definition has fuel. Loops that may run forever are partial functions to an option, where \<open>None\<close> is a loop that does not
  end: drawing tokens and names of files until one is free, reading \<^verbatim>\<open>job.conf\<close>, searching texts, and the loops over cookies and queries;
  where they end, this is proved (\<open>load_job_conf_returns\<close>, \<open>search_finds_longest\<close>, \<open>request_text_parsers_return\<close>). Other loops are
  structural or have a measure. Histories of events are lists of any length.

  \<^bold>\<open>Where the code is not right,\<close> the theorems say what it does: a hook with a wrong signature runs its job, a pipelined request
  replaces a parser that is in use, a chain of tasks forgets its handler of errors, a list of entries is lost if the process is
  reaped first, and so on. These are theorems about the model like all others.

  \<^bold>\<open>Not modelled:\<close> the writing of log records, the wrappers of OpenSSL and of the random generator, the library of cron expressions
  and the parser of configuration files (calls of libraries, which are arguments); \<^verbatim>\<open>sink_body.h\<close>, \<^verbatim>\<open>immutable_container_proxy.h\<close>,
  \<^verbatim>\<open>optional_type_ext.h\<close> and \<^verbatim>\<open>transaction_handle.h\<close> (forwarding without behaviour of its own); the exception classes (texts); the
  library of the protocol, with the TCP server of the core, whose source is not in the repository. There are no symbolic links in
  the file system, and no operation fails for lack of space or permissions, unless an argument says so. Objects are assumed to live as long
  as the callbacks that hold them; lifetimes are not modelled.
\<close>

end
